(* ===== verification/Prelude.thy ===== *)
theory Prelude
  imports Main "HOL-Library.Word" "HOL-Library.Monad_Syntax"
begin

text \<open>
  Shared vocabulary of the development.

  \<^item> The machine integers of the firmware (\<open>uint8_t\<close>, \<open>uint16_t\<close>, \<open>uint32_t\<close>) are words of that
    width; the \<open>int\<close> of the host program is HOL's \<open>int\<close>, and a property of the game bounds it.
  \<^item> A C function that may fail to return normally (undefined behaviour, or a loop that never ends)
    is a function into \<open>option\<close>: \<open>None\<close> means that no normal return happens. The programs are
    written with the \<open>do\<close> notation of \<open>HOL-Library.Monad_Syntax\<close> and explicit state passing.
\<close>

unbundle bit_operations_syntax

type_synonym u8 = "8 word"
type_synonym u16 = "16 word"
type_synonym u32 = "32 word"

named_theorems heap_simps \<open>facts on the cells of the snake heap\<close>
named_theorems io_simps \<open>unfolding rules of register reads and writes\<close>
named_theorems touch \<open>introduction rules for the registers a program may write\<close>

section \<open>Options as possibly missing returns\<close>

definition guard :: "bool \<Rightarrow> unit option" where
  "guard b = (if b then Some () else None)"

lemma guard_Some [simp]: "(guard b = Some u) = b"
  by (simp add: guard_def)

lemma guard_True [simp]: "guard True = Some ()"
  by (simp add: guard_def)

lemma guard_False [simp]: "guard False = None"
  by (simp add: guard_def)

section \<open>Loops\<close>

text \<open>
  The loop \<open>for (;;) { ... }\<close>: the body either leaves the loop with a result or goes round again. It
  is \<open>None\<close> when some round does not return or when no round leaves the loop.
\<close>

partial_function (option) poll_loop :: "('s \<Rightarrow> ('r option \<times> 's) option) \<Rightarrow> 's \<Rightarrow> ('r \<times> 's) option" where
  "poll_loop body s = do {
     (r, s) \<leftarrow> body s;
     case r of Some x \<Rightarrow> Some (x, s) | None \<Rightarrow> poll_loop body s }"

declare poll_loop.simps [code]

lemma poll_loop_rule:
  fixes body :: "'s \<Rightarrow> ('r option \<times> 's) option"
  assumes "poll_loop body s = Some (x, s')" "I s"
    and "\<And>s t. I s \<Longrightarrow> body s = Some (None, t) \<Longrightarrow> I t"
    and "\<And>s x t. I s \<Longrightarrow> body s = Some (Some x, t) \<Longrightarrow> Q x t"
  shows "Q x s'"
proof -
  have "(\<forall>s t. I s \<and> body s = Some (None, t) \<longrightarrow> I t) \<longrightarrow>
      (\<forall>s x t. I s \<and> body s = Some (Some x, t) \<longrightarrow> Q x t) \<longrightarrow> I s \<longrightarrow> Q (fst y) (snd y)"
    if "poll_loop body s = Some y" for y
  proof (rule poll_loop.raw_induct [OF _ that, of "\<lambda>body s y. (\<forall>s t. I s \<and> body s = Some (None, t) \<longrightarrow> I t) \<longrightarrow>
      (\<forall>s x t. I s \<and> body s = Some (Some x, t) \<longrightarrow> Q x t) \<longrightarrow> I s \<longrightarrow> Q (fst y) (snd y)"], intro impI)
    fix loop and body :: "'s \<Rightarrow> ('r option \<times> 's) option" and s and y :: "'r \<times> 's"
    assume IH: "\<And>body s y. loop body s = Some y \<Longrightarrow> (\<forall>s t. I s \<and> body s = Some (None, t) \<longrightarrow> I t) \<longrightarrow>
        (\<forall>s x t. I s \<and> body s = Some (Some x, t) \<longrightarrow> Q x t) \<longrightarrow> I s \<longrightarrow> Q (fst y) (snd y)"
      and step: "(do { (r, s) \<leftarrow> body s; case r of Some x \<Rightarrow> Some (x, s) | None \<Rightarrow> loop body s }) = Some y"
      and 1: "\<forall>s t. I s \<and> body s = Some (None, t) \<longrightarrow> I t"
      and 2: "\<forall>s x t. I s \<and> body s = Some (Some x, t) \<longrightarrow> Q x t" and "I s"
    from step obtain r t where b: "body s = Some (r, t)" by (auto simp: bind_eq_Some_conv)
    show "Q (fst y) (snd y)"
    proof (cases r)
      case None
      with b step have "loop body t = Some y" by simp
      moreover have "I t" using 1 \<open>I s\<close> b None by blast
      ultimately show ?thesis using IH 1 2 by blast
    next
      case (Some x)
      with b step have "y = (x, t)" by simp
      moreover have "Q x t" using 2 \<open>I s\<close> b Some by blast
      ultimately show ?thesis by simp
    qed
  qed
  from this [OF assms(1)]
  have "(\<forall>s t. I s \<and> body s = Some (None, t) \<longrightarrow> I t) \<Longrightarrow>
      (\<forall>s x t. I s \<and> body s = Some (Some x, t) \<longrightarrow> Q x t) \<Longrightarrow> Q x s'" using assms(2) by simp
  moreover have "\<forall>s t. I s \<and> body s = Some (None, t) \<longrightarrow> I t" using assms(3) by blast
  moreover have "\<forall>s x t. I s \<and> body s = Some (Some x, t) \<longrightarrow> Q x t" using assms(4) by blast
  ultimately show ?thesis by blast
qed

lemma poll_loop_total:
  fixes m :: "'s \<Rightarrow> nat"
  assumes "I s"
    and "\<And>s. I s \<Longrightarrow> \<exists>r t. body s = Some (r, t) \<and> (r = None \<longrightarrow> I t \<and> m t < m s)"
  shows "\<exists>x s'. poll_loop body s = Some (x, s')"
  using assms(1)
proof (induction "m s" arbitrary: s rule: less_induct)
  case less
  from assms(2) [OF less.prems] obtain r t where b: "body s = Some (r, t)" "r = None \<longrightarrow> I t \<and> m t < m s" by blast
  show ?case
  proof (cases r)
    case None
    with less.hyps [of t] b show ?thesis by (subst poll_loop.simps) auto
  next
    case (Some x)
    with b show ?thesis by (subst poll_loop.simps) auto
  qed
qed

lemma poll_stop: "body s = Some (Some x, t) \<Longrightarrow> poll_loop body s = Some (x, t)"
  by (subst poll_loop.simps) simp

lemma poll_again: "body s = Some (None, t) \<Longrightarrow> poll_loop body s = poll_loop body t"
  by (subst poll_loop.simps) simp

section \<open>Lists\<close>

lemma tl_snoc: "xs \<noteq> [] \<Longrightarrow> tl (xs @ [x]) = tl xs @ [x]"
  by (cases xs) auto

lemma set_tl_subset: "set (tl xs) \<subseteq> set xs"
  by (cases xs) auto

section \<open>Bits of bytes\<close>

text \<open>\<open>bv n\<close> is the C expression \<open>(1 << n)\<close> at the width of the context.\<close>

definition bv :: "nat \<Rightarrow> 'a::len word" where
  "bv n = push_bit n 1"

lemma bit_bv: "bit (bv n :: 'a::len word) k \<longleftrightarrow> k = n \<and> n < LENGTH('a)"
  by (auto simp: bv_def bit_exp_iff)

text \<open>\<open>tst v n\<close> is \<open>(v & (1 << n))\<close> read as a truth value.\<close>

definition tst :: "u8 \<Rightarrow> nat \<Rightarrow> bool" where
  "tst v n \<longleftrightarrow> v AND bv n \<noteq> 0"

lemma tst_bit: "tst v n \<longleftrightarrow> bit v n"
proof
  assume "tst v n"
  then obtain k where "bit (v AND bv n) k"
    unfolding tst_def by (auto simp: bit_eq_iff)
  then show "bit v n" by (auto simp: bit_and_iff bit_bv)
next
  assume b: "bit v n"
  then have "n < 8" using bit_imp_le_length [OF b] by simp
  with b have "bit (v AND bv n) n" by (simp add: bit_and_iff bit_bv)
  then show "tst v n" unfolding tst_def by (metis bit_0_eq bot_apply bot_bool_def)
qed

section \<open>Words and their bytes\<close>

text \<open>A 16- or 32-bit value in the memory of the little-endian AVR, lowest byte first.\<close>

definition word16 :: "u8 \<Rightarrow> u8 \<Rightarrow> u16" where
  "word16 b0 b1 = ucast b0 OR push_bit 8 (ucast b1)"

definition word32 :: "u8 \<Rightarrow> u8 \<Rightarrow> u8 \<Rightarrow> u8 \<Rightarrow> u32" where
  "word32 b0 b1 b2 b3 = ucast b0 OR push_bit 8 (ucast b1) OR push_bit 16 (ucast b2) OR push_bit 24 (ucast b3)"

definition bytes16 :: "u16 \<Rightarrow> u8 list" where
  "bytes16 d = [ucast d, ucast (drop_bit 8 d)]"

definition bytes32 :: "u32 \<Rightarrow> u8 list" where
  "bytes32 d = [ucast d, ucast (drop_bit 8 d), ucast (drop_bit 16 d), ucast (drop_bit 24 d)]"

lemma word16_bytes [simp]: "word16 (ucast d) (ucast (drop_bit 8 d)) = d"
  by (rule bit_word_eqI) (auto simp: word16_def bit_simps)

lemma word32_bytes [simp]:
  "word32 (ucast d) (ucast (drop_bit 8 d)) (ucast (drop_bit 16 d)) (ucast (drop_bit 24 d)) = d"
proof (rule bit_word_eqI)
  fix n :: nat
  have "24 + (n - 24) = n" if "24 \<le> n" using that by simp
  moreover have "16 + (n - 16) = n" if "16 \<le> n" using that by simp
  moreover assume "n < LENGTH(32)"
  ultimately show "bit (word32 (ucast d) (ucast (drop_bit 8 d)) (ucast (drop_bit 16 d)) (ucast (drop_bit 24 d))) n = bit d n"
    by (cases "24 \<le> n"; cases "16 \<le> n") (auto simp: word32_def bit_simps)
qed

lemma bytes16_word16 [simp]: "bytes16 (word16 a b) = [a, b]"
proof -
  have "ucast (word16 a b) = a" by (rule bit_word_eqI) (auto simp: word16_def bit_simps)
  moreover have "ucast (drop_bit 8 (word16 a b)) = b"
    by (rule bit_word_eqI) (auto simp: word16_def bit_simps dest: bit_imp_le_length)
  ultimately show ?thesis by (simp add: bytes16_def)
qed

lemma bytes32_word32 [simp]: "bytes32 (word32 a b c d) = [a, b, c, d]"
proof -
  have "ucast (word32 a b c d) = a" by (rule bit_word_eqI) (auto simp: word32_def bit_simps)
  moreover have "ucast (drop_bit 8 (word32 a b c d)) = b"
    by (rule bit_word_eqI) (auto simp: word32_def bit_simps dest: bit_imp_le_length)
  moreover have "ucast (drop_bit 16 (word32 a b c d)) = c"
    by (rule bit_word_eqI) (auto simp: word32_def bit_simps dest: bit_imp_le_length)
  moreover have "ucast (drop_bit 24 (word32 a b c d)) = d"
    by (rule bit_word_eqI) (auto simp: word32_def bit_simps dest: bit_imp_le_length)
  ultimately show ?thesis by (simp add: bytes32_def)
qed

lemma unat_ucast_16: "unat (ucast (v :: u8) :: u16) = unat v"
proof -
  have "unat v < 2 ^ LENGTH(8)" by (rule unsigned_less)
  then show ?thesis by (simp add: unsigned_ucast_eq take_bit_nat_eq_self)
qed

lemma unat_plus_one: "x < (y :: 'a::len word) \<Longrightarrow> unat (x + 1) = unat x + 1"
proof -
  assume "x < y"
  moreover have "unat y < 2 ^ LENGTH('a)" by (rule unsigned_less)
  ultimately have "unat x + 1 < 2 ^ LENGTH('a)" unfolding word_less_nat_alt by linarith
  then show ?thesis by (simp add: unat_word_ariths)
qed

lemma unat_sub_one: "x \<noteq> (0 :: 'a::len word) \<Longrightarrow> unat (x - 1) = unat x - 1"
  by (simp add: unat_minus_one)

lemma length_bytes16 [simp]: "length (bytes16 d) = 2"
  by (simp add: bytes16_def)

lemma length_bytes32 [simp]: "length (bytes32 d) = 4"
  by (simp add: bytes32_def)

section \<open>Character streams of the C library\<close>

text \<open>\<open>_FDEV_ERR\<close> and \<open>_FDEV_EOF\<close>, the results of character functions\<close>

definition FDEV_ERR :: int where "FDEV_ERR = - 1"
definition FDEV_EOF :: int where "FDEV_EOF = - 2"

text \<open>
  A \<open>FILE\<close> set up with \<open>FDEV_SETUP_STREAM\<close> holds the functions that put and get a character. The files of a
  program are the one of the serial driver and those of the application; two of them are standard input and output.
\<close>

datatype file_ref = USARTSerialStream | Stream_of nat

record 's FILE =
  fdev_put :: "u8 \<Rightarrow> 's \<Rightarrow> (int \<times> 's) option"
  fdev_get :: "'s \<Rightarrow> (int \<times> 's) option"

record 's stdio =
  files :: "file_ref \<Rightarrow> 's FILE"
  stdin :: file_ref
  stdout :: file_ref

definition set_file :: "file_ref \<Rightarrow> 's FILE \<Rightarrow> 's stdio \<Rightarrow> 's stdio" where
  "set_file r f io = io\<lparr>files := (files io)(r := f)\<rparr>"

end
