(* ===== verification/Snake_Data.thy ===== *)
theory Snake_Data
  imports Prelude
begin

text \<open>
  The data of the game, \<open>src/SimpleSnake/game.c\<close> lines 8 to 70: the constants, the structures
  \<open>Bonus\<close>, \<open>Pos\<close> and \<open>Cell\<close>, and the global variables. A C \<open>int\<close> is an \<open>int\<close>, a pointer to a
  cell is a natural number with 0 for \<open>NULL\<close>.

  Fields of \<open>Pos\<close>: the source keeps the row of the terminal in \<open>x\<close> and the column in \<open>y\<close>, while
  a \<open>Bonus\<close> keeps the column in \<open>pos_x\<close> and the row in \<open>pos_y\<close>.
\<close>

section \<open>Constants\<close>

abbreviation UP :: int where "UP \<equiv> 1"
abbreviation DOWN :: int where "DOWN \<equiv> 2"
abbreviation RIGHT :: int where "RIGHT \<equiv> 3"
abbreviation LEFT :: int where "LEFT \<equiv> 4"

abbreviation LOW :: int where "LOW \<equiv> 120"
abbreviation NORMAL :: int where "NORMAL \<equiv> 80"
abbreviation FAST :: int where "FAST \<equiv> 50"
abbreviation INSANE :: int where "INSANE \<equiv> 5"

abbreviation USBKEY_LEFT :: int where "USBKEY_LEFT \<equiv> 48"
abbreviation USBKEY_RIGHT :: int where "USBKEY_RIGHT \<equiv> 34"
abbreviation USBKEY_UP :: int where "USBKEY_UP \<equiv> 36"
abbreviation USBKEY_DOWN :: int where "USBKEY_DOWN \<equiv> 40"
abbreviation USBKEY_FCT :: int where "USBKEY_FCT \<equiv> 33"

abbreviation MAX_BONUS :: nat where "MAX_BONUS \<equiv> 100"

section \<open>Structures\<close>

record bonus =
  pos_x :: int
  pos_y :: int
  activ :: int

record pos =
  px :: int
  py :: int
  pdir :: int

record cell =
  cpos :: pos
  cnext :: nat

section \<open>Global variables\<close>

record globals =
  snake_end :: cell
  snake_end_b :: cell
  max_bonus :: int
  spawning_rate :: int
  score :: int
  score_b :: int
  nb_bonus :: int
  max_x :: int
  max_y :: int
  bonus_list :: "bonus list"
  dir :: int
  dir_b :: int

definition zero_pos :: pos where
  "zero_pos = \<lparr>px = 0, py = 0, pdir = 0\<rparr>"

definition zero_cell :: cell where
  "zero_cell = \<lparr>cpos = zero_pos, cnext = 0\<rparr>"

text \<open>Globals without an initialiser start as zero; \<open>score\<close>, \<open>nb_bonus\<close> and \<open>dir\<close> have one.\<close>

definition globals0 :: globals where
  "globals0 = \<lparr>snake_end = zero_cell, snake_end_b = zero_cell, max_bonus = 0, spawning_rate = 0,
     score = 0, score_b = 0, nb_bonus = 0, max_x = 0, max_y = 0,
     bonus_list = replicate MAX_BONUS \<lparr>pos_x = 0, pos_y = 0, activ = 0\<rparr>,
     dir = RIGHT, dir_b = RIGHT\<rparr>"

definition snake_shape :: string where
  "snake_shape = ''o''"

definition title :: string where
  "title = ''Simple Snake v3.0''"

end
