(* ===== verification/Snake_Heap.thy ===== *)
theory Snake_Heap
  imports Snake_Data
begin

text \<open>
  The linked list of snake cells of \<open>src/SimpleSnake/game.c\<close>: \<open>malloc\<close>, \<open>free\<close> and field accesses on
  a heap of cells, the list operations \<open>head_add\<close>, \<open>head_del\<close>, \<open>tail_add\<close>, \<open>get_tail\<close>, and the loops
  of \<open>crash_check\<close>, \<open>crash_snake_check\<close> and \<open>snake_disp\<close> over it.

  The list grows at both ends: the first cell of the C list is the tip of the snake's tail, the
  last cell is its head. An access through \<open>NULL\<close> or through an address that is not allocated, and
  a walk over a cyclic list, give \<open>None\<close>.
\<close>

section \<open>The memory\<close>

text \<open>
  \<open>cells\<close> are the allocated cells, \<open>brk\<close> an address above all of them, \<open>junk\<close> the contents of
  memory fresh from \<open>malloc\<close>, and \<open>room\<close> the number of cells that can still be allocated: with
  none left, \<open>malloc\<close> returns \<open>NULL\<close>.
\<close>

record heap =
  cells :: "nat \<rightharpoonup> cell"
  brk :: nat
  junk :: cell
  room :: nat

definition malloc :: "heap \<Rightarrow> nat \<times> heap" where
  "malloc h = (if room h = 0 then (0, h)
     else (brk h, h\<lparr>cells := (cells h)(brk h \<mapsto> junk h), brk := Suc (brk h), room := room h - 1\<rparr>))"

definition deref :: "nat \<Rightarrow> heap \<Rightarrow> cell option" where
  "deref p h = (if p = 0 then None else cells h p)"

definition free :: "nat \<Rightarrow> heap \<Rightarrow> heap option" where
  "free p h = (if p = 0 then Some h
     else case cells h p of None \<Rightarrow> None
       | Some _ \<Rightarrow> Some (h\<lparr>cells := (cells h)(p := None), room := Suc (room h)\<rparr>))"

definition set_pos :: "nat \<Rightarrow> pos \<Rightarrow> heap \<Rightarrow> heap option" where
  "set_pos p v h = do { c \<leftarrow> deref p h; Some (h\<lparr>cells := (cells h)(p \<mapsto> c\<lparr>cpos := v\<rparr>)\<rparr>) }"

definition set_next :: "nat \<Rightarrow> nat \<Rightarrow> heap \<Rightarrow> heap option" where
  "set_next p n h = do { c \<leftarrow> deref p h; Some (h\<lparr>cells := (cells h)(p \<mapsto> c\<lparr>cnext := n\<rparr>)\<rparr>) }"

section \<open>List operations\<close>

text \<open>
  The parameter \<open>Snake* snake\<close> is passed as the value \<open>*snake\<close> and returned updated.
\<close>

definition head_add :: "nat \<Rightarrow> pos \<Rightarrow> heap \<Rightarrow> (nat \<times> heap) option" where
  "head_add snake ps h = do {
     let temp = snake;
     let (snake, h) = malloc h;
     h \<leftarrow> set_pos snake ps h;
     h \<leftarrow> set_next snake temp h;
     Some (snake, h) }"

definition head_del :: "nat \<Rightarrow> heap \<Rightarrow> (nat \<times> heap) option" where
  "head_del snake h = do {
     c \<leftarrow> deref snake h;
     let temp = cnext c;
     h \<leftarrow> free snake h;
     Some (temp, h) }"

text \<open>The loop \<open>while ((*temp).next != NULL) temp = (*temp).next\<close>.\<close>

partial_function (option) walk_last :: "heap \<Rightarrow> nat \<Rightarrow> nat option" where
  "walk_last h temp = do {
     c \<leftarrow> deref temp h;
     if cnext c \<noteq> 0 then walk_last h (cnext c) else Some temp }"

definition set_snake_end :: "int \<Rightarrow> cell \<Rightarrow> globals \<Rightarrow> globals" where
  "set_snake_end i c g = (if i = 1 then g\<lparr>snake_end := c\<rparr>
     else if i = 2 then g\<lparr>snake_end_b := c\<rparr> else g)"

text \<open>The part of \<open>tail_add\<close> that works on the list, and the whole function.\<close>

definition tail_link :: "nat \<Rightarrow> pos \<Rightarrow> heap \<Rightarrow> heap option" where
  "tail_link snake ps h = do {
     temp \<leftarrow> walk_last h snake;
     let (new, h) = malloc h;
     h \<leftarrow> set_next temp new h;
     h \<leftarrow> set_pos new ps h;
     h \<leftarrow> set_next new 0 h;
     Some h }"

definition tail_add :: "nat \<Rightarrow> pos \<Rightarrow> int \<Rightarrow> heap \<Rightarrow> globals \<Rightarrow> (heap \<times> globals) option" where
  "tail_add snake ps i h g = do {
     h \<leftarrow> tail_link snake ps h;
     Some (h, set_snake_end i \<lparr>cpos = ps, cnext = 0\<rparr> g) }"

definition get_tail :: "nat \<Rightarrow> heap \<Rightarrow> cell option" where
  "get_tail snake h = do { temp \<leftarrow> walk_last h snake; deref temp h }"

section \<open>Loops over the cells\<close>

text \<open>The inner loop of \<open>crash_check\<close>: is \<open>(pos_x, pos_y)\<close> the position of a cell from \<open>temp2\<close> on?\<close>

partial_function (option) crash_inner :: "heap \<Rightarrow> int \<Rightarrow> int \<Rightarrow> nat \<Rightarrow> bool option" where
  "crash_inner h x y temp2 =
     (if temp2 = 0 then Some False
      else do {
        c \<leftarrow> deref temp2 h;
        if x = px (cpos c) \<and> y = py (cpos c) then Some True
        else crash_inner h x y (cnext c) })"

partial_function (option) crash_outer :: "heap \<Rightarrow> nat \<Rightarrow> int option" where
  "crash_outer h temp =
     (if temp = 0 then Some 0
      else do {
        c \<leftarrow> deref temp h;
        hit \<leftarrow> crash_inner h (px (cpos c)) (py (cpos c)) (cnext c);
        if hit then Some 1 else crash_outer h (cnext c) })"

definition crash_check :: "nat \<Rightarrow> heap \<Rightarrow> int option" where
  "crash_check snake h = crash_outer h snake"

definition crash_snake_check :: "nat \<Rightarrow> int \<Rightarrow> heap \<Rightarrow> globals \<Rightarrow> int option" where
  "crash_snake_check snake i h g = do {
     e \<leftarrow> (if i = 1 then Some (snake_end g) else if i = 2 then Some (snake_end_b g) else None);
     hit \<leftarrow> crash_inner h (px (cpos e)) (py (cpos e)) snake;
     Some (if hit then 1 else 0) }"

text \<open>\<open>snake_disp\<close> prints \<open>snake_shape\<close> at every cell, from the tail on.\<close>

partial_function (option) snake_disp :: "heap \<Rightarrow> nat \<Rightarrow> (int \<times> int \<times> string) list option" where
  "snake_disp h temp =
     (if temp = 0 then Some []
      else do {
        c \<leftarrow> deref temp h;
        rest \<leftarrow> snake_disp h (cnext c);
        Some ((px (cpos c), py (cpos c), snake_shape) # rest) })"

section \<open>Chains of cells\<close>

text \<open>
  \<open>chain m p A cs\<close>: from \<open>p\<close> the memory \<open>m\<close> holds a \<open>NULL\<close>-terminated list whose cells are at the
  addresses \<open>A\<close> and carry the positions \<open>cs\<close>.
\<close>

fun chain :: "(nat \<rightharpoonup> cell) \<Rightarrow> nat \<Rightarrow> nat list \<Rightarrow> pos list \<Rightarrow> bool" where
  "chain m p [] [] \<longleftrightarrow> p = 0"
| "chain m p (a # A) (c # cs) \<longleftrightarrow>
     p = a \<and> a \<noteq> 0 \<and> (\<exists>n. m a = Some \<lparr>cpos = c, cnext = n\<rparr> \<and> chain m n A cs)"
| "chain m p _ _ \<longleftrightarrow> False"

definition xy :: "pos \<Rightarrow> int \<times> int" where
  "xy c = (px c, py c)"

text \<open>A heap is well formed when every allocated address lies strictly between 0 and \<open>brk\<close>.\<close>

definition heap_ok :: "heap \<Rightarrow> bool" where
  "heap_ok h \<longleftrightarrow> 0 < brk h \<and> dom (cells h) \<subseteq> {0<..<brk h}"

lemma chain_length: "chain m p A cs \<Longrightarrow> length A = length cs"
  by (induction m p A cs rule: chain.induct) auto

lemma chain_0 [simp]: "chain m 0 A cs \<longleftrightarrow> A = [] \<and> cs = []"
  by (cases A; cases cs) auto

lemma chain_Nil [simp]: "chain m p A [] \<longleftrightarrow> A = [] \<and> p = 0"
  by (cases A) auto

lemma chain_NilA [simp]: "chain m p [] cs \<longleftrightarrow> cs = [] \<and> p = 0"
  by (cases cs) auto

lemma chain_dom: "chain m p A cs \<Longrightarrow> set A \<subseteq> dom m"
  by (induction m p A cs rule: chain.induct) auto

lemma chain_upd [heap_simps]: "a \<notin> set A \<Longrightarrow> chain (m(a := v)) p A cs = chain m p A cs"
  by (induction m p A cs rule: chain.induct) auto

lemma chain_unique: "chain m p A cs \<Longrightarrow> chain m p B ds \<Longrightarrow> A = B \<and> cs = ds"
proof (induction m p A cs arbitrary: B ds rule: chain.induct)
  case (2 m p a A c cs)
  then obtain b B' d ds' where "B = b # B'" "ds = d # ds'"
    by (cases B; cases ds) auto
  with 2 show ?case by auto
qed auto

lemma chain_ConsE:
  assumes "chain m p (a # A) cs"
  obtains c ds n where "p = a" "a \<noteq> 0" "cs = c # ds" "m a = Some \<lparr>cpos = c, cnext = n\<rparr>" "chain m n A ds"
  using assms by (cases cs) auto

lemma chain_mid: "chain m p (A @ a # A') cs \<Longrightarrow> \<exists>ds. chain m a (a # A') ds"
proof (induction A arbitrary: p cs)
  case Nil
  then have ch: "chain m p (a # A') cs" by simp
  then have "p = a" by (rule chain_ConsE)
  with ch show ?case by blast
next
  case (Cons b A)
  from Cons.prems show ?case by (auto elim!: chain_ConsE intro: Cons.IH)
qed

lemma chain_notin_tl: "chain m p (a # A) cs \<Longrightarrow> a \<notin> set A"
proof
  assume ch: "chain m p (a # A) cs" and "a \<in> set A"
  then obtain A1 A2 where "A = A1 @ a # A2" by (auto simp: in_set_conv_decomp)
  with ch obtain ds where "chain m a (a # A2) ds"
    using chain_mid [of m p "a # A1" a A2 cs] by auto
  moreover from ch have "chain m a (a # A) cs" by (metis chain_ConsE)
  ultimately have "A = A2" using chain_unique by blast
  with \<open>A = A1 @ a # A2\<close> show False by simp
qed

lemma chain_distinct: "chain m p A cs \<Longrightarrow> distinct A"
proof (induction m p A cs rule: chain.induct)
  case (2 m p a A c cs)
  from 2(2) have "a \<notin> set A" by (rule chain_notin_tl)
  with 2 show ?case by auto
qed auto

section \<open>What the operations do to a chain\<close>

lemma deref_pos [simp]: "p \<noteq> 0 \<Longrightarrow> deref p h = cells h p"
  by (simp add: deref_def)

lemma deref_0 [simp]: "deref 0 h = None"
  by (simp add: deref_def)

lemma walk_last_chain: "chain (cells h) p A cs \<Longrightarrow> cs \<noteq> [] \<Longrightarrow> walk_last h p = Some (last A)"
proof (induction "cells h" p A cs rule: chain.induct)
  case (2 p a A c cs)
  then obtain n where n: "cells h a = Some \<lparr>cpos = c, cnext = n\<rparr>" "chain (cells h) n A cs" "a \<noteq> 0" "p = a"
    by auto
  show ?case
  proof (cases cs)
    case Nil
    with n show ?thesis by (subst walk_last.simps) simp
  next
    case (Cons d ds)
    with n(2) have "n \<noteq> 0" "A \<noteq> []" by (metis chain_0 list.discI, metis chain_NilA list.discI)
    with n 2(1) [OF n(2)] Cons show ?thesis by (subst walk_last.simps) simp
  qed
qed auto

lemma chain_last:
  "chain m p A cs \<Longrightarrow> cs \<noteq> [] \<Longrightarrow> m (last A) = Some \<lparr>cpos = last cs, cnext = 0\<rparr> \<and> last A \<noteq> 0"
proof (induction m p A cs rule: chain.induct)
  case (2 m p a A c cs)
  then show ?case by (cases cs; cases A) auto
qed auto

lemma chain_snoc:
  "chain m p A cs \<Longrightarrow> cs \<noteq> [] \<Longrightarrow> new \<notin> set A \<Longrightarrow> new \<noteq> 0 \<Longrightarrow>
   chain (m(last A \<mapsto> \<lparr>cpos = last cs, cnext = new\<rparr>, new \<mapsto> \<lparr>cpos = c, cnext = 0\<rparr>)) p (A @ [new]) (cs @ [c])"
proof (induction m p A cs rule: chain.induct)
  case (2 m p a A d cs)
  from 2(2) have a: "a \<notin> set A" by (rule chain_notin_tl)
  show ?case
  proof (cases cs)
    case Nil
    with 2 show ?thesis by auto
  next
    case (Cons e es)
    from 2(2) obtain n where n: "m a = Some \<lparr>cpos = d, cnext = n\<rparr>" "chain m n A cs" "p = a" "a \<noteq> 0"
      by auto
    with Cons have "A \<noteq> []" by (metis chain_NilA list.discI)
    with a have "last A \<noteq> a" by auto
    moreover from 2(4) have "new \<noteq> a" by auto
    ultimately show ?thesis
      using 2(1) [OF n(2)] 2(4,5) n Cons \<open>A \<noteq> []\<close> by simp
  qed
qed auto

lemma cell_upd_both [simp]: "c\<lparr>cpos := v, cnext := n\<rparr> = \<lparr>cpos = v, cnext = n\<rparr>"
  by (cases c) simp

lemma malloc_ok:
  assumes "heap_ok h" "0 < room h"
  obtains a where "malloc h = (a, h\<lparr>cells := (cells h)(a \<mapsto> junk h), brk := Suc a, room := room h - 1\<rparr>)"
    "a \<notin> dom (cells h)" "a \<noteq> 0" "a = brk h"
  using assms by (fastforce simp: malloc_def heap_ok_def)

lemma crash_inner_chain:
  "chain (cells h) p A cs \<Longrightarrow> crash_inner h x y p = Some ((x, y) \<in> xy ` set cs)"
proof (induction "cells h" p A cs rule: chain.induct)
  case (1 p)
  then show ?case by (subst crash_inner.simps) simp
next
  case (2 p a A c cs)
  then show ?case by (subst crash_inner.simps) (auto simp: xy_def)
qed auto

lemma crash_outer_chain:
  "chain (cells h) p A cs \<Longrightarrow> crash_outer h p = Some (if distinct (map xy cs) then 0 else 1)"
proof (induction "cells h" p A cs rule: chain.induct)
  case (1 p)
  then show ?case by (subst crash_outer.simps) simp
next
  case (2 p a A c cs)
  then obtain n where n: "cells h a = Some \<lparr>cpos = c, cnext = n\<rparr>" "chain (cells h) n A cs" "a \<noteq> 0" "p = a"
    by auto
  have "crash_inner h (px c) (py c) n = Some (xy c \<in> xy ` set cs)"
    using crash_inner_chain [OF n(2)] by (simp add: xy_def)
  with n 2(1) [OF n(2)] show ?case by (subst crash_outer.simps) auto
qed auto

lemma snake_disp_chain:
  "chain (cells h) p A cs \<Longrightarrow> snake_disp h p = Some (map (\<lambda>c. (px c, py c, snake_shape)) cs)"
proof (induction "cells h" p A cs rule: chain.induct)
  case (1 p)
  then show ?case by (subst snake_disp.simps) simp
next
  case (2 p a A c cs)
  then show ?case by (subst snake_disp.simps) auto
qed auto

section \<open>The interface the game relies on\<close>

text \<open>
  A store of sequences that share one memory. \<open>rep h p cs R\<close>: in the memory \<open>h\<close> the pointer \<open>p\<close>
  represents the sequence \<open>cs\<close>, and \<open>R\<close> is all the rest of the memory. Each operation keeps \<open>R\<close>, so
  a sequence that lives in \<open>R\<close> is untouched.
\<close>

locale deque_store =
  fixes rep :: "'h \<Rightarrow> 'p \<Rightarrow> 'c list \<Rightarrow> 'r \<Rightarrow> bool"
    and capacity :: "'h \<Rightarrow> nat"
    and push_front :: "'p \<Rightarrow> 'c \<Rightarrow> 'h \<Rightarrow> ('p \<times> 'h) option"
    and pop_front :: "'p \<Rightarrow> 'h \<Rightarrow> ('p \<times> 'h) option"
    and push_back :: "'p \<Rightarrow> 'c \<Rightarrow> 'h \<Rightarrow> 'h option"
  assumes push_front_law: "rep h p cs R \<Longrightarrow> 0 < capacity h \<Longrightarrow>
      \<exists>p' h'. push_front p c h = Some (p', h') \<and> rep h' p' (c # cs) R \<and> Suc (capacity h') = capacity h"
    and pop_front_law: "rep h p (c # cs) R \<Longrightarrow>
      \<exists>p' h'. pop_front p h = Some (p', h') \<and> rep h' p' cs R \<and> capacity h' = Suc (capacity h)"
    and push_back_law: "rep h p cs R \<Longrightarrow> cs \<noteq> [] \<Longrightarrow> 0 < capacity h \<Longrightarrow>
      \<exists>h'. push_back p c h = Some h' \<and> rep h' p (cs @ [c]) R \<and> Suc (capacity h') = capacity h"
begin

text \<open>One step of a moving snake: a new last element, then the first one is dropped.\<close>

lemma shift:
  assumes r: "rep h p cs R" and ne: "cs \<noteq> []" and cap: "0 < capacity h"
  shows "\<exists>h1 p' h'. push_back p c h = Some h1 \<and> pop_front p h1 = Some (p', h') \<and>
           rep h' p' (tl cs @ [c]) R \<and> capacity h' = capacity h"
proof -
  from push_back_law [OF r ne cap] obtain h1
    where 1: "push_back p c h = Some h1" "rep h1 p (cs @ [c]) R" "Suc (capacity h1) = capacity h"
    by blast
  have "cs @ [c] = hd cs # tl cs @ [c]" using ne by (cases cs) auto
  with 1(2) have "rep h1 p (hd cs # (tl cs @ [c])) R" by simp
  from pop_front_law [OF this] 1 show ?thesis by auto
qed

lemma build3:
  assumes r: "rep h p [] R" and cap: "3 \<le> capacity h"
  shows "\<exists>p1 h1 p2 h2 p3 h3. push_front p c3 h = Some (p1, h1) \<and> push_front p1 c2 h1 = Some (p2, h2) \<and>
           push_front p2 c1 h2 = Some (p3, h3) \<and> rep h3 p3 [c1, c2, c3] R \<and> capacity h3 + 3 = capacity h"
proof -
  from push_front_law [OF r, of c3] cap obtain p1 h1
    where 1: "push_front p c3 h = Some (p1, h1)" "rep h1 p1 [c3] R" "Suc (capacity h1) = capacity h"
    by auto
  from push_front_law [OF 1(2), of c2] 1 cap obtain p2 h2
    where 2: "push_front p1 c2 h1 = Some (p2, h2)" "rep h2 p2 [c2, c3] R" "Suc (capacity h2) = capacity h1"
    by auto
  from push_front_law [OF 2(2), of c1] 1 2 cap show ?thesis by auto
qed

end

text \<open>The chains of the program's heap are such a store.\<close>

definition snake_rep :: "heap \<Rightarrow> nat \<Rightarrow> pos list \<Rightarrow> (nat \<rightharpoonup> cell) \<Rightarrow> bool" where
  "snake_rep h p cs R \<longleftrightarrow>
     (\<exists>A. heap_ok h \<and> chain (cells h) p A cs \<and> cells h |` (- set A) = R)"

lemma head_add_rep:
  assumes "snake_rep h p cs R" "0 < room h"
  shows "\<exists>p' h'. head_add p c h = Some (p', h') \<and> snake_rep h' p' (c # cs) R \<and> Suc (room h') = room h"
proof -
  from assms obtain A where A: "heap_ok h" "chain (cells h) p A cs" "cells h |` (- set A) = R"
    by (auto simp: snake_rep_def)
  from malloc_ok [OF A(1) assms(2)] obtain a
    where a: "malloc h = (a, h\<lparr>cells := (cells h)(a \<mapsto> junk h), brk := Suc a, room := room h - 1\<rparr>)"
      "a \<notin> dom (cells h)" "a \<noteq> 0" "a = brk h" .
  have notin: "a \<notin> set A" using chain_dom [OF A(2)] a(2) by auto
  let ?h = "h\<lparr>brk := Suc a, room := room h - 1, cells := (cells h)(a \<mapsto> \<lparr>cpos = c, cnext = p\<rparr>)\<rparr>"
  have "head_add p c h = Some (a, ?h)"
    using a by (simp add: head_add_def set_pos_def set_next_def)
  moreover have "heap_ok ?h" using A(1) a by (auto simp: heap_ok_def)
  moreover have "chain (cells ?h) a (a # A) (c # cs)"
    using A(2) notin a(3) by (simp add: chain_upd)
  moreover have "cells ?h |` (- set (a # A)) = R"
    unfolding A(3) [symmetric] using a(2) by (auto simp: restrict_map_def fun_eq_iff dom_def)
  ultimately show ?thesis using assms(2) unfolding snake_rep_def
    by (intro exI [of _ a] exI [of _ ?h] conjI exI [of _ "a # A"]) auto
qed

lemma head_del_rep:
  assumes "snake_rep h p (c # cs) R"
  shows "\<exists>p' h'. head_del p h = Some (p', h') \<and> snake_rep h' p' cs R \<and> room h' = Suc (room h)"
proof -
  from assms obtain B where B: "heap_ok h" "chain (cells h) p B (c # cs)" "cells h |` (- set B) = R"
    by (auto simp: snake_rep_def)
  then obtain a A where "B = a # A" by (cases B) auto
  with B obtain n where n: "p = a" "a \<noteq> 0" "cells h a = Some \<lparr>cpos = c, cnext = n\<rparr>" "chain (cells h) n A cs"
    by auto
  have notin: "a \<notin> set A" using chain_notin_tl B(2) \<open>B = a # A\<close> by blast
  let ?h = "h\<lparr>cells := (cells h)(a := None), room := Suc (room h)\<rparr>"
  have "head_del p h = Some (n, ?h)"
    using n by (simp add: head_del_def free_def)
  moreover have "heap_ok ?h" using B(1) by (auto simp: heap_ok_def)
  moreover have "chain (cells ?h) n A cs" using n(4) notin by (simp add: chain_upd)
  moreover have "cells ?h |` (- set A) = R"
    unfolding B(3) [symmetric] \<open>B = a # A\<close> by (auto simp: restrict_map_def fun_eq_iff)
  ultimately show ?thesis unfolding snake_rep_def
    by (intro exI [of _ n] exI [of _ ?h] conjI exI [of _ A]) auto
qed

lemma tail_link_rep:
  assumes "snake_rep h p cs R" "cs \<noteq> []" "0 < room h"
  shows "\<exists>h'. tail_link p c h = Some h' \<and> snake_rep h' p (cs @ [c]) R \<and> Suc (room h') = room h"
proof -
  from assms obtain A where A: "heap_ok h" "chain (cells h) p A cs" "cells h |` (- set A) = R"
    by (auto simp: snake_rep_def)
  from malloc_ok [OF A(1) assms(3)] obtain a
    where a: "malloc h = (a, h\<lparr>cells := (cells h)(a \<mapsto> junk h), brk := Suc a, room := room h - 1\<rparr>)"
      "a \<notin> dom (cells h)" "a \<noteq> 0" "a = brk h" .
  have ne: "A \<noteq> []" using A(2) assms(2) by auto
  have notin: "a \<notin> set A" using chain_dom [OF A(2)] a(2) by auto
  have neq: "last A \<noteq> a" using notin ne by auto
  note last = chain_last [OF A(2) assms(2)]
  let ?h = "h\<lparr>brk := Suc a, room := room h - 1,
      cells := (cells h)(last A \<mapsto> \<lparr>cpos = last cs, cnext = a\<rparr>, a \<mapsto> \<lparr>cpos = c, cnext = 0\<rparr>)\<rparr>"
  have "tail_link p c h = Some ?h"
    using a neq last walk_last_chain [OF A(2) assms(2)]
    by (simp add: tail_link_def set_pos_def set_next_def)
  moreover have "heap_ok ?h"
    using A(1) a last by (auto simp: heap_ok_def dom_def)
  moreover have "chain (cells ?h) p (A @ [a]) (cs @ [c])"
    using chain_snoc [OF A(2) assms(2) notin a(3)] by simp
  moreover have "cells ?h |` (- set (A @ [a])) = R"
    unfolding A(3) [symmetric] using a(2) ne by (auto simp: restrict_map_def fun_eq_iff dom_def)
  ultimately show ?thesis using assms(3) unfolding snake_rep_def
    by (intro exI [of _ ?h] conjI exI [of _ "A @ [a]"]) auto
qed

interpretation snake_store: deque_store snake_rep room head_add head_del tail_link
  by unfold_locales (rule head_add_rep head_del_rep tail_link_rep; assumption)+

section \<open>Two snakes in one memory\<close>

text \<open>
  \<open>snakes h p cs q ds\<close>: the allocated cells are exactly those of two disjoint lists, \<open>cs\<close> from \<open>p\<close> and
  \<open>ds\<close> from \<open>q\<close>. Nothing is shared and nothing has leaked.
\<close>

definition snakes :: "heap \<Rightarrow> nat \<Rightarrow> pos list \<Rightarrow> nat \<Rightarrow> pos list \<Rightarrow> bool" where
  "snakes h p cs q ds \<longleftrightarrow>
     (\<exists>A B. heap_ok h \<and> chain (cells h) p A cs \<and> chain (cells h) q B ds \<and>
        set A \<inter> set B = {} \<and> dom (cells h) = set A \<union> set B)"

lemma snakes_sym: "snakes h p cs q ds \<Longrightarrow> snakes h q ds p cs"
  unfolding snakes_def by blast

lemma chain_restrict: "set A \<subseteq> S \<Longrightarrow> chain (m |` S) p A cs = chain m p A cs"
  by (induction m p A cs rule: chain.induct) (auto simp: restrict_map_def)

lemma snakes_focus:
  assumes "snakes h p cs q ds"
  obtains R where "snake_rep h p cs R"
    and "\<forall>h' p' cs'. snake_rep h' p' cs' R \<longrightarrow> snakes h' p' cs' q ds"
proof -
  from assms obtain A B where AB: "heap_ok h" "chain (cells h) p A cs" "chain (cells h) q B ds"
      "set A \<inter> set B = {}" "dom (cells h) = set A \<union> set B"
    by (auto simp: snakes_def)
  define R where "R = cells h |` (- set A)"
  have domR: "dom R = set B" using AB(4,5) by (auto simp: R_def)
  have chR: "chain R q B ds" using AB(3,4) unfolding R_def by (subst chain_restrict) auto
  have "snake_rep h p cs R" using AB(1,2) by (auto simp: snake_rep_def R_def)
  moreover have "snakes h' p' cs' q ds" if rep: "snake_rep h' p' cs' R" for h' p' cs'
  proof -
    from rep obtain A' where A': "heap_ok h'" "chain (cells h') p' A' cs'" "cells h' |` (- set A') = R"
      by (auto simp: snake_rep_def)
    have disj: "set A' \<inter> set B = {}" using domR A'(3) by (auto simp: restrict_map_def dom_def split: if_splits)
    have "chain (cells h') q B ds" using chR A'(3) chain_restrict [of B "- set A'" "cells h'" q ds] disj by auto
    moreover have "dom (cells h') = set A' \<union> set B"
      using chain_dom [OF A'(2)] domR unfolding A'(3) [symmetric] by auto
    ultimately show ?thesis using A'(1,2) disj unfolding snakes_def by blast
  qed
  ultimately show thesis by (blast intro: that)
qed

lemma snakes_live:
  assumes "snakes h p cs q ds"
  shows "card (dom (cells h)) = length cs + length ds"
proof -
  from assms obtain A B where AB: "chain (cells h) p A cs" "chain (cells h) q B ds"
      "set A \<inter> set B = {}" "dom (cells h) = set A \<union> set B"
    by (auto simp: snakes_def)
  have "card (set A) = length cs" "card (set B) = length ds"
    using AB(1,2) by (metis chain_distinct chain_length distinct_card)+
  with AB(3,4) show ?thesis by (simp add: card_Un_disjoint)
qed

end
