(* ===== verification/Snake_Game.thy ===== *)
theory Snake_Game
  imports Snake_Heap "HOL-Library.Signed_Division"
begin

text \<open>
  The operations of \<open>src/SimpleSnake/game.c\<close> on the globals and the snakes: steering, drawing, bonus
  items, scores, growth, movement and the collision checks. A call of \<open>mvprintw(y, x, s)\<close> is the
  triple \<open>(y, x, s)\<close>; a drawing function returns the list of its calls. C division and remainder
  truncate towards zero (\<open>sdiv\<close>, \<open>smod\<close>), and a division by zero does not return.
\<close>

type_synonym draw = "int \<times> int \<times> string"

text \<open>Key codes of the curses library, outside the repository: distinct codes.\<close>

record curses_keys =
  KEY_LEFT :: int
  KEY_RIGHT :: int
  KEY_UP :: int
  KEY_DOWN :: int

section \<open>Steering\<close>

definition set_dir :: "curses_keys \<Rightarrow> int \<Rightarrow> int \<Rightarrow> globals \<Rightarrow> globals" where
  "set_dir K c i g =
     (if i = 1 then
        (if c = USBKEY_LEFT then g\<lparr>dir := LEFT\<rparr>
         else if c = USBKEY_RIGHT then g\<lparr>dir := RIGHT\<rparr>
         else if c = USBKEY_UP then g\<lparr>dir := UP\<rparr>
         else if c = USBKEY_DOWN then g\<lparr>dir := DOWN\<rparr>
         else g)
      else if i = 2 then
        (if c = KEY_LEFT K then g\<lparr>dir_b := LEFT\<rparr>
         else if c = KEY_RIGHT K then g\<lparr>dir_b := RIGHT\<rparr>
         else if c = KEY_UP K then g\<lparr>dir_b := UP\<rparr>
         else if c = KEY_DOWN K then g\<lparr>dir_b := DOWN\<rparr>
         else g)
      else g)"

section \<open>Drawing the field\<close>

definition UI_draw :: "globals \<Rightarrow> draw list" where
  "UI_draw g =
     concat (map (\<lambda>i. [(1, i, ''#''), (max_y g - 2, i, ''#'')]) [0 .. max_x g]) @
     concat (map (\<lambda>i. [(i + 2, 0, ''#''), (i + 2, max_x g - 1, ''#'')]) [0 .. max_y g - 5]) @
     [(0, max_x g sdiv 2 - int (length title div 2), title)]"

section \<open>Bonus items\<close>

text \<open>
  The loop over \<open>bonus_list[i]\<close> with \<open>n\<close> rounds left that fills the first inactive place.
\<close>

fun place_bonus :: "nat \<Rightarrow> nat \<Rightarrow> int \<Rightarrow> int \<Rightarrow> bonus list \<Rightarrow> bonus list option" where
  "place_bonus 0 i x y bl = Some bl"
| "place_bonus (Suc n) i x y bl =
     (if length bl \<le> i then None
      else if activ (bl ! i) = 0 then Some (bl[i := \<lparr>pos_x = x, pos_y = y, activ = 1\<rparr>])
      else place_bonus n (Suc i) x y bl)"

text \<open>\<open>r\<close> gives the results of the successive calls of \<open>rand\<close>, of which \<open>k\<close> have been made.\<close>

definition bonus_create :: "(nat \<Rightarrow> int) \<Rightarrow> nat \<Rightarrow> globals \<Rightarrow> (globals \<times> nat) option" where
  "bonus_create r k g = do {
     guard (spawning_rate g \<noteq> 0);
     let add_bonus = r k smod spawning_rate g;
     if add_bonus = 1 \<and> nb_bonus g < max_bonus g then do {
       guard (max_x g - 4 \<noteq> 0);
       let rand_x = 2 + r (k + 1) smod (max_x g - 4);
       guard (max_y g - 6 \<noteq> 0);
       let rand_y = 3 + r (k + 2) smod (max_y g - 6);
       bl \<leftarrow> place_bonus (nat (max_bonus g)) 0 rand_x rand_y (bonus_list g);
       Some (g\<lparr>bonus_list := bl, nb_bonus := nb_bonus g + 1\<rparr>, k + 3) }
     else Some (g, k + 1) }"

fun clear_bonus :: "nat \<Rightarrow> nat \<Rightarrow> bonus list \<Rightarrow> bonus list option" where
  "clear_bonus 0 i bl = Some bl"
| "clear_bonus (Suc n) i bl =
     (if length bl \<le> i then None
      else clear_bonus n (Suc i) (bl[i := \<lparr>pos_x = 0, pos_y = 0, activ = 0\<rparr>]))"

definition init_bonus :: "globals \<Rightarrow> globals option" where
  "init_bonus g = do {
     bl \<leftarrow> clear_bonus (nat (max_bonus g)) 0 (bonus_list g);
     Some (g\<lparr>bonus_list := bl\<rparr>) }"

fun disp_loop :: "nat \<Rightarrow> nat \<Rightarrow> bonus list \<Rightarrow> draw list option" where
  "disp_loop 0 i bl = Some []"
| "disp_loop (Suc n) i bl =
     (if length bl \<le> i then None
      else do {
        ds \<leftarrow> disp_loop n (Suc i) bl;
        Some (if activ (bl ! i) \<noteq> 0 then (pos_y (bl ! i), pos_x (bl ! i), ''+'') # ds else ds) })"

definition bonus_disp :: "globals \<Rightarrow> draw list option" where
  "bonus_disp g = disp_loop (nat (max_bonus g)) 0 (bonus_list g)"

section \<open>Scores\<close>

text \<open>\<open>sprintf(buf, "%d", n)\<close>\<close>

fun dec_nat :: "nat \<Rightarrow> string" where
  "dec_nat n = (if n < 10 then [char_of (n + 48)] else dec_nat (n div 10) @ [char_of (n mod 10 + 48)])"

declare dec_nat.simps [simp del]

definition dec_int :: "int \<Rightarrow> string" where
  "dec_int n = (if n < 0 then ''-'' @ dec_nat (nat (- n)) else dec_nat (nat n))"

text \<open>
  The text is built in \<open>score_nb\<close> (8 bytes) and appended to \<open>score_txt\<close> (16 bytes, holding
  \<open>"Score : "\<close>); a longer text, counting the terminating zero, overruns a buffer.
\<close>

definition score_text :: "int \<Rightarrow> string option" where
  "score_text n = do {
     let score_nb = dec_int n;
     guard (length score_nb + 1 \<le> 8);
     let score_txt = ''Score : '' @ score_nb;
     guard (length score_txt + 1 \<le> 16);
     Some score_txt }"

definition score_disp :: "int \<Rightarrow> globals \<Rightarrow> draw list option" where
  "score_disp i g =
     (if i = 1 then do { t \<leftarrow> score_text (score g); Some [(0, 0, t)] }
      else if i = 2 then do { t \<leftarrow> score_text (score_b g); Some [(max_y g - 1, 0, t)] }
      else Some [])"

section \<open>Growth\<close>

definition snake_grow :: "nat \<Rightarrow> heap \<Rightarrow> (nat \<times> heap) option" where
  "snake_grow snake h = do {
     c \<leftarrow> deref snake h;
     let first_pos_x = px (cpos c);
     let first_pos_y = py (cpos c);
     let first_dir = pdir (cpos c);
     if first_dir = UP then head_add snake \<lparr>px = first_pos_x + 1, py = first_pos_y, pdir = UP\<rparr> h
     else if first_dir = DOWN then head_add snake \<lparr>px = first_pos_x - 1, py = first_pos_y, pdir = DOWN\<rparr> h
     else if first_dir = RIGHT then head_add snake \<lparr>px = first_pos_x, py = first_pos_y - 1, pdir = RIGHT\<rparr> h
     else if first_dir = LEFT then head_add snake \<lparr>px = first_pos_x, py = first_pos_y + 1, pdir = LEFT\<rparr> h
     else Some (snake, h) }"

text \<open>The place of the first bonus, active or not, at the position \<open>p\<close>.\<close>

fun find_bonus :: "nat \<Rightarrow> nat \<Rightarrow> pos \<Rightarrow> bonus list \<Rightarrow> nat option option" where
  "find_bonus 0 i p bl = Some None"
| "find_bonus (Suc n) i p bl =
     (if length bl \<le> i then None
      else if px p = pos_y (bl ! i) \<and> py p = pos_x (bl ! i) then Some (Some i)
      else find_bonus n (Suc i) p bl)"

definition end_of :: "int \<Rightarrow> globals \<Rightarrow> cell option" where
  "end_of i g = (if i = 1 then Some (snake_end g) else if i = 2 then Some (snake_end_b g) else None)"

definition add_score :: "int \<Rightarrow> globals \<Rightarrow> globals" where
  "add_score i g = (if i = 1 then g\<lparr>score := score g + 1\<rparr>
     else if i = 2 then g\<lparr>score_b := score_b g + 1\<rparr> else g)"

definition bonus_check :: "nat \<Rightarrow> int \<Rightarrow> heap \<Rightarrow> globals \<Rightarrow> (nat \<times> heap \<times> globals) option" where
  "bonus_check snake i h g = do {
     e \<leftarrow> end_of i g;
     hit \<leftarrow> find_bonus (nat (max_bonus g)) 0 (cpos e) (bonus_list g);
     case hit of
       None \<Rightarrow> Some (snake, h, g)
     | Some j \<Rightarrow> do {
         let g = add_score i g;
         let g = g\<lparr>nb_bonus := nb_bonus g - 1,
                    bonus_list := (bonus_list g)[j := (bonus_list g ! j)\<lparr>activ := 0\<rparr>]\<rparr>;
         (snake, h) \<leftarrow> snake_grow snake h;
         Some (snake, h, g) } }"

section \<open>Movement\<close>

definition init_snake :: "int \<Rightarrow> heap \<Rightarrow> globals \<Rightarrow> (nat \<times> heap \<times> globals) option" where
  "init_snake i h g = do {
     row \<leftarrow> (if i = 1 then Some 2 else if i = 2 then Some (max_y g - 3) else None);
     let sk1 = \<lparr>px = row, py = 1, pdir = RIGHT\<rparr>;
     let sk2 = \<lparr>px = row, py = 2, pdir = RIGHT\<rparr>;
     let sk3 = \<lparr>px = row, py = 3, pdir = RIGHT\<rparr>;
     (snake, h) \<leftarrow> head_add 0 sk3 h;
     (snake, h) \<leftarrow> head_add snake sk2 h;
     (snake, h) \<leftarrow> head_add snake sk1 h;
     c \<leftarrow> get_tail snake h;
     Some (snake, h, set_snake_end i c g) }"

definition advance :: "nat \<Rightarrow> int \<Rightarrow> int \<Rightarrow> int \<Rightarrow> int \<Rightarrow> heap \<Rightarrow> globals \<Rightarrow> (nat \<times> heap \<times> globals) option" where
  "advance snake x y d i h g = do {
     (h, g) \<leftarrow> tail_add snake \<lparr>px = x, py = y, pdir = d\<rparr> i h g;
     (snake, h) \<leftarrow> head_del snake h;
     Some (snake, h, g) }"

definition snake_move :: "nat \<Rightarrow> int \<Rightarrow> int \<Rightarrow> heap \<Rightarrow> globals \<Rightarrow> (nat \<times> heap \<times> globals) option" where
  "snake_move snake d i h g = do {
     e \<leftarrow> end_of i g;
     let x = px (cpos e);
     let y = py (cpos e);
     let dir_l = pdir (cpos e);
     if d = UP then
       (if dir_l = DOWN then advance snake (x + 1) y DOWN i h g
        else advance snake (x - 1) y UP i h g)
     else if d = DOWN then
       (if dir_l = UP then advance snake (x - 1) y UP i h g
        else advance snake (x + 1) y DOWN i h g)
     else if d = RIGHT then
       (if dir_l = LEFT then advance snake x (y - 1) LEFT i h g
        else advance snake x (y + 1) RIGHT i h g)
     else if d = LEFT then
       (if dir_l = RIGHT then advance snake x (y + 1) RIGHT i h g
        else advance snake x (y - 1) LEFT i h g)
     else Some (snake, h, g) }"

section \<open>Collisions with the walls\<close>

definition hits_wall :: "pos \<Rightarrow> globals \<Rightarrow> int" where
  "hits_wall p g =
     (if px p \<le> 1 then 1
      else if px p \<ge> max_y g - 2 then 1
      else if py p \<le> 0 then 1
      else if py p \<ge> max_x g - 1 then 1
      else 0)"

definition wall_check :: "int \<Rightarrow> globals \<Rightarrow> int" where
  "wall_check i g =
     (if i = 2 then hits_wall (cpos (snake_end_b g)) g
      else if i = 1 then hits_wall (cpos (snake_end g)) g
      else 0)"

definition c_min :: "int \<Rightarrow> int \<Rightarrow> int" where
  "c_min a b = (if a < b then a else b)"

end
