(* ===== verification/Menus.thy ===== *)
theory Menus
  imports Snake_Game
begin

text \<open>
  The three dialogs of \<open>src/SimpleSnake/game.c\<close>: the choice of the spawning rate (\<open>menu_disp\<close>), the
  pause menu (\<open>quit_disp\<close>) and the number of bonus items (\<open>menu2_disp\<close>). \<open>keys k\<close> is the result of
  the \<open>k\<close>-th call of \<open>key_pressed\<close>. The \<open>while(1)\<close> loops end when the joystick button is read, so
  they are partial functions: \<open>None\<close> when it never is.

  A frame is the list of the \<open>mvwprintw\<close> calls of one round, with the reverse-video attribute.
\<close>

type_synonym frame = "(int \<times> int \<times> string \<times> bool) list"

section \<open>Lists of choices\<close>

definition menu_frame :: "string \<Rightarrow> string list \<Rightarrow> int \<Rightarrow> frame" where
  "menu_frame heading choices highlight =
     [(1, 1, heading, False), (2, 1, ''------------------'', False)] @
     map (\<lambda>i. (int i + 3, 1, choices ! i, int i = highlight)) [0 ..< length choices]"

text \<open>The \<open>switch (choice)\<close> of both menus: one up or down, around the ends of \<open>n\<close> lines.\<close>

definition move_highlight :: "int \<Rightarrow> int \<Rightarrow> int \<Rightarrow> int" where
  "move_highlight n choice highlight =
     (if choice = USBKEY_UP then (if highlight - 1 = -1 then n - 1 else highlight - 1)
      else if choice = USBKEY_DOWN then (if highlight + 1 = n then 0 else highlight + 1)
      else highlight)"

section \<open>The spawning rate\<close>

definition rate_choices :: "string list" where
  "rate_choices = [''LOW'', ''NORMAL'', ''FAST'', ''INSANE'']"

partial_function (option) menu_loop :: "(nat \<Rightarrow> u8) \<Rightarrow> nat \<Rightarrow> int \<Rightarrow> (int \<times> nat \<times> frame list) option" where
  "menu_loop keys k highlight =
     (let shown = menu_frame ''Spawning rate'' rate_choices highlight;
          choice = uint (keys k);
          highlight = move_highlight 4 choice highlight
      in if choice = USBKEY_FCT then Some (highlight, Suc k, [shown])
         else do {
           (hl, k', frames) \<leftarrow> menu_loop keys (Suc k) highlight;
           Some (hl, k', shown # frames) })"

definition chosen_rate :: "int \<Rightarrow> int \<Rightarrow> int" where
  "chosen_rate highlight old =
     (if highlight = 0 then LOW else if highlight = 1 then NORMAL
      else if highlight = 2 then FAST else if highlight = 3 then INSANE else old)"

definition menu_disp :: "int \<times> int \<Rightarrow> (nat \<Rightarrow> u8) \<Rightarrow> nat \<Rightarrow> globals \<Rightarrow> (globals \<times> nat \<times> frame list) option" where
  "menu_disp yx keys k g = do {
     let g = g\<lparr>max_y := fst yx, max_x := snd yx\<rparr>;
     (highlight, k, frames) \<leftarrow> menu_loop keys k 0;
     Some (g\<lparr>spawning_rate := chosen_rate highlight (spawning_rate g)\<rparr>, k, frames) }"

section \<open>The pause menu\<close>

definition quit_choices :: "string list" where
  "quit_choices = [''RESUME'', ''QUIT'']"

partial_function (option) quit_loop :: "(nat \<Rightarrow> u8) \<Rightarrow> nat \<Rightarrow> int \<Rightarrow> (int \<times> nat \<times> frame list) option" where
  "quit_loop keys k highlight =
     (let shown = menu_frame ''PAUSE'' quit_choices highlight;
          choice = uint (keys k);
          highlight = move_highlight 2 choice highlight
      in if choice = USBKEY_FCT \<and> highlight = 0 then Some (0, Suc k, [shown])
         else if choice = USBKEY_FCT \<and> highlight = 1 then Some (1, Suc k, [shown])
         else do {
           (r, k', frames) \<leftarrow> quit_loop keys (Suc k) highlight;
           Some (r, k', shown # frames) })"

definition quit_disp :: "int \<times> int \<Rightarrow> (nat \<Rightarrow> u8) \<Rightarrow> nat \<Rightarrow> globals \<Rightarrow> (int \<times> globals \<times> nat \<times> frame list) option" where
  "quit_disp yx keys k g = do {
     let g = g\<lparr>max_y := fst yx, max_x := snd yx\<rparr>;
     (r, k, frames) \<leftarrow> quit_loop keys k 0;
     Some (r, g, k, frames) }"

section \<open>The number of bonus items\<close>

text \<open>\<open>atoi\<close> of the C library: blanks, a sign, decimal digits; a value that is no \<open>int\<close> is undefined.\<close>

definition is_space :: "char \<Rightarrow> bool" where
  "is_space c \<longleftrightarrow> of_char c = (32::nat) \<or> (9 \<le> (of_char c :: nat) \<and> of_char c \<le> (13::nat))"

definition is_digit :: "char \<Rightarrow> bool" where
  "is_digit c \<longleftrightarrow> 48 \<le> (of_char c :: nat) \<and> of_char c \<le> (57::nat)"

definition digits_value :: "string \<Rightarrow> int" where
  "digits_value s = foldl (\<lambda>n c. 10 * n + (of_char c - 48)) 0 (takeWhile is_digit s)"

definition atoi :: "string \<Rightarrow> int option" where
  "atoi s =
     (let t = dropWhile is_space s;
          n = (case t of c # u \<Rightarrow> if c = CHR ''-'' then - digits_value u
                 else if c = CHR ''+'' then digits_value u else digits_value t
               | [] \<Rightarrow> 0)
      in if - (2 ^ 31) \<le> n \<and> n < 2 ^ 31 then Some n else None)"

text \<open>
  \<open>menu2_disp\<close>: the line typed is stored with its terminating zero in \<open>char amount[8]\<close>;
  \<open>mvwgetstr\<close> does not check the size, so a line of eight characters or more overruns it.
\<close>

definition menu2_disp :: "int \<times> int \<Rightarrow> string \<Rightarrow> globals \<Rightarrow> globals option" where
  "menu2_disp yx amount g = do {
     let g = g\<lparr>max_y := fst yx, max_x := snd yx\<rparr>;
     guard (length amount + 1 \<le> 8);
     n \<leftarrow> atoi amount;
     Some (g\<lparr>max_bonus := (if n > 100 then 100 else n)\<rparr>) }"

end
