(* ===== verification/Usb_Host.thy ===== *)
theory Usb_Host
  imports Prelude
begin

text \<open>
  The host side of the USB link, \<open>src/libusb/usb_host.c\<close>: finding and opening the device, detaching
  kernel drivers, collecting the interrupt endpoints, and the one-byte transfers \<open>key_pressed\<close> and
  \<open>usb_send\<close>.

  The libusb library is not part of the repository. Its calls are answered by a record of functions
  of the calls made so far, so any behaviour of library, kernel and device is some such record. A
  function that ends the process by \<open>exit\<close> returns \<open>Inl\<close> of the exit code, and undefined
  behaviour (an index outside an array) is \<open>None\<close>.
\<close>

section \<open>Descriptors as libusb reports them\<close>

record endpoint_descriptor =
  bEndpointAddress :: u8
  bmAttributes :: u8

record interface_descriptor =
  bInterfaceNumber :: u8
  bNumEndpoints :: u8
  endpoint :: "endpoint_descriptor list"

record config_descriptor =
  bNumInterfaces :: u8
  bConfigurationValue :: u8
  interface :: "interface_descriptor list list"  \<comment> \<open>the alternate settings of each interface\<close>

section \<open>Calls and answers\<close>

datatype call =
    Libusb_init
  | Get_device_list
  | Get_device_descriptor nat
  | Libusb_open nat
  | Free_device_list
  | Kernel_driver_active u8
  | Detach_kernel_driver u8
  | Set_configuration u8
  | Claim_interface u8
  | Interrupt_transfer u8 u8

text \<open>
  \<open>ret\<close>: the value a call returns after the calls before it; \<open>idProduct\<close>, \<open>active_config\<close> and
  \<open>config\<close>: what \<open>libusb_get_device_descriptor\<close>, \<open>libusb_get_active_config_descriptor\<close> and
  \<open>libusb_get_config_descriptor\<close> store for the device at a position of the device list.
\<close>

record libusb =
  ret :: "call list \<Rightarrow> call \<Rightarrow> int"
  idProduct :: "nat \<Rightarrow> u16"
  active_config :: "nat \<Rightarrow> config_descriptor"
  config :: "nat \<Rightarrow> config_descriptor"

text \<open>The globals \<open>handle\<close> and \<open>endp_list\<close> and the calls made so far, latest first.\<close>

record usb =
  calls :: "call list"
  handle :: nat
  endp_list :: "endpoint_descriptor list"

definition ID_PRODUCT :: u16 where "ID_PRODUCT = 0x1234"
definition NUM_CONFIG :: nat where "NUM_CONFIG = 0"

definition usb0 :: usb where
  "usb0 = \<lparr>calls = [], handle = 0,
     endp_list = replicate 10 \<lparr>bEndpointAddress = 0, bmAttributes = 0\<rparr>\<rparr>"

definition invoke :: "libusb \<Rightarrow> call \<Rightarrow> usb \<Rightarrow> int \<times> usb" where
  "invoke L c u = (ret L (calls u) c, u\<lparr>calls := c # calls u\<rparr>)"

section \<open>Finding the device\<close>

text \<open>The \<open>for\<close> loop of \<open>get_usb_device\<close> over \<open>list[i]\<close>, with \<open>n\<close> devices left.\<close>

fun find_device :: "libusb \<Rightarrow> nat \<Rightarrow> nat \<Rightarrow> usb \<Rightarrow> (int + int) \<times> usb" where
  "find_device L 0 i u = (let (_, u) = invoke L Free_device_list u in (Inr 1, u))"
| "find_device L (Suc n) i u =
     (let (status, u) = invoke L (Get_device_descriptor i) u in
      if status \<noteq> 0 then find_device L n (Suc i) u
      else if idProduct L i = ID_PRODUCT then
        (let (r, u) = invoke L (Libusb_open i) u in
         if r \<noteq> 0 then (Inl (-1), u)
         else let (_, u) = invoke L Free_device_list (u\<lparr>handle := i\<rparr>) in (Inr 0, u))
      else find_device L n (Suc i) u)"

definition get_usb_device :: "libusb \<Rightarrow> usb \<Rightarrow> (int + int) \<times> usb" where
  "get_usb_device L u =
     (let (count, u) = invoke L Get_device_list u in
      if count < 0 then (Inl (-1), u) else find_device L (nat count) 0 u)"

section \<open>Detaching the kernel\<close>

definition nth_opt :: "'a list \<Rightarrow> nat \<Rightarrow> 'a option" where
  "nth_opt xs i = (if i < length xs then Some (xs ! i) else None)"

fun unclaim_loop :: "libusb \<Rightarrow> config_descriptor \<Rightarrow> nat \<Rightarrow> nat \<Rightarrow> usb \<Rightarrow> ((int + unit) \<times> usb) option" where
  "unclaim_loop L cfg 0 i u = Some (Inr (), u)"
| "unclaim_loop L cfg (Suc n) i u = do {
     interf \<leftarrow> nth_opt (interface cfg) i;
     interd \<leftarrow> nth_opt interf 0;
     let (active, u) = invoke L (Kernel_driver_active (bInterfaceNumber interd)) u;
     if active \<noteq> 0 then
       (let (status, u) = invoke L (Detach_kernel_driver (bInterfaceNumber interd)) u in
        if status \<noteq> 0 then Some (Inl (-1), u) else unclaim_loop L cfg n (Suc i) u)
     else unclaim_loop L cfg n (Suc i) u }"

definition unclaim_active_config :: "libusb \<Rightarrow> nat \<Rightarrow> usb \<Rightarrow> ((int + unit) \<times> usb) option" where
  "unclaim_active_config L dev u =
     (let cfg = active_config L dev in unclaim_loop L cfg (unat (bNumInterfaces cfg)) 0 u)"

section \<open>Collecting the interrupt endpoints\<close>

text \<open>
  The loop over the endpoints of an interface: the first one whose type bits are 3 (interrupt) is
  copied to \<open>endp_list[cpt]\<close> and ends the loop. \<open>endp_list\<close> has ten places.
\<close>

fun save_loop_k :: "interface_descriptor \<Rightarrow> nat \<Rightarrow> nat \<Rightarrow> nat \<Rightarrow> usb \<Rightarrow> (nat \<times> usb) option" where
  "save_loop_k interd 0 k cpt u = Some (cpt, u)"
| "save_loop_k interd (Suc n) k cpt u = do {
     endp \<leftarrow> nth_opt (endpoint interd) k;
     if bmAttributes endp AND 3 = 3 then
       (if cpt < length (endp_list u)
        then Some (Suc cpt, u\<lparr>endp_list := (endp_list u)[cpt := endp]\<rparr>) else None)
     else save_loop_k interd n (Suc k) cpt u }"

fun save_loop_i :: "libusb \<Rightarrow> config_descriptor \<Rightarrow> nat \<Rightarrow> nat \<Rightarrow> nat \<Rightarrow> usb \<Rightarrow> ((int + unit) \<times> usb) option" where
  "save_loop_i L cfg 0 i cpt u = Some (Inr (), u)"
| "save_loop_i L cfg (Suc n) i cpt u = do {
     interf \<leftarrow> nth_opt (interface cfg) i;
     interd \<leftarrow> nth_opt interf 0;
     (cpt, u) \<leftarrow> save_loop_k interd (unat (bNumEndpoints interd)) 0 cpt u;
     let (r, u) = invoke L (Claim_interface (bInterfaceNumber interd)) u;
     if r \<noteq> 0 then Some (Inl (-1), u) else save_loop_i L cfg n (Suc i) cpt u }"

definition save_interrupt_endpoints :: "libusb \<Rightarrow> usb \<Rightarrow> ((int + unit) \<times> usb) option" where
  "save_interrupt_endpoints L u =
     (let cfg = config L (handle u) in save_loop_i L cfg (unat (bNumInterfaces cfg)) 0 0 u)"

section \<open>Initialisation\<close>

text \<open>\<open>init_usb\<close>: 0 on success, 1 on an error it reports, \<open>Inl\<close> when a callee ends the process.\<close>

definition init_usb :: "libusb \<Rightarrow> usb \<Rightarrow> ((int + u8) \<times> usb) option" where
  "init_usb L u =
     (let (r, u) = invoke L Libusb_init u in
      if r \<noteq> 0 then Some (Inr 1, u)
      else case get_usb_device L u of
        (Inl e, u) \<Rightarrow> Some (Inl e, u)
      | (Inr d, u) \<Rightarrow>
        if d \<noteq> 0 then Some (Inr 1, u)
        else do {
          (r, u) \<leftarrow> unclaim_active_config L (handle u) u;
          case r of Inl e \<Rightarrow> Some (Inl e, u)
          | Inr _ \<Rightarrow>
            (let (s, u) = invoke L (Set_configuration (bConfigurationValue (config L (handle u)))) u in
             if s \<noteq> 0 then Some (Inr 1, u)
             else do {
               (r, u) \<leftarrow> save_interrupt_endpoints L u;
               case r of Inl e \<Rightarrow> Some (Inl e, u) | Inr _ \<Rightarrow> Some (Inr 0, u) }) })"

section \<open>Transfers\<close>

text \<open>
  The outcome of \<open>libusb_interrupt_transfer\<close> on an IN endpoint: the number of bytes it stores in
  \<open>*transferred\<close> and the data byte. \<open>key_pressed\<close> ignores the status the call returns.
\<close>

record xfer =
  bytes_in :: int
  data :: u8

definition key_pressed :: "xfer \<Rightarrow> u8" where
  "key_pressed t = (if bytes_in t = 1 then data t else 0)"

definition key_endpoint :: "usb \<Rightarrow> u8" where
  "key_endpoint u = bEndpointAddress (endp_list u ! 0)"

definition usb_send :: "libusb \<Rightarrow> u8 \<Rightarrow> usb \<Rightarrow> usb" where
  "usb_send L msg u = snd (invoke L (Interrupt_transfer (bEndpointAddress (endp_list u ! 1)) msg) u)"

section \<open>Which device is opened\<close>

text \<open>
  \<open>usable L h i\<close>: the descriptor of device \<open>i\<close> could be read when the calls \<open>h\<close> had been made, and
  it is the game pad.
\<close>

definition usable :: "libusb \<Rightarrow> call list \<Rightarrow> nat \<Rightarrow> bool" where
  "usable L h i \<longleftrightarrow> ret L h (Get_device_descriptor i) = 0 \<and> idProduct L i = ID_PRODUCT"

lemma find_device_handle:
  "find_device L n i u = (Inr 0, u') \<Longrightarrow>
     i \<le> handle u' \<and> handle u' < i + n \<and> idProduct L (handle u') = ID_PRODUCT \<and>
     Libusb_open (handle u') \<in> set (calls u') \<and> endp_list u' = endp_list u"
  by (induction n arbitrary: i u) (fastforce simp: invoke_def Let_def split: if_splits)+

lemma find_device_none:
  "(\<forall>j. i \<le> j \<and> j < i + n \<longrightarrow> idProduct L j \<noteq> ID_PRODUCT) \<Longrightarrow>
     \<exists>u'. find_device L n i u = (Inr 1, u')"
  by (induction n arbitrary: i u) (auto simp: invoke_def Let_def)

section \<open>The collected endpoints\<close>

definition first_interrupt :: "interface_descriptor \<Rightarrow> endpoint_descriptor option" where
  "first_interrupt d = List.find (\<lambda>e. bmAttributes e AND 3 = 3) (take (unat (bNumEndpoints d)) (endpoint d))"

text \<open>What libusb documents of a configuration: the arrays are as long as the counts say.\<close>

definition config_ok :: "config_descriptor \<Rightarrow> bool" where
  "config_ok cfg \<longleftrightarrow> length (interface cfg) = unat (bNumInterfaces cfg) \<and>
     (\<forall>alts \<in> set (interface cfg). alts \<noteq> [] \<and>
        unat (bNumEndpoints (hd alts)) = length (endpoint (hd alts)))"

definition interrupt_endpoints :: "config_descriptor \<Rightarrow> endpoint_descriptor list" where
  "interrupt_endpoints cfg = List.map_filter (\<lambda>alts. first_interrupt (hd alts)) (interface cfg)"

lemma save_loop_k_find:
  "k + n \<le> length (endpoint d) \<Longrightarrow> save_loop_k d n k cpt u =
     (case List.find (\<lambda>e. bmAttributes e AND 3 = 3) (take n (drop k (endpoint d))) of
        None \<Rightarrow> Some (cpt, u)
      | Some e \<Rightarrow> if cpt < length (endp_list u)
          then Some (Suc cpt, u\<lparr>endp_list := (endp_list u)[cpt := e]\<rparr>) else None)"
proof (induction n arbitrary: k)
  case (Suc n)
  then have "take (Suc n) (drop k (endpoint d)) = endpoint d ! k # take n (drop (Suc k) (endpoint d))"
    by (metis Cons_nth_drop_Suc Suc_le_lessD add_Suc_right le_add1 le_trans take_Suc_Cons
        not_less_eq_eq add.commute)
  with Suc show ?case by (simp add: nth_opt_def)
qed simp

lemma save_loop_k_first:
  "unat (bNumEndpoints d) = length (endpoint d) \<Longrightarrow>
   save_loop_k d (unat (bNumEndpoints d)) 0 cpt u =
     (case first_interrupt d of None \<Rightarrow> Some (cpt, u)
      | Some e \<Rightarrow> if cpt < length (endp_list u)
          then Some (Suc cpt, u\<lparr>endp_list := (endp_list u)[cpt := e]\<rparr>) else None)"
  using save_loop_k_find [of 0 "unat (bNumEndpoints d)" d] by (simp add: first_interrupt_def)

lemma overlay_step:
  "cpt < length xs \<Longrightarrow>
   take (Suc cpt) (xs[cpt := e]) @ ys @ drop (Suc cpt + length ys) (xs[cpt := e]) =
   take cpt xs @ (e # ys) @ drop (cpt + length (e # ys)) xs"
  by (simp add: take_Suc_conv_app_nth)

lemma save_loop_i_overlay:
  assumes "\<And>h c. ret L h (Claim_interface c) = 0"
    and "\<forall>alts \<in> set (drop i (interface cfg)). alts \<noteq> [] \<and> unat (bNumEndpoints (hd alts)) = length (endpoint (hd alts))"
    and "i + n = length (interface cfg)"
    and "ys = List.map_filter (\<lambda>alts. first_interrupt (hd alts)) (drop i (interface cfg))"
    and "cpt \<le> length (endp_list u)"
  shows "if cpt + length ys \<le> length (endp_list u)
         then \<exists>u'. save_loop_i L cfg n i cpt u = Some (Inr (), u') \<and> handle u' = handle u \<and>
                endp_list u' = take cpt (endp_list u) @ ys @ drop (cpt + length ys) (endp_list u)
         else save_loop_i L cfg n i cpt u = None"
  using assms(2-)
proof (induction n arbitrary: i cpt u ys)
  case 0
  then show ?case by simp
next
  case (Suc n)
  let ?alts = "interface cfg ! i"
  have i: "i < length (interface cfg)" using Suc.prems(2) by simp
  have d: "drop i (interface cfg) = ?alts # drop (Suc i) (interface cfg)"
    using i by (simp add: Cons_nth_drop_Suc)
  with Suc.prems(1) have alts: "?alts \<noteq> []"
      "unat (bNumEndpoints (hd ?alts)) = length (endpoint (hd ?alts))"
    by auto
  have step: "save_loop_i L cfg (Suc n) i cpt u = do {
      (cpt, u) \<leftarrow> save_loop_k (hd ?alts) (unat (bNumEndpoints (hd ?alts))) 0 cpt u;
      save_loop_i L cfg n (Suc i) cpt (u\<lparr>calls := Claim_interface (bInterfaceNumber (hd ?alts)) # calls u\<rparr>) }"
    using i alts(1) assms(1) by (simp add: nth_opt_def hd_conv_nth invoke_def)
  let ?zs = "List.map_filter (\<lambda>alts. first_interrupt (hd alts)) (drop (Suc i) (interface cfg))"
  have IH: "if c + length ?zs \<le> length (endp_list v)
         then \<exists>u'. save_loop_i L cfg n (Suc i) c v = Some (Inr (), u') \<and> handle u' = handle v \<and>
                endp_list u' = take c (endp_list v) @ ?zs @ drop (c + length ?zs) (endp_list v)
         else save_loop_i L cfg n (Suc i) c v = None" if "c \<le> length (endp_list v)" for c v
    by (rule Suc.IH) (use Suc.prems(1,2) d that in auto)
  show ?case
  proof (cases "first_interrupt (hd ?alts)")
    case None
    then have "ys = ?zs" using Suc.prems(3) d by simp
    with IH [of cpt "u\<lparr>calls := Claim_interface (bInterfaceNumber (hd ?alts)) # calls u\<rparr>"] step None
      Suc.prems(4) save_loop_k_first [OF alts(2), of cpt u]
    show ?thesis by (simp del: save_loop_i.simps split: if_splits)
  next
    case (Some e)
    then have ys: "ys = e # ?zs" using Suc.prems(3) d by simp
    show ?thesis
    proof (cases "cpt < length (endp_list u)")
      case False
      with step Some save_loop_k_first [OF alts(2), of cpt u] ys show ?thesis by (simp del: save_loop_i.simps split: if_splits)
    next
      case True
      let ?u = "u\<lparr>endp_list := (endp_list u)[cpt := e],
         calls := Claim_interface (bInterfaceNumber (hd ?alts)) # calls u\<rparr>"
      from step Some True save_loop_k_first [OF alts(2), of cpt u]
      have "save_loop_i L cfg (Suc n) i cpt u = save_loop_i L cfg n (Suc i) (Suc cpt) ?u" by (simp del: save_loop_i.simps)
      with IH [of "Suc cpt" ?u] True ys overlay_step [of cpt "endp_list u" e ?zs] show ?thesis by (simp del: save_loop_i.simps split: if_splits)
    qed
  qed
qed

section \<open>Calls made by the initialisation\<close>

lemma unclaim_loop_calls:
  "unclaim_loop L cfg n i u = Some (r, u') \<Longrightarrow>
     handle u' = handle u \<and> endp_list u' = endp_list u \<and> set (calls u) \<subseteq> set (calls u')"
proof (induction n arbitrary: i u)
  case (Suc n)
  from Suc.prems obtain d where d: "nth_opt (interface cfg) i \<bind> (\<lambda>x. nth_opt x 0) = Some d"
    by (auto simp: bind_eq_Some_conv)
  let ?u1 = "u\<lparr>calls := Kernel_driver_active (bInterfaceNumber d) # calls u\<rparr>"
  let ?u2 = "?u1\<lparr>calls := Detach_kernel_driver (bInterfaceNumber d) # calls ?u1\<rparr>"
  from Suc.prems d have "unclaim_loop L cfg n (Suc i) ?u1 = Some (r, u') \<or>
      unclaim_loop L cfg n (Suc i) ?u2 = Some (r, u') \<or> u' = ?u2"
    by (auto simp: invoke_def bind_eq_Some_conv Let_def split: if_splits)
  with Suc.IH [of "Suc i" ?u1] Suc.IH [of "Suc i" ?u2] show ?case by auto
qed simp

lemma save_loop_k_calls: "save_loop_k d n k cpt u = Some (cpt', u') \<Longrightarrow> handle u' = handle u \<and> calls u' = calls u"
  by (induction n arbitrary: k) (auto simp: bind_eq_Some_conv split: if_splits)

lemma save_loop_i_calls:
  "save_loop_i L cfg n i cpt u = Some (Inr (), u') \<Longrightarrow>
     handle u' = handle u \<and> set (calls u) \<subseteq> set (calls u') \<and>
     (\<forall>j. i \<le> j \<and> j < i + n \<longrightarrow> j < length (interface cfg) \<and>
        Claim_interface (bInterfaceNumber (interface cfg ! j ! 0)) \<in> set (calls u'))"
proof (induction n arbitrary: i cpt u)
  case (Suc n)
  from Suc.prems obtain c v where
      i: "i < length (interface cfg)"
    and k: "save_loop_k (interface cfg ! i ! 0) (unat (bNumEndpoints (interface cfg ! i ! 0))) 0 cpt u = Some (c, v)"
    and r: "save_loop_i L cfg n (Suc i) c (v\<lparr>calls := Claim_interface (bInterfaceNumber (interface cfg ! i ! 0)) # calls v\<rparr>)
       = Some (Inr (), u')"
    by (auto simp: bind_eq_Some_conv nth_opt_def invoke_def split: if_splits)
  have "i \<le> j \<longleftrightarrow> j = i \<or> Suc i \<le> j" for j by auto
  with Suc.IH [OF r] save_loop_k_calls [OF k] i show ?case by auto
qed auto

section \<open>Properties of the host driver\<close>

text \<open>
  Property C18. When every claim succeeds, \<open>save_interrupt_endpoints\<close> stores in \<open>endp_list\<close>, from
  the first place on, the first interrupt endpoint of each interface that has one, in the order of
  the interfaces; with more than ten such interfaces it writes behind the array.
\<close>

theorem save_interrupt_endpoints_spec:
  assumes "\<And>h c. ret L h (Claim_interface c) = 0" "config_ok (config L (handle u))"
    and "length (endp_list u) = 10"
  shows "if length (interrupt_endpoints (config L (handle u))) \<le> 10
     then \<exists>u'. save_interrupt_endpoints L u = Some (Inr (), u') \<and> handle u' = handle u \<and>
        endp_list u' = interrupt_endpoints (config L (handle u)) @
          drop (length (interrupt_endpoints (config L (handle u)))) (endp_list u)
     else save_interrupt_endpoints L u = None"
proof -
  let ?cfg = "config L (handle u)"
  have ys: "interrupt_endpoints ?cfg = List.map_filter (\<lambda>alts. first_interrupt (hd alts)) (drop 0 (interface ?cfg))"
    by (simp add: interrupt_endpoints_def)
  have "\<forall>alts \<in> set (drop 0 (interface ?cfg)). alts \<noteq> [] \<and> unat (bNumEndpoints (hd alts)) = length (endpoint (hd alts))"
    "0 + unat (bNumInterfaces ?cfg) = length (interface ?cfg)"
    using assms(2) by (simp_all add: config_ok_def)
  from save_loop_i_overlay [OF assms(1) this ys, of 0 u] show ?thesis unfolding assms(3)
    by (simp add: save_interrupt_endpoints_def Let_def split: if_splits)
qed

theorem save_interrupt_endpoints_spec_witness:
  "\<exists>u'. save_interrupt_endpoints \<lparr>ret = \<lambda>_ _. 0, idProduct = \<lambda>_. ID_PRODUCT,
       active_config = \<lambda>_. \<lparr>bNumInterfaces = 1, bConfigurationValue = 1, interface = []\<rparr>,
       config = \<lambda>_. \<lparr>bNumInterfaces = 1, bConfigurationValue = 1, interface =
         [[\<lparr>bInterfaceNumber = 0, bNumEndpoints = 2,
            endpoint = [\<lparr>bEndpointAddress = 1, bmAttributes = 2\<rparr>, \<lparr>bEndpointAddress = 0x81, bmAttributes = 3\<rparr>]\<rparr>]]\<rparr>\<rparr> usb0 =
     Some (Inr (), u') \<and> endp_list u' ! 0 = \<lparr>bEndpointAddress = 0x81, bmAttributes = 3\<rparr>"
proof -
  let ?cfg = "\<lparr>bNumInterfaces = 1, bConfigurationValue = 1, interface =
         [[\<lparr>bInterfaceNumber = 0, bNumEndpoints = 2,
            endpoint = [\<lparr>bEndpointAddress = 1, bmAttributes = 2\<rparr>, \<lparr>bEndpointAddress = 0x81, bmAttributes = 3\<rparr>]\<rparr>]]\<rparr>"
  let ?L = "\<lparr>ret = \<lambda>_ _. 0, idProduct = \<lambda>_. ID_PRODUCT,
       active_config = \<lambda>_. \<lparr>bNumInterfaces = 1, bConfigurationValue = 1, interface = []\<rparr>, config = \<lambda>_. ?cfg\<rparr>"
  have c: "config_ok (config ?L (handle usb0))" by (simp add: config_ok_def)
  have i: "interrupt_endpoints (config ?L (handle usb0)) = [\<lparr>bEndpointAddress = 0x81, bmAttributes = 3\<rparr>]"
    by (simp add: interrupt_endpoints_def first_interrupt_def)
  have l: "length (endp_list usb0) = 10" by (simp add: usb0_def)
  from save_interrupt_endpoints_spec [OF _ c l] show ?thesis unfolding i by auto
qed



end
