(* ===== verification/Game_Main.thy ===== *)
theory Game_Main
  imports Menus Usb_Host
begin

text \<open>
  The program \<open>main\<close> of \<open>src/SimpleSnake/game.c\<close>: the set-up before the loop, one round of the
  \<open>while(1)\<close> loop (\<open>game_tick\<close>), and the loop.

  What the program reads from outside is a record of sequences, one per source: the results of the
  interrupt transfers, of \<open>getch\<close>, of \<open>rand\<close> and of \<open>getmaxyx\<close>, each indexed by the number of calls
  made so far. The value an uninitialised local holds (\<open>ch2\<close> in a game for one player) is part of
  that record too.
\<close>

section \<open>State and surroundings\<close>

record env =
  lib :: libusb
  kbd :: curses_keys
  transfer_at :: "nat \<Rightarrow> xfer"
  getch_at :: "nat \<Rightarrow> int"
  rand_at :: "nat \<Rightarrow> int"
  maxyx_at :: "nat \<Rightarrow> int \<times> int"
  typed :: string
  ch2_junk :: int

text \<open>
  The locals of \<open>main\<close>, the globals, the heap, the counters of the calls made, the USB side (with the
  transfers to the device) and the picture drawn since the last \<open>clear\<close>.
\<close>

record game =
  hp :: heap
  gv :: globals
  snake :: nat
  snake_b :: nat
  nb_player :: int
  ch2 :: int
  start :: int
  n_key :: nat
  n_getch :: nat
  n_rand :: nat
  n_maxyx :: nat
  link :: usb
  picture :: "draw list"

datatype outcome = Continue | Stop int  \<comment> \<open>\<open>Stop loose\<close> leaves the loop\<close>

definition keys_of :: "env \<Rightarrow> nat \<Rightarrow> u8" where
  "keys_of E k = key_pressed (transfer_at E k)"

section \<open>One round of the loop\<close>

text \<open>The bytes \<open>'0'\<close> and \<open>'1'\<close> switch the LED of the pad.\<close>

definition send2 :: "env \<Rightarrow> u8 \<Rightarrow> game \<Rightarrow> game" where
  "send2 E b s = s\<lparr>link := usb_send (lib E) b (usb_send (lib E) b (link s))\<rparr>"

text \<open>
  Reading the inputs and the pause menu. The result says whether the player chose to quit, and gives
  the key of player 1.
\<close>

definition poll :: "env \<Rightarrow> game \<Rightarrow> int \<times> game" where
  "poll E s =
     (let yx = maxyx_at E (n_maxyx s);
          s = s\<lparr>gv := (gv s)\<lparr>max_y := fst yx, max_x := snd yx\<rparr>, n_maxyx := Suc (n_maxyx s)\<rparr>;
          ch = uint (keys_of E (n_key s));
          s = s\<lparr>n_key := Suc (n_key s)\<rparr>
      in (ch, if nb_player s = 2
              then s\<lparr>ch2 := getch_at E (n_getch s), n_getch := Suc (n_getch s)\<rparr> else s))"

definition pause :: "env \<Rightarrow> int \<Rightarrow> game \<Rightarrow> (bool \<times> int \<times> game) option" where
  "pause E ch s = do {
     let s = send2 E 49 s;
     (r, g, k, _) \<leftarrow> quit_disp (maxyx_at E (n_maxyx s)) (keys_of E) (n_key s) (gv s);
     let s = s\<lparr>gv := g, n_key := k, n_maxyx := Suc (n_maxyx s)\<rparr>;
     if r \<noteq> 0 then Some (True, ch, s) else Some (False, ch, (send2 E 48 s)\<lparr>start := 0\<rparr>) }"

definition read_inputs :: "env \<Rightarrow> game \<Rightarrow> (bool \<times> int \<times> game) option" where
  "read_inputs E s =
     (let (ch, s) = poll E s
      in if (ch = USBKEY_FCT \<or> ch2 s = 27) \<and> start s = 0 then pause E ch s
         else Some (False, ch, s\<lparr>start := 0\<rparr>))"

definition steer :: "env \<Rightarrow> int \<Rightarrow> game \<Rightarrow> game" where
  "steer E ch s =
     (let s = (if ch = USBKEY_UP \<or> ch = USBKEY_DOWN \<or> ch = USBKEY_LEFT \<or> ch = USBKEY_RIGHT
               then s\<lparr>gv := set_dir (kbd E) ch 1 (gv s)\<rparr> else s)
      in if nb_player s = 2
         then (if ch2 s = KEY_UP (kbd E) \<or> ch2 s = KEY_DOWN (kbd E) \<or> ch2 s = KEY_LEFT (kbd E) \<or>
                  ch2 s = KEY_RIGHT (kbd E)
               then s\<lparr>gv := set_dir (kbd E) (ch2 s) 2 (gv s)\<rparr> else s)
         else s)"

text \<open>From \<open>clear()\<close> to the second \<open>snake_disp\<close>: draw, spawn, move.\<close>

definition draw_and_move :: "env \<Rightarrow> game \<Rightarrow> game option" where
  "draw_and_move E s = do {
     let pic = UI_draw (gv s);
     d1 \<leftarrow> score_disp 1 (gv s);
     d2 \<leftarrow> (if nb_player s = 2 then score_disp 2 (gv s) else Some []);
     (g, k) \<leftarrow> bonus_create (rand_at E) (n_rand s) (gv s);
     d3 \<leftarrow> bonus_disp g;
     (p, h, g) \<leftarrow> snake_move (snake s) (dir g) 1 (hp s) g;
     (q, h, g) \<leftarrow> (if nb_player s = 2 then snake_move (snake_b s) (dir_b g) 2 h g
                  else Some (snake_b s, h, g));
     d4 \<leftarrow> snake_disp h p;
     d5 \<leftarrow> (if nb_player s = 2 then snake_disp h q else Some []);
     Some (s\<lparr>hp := h, gv := g, snake := p, snake_b := q, n_rand := k,
             picture := pic @ d1 @ d2 @ d3 @ d4 @ d5\<rparr>) }"

text \<open>The checks after the move, in the order of the source.\<close>

definition checks_1 :: "game \<Rightarrow> (outcome \<times> game) option" where
  "checks_1 s =
     (if wall_check 1 (gv s) \<noteq> 0 then Some (Stop 1, s)
      else do {
        crash \<leftarrow> crash_check (snake s) (hp s);
        if crash \<noteq> 0 then Some (Stop 1, s)
        else do {
          (p, h, g) \<leftarrow> bonus_check (snake s) 1 (hp s) (gv s);
          Some (Continue, s\<lparr>hp := h, gv := g, snake := p\<rparr>) } })"

definition checks_2 :: "game \<Rightarrow> (outcome \<times> game) option" where
  "checks_2 s =
     (if wall_check 2 (gv s) \<noteq> 0 then Some (Stop 2, s)
      else do {
        crash \<leftarrow> crash_check (snake_b s) (hp s);
        if crash \<noteq> 0 then Some (Stop 2, s)
        else do {
          (q, h, g) \<leftarrow> bonus_check (snake_b s) 2 (hp s) (gv s);
          let s = s\<lparr>hp := h, gv := g, snake_b := q\<rparr>;
          hit2 \<leftarrow> crash_snake_check (snake s) 2 (hp s) (gv s);
          if hit2 \<noteq> 0 then Some (Stop 2, s)
          else do {
            hit1 \<leftarrow> crash_snake_check (snake_b s) 1 (hp s) (gv s);
            Some (if hit1 \<noteq> 0 then Stop 1 else Continue, s) } } })"

definition game_tick :: "env \<Rightarrow> game \<Rightarrow> (outcome \<times> game) option" where
  "game_tick E s = do {
     (quit, ch, s) \<leftarrow> read_inputs E s;
     if quit then Some (Stop 0, s)
     else do {
       s \<leftarrow> draw_and_move E (steer E ch s);
       (r, s) \<leftarrow> checks_1 s;
       case r of
         Stop l \<Rightarrow> Some (Stop l, s)
       | Continue \<Rightarrow> if nb_player s = 2 then checks_2 s else Some (Continue, s) } }"

section \<open>The program\<close>

partial_function (option) game_loop :: "env \<Rightarrow> game \<Rightarrow> (int \<times> game) option" where
  "game_loop E s = do {
     (r, s) \<leftarrow> game_tick E s;
     case r of Stop l \<Rightarrow> Some (l, s) | Continue \<Rightarrow> game_loop E s }"

definition players :: "int \<Rightarrow> int" where
  "players n = (if n \<noteq> 1 \<and> n \<noteq> 2 then 1 else n)"

text \<open>The state when the loop is entered: menus, then the snakes, then the bonus table.\<close>

definition game_init :: "env \<Rightarrow> usb \<Rightarrow> heap \<Rightarrow> int \<Rightarrow> nat \<Rightarrow> game option" where
  "game_init E u h n junk_b = do {
     (g, k, _) \<leftarrow> menu_disp (maxyx_at E 0) (keys_of E) 0 globals0;
     g \<leftarrow> menu2_disp (maxyx_at E 1) (typed E) g;
     let yx = maxyx_at E 2;
     let g = g\<lparr>max_y := fst yx, max_x := snd yx\<rparr>;
     (p, h, g) \<leftarrow> init_snake 1 h g;
     (q, h, g) \<leftarrow> (if n = 2 then init_snake 2 h g else Some (junk_b, h, g));
     g \<leftarrow> init_bonus g;
     Some \<lparr>hp = h, gv = g, snake = p, snake_b = q, nb_player = n, ch2 = ch2_junk E, start = 1,
           n_key = k, n_getch = 0, n_rand = 0, n_maxyx = 3, link = u, picture = []\<rparr> }"

text \<open>The lines printed after the loop.\<close>

definition verdict :: "int \<Rightarrow> string" where
  "verdict loose =
     (if loose = 1 then ''Player 1 lost the game !''
      else if loose = 0 then ''Game over !''
      else ''Player 2 lost the game !'')"

datatype exit_status =
    Usage            \<comment> \<open>wrong number of arguments: message, \<open>exit(-1)\<close>\<close>
  | No_device        \<comment> \<open>\<open>init_usb\<close> reported an error: message, \<open>exit(-1)\<close>\<close>
  | Usb_exit int     \<comment> \<open>\<open>init_usb\<close> ended the process\<close>
  | Played string usb  \<comment> \<open>the verdict, and the USB side with all calls made\<close>

definition main :: "env \<Rightarrow> heap \<Rightarrow> nat \<Rightarrow> string list \<Rightarrow> exit_status option" where
  "main E h junk_b argv =
     (if length argv \<noteq> 2 then Some Usage
      else do {
        (r, u) \<leftarrow> init_usb (lib E) usb0;
        case r of
          Inl e \<Rightarrow> Some (Usb_exit e)
        | Inr b \<Rightarrow>
          if b \<noteq> 0 then Some No_device
          else do {
            n \<leftarrow> atoi (argv ! 1);
            s \<leftarrow> game_init E u h (players n) junk_b;
            (loose, s) \<leftarrow> game_loop E s;
            Some (Played (verdict loose) (link (send2 E 48 s))) } })"

end
