(* ===== verification/Snake_Laws.thy ===== *)
theory Snake_Laws
  imports Snake_Game
begin

text \<open>
  The game on plain lists, and the proof that the operations of \<open>Snake_Game\<close> implement it. A snake
  is the list of its positions from the tip of the tail to the head.
\<close>

section \<open>Directions\<close>

definition is_dir :: "int \<Rightarrow> bool" where
  "is_dir d \<longleftrightarrow> d = UP \<or> d = DOWN \<or> d = RIGHT \<or> d = LEFT"

definition opposite :: "int \<Rightarrow> int" where
  "opposite d = (if d = UP then DOWN else if d = DOWN then UP else if d = RIGHT then LEFT else RIGHT)"

definition shift_pos :: "int \<Rightarrow> pos \<Rightarrow> int \<Rightarrow> pos" where
  "shift_pos s p d = \<lparr>px = px p + s * (if d = UP then -1 else if d = DOWN then 1 else 0),
     py = py p + s * (if d = LEFT then -1 else if d = RIGHT then 1 else 0), pdir = d\<rparr>"

text \<open>
  The position a head moves to when the direction \<open>d\<close> is wanted: a wish to turn back is ignored.
  Growth puts a new tip one step behind the old one.
\<close>

definition next_head :: "pos \<Rightarrow> int \<Rightarrow> pos" where
  "next_head p d = shift_pos 1 p (if pdir p = opposite d then pdir p else d)"

definition new_tip :: "pos \<Rightarrow> pos" where
  "new_tip p = shift_pos (-1) p (pdir p)"

text \<open>Every cell but the first is one step from the cell before it, in its own direction.\<close>

fun linked :: "pos list \<Rightarrow> bool" where
  "linked [] \<longleftrightarrow> True"
| "linked [c] \<longleftrightarrow> is_dir (pdir c)"
| "linked (c # d # cs) \<longleftrightarrow> is_dir (pdir c) \<and> d = shift_pos 1 c (pdir d) \<and> linked (d # cs)"

lemma linked_tl: "linked cs \<Longrightarrow> linked (tl cs)"
  by (induction cs rule: linked.induct) auto

lemma linked_snoc: "linked cs \<Longrightarrow> cs \<noteq> [] \<Longrightarrow> is_dir d \<Longrightarrow> linked (cs @ [shift_pos 1 (last cs) d])"
proof (induction cs rule: linked.induct)
  case (2 c)
  then show ?case by (simp add: shift_pos_def)
qed auto

lemma is_dir_last: "linked cs \<Longrightarrow> cs \<noteq> [] \<Longrightarrow> is_dir (pdir (last cs))"
  by (induction cs rule: linked.induct) auto

lemma is_dir_hd: "linked cs \<Longrightarrow> cs \<noteq> [] \<Longrightarrow> is_dir (pdir (hd cs))"
  by (induction cs rule: linked.induct) auto

lemma next_head_shift: "is_dir d \<Longrightarrow> is_dir (pdir p) \<Longrightarrow> \<exists>d'. is_dir d' \<and> next_head p d = shift_pos 1 p d'"
  by (auto simp: next_head_def)

lemma pdir_next_head: "pdir (next_head p d) = (if pdir p = opposite d then pdir p else d)"
  by (simp add: next_head_def shift_pos_def)

lemma is_dir_opposite: "is_dir d \<Longrightarrow> is_dir (opposite d) \<and> opposite (opposite d) = d \<and> opposite d \<noteq> d"
  by (auto simp: is_dir_def opposite_def)

lemma linked_move:
  assumes "linked cs" "cs \<noteq> []" "is_dir d"
  shows "linked (tl cs @ [next_head (last cs) d])"
proof -
  from next_head_shift [OF assms(3) is_dir_last [OF assms(1,2)]] obtain d'
    where d': "is_dir d'" "next_head (last cs) d = shift_pos 1 (last cs) d'" by blast
  have "linked (tl (cs @ [next_head (last cs) d]))"
    unfolding d'(2) by (rule linked_tl [OF linked_snoc [OF assms(1,2) d'(1)]])
  then show ?thesis using assms(2) by (simp add: tl_snoc)
qed

lemma linked_grow: "linked cs \<Longrightarrow> cs \<noteq> [] \<Longrightarrow> linked (new_tip (hd cs) # cs)"
  by (induction cs rule: linked.induct) (auto simp: new_tip_def shift_pos_def is_dir_def)

section \<open>Movement\<close>

lemma pos_collapse [simp]: "\<lparr>px = px p, py = py p, pdir = pdir p\<rparr> = p"
  by (cases p) simp

lemma advance_rep:
  assumes "snake_rep h p cs R" "cs \<noteq> []" "0 < room h"
  shows "\<exists>p' h'. advance p x y d i h g = Some (p', h', set_snake_end i \<lparr>cpos = \<lparr>px = x, py = y, pdir = d\<rparr>, cnext = 0\<rparr> g)
     \<and> snake_rep h' p' (tl cs @ [\<lparr>px = x, py = y, pdir = d\<rparr>]) R \<and> room h' = room h"
proof -
  from snake_store.shift [OF assms, of "\<lparr>px = x, py = y, pdir = d\<rparr>"] obtain h1 p' h'
    where "tail_link p \<lparr>px = x, py = y, pdir = d\<rparr> h = Some h1" "head_del p h1 = Some (p', h')"
      "snake_rep h' p' (tl cs @ [\<lparr>px = x, py = y, pdir = d\<rparr>]) R" "room h' = room h"
    by blast
  then show ?thesis by (simp add: advance_def tail_add_def)
qed

lemma snake_move_advance:
  assumes "is_dir d" "end_of i g = Some e"
  shows "snake_move p d i h g =
    advance p (px (next_head (cpos e) d)) (py (next_head (cpos e) d)) (pdir (next_head (cpos e) d)) i h g"
  using assms by (auto simp: snake_move_def is_dir_def next_head_def shift_pos_def opposite_def)

lemma snake_move_rep:
  assumes "snake_rep h p cs R" "cs \<noteq> []" "0 < room h" "is_dir d"
    and "end_of i g = Some \<lparr>cpos = last cs, cnext = 0\<rparr>"
  shows "\<exists>p' h'. snake_move p d i h g =
      Some (p', h', set_snake_end i \<lparr>cpos = next_head (last cs) d, cnext = 0\<rparr> g) \<and>
      snake_rep h' p' (tl cs @ [next_head (last cs) d]) R \<and> room h' = room h"
  using advance_rep [OF assms(1-3), of "px (next_head (last cs) d)" "py (next_head (last cs) d)"
      "pdir (next_head (last cs) d)" i g] snake_move_advance [OF assms(4,5), of p h]
  by simp

section \<open>Growth\<close>

lemma snake_rep_hd:
  assumes "snake_rep h p cs R" "cs \<noteq> []"
  shows "\<exists>n. deref p h = Some \<lparr>cpos = hd cs, cnext = n\<rparr>"
proof -
  from assms obtain A where "chain (cells h) p A cs" by (auto simp: snake_rep_def)
  then show ?thesis using assms(2) by (cases cs; cases A) auto
qed

lemma snake_grow_rep:
  assumes "snake_rep h p cs R" "cs \<noteq> []" "0 < room h" "is_dir (pdir (hd cs))"
  shows "\<exists>p' h'. snake_grow p h = Some (p', h') \<and> snake_rep h' p' (new_tip (hd cs) # cs) R \<and>
     Suc (room h') = room h"
proof -
  from snake_rep_hd [OF assms(1,2)] obtain n where n: "deref p h = Some \<lparr>cpos = hd cs, cnext = n\<rparr>" ..
  have "snake_grow p h = head_add p (new_tip (hd cs)) h"
    using assms(4) n by (auto simp: snake_grow_def is_dir_def new_tip_def shift_pos_def)
  then show ?thesis using head_add_rep [OF assms(1,3)] by simp
qed

section \<open>Initial snakes\<close>

definition start_snake :: "int \<Rightarrow> pos list" where
  "start_snake row = map (\<lambda>y. \<lparr>px = row, py = y, pdir = RIGHT\<rparr>) [1, 2, 3]"

lemma get_tail_rep:
  assumes "snake_rep h p cs R" "cs \<noteq> []"
  shows "get_tail p h = Some \<lparr>cpos = last cs, cnext = 0\<rparr>"
proof -
  from assms obtain A where A: "chain (cells h) p A cs" by (auto simp: snake_rep_def)
  with assms(2) walk_last_chain [OF A] chain_last [OF A] show ?thesis by (simp add: get_tail_def)
qed

lemma init_snake_rep:
  assumes "snake_rep h 0 [] R" "3 \<le> room h" "i = 1 \<and> row = 2 \<or> i = 2 \<and> row = max_y g - 3"
  shows "\<exists>p h'. init_snake i h g =
      Some (p, h', set_snake_end i \<lparr>cpos = last (start_snake row), cnext = 0\<rparr> g) \<and>
      snake_rep h' p (start_snake row) R \<and> room h' + 3 = room h"
proof -
  let ?c = "\<lambda>y. \<lparr>px = row, py = y, pdir = RIGHT\<rparr>"
  from snake_store.build3 [OF assms(1,2), of "?c 3" "?c 2" "?c 1"] obtain p1 h1 p2 h2 p3 h3
    where b: "head_add 0 (?c 3) h = Some (p1, h1)" "head_add p1 (?c 2) h1 = Some (p2, h2)"
      "head_add p2 (?c 1) h2 = Some (p3, h3)" "snake_rep h3 p3 [?c 1, ?c 2, ?c 3] R" "room h3 + 3 = room h"
    by blast
  from get_tail_rep [OF b(4)] have "get_tail p3 h3 = Some \<lparr>cpos = ?c 3, cnext = 0\<rparr>" by simp
  with b assms(3) show ?thesis by (auto simp: init_snake_def start_snake_def)
qed

section \<open>Bonus items\<close>

lemma place_bonus_spec:
  "i + n \<le> length bl \<Longrightarrow> place_bonus n i x y bl =
     Some (case List.find (\<lambda>j. activ (bl ! j) = 0) [i ..< i + n] of
             None \<Rightarrow> bl | Some j \<Rightarrow> bl[j := \<lparr>pos_x = x, pos_y = y, activ = 1\<rparr>])"
  by (induction n arbitrary: i) (auto simp: upt_rec)

lemma clear_bonus_spec:
  "i + n \<le> length bl \<Longrightarrow> clear_bonus n i bl =
     Some (take i bl @ replicate n \<lparr>pos_x = 0, pos_y = 0, activ = 0\<rparr> @ drop (i + n) bl)"
proof (induction n arbitrary: i bl)
  case (Suc n)
  then show ?case by (simp add: take_Suc_conv_app_nth)
qed simp

lemma disp_loop_spec:
  "i + n \<le> length bl \<Longrightarrow> disp_loop n i bl =
     Some (map (\<lambda>b. (pos_y b, pos_x b, ''+'')) (filter (\<lambda>b. activ b \<noteq> 0) (take n (drop i bl))))"
proof (induction n arbitrary: i)
  case (Suc n)
  then have "take (Suc n) (drop i bl) = bl ! i # take n (drop (Suc i) bl)"
    by (simp add: Cons_nth_drop_Suc [symmetric])
  with Suc show ?case by simp
qed simp

lemma find_bonus_spec:
  "i + n \<le> length bl \<Longrightarrow> find_bonus n i p bl =
     Some (List.find (\<lambda>j. px p = pos_y (bl ! j) \<and> py p = pos_x (bl ! j)) [i ..< i + n])"
  by (induction n arbitrary: i) (auto simp: upt_rec)

lemma find_Some_upt: "List.find P [0 ..< n] = Some j \<Longrightarrow> j < n \<and> P j"
  by (auto simp: find_Some_iff)

definition bonus_ok :: "globals \<Rightarrow> bool" where
  "bonus_ok g \<longleftrightarrow> length (bonus_list g) = MAX_BONUS \<and> max_bonus g \<le> 100"

text \<open>The bonus a head at \<open>p\<close> collects.\<close>

definition bonus_at :: "pos \<Rightarrow> globals \<Rightarrow> nat option" where
  "bonus_at p g = List.find (\<lambda>j. px p = pos_y (bonus_list g ! j) \<and> py p = pos_x (bonus_list g ! j))
     [0 ..< nat (max_bonus g)]"

definition collect :: "int \<Rightarrow> nat \<Rightarrow> globals \<Rightarrow> globals" where
  "collect i j g = (add_score i g)\<lparr>nb_bonus := nb_bonus g - 1,
     bonus_list := (bonus_list g)[j := (bonus_list g ! j)\<lparr>activ := 0\<rparr>]\<rparr>"

lemma bonus_check_eq:
  assumes "bonus_ok g" "end_of i g = Some e"
  shows "bonus_check p i h g =
    (case bonus_at (cpos e) g of None \<Rightarrow> Some (p, h, g)
     | Some j \<Rightarrow> do { (p', h') \<leftarrow> snake_grow p h; Some (p', h', collect i j g) })"
  using assms find_bonus_spec [of 0 "nat (max_bonus g)" "bonus_list g" "cpos e"]
  by (auto simp: bonus_check_def bonus_ok_def bonus_at_def collect_def add_score_def
      split: option.splits)

lemma bonus_check_rep:
  assumes "bonus_ok g" "end_of i g = Some e" "snake_rep h p cs R" "cs \<noteq> []" "0 < room h"
    and "is_dir (pdir (hd cs))"
  shows "\<exists>p' h' cs'. bonus_check p i h g =
      Some (p', h', case bonus_at (cpos e) g of None \<Rightarrow> g | Some j \<Rightarrow> collect i j g) \<and>
      snake_rep h' p' cs' R \<and> room h \<le> Suc (room h') \<and>
      cs' = (case bonus_at (cpos e) g of None \<Rightarrow> cs | Some _ \<Rightarrow> new_tip (hd cs) # cs)"
proof (cases "bonus_at (cpos e) g")
  case None
  then show ?thesis using assms bonus_check_eq [OF assms(1,2), of p h] by auto
next
  case (Some j)
  from snake_grow_rep [OF assms(3-6)] obtain p' h'
    where "snake_grow p h = Some (p', h')" "snake_rep h' p' (new_tip (hd cs) # cs) R" "Suc (room h') = room h"
    by blast
  then show ?thesis using Some bonus_check_eq [OF assms(1,2), of p h] by auto
qed

end

