(* ===== verification/Game_Refinement.thy ===== *)
theory Game_Refinement
  imports Game_Main Snake_Laws
begin

text \<open>
  One round of the game on plain lists (\<open>abstract_tick\<close>), its invariant, and the proof that the
  program's \<open>game_tick\<close>, with its heap of cells, returns and computes exactly that round.
\<close>

section \<open>Scores fit their buffers\<close>

lemma length_dec_nat: "n < 10 ^ Suc k \<Longrightarrow> length (dec_nat n) \<le> Suc k"
proof (induction k arbitrary: n)
  case 0
  then show ?case by (subst dec_nat.simps) simp
next
  case (Suc k)
  show ?case
  proof (cases "n < 10")
    case True
    then show ?thesis by (subst dec_nat.simps) simp
  next
    case False
    from Suc.prems have "n div 10 < 10 ^ Suc k" by (simp add: less_mult_imp_div_less)
    from Suc.IH [OF this] False show ?thesis by (subst dec_nat.simps) simp
  qed
qed

lemma score_text_Some: "0 \<le> n \<Longrightarrow> n < 10 ^ 7 \<Longrightarrow> score_text n = Some (''Score : '' @ dec_int n)"
  using length_dec_nat [of "nat n" 6] by (auto simp: score_text_def dec_int_def)

section \<open>The abstract round\<close>

record board =
  body :: "pos list"
  body_b :: "pos list"
  glob :: globals

definition inside :: "globals \<Rightarrow> pos \<Rightarrow> bool" where
  "inside g p \<longleftrightarrow> 1 < px p \<and> px p < max_y g - 2 \<and> 0 < py p \<and> py p < max_x g - 1"

lemma hits_wall_inside: "hits_wall p g = (if inside g p then 0 else 1)"
  by (auto simp: hits_wall_def inside_def)

definition move_body :: "int \<Rightarrow> pos list \<Rightarrow> pos list" where
  "move_body d cs = tl cs @ [next_head (last cs) d]"

definition end_cell :: "pos list \<Rightarrow> cell" where
  "end_cell cs = \<lparr>cpos = last cs, cnext = 0\<rparr>"

definition move_all :: "bool \<Rightarrow> board \<Rightarrow> board" where
  "move_all two b =
     (let cs = move_body (dir (glob b)) (body b);
          g = (glob b)\<lparr>snake_end := end_cell cs\<rparr>
      in if two then
           (let ds = move_body (dir_b g) (body_b b)
            in \<lparr>body = cs, body_b = ds, glob = g\<lparr>snake_end_b := end_cell ds\<rparr>\<rparr>)
         else \<lparr>body = cs, body_b = body_b b, glob = g\<rparr>)"

definition eat :: "int \<Rightarrow> pos list \<Rightarrow> globals \<Rightarrow> pos list \<times> globals" where
  "eat i cs g = (case bonus_at (last cs) g of None \<Rightarrow> (cs, g)
     | Some j \<Rightarrow> (new_tip (hd cs) # cs, collect i j g))"

definition judge_1 :: "board \<Rightarrow> outcome \<times> board" where
  "judge_1 b =
     (if \<not> inside (glob b) (last (body b)) \<or> \<not> distinct (map xy (body b)) then (Stop 1, b)
      else let (cs, g) = eat 1 (body b) (glob b) in (Continue, b\<lparr>body := cs, glob := g\<rparr>))"

definition judge_2 :: "board \<Rightarrow> outcome \<times> board" where
  "judge_2 b =
     (if \<not> inside (glob b) (last (body_b b)) \<or> \<not> distinct (map xy (body_b b)) then (Stop 2, b)
      else let (ds, g) = eat 2 (body_b b) (glob b); b' = b\<lparr>body_b := ds, glob := g\<rparr> in
        (if xy (last ds) \<in> xy ` set (body b) then Stop 2
         else if xy (last (body b)) \<in> xy ` set ds then Stop 1 else Continue, b'))"

definition judge :: "bool \<Rightarrow> board \<Rightarrow> outcome \<times> board" where
  "judge two b = (case judge_1 b of (Stop l, b) \<Rightarrow> (Stop l, b)
     | (Continue, b) \<Rightarrow> if two then judge_2 b else (Continue, b))"

section \<open>The invariant\<close>

definition is_rate :: "int \<Rightarrow> bool" where
  "is_rate r \<longleftrightarrow> r \<in> {LOW, NORMAL, FAST, INSANE}"

definition board_ok :: "bool \<Rightarrow> board \<Rightarrow> bool" where
  "board_ok two b \<longleftrightarrow>
     linked (body b) \<and> linked (body_b b) \<and>
     0 \<le> score (glob b) \<and> int (length (body b)) = 3 + score (glob b) \<and>
     snake_end (glob b) = end_cell (body b) \<and>
     (if two then 0 \<le> score_b (glob b) \<and> int (length (body_b b)) = 3 + score_b (glob b) \<and>
                  snake_end_b (glob b) = end_cell (body_b b)
      else body_b b = []) \<and>
     is_dir (dir (glob b)) \<and> is_dir (dir_b (glob b)) \<and> bonus_ok (glob b) \<and>
     is_rate (spawning_rate (glob b))"

text \<open>The program state \<open>s\<close> represents the board \<open>b\<close>.\<close>

definition represents :: "game \<Rightarrow> board \<Rightarrow> bool" where
  "represents s b \<longleftrightarrow> gv s = glob b \<and>
     snakes (hp s) (snake s) (body b) (if nb_player s = 2 then snake_b s else 0) (body_b b)"

lemma board_ok_body: "board_ok two b \<Longrightarrow> body b \<noteq> []"
  by (auto simp: board_ok_def)

lemma board_ok_body_b: "board_ok True b \<Longrightarrow> body_b b \<noteq> []"
  by (auto simp: board_ok_def)

lemma length_move_body [simp]: "cs \<noteq> [] \<Longrightarrow> length (move_body d cs) = length cs"
  by (cases cs) (auto simp: move_body_def)

lemma last_move_body [simp]: "last (move_body d cs) = next_head (last cs) d"
  by (simp add: move_body_def)

lemma move_body_ne [simp]: "move_body d cs \<noteq> []"
  by (simp add: move_body_def)

lemma bonus_ok_upd [simp]:
  "bonus_ok (g\<lparr>snake_end := c\<rparr>) = bonus_ok g" "bonus_ok (g\<lparr>snake_end_b := c\<rparr>) = bonus_ok g"
  "bonus_ok (collect i j g) = bonus_ok g" "bonus_ok (g\<lparr>max_y := m\<rparr>) = bonus_ok g"
  "bonus_ok (g\<lparr>max_x := m\<rparr>) = bonus_ok g" "bonus_ok (g\<lparr>dir := d\<rparr>) = bonus_ok g"
  "bonus_ok (g\<lparr>dir_b := d\<rparr>) = bonus_ok g" "bonus_ok (g\<lparr>nb_bonus := n\<rparr>) = bonus_ok g"
  by (auto simp: bonus_ok_def collect_def add_score_def)

lemma move_all_ok:
  assumes "board_ok two b"
  shows "board_ok two (move_all two b)"
proof -
  have 1: "linked (move_body (dir (glob b)) (body b))"
    using assms board_ok_body [OF assms] by (simp add: board_ok_def move_body_def linked_move)
  have 2: "linked (move_body (dir_b (glob b)) (body_b b))" if two
    using assms board_ok_body_b [of b] that by (simp add: board_ok_def move_body_def linked_move)
  show ?thesis
  proof (cases two)
    case True
    with assms 1 2 board_ok_body [OF assms] board_ok_body_b [of b] show ?thesis
      by (simp add: board_ok_def move_all_def Let_def)
  next
    case False
    with assms 1 board_ok_body [OF assms] show ?thesis
      by (simp add: board_ok_def move_all_def Let_def)
  qed
qed

lemma collect_simps [simp]:
  "score (collect 1 j g) = score g + 1" "score (collect 2 j g) = score g"
  "score_b (collect 1 j g) = score_b g" "score_b (collect 2 j g) = score_b g + 1"
  "snake_end (collect i j g) = snake_end g" "snake_end_b (collect i j g) = snake_end_b g"
  "dir (collect i j g) = dir g" "dir_b (collect i j g) = dir_b g"
  "spawning_rate (collect i j g) = spawning_rate g"
  by (auto simp: collect_def add_score_def)

lemma last_eat: "eat i cs g = (cs', g') \<Longrightarrow> cs \<noteq> [] \<Longrightarrow> last cs' = last cs \<and> cs' \<noteq> []"
  by (auto simp: eat_def split: option.splits)

lemma judge_1_ok: "board_ok two b \<Longrightarrow> judge_1 b = (r, b') \<Longrightarrow> board_ok two b'"
  using linked_grow [of "body b"] board_ok_body [of two b]
  by (auto simp: judge_1_def eat_def board_ok_def Let_def end_cell_def split: if_splits option.splits)

lemma judge_2_ok: "board_ok True b \<Longrightarrow> judge_2 b = (r, b') \<Longrightarrow> board_ok True b'"
  using linked_grow [of "body_b b"] board_ok_body_b [of b]
  by (auto simp: judge_2_def eat_def board_ok_def Let_def end_cell_def split: if_splits option.splits)

lemma judge_ok: "board_ok two b \<Longrightarrow> judge two b = (r, b') \<Longrightarrow> board_ok two b'"
  by (auto simp: judge_def split: prod.splits outcome.splits if_splits dest: judge_1_ok judge_2_ok)

section \<open>Spawning\<close>

definition spawn :: "(nat \<Rightarrow> int) \<Rightarrow> nat \<Rightarrow> globals \<Rightarrow> globals \<times> nat" where
  "spawn r k g =
     (if r k smod spawning_rate g = 1 \<and> nb_bonus g < max_bonus g
      then (g\<lparr>bonus_list :=
              (let item = \<lparr>pos_x = 2 + r (k + 1) smod (max_x g - 4), pos_y = 3 + r (k + 2) smod (max_y g - 6),
                           activ = 1\<rparr>
               in case List.find (\<lambda>j. activ (bonus_list g ! j) = 0) [0 ..< nat (max_bonus g)] of
                    None \<Rightarrow> bonus_list g | Some j \<Rightarrow> (bonus_list g)[j := item]),
              nb_bonus := nb_bonus g + 1\<rparr>, k + 3)
      else (g, k + 1))"

text \<open>A window in which the divisors of \<open>bonus_create\<close> are not zero.\<close>

definition window_ok :: "globals \<Rightarrow> bool" where
  "window_ok g \<longleftrightarrow> max_x g \<noteq> 4 \<and> max_y g \<noteq> 6"

lemma bonus_create_spawn:
  assumes "bonus_ok g" "window_ok g" "spawning_rate g \<noteq> 0"
  shows "bonus_create r k g = Some (spawn r k g)"
proof -
  have "0 + nat (max_bonus g) \<le> length (bonus_list g)" using assms(1) by (auto simp: bonus_ok_def)
  from place_bonus_spec [OF this] assms(2,3) show ?thesis
    by (simp add: bonus_create_def spawn_def window_ok_def)
qed

lemma spawn_simps [simp]:
  "bonus_ok (fst (spawn r k g)) = bonus_ok g" "snake_end (fst (spawn r k g)) = snake_end g"
  "snake_end_b (fst (spawn r k g)) = snake_end_b g" "score (fst (spawn r k g)) = score g"
  "score_b (fst (spawn r k g)) = score_b g" "dir (fst (spawn r k g)) = dir g"
  "dir_b (fst (spawn r k g)) = dir_b g" "spawning_rate (fst (spawn r k g)) = spawning_rate g"
  "max_x (fst (spawn r k g)) = max_x g" "max_y (fst (spawn r k g)) = max_y g"
  "max_bonus (fst (spawn r k g)) = max_bonus g"
  by (auto simp: spawn_def bonus_ok_def Let_def split: option.splits)

lemma board_ok_spawn: "board_ok two b \<Longrightarrow> board_ok two (b\<lparr>glob := fst (spawn r k (glob b))\<rparr>)"
  by (simp add: board_ok_def)

lemma is_rate_pos: "is_rate r \<Longrightarrow> r \<noteq> 0"
  by (auto simp: is_rate_def)

section \<open>The program's round is the abstract round\<close>

text \<open>Lifting an operation on one snake to the heap with both.\<close>

lemma represents_1:
  assumes "represents s b"
  obtains R where "snake_rep (hp s) (snake s) (body b) R"
    and "\<forall>h p cs g. snake_rep h p cs R \<longrightarrow> represents (s\<lparr>hp := h, gv := g, snake := p\<rparr>) (b\<lparr>body := cs, glob := g\<rparr>)"
proof -
  from assms have "snakes (hp s) (snake s) (body b) (if nb_player s = 2 then snake_b s else 0) (body_b b)"
    by (simp add: represents_def)
  then obtain R where R: "snake_rep (hp s) (snake s) (body b) R"
      "\<forall>h p cs. snake_rep h p cs R \<longrightarrow> snakes h p cs (if nb_player s = 2 then snake_b s else 0) (body_b b)"
    by (rule snakes_focus) blast
  show thesis by (rule that [OF R(1)]) (use R(2) in \<open>cases "nb_player s = 2"; simp add: represents_def\<close>)
qed

lemma represents_2:
  assumes "represents s b" "nb_player s = 2"
  obtains R where "snake_rep (hp s) (snake_b s) (body_b b) R"
    and "\<forall>h q ds g. snake_rep h q ds R \<longrightarrow> represents (s\<lparr>hp := h, gv := g, snake_b := q\<rparr>) (b\<lparr>body_b := ds, glob := g\<rparr>)"
proof -
  from assms have "snakes (hp s) (snake_b s) (body_b b) (snake s) (body b)"
    by (simp add: represents_def snakes_sym)
  then obtain R where R: "snake_rep (hp s) (snake_b s) (body_b b) R"
      "\<forall>h q ds. snake_rep h q ds R \<longrightarrow> snakes h q ds (snake s) (body b)"
    by (rule snakes_focus) blast
  show thesis by (rule that [OF R(1)]) (simp add: represents_def R(2) snakes_sym assms(2))
qed

lemma represents_chain_1: "represents s b \<Longrightarrow> \<exists>A. chain (cells (hp s)) (snake s) A (body b)"
  by (auto simp: represents_def snakes_def)

lemma represents_chain_2:
  "represents s b \<Longrightarrow> nb_player s = 2 \<Longrightarrow> \<exists>B. chain (cells (hp s)) (snake_b s) B (body_b b)"
  by (auto simp: represents_def snakes_def)

lemma represents_disp:
  "represents s b \<Longrightarrow> snake_disp (hp s) (snake s) = Some (map (\<lambda>c. (px c, py c, snake_shape)) (body b))"
  "represents s b \<Longrightarrow> nb_player s = 2 \<Longrightarrow>
     snake_disp (hp s) (snake_b s) = Some (map (\<lambda>c. (px c, py c, snake_shape)) (body_b b))"
  using represents_chain_1 represents_chain_2 snake_disp_chain by blast+

lemma set_snake_end_12 [simp]:
  "set_snake_end 1 c g = g\<lparr>snake_end := c\<rparr>" "set_snake_end 2 c g = g\<lparr>snake_end_b := c\<rparr>"
  by (simp_all add: set_snake_end_def)

lemma end_of_12 [simp]: "end_of 1 g = Some (snake_end g)" "end_of 2 g = Some (snake_end_b g)"
  by (simp_all add: end_of_def)

lemma move_1:
  assumes "represents s b" "board_ok two b" "0 < room (hp s)" "is_dir d"
  shows "\<exists>p h. snake_move (snake s) d 1 (hp s) (glob b) =
      Some (p, h, (glob b)\<lparr>snake_end := end_cell (move_body d (body b))\<rparr>) \<and> room h = room (hp s) \<and>
      represents (s\<lparr>hp := h, gv := (glob b)\<lparr>snake_end := end_cell (move_body d (body b))\<rparr>, snake := p\<rparr>)
        (b\<lparr>body := move_body d (body b), glob := (glob b)\<lparr>snake_end := end_cell (move_body d (body b))\<rparr>\<rparr>)"
proof -
  from assms(1) obtain R where R: "snake_rep (hp s) (snake s) (body b) R"
    "\<forall>h p cs g. snake_rep h p cs R \<longrightarrow> represents (s\<lparr>hp := h, gv := g, snake := p\<rparr>) (b\<lparr>body := cs, glob := g\<rparr>)"
    by (rule represents_1) blast
  have "end_of 1 (glob b) = Some \<lparr>cpos = last (body b), cnext = 0\<rparr>"
    using assms(2) by (simp add: board_ok_def end_cell_def)
  from snake_move_rep [OF R(1) board_ok_body [OF assms(2)] assms(3,4) this] R(2) show ?thesis
    by (fastforce simp: end_cell_def move_body_def)
qed

lemma move_2:
  assumes "represents s b" "board_ok True b" "0 < room (hp s)" "is_dir d" "nb_player s = 2"
  shows "\<exists>q h. snake_move (snake_b s) d 2 (hp s) (glob b) =
      Some (q, h, (glob b)\<lparr>snake_end_b := end_cell (move_body d (body_b b))\<rparr>) \<and> room h = room (hp s) \<and>
      represents (s\<lparr>hp := h, gv := (glob b)\<lparr>snake_end_b := end_cell (move_body d (body_b b))\<rparr>, snake_b := q\<rparr>)
        (b\<lparr>body_b := move_body d (body_b b), glob := (glob b)\<lparr>snake_end_b := end_cell (move_body d (body_b b))\<rparr>\<rparr>)"
proof -
  from assms(1,5) obtain R where R: "snake_rep (hp s) (snake_b s) (body_b b) R"
    "\<forall>h q ds g. snake_rep h q ds R \<longrightarrow> represents (s\<lparr>hp := h, gv := g, snake_b := q\<rparr>) (b\<lparr>body_b := ds, glob := g\<rparr>)"
    by (rule represents_2) blast
  have "end_of 2 (glob b) = Some \<lparr>cpos = last (body_b b), cnext = 0\<rparr>"
    using assms(2) by (simp add: board_ok_def end_cell_def)
  from snake_move_rep [OF R(1) board_ok_body_b [OF assms(2)] assms(3,4) this] R(2) show ?thesis
    by (fastforce simp: end_cell_def move_body_def)
qed

text \<open>The globals after spawning, and the board the checks see.\<close>

definition spawn_and_move :: "env \<Rightarrow> nat \<Rightarrow> bool \<Rightarrow> board \<Rightarrow> board" where
  "spawn_and_move E k two b = move_all two (b\<lparr>glob := fst (spawn (rand_at E) k (glob b))\<rparr>)"

text \<open>What drawing and moving need: scores that fit the text buffer, and a non-degenerate window.\<close>

definition drawable :: "globals \<Rightarrow> bool" where
  "drawable g \<longleftrightarrow> window_ok g \<and> score g < 10 ^ 7 \<and> score_b g < 10 ^ 7"

lemma represents_upd [simp]:
  "represents (s\<lparr>n_rand := k\<rparr>) b = represents s b" "represents (s\<lparr>picture := pic\<rparr>) b = represents s b"
  by (simp_all add: represents_def)

lemma score_disp_Some:
  assumes "board_ok two b" "drawable (glob b)"
  shows "\<exists>d. score_disp 1 (glob b) = Some d" "two \<Longrightarrow> \<exists>d. score_disp 2 (glob b) = Some d"
  using assms by (auto simp: score_disp_def board_ok_def drawable_def score_text_Some)

lemma bonus_disp_Some: "bonus_ok g \<Longrightarrow> \<exists>d. bonus_disp g = Some d"
  using disp_loop_spec [of 0 "nat (max_bonus g)" "bonus_list g"] by (auto simp: bonus_disp_def bonus_ok_def)

lemma draw_and_move_rep:
  assumes rep: "represents s b" and ok: "board_ok two b" and two: "two = (nb_player s = 2)"
    and room: "0 < room (hp s)" and draw: "drawable (glob b)"
  shows "\<exists>s'. draw_and_move E s = Some s' \<and> represents s' (spawn_and_move E (n_rand s) two b) \<and>
     room (hp s') = room (hp s) \<and> nb_player s' = nb_player s"
proof -
  obtain g k where gk: "spawn (rand_at E) (n_rand s) (glob b) = (g, k)" by fastforce
  define b0 s0 where "b0 = b\<lparr>glob := g\<rparr>" and "s0 = s\<lparr>gv := g\<rparr>"
  have ok0: "board_ok two b0" using board_ok_spawn [OF ok, of "rand_at E" "n_rand s"] by (simp add: gk b0_def)
  have rep0: "represents s0 b0" using rep by (cases "nb_player s = 2"; simp add: represents_def b0_def s0_def)
  have gv: "gv s = glob b" using rep by (simp add: represents_def)
  have create: "bonus_create (rand_at E) (n_rand s) (gv s) = Some (g, k)"
    using bonus_create_spawn [of "glob b" "rand_at E" "n_rand s"] ok draw is_rate_pos
    by (simp add: gv gk board_ok_def drawable_def)
  obtain d1 where d1: "score_disp 1 (gv s) = Some d1" using score_disp_Some(1) [OF ok draw] gv by auto
  obtain d3 where d3: "bonus_disp g = Some d3"
    using bonus_disp_Some [of g] ok0 by (auto simp: board_ok_def b0_def)
  define b1 where "b1 = b0\<lparr>body := move_body (dir g) (body b), glob := g\<lparr>snake_end := end_cell (move_body (dir g) (body b))\<rparr>\<rparr>"
  have dirs: "is_dir (dir g)" "is_dir (dir_b g)" using ok0 by (simp_all add: board_ok_def b0_def)
  have "0 < room (hp s0)" using room by (simp add: s0_def)
  from move_1 [OF rep0 ok0 this dirs(1)] obtain p h
    where m1: "snake_move (snake s) (dir g) 1 (hp s) g = Some (p, h, glob b1)" "room h = room (hp s)"
      and rep1: "represents (s0\<lparr>hp := h, gv := glob b1, snake := p\<rparr>) b1"
    by (auto simp: b0_def b1_def s0_def)
  show ?thesis
  proof (cases two)
    case False
    have "snake_disp h p = Some (map (\<lambda>c. (px c, py c, snake_shape)) (body b1))"
      using represents_disp(1) [OF rep1] by simp
    moreover have "spawn_and_move E (n_rand s) two b = b1"
      using False by (simp add: spawn_and_move_def move_all_def Let_def gk b0_def b1_def)
    ultimately show ?thesis
      using False two m1 create d1 d3 rep1
      by (simp add: draw_and_move_def represents_def s0_def)
  next
    case True
    then have n2: "nb_player s = 2" using two by simp
    obtain d2 where d2: "score_disp 2 (gv s) = Some d2" using score_disp_Some(2) [OF ok draw True] gv by auto
    have ok1: "board_ok True b1"
      using move_all_ok [of False "b0\<lparr>body_b := []\<rparr>"] ok0 True
      by (simp add: board_ok_def move_all_def Let_def b0_def b1_def)
    define b2 where "b2 = b1\<lparr>body_b := move_body (dir_b g) (body_b b),
       glob := (glob b1)\<lparr>snake_end_b := end_cell (move_body (dir_b g) (body_b b))\<rparr>\<rparr>"
    from move_2 [OF rep1 ok1 _ dirs(2)] room m1(2) n2 obtain q h2
      where m2: "snake_move (snake_b s) (dir_b g) 2 h (glob b1) = Some (q, h2, glob b2)" "room h2 = room (hp s)"
        and rep2: "represents (s0\<lparr>snake := p, hp := h2, gv := glob b2, snake_b := q\<rparr>) b2"
      by (auto simp: b0_def b1_def b2_def s0_def)
    have "dir_b (glob b1) = dir_b g" by (simp add: b1_def)
    moreover have "snake_disp h2 p = Some (map (\<lambda>c. (px c, py c, snake_shape)) (body b2))"
      "snake_disp h2 q = Some (map (\<lambda>c. (px c, py c, snake_shape)) (body_b b2))"
      using represents_disp [OF rep2] n2 by (simp_all add: s0_def)
    moreover have "spawn_and_move E (n_rand s) two b = b2"
      using True by (simp add: spawn_and_move_def move_all_def Let_def gk b0_def b1_def b2_def)
    ultimately show ?thesis
      using True n2 m1 m2 create d1 d2 d3 rep2
      by (simp add: draw_and_move_def represents_def s0_def)
  qed
qed

section \<open>The checks\<close>

lemma represents_crash:
  "represents s b \<Longrightarrow> crash_check (snake s) (hp s) = Some (if distinct (map xy (body b)) then 0 else 1)"
  "represents s b \<Longrightarrow> nb_player s = 2 \<Longrightarrow>
     crash_check (snake_b s) (hp s) = Some (if distinct (map xy (body_b b)) then 0 else 1)"
  unfolding crash_check_def
  using represents_chain_1 represents_chain_2 crash_outer_chain by blast+

lemma represents_crash_snake:
  assumes "represents s b" "board_ok True b" "nb_player s = 2"
  shows "crash_snake_check (snake s) 2 (hp s) (gv s) =
           Some (if xy (last (body_b b)) \<in> xy ` set (body b) then 1 else 0)"
    and "crash_snake_check (snake_b s) 1 (hp s) (gv s) =
           Some (if xy (last (body b)) \<in> xy ` set (body_b b) then 1 else 0)"
proof -
  obtain A where A: "chain (cells (hp s)) (snake s) A (body b)" using represents_chain_1 [OF assms(1)] ..
  obtain B where B: "chain (cells (hp s)) (snake_b s) B (body_b b)" using represents_chain_2 [OF assms(1,3)] ..
  have "cpos (snake_end (gv s)) = last (body b)" "cpos (snake_end_b (gv s)) = last (body_b b)"
    using assms(1,2) by (simp_all add: represents_def board_ok_def end_cell_def)
  then show "crash_snake_check (snake s) 2 (hp s) (gv s) =
           Some (if xy (last (body_b b)) \<in> xy ` set (body b) then 1 else 0)"
    "crash_snake_check (snake_b s) 1 (hp s) (gv s) =
           Some (if xy (last (body b)) \<in> xy ` set (body_b b) then 1 else 0)"
    by (simp_all add: crash_snake_check_def crash_inner_chain [OF A] crash_inner_chain [OF B] xy_def)
qed

lemma checks_1_rep:
  assumes rep: "represents s b" and ok: "board_ok two b" and room: "0 < room (hp s)"
    and j: "judge_1 b = (r, b')"
  shows "\<exists>s'. checks_1 s = Some (r, s') \<and> represents s' b' \<and> room (hp s) \<le> Suc (room (hp s')) \<and>
     nb_player s' = nb_player s"
proof (cases "inside (glob b) (last (body b)) \<and> distinct (map xy (body b))")
  case False
  have "wall_check 1 (gv s) = (if inside (glob b) (last (body b)) then 0 else 1)"
    using rep ok by (simp add: wall_check_def hits_wall_inside represents_def board_ok_def end_cell_def)
  with False j rep represents_crash(1) [OF rep] show ?thesis
    by (auto simp: checks_1_def judge_1_def)
next
  case True
  have wall: "wall_check 1 (gv s) = 0"
    using True rep ok by (simp add: wall_check_def hits_wall_inside represents_def board_ok_def end_cell_def)
  from rep obtain R where R: "snake_rep (hp s) (snake s) (body b) R"
    "\<forall>h p cs g. snake_rep h p cs R \<longrightarrow> represents (s\<lparr>hp := h, gv := g, snake := p\<rparr>) (b\<lparr>body := cs, glob := g\<rparr>)"
    by (rule represents_1) blast
  have g: "gv s = glob b" "bonus_ok (glob b)" "end_of 1 (glob b) = Some (end_cell (body b))"
    "is_dir (pdir (hd (body b)))"
    using rep ok is_dir_hd [of "body b"] board_ok_body [OF ok] by (simp_all add: represents_def board_ok_def)
  from bonus_check_rep [OF g(2,3) R(1) board_ok_body [OF ok] room g(4)] obtain p' h'
    where c: "bonus_check (snake s) 1 (hp s) (glob b) = Some (p', h', snd (eat 1 (body b) (glob b)))"
      "snake_rep h' p' (fst (eat 1 (body b) (glob b))) R" "room (hp s) \<le> Suc (room h')"
    by (auto simp: eat_def end_cell_def split: option.splits)
  with R(2) True wall j g(1) represents_crash(1) [OF rep] show ?thesis
    by (auto simp: checks_1_def judge_1_def split: prod.splits)
qed

lemma judge_1_last: "judge_1 b = (Continue, b') \<Longrightarrow> body b \<noteq> [] \<Longrightarrow> last (body b') = last (body b)"
  by (auto simp: judge_1_def split: if_splits prod.splits dest: last_eat)

lemma checks_2_rep:
  assumes rep: "represents s b" and ok: "board_ok True b" and n2: "nb_player s = 2"
    and room: "0 < room (hp s)" and j: "judge_2 b = (r, b')"
  shows "\<exists>s'. checks_2 s = Some (r, s') \<and> represents s' b' \<and> room (hp s) \<le> Suc (room (hp s')) \<and>
     nb_player s' = nb_player s"
proof (cases "inside (glob b) (last (body_b b)) \<and> distinct (map xy (body_b b))")
  case False
  have "wall_check 2 (gv s) = (if inside (glob b) (last (body_b b)) then 0 else 1)"
    using rep ok by (simp add: wall_check_def hits_wall_inside represents_def board_ok_def end_cell_def)
  with False j rep represents_crash(2) [OF rep n2] show ?thesis
    by (auto simp: checks_2_def judge_2_def)
next
  case True
  have wall: "wall_check 2 (gv s) = 0"
    using True rep ok by (simp add: wall_check_def hits_wall_inside represents_def board_ok_def end_cell_def)
  from rep n2 obtain R where R: "snake_rep (hp s) (snake_b s) (body_b b) R"
    "\<forall>h q ds g. snake_rep h q ds R \<longrightarrow> represents (s\<lparr>hp := h, gv := g, snake_b := q\<rparr>) (b\<lparr>body_b := ds, glob := g\<rparr>)"
    by (rule represents_2) blast
  have g: "gv s = glob b" "bonus_ok (glob b)" "end_of 2 (glob b) = Some (end_cell (body_b b))"
    "is_dir (pdir (hd (body_b b)))"
    using rep ok is_dir_hd [of "body_b b"] board_ok_body_b [OF ok] by (simp_all add: represents_def board_ok_def)
  obtain ds g' where e: "eat 2 (body_b b) (glob b) = (ds, g')" by fastforce
  from bonus_check_rep [OF g(2,3) R(1) board_ok_body_b [OF ok] room g(4)] obtain q h
    where c: "bonus_check (snake_b s) 2 (hp s) (glob b) = Some (q, h, g')"
      "snake_rep h q ds R" "room (hp s) \<le> Suc (room h)"
    using e by (auto simp: eat_def end_cell_def split: option.splits)
  let ?s = "s\<lparr>hp := h, gv := g', snake_b := q\<rparr>" and ?b = "b\<lparr>body_b := ds, glob := g'\<rparr>"
  have rep': "represents ?s ?b" using R(2) c(2) by blast
  have ok': "board_ok True ?b" using judge_2_ok [OF ok, of _ ?b] True e by (simp add: judge_2_def)
  have "nb_player ?s = 2" using n2 by simp
  from represents_crash_snake [OF rep' ok' this] True wall j g(1) c(1,3) rep' e
    represents_crash(2) [OF rep n2]
  show ?thesis by (auto simp: checks_2_def judge_2_def)
qed

section \<open>Inputs\<close>

text \<open>What \<open>set_dir\<close> and \<open>getmaxyx\<close> may change of the globals.\<close>

definition same_play :: "globals \<Rightarrow> globals \<Rightarrow> bool" where
  "same_play g g' \<longleftrightarrow> snake_end g' = snake_end g \<and> snake_end_b g' = snake_end_b g \<and>
     max_bonus g' = max_bonus g \<and> spawning_rate g' = spawning_rate g \<and> score g' = score g \<and>
     score_b g' = score_b g \<and> nb_bonus g' = nb_bonus g \<and> bonus_list g' = bonus_list g \<and>
     (is_dir (dir g) \<longrightarrow> is_dir (dir g')) \<and> (is_dir (dir_b g) \<longrightarrow> is_dir (dir_b g'))"

lemma same_play_refl [simp]: "same_play g g"
  by (simp add: same_play_def)

lemma same_play_sizes [simp]: "same_play g (g'\<lparr>max_y := y, max_x := x\<rparr>) = same_play g g'"
  by (simp add: same_play_def)

lemma set_dir_simps [simp]:
  "snake_end (set_dir K c i g) = snake_end g" "snake_end_b (set_dir K c i g) = snake_end_b g"
  "max_bonus (set_dir K c i g) = max_bonus g" "spawning_rate (set_dir K c i g) = spawning_rate g"
  "score (set_dir K c i g) = score g" "score_b (set_dir K c i g) = score_b g"
  "nb_bonus (set_dir K c i g) = nb_bonus g" "bonus_list (set_dir K c i g) = bonus_list g"
  "max_x (set_dir K c i g) = max_x g" "max_y (set_dir K c i g) = max_y g"
  unfolding set_dir_def by (simp_all only: globals.select_convs globals.update_convs split: if_split) simp_all

lemma set_dir_is_dir:
  "is_dir (dir g) \<Longrightarrow> is_dir (dir (set_dir K c i g))" "is_dir (dir_b g) \<Longrightarrow> is_dir (dir_b (set_dir K c i g))"
  unfolding set_dir_def is_dir_def
  by (simp_all only: globals.select_convs globals.update_convs split: if_split) simp_all

lemma same_play_set_dir: "same_play g g' \<Longrightarrow> same_play g (set_dir K c i g')"
  by (simp add: same_play_def set_dir_is_dir)

lemma same_play_trans: "same_play a b \<Longrightarrow> same_play b c \<Longrightarrow> same_play a c"
  by (simp add: same_play_def)

lemma same_play_board_ok: "board_ok two b \<Longrightarrow> same_play (glob b) g \<Longrightarrow> board_ok two (b\<lparr>glob := g\<rparr>)"
  by (simp add: board_ok_def same_play_def bonus_ok_def)

text \<open>Reading the inputs touches neither the snakes nor the heap.\<close>

definition same_store :: "game \<Rightarrow> game \<Rightarrow> bool" where
  "same_store s s' \<longleftrightarrow> hp s' = hp s \<and> snake s' = snake s \<and> snake_b s' = snake_b s \<and>
     nb_player s' = nb_player s \<and> n_rand s' = n_rand s \<and> same_play (gv s) (gv s')"

lemma same_store_represents:
  "represents s b \<Longrightarrow> same_store s s' \<Longrightarrow> represents s' (b\<lparr>glob := gv s'\<rparr>)"
  by (cases "nb_player s = 2") (simp_all add: represents_def same_store_def)

lemma quit_disp_globals: "quit_disp yx keys k g = Some (r, g', k', fs) \<Longrightarrow> g' = g\<lparr>max_y := fst yx, max_x := snd yx\<rparr>"
  by (auto simp: quit_disp_def bind_eq_Some_conv)

lemma same_store_fields [simp]:
  "same_store s (s'\<lparr>n_key := a\<rparr>) = same_store s s'" "same_store s (s'\<lparr>n_maxyx := a\<rparr>) = same_store s s'"
  "same_store s (s'\<lparr>start := i\<rparr>) = same_store s s'" "same_store s (s'\<lparr>n_getch := a\<rparr>) = same_store s s'"
  "same_store s (s'\<lparr>ch2 := i\<rparr>) = same_store s s'" "same_store s (send2 E b s') = same_store s s'"
  by (simp_all add: same_store_def send2_def)

lemma same_store_gv: "same_store s s' \<Longrightarrow> same_play (gv s') g \<Longrightarrow> same_store s (s'\<lparr>gv := g\<rparr>)"
  using same_play_trans [of "gv s" "gv s'" g] by (simp add: same_store_def)

lemma same_store_refl [simp]: "same_store s s"
  by (simp add: same_store_def)

lemma same_store_if: "same_store s a \<Longrightarrow> same_store s b \<Longrightarrow> same_store s (if P then a else b)"
  by simp

lemma pause_store: "pause E ch s = Some (q, c, s1) \<Longrightarrow> same_store s s1"
proof -
  let ?s = "send2 E 49 s"
  assume "pause E ch s = Some (q, c, s1)"
  then obtain r g k fs where q: "quit_disp (maxyx_at E (n_maxyx ?s)) (keys_of E) (n_key ?s) (gv ?s) = Some (r, g, k, fs)"
    and s1: "s1 = ?s\<lparr>gv := g, n_key := k, n_maxyx := Suc (n_maxyx ?s)\<rparr> \<or>
      s1 = (send2 E 48 (?s\<lparr>gv := g, n_key := k, n_maxyx := Suc (n_maxyx ?s)\<rparr>))\<lparr>start := 0\<rparr>"
    by (auto simp: pause_def bind_eq_Some_conv Let_def split: if_splits)
  have "same_store s (?s\<lparr>gv := g\<rparr>)"
    by (rule same_store_gv) (simp_all add: quit_disp_globals [OF q])
  with s1 show ?thesis by auto
qed

lemma poll_store: "same_store s (snd (poll E s))"
  unfolding poll_def Let_def snd_conv by (rule same_store_if; simp add: same_store_gv)

lemma same_store_trans: "same_store a b \<Longrightarrow> same_store b c \<Longrightarrow> same_store a c"
  using same_play_trans by (auto simp: same_store_def)

lemma read_inputs_store: "read_inputs E s = Some (q, ch, s1) \<Longrightarrow> same_store s s1"
  using poll_store [of s E] pause_store same_store_trans
  by (fastforce simp: read_inputs_def split: prod.splits if_splits)

lemma steer_store: "same_store s (steer E ch s)"
  unfolding steer_def Let_def
  by (intro same_store_if same_store_gv same_store_refl same_play_set_dir same_play_refl)

section \<open>Refinement of a round\<close>

definition next_board :: "env \<Rightarrow> int \<Rightarrow> game \<Rightarrow> bool \<Rightarrow> board \<Rightarrow> outcome \<times> board" where
  "next_board E ch s1 two b =
     judge two (spawn_and_move E (n_rand s1) two (b\<lparr>glob := gv (steer E ch s1)\<rparr>))"

lemma spawn_and_move_ok: "board_ok two b \<Longrightarrow> board_ok two (spawn_and_move E k two b)"
  unfolding spawn_and_move_def by (intro move_all_ok board_ok_spawn)

lemma drawable_steer: "drawable (gv (steer E ch s)) = drawable (gv s)"
  by (simp add: steer_def drawable_def window_ok_def Let_def)

lemma judge_rep:
  assumes rep: "represents s b" and ok: "board_ok two b" and two: "two = (nb_player s = 2)"
    and room: "2 \<le> room (hp s)" and j: "judge two b = (r, b')"
  shows "\<exists>s'. (do { (r, s) \<leftarrow> checks_1 s;
            case r of Stop l \<Rightarrow> Some (Stop l, s)
            | Continue \<Rightarrow> if nb_player s = 2 then checks_2 s else Some (Continue, s) }) = Some (r, s') \<and>
     represents s' b' \<and> room (hp s) \<le> room (hp s') + 2 \<and> nb_player s' = nb_player s"
proof -
  obtain r1 b1 where j1: "judge_1 b = (r1, b1)" by fastforce
  have "0 < room (hp s)" using room by simp
  from checks_1_rep [OF rep ok this j1] obtain s1
    where c1: "checks_1 s = Some (r1, s1)" "represents s1 b1" "room (hp s) \<le> Suc (room (hp s1))"
      "nb_player s1 = nb_player s" by blast
  show ?thesis
  proof (cases "r1 = Continue \<and> two")
    case False
    with c1 j j1 two show ?thesis by (cases r1) (auto simp: judge_def)
  next
    case True
    then have j2: "judge_2 b1 = (r, b')" using j j1 by (simp add: judge_def)
    have "board_ok True b1" using judge_1_ok [OF ok j1] True by simp
    moreover have "nb_player s1 = 2" "0 < room (hp s1)" using c1 True two room by simp_all
    ultimately obtain s2 where "checks_2 s1 = Some (r, s2)" "represents s2 b'"
      "room (hp s1) \<le> Suc (room (hp s2))" "nb_player s2 = nb_player s1"
      using checks_2_rep [OF c1(2)] j2 by blast
    with True c1 two show ?thesis by auto
  qed
qed

lemma game_tick_rep:
  assumes rep: "represents s b" and ok: "board_ok two b" and two: "two = (nb_player s = 2)"
    and room: "2 \<le> room (hp s)" and inp: "read_inputs E s = Some (False, ch, s1)"
    and draw: "drawable (gv s1)" and nb: "next_board E ch s1 two b = (r, b')"
  shows "\<exists>s'. game_tick E s = Some (r, s') \<and> represents s' b' \<and> board_ok two b' \<and>
     room (hp s) \<le> room (hp s') + 2 \<and> nb_player s' = nb_player s"
proof -
  let ?s1 = "steer E ch s1"
  let ?b1 = "b\<lparr>glob := gv ?s1\<rparr>"
  have st: "same_store s ?s1"
    using read_inputs_store [OF inp] steer_store [of s1 E ch] same_play_trans by (auto simp: same_store_def)
  have rep1: "represents ?s1 ?b1" by (rule same_store_represents [OF rep st])
  have ok1: "board_ok two ?b1" using same_play_board_ok [OF ok] st rep by (simp add: same_store_def represents_def)
  have s1: "two = (nb_player ?s1 = 2)" "0 < room (hp ?s1)" "drawable (glob ?b1)" "n_rand ?s1 = n_rand s1"
    "room (hp ?s1) = room (hp s)" "nb_player ?s1 = nb_player s"
    using st two room draw steer_store [of s1 E ch] by (simp_all add: same_store_def drawable_steer)
  from draw_and_move_rep [OF rep1 ok1 s1(1-3), of E] obtain s2
    where dm: "draw_and_move E ?s1 = Some s2" "represents s2 (spawn_and_move E (n_rand s1) two ?b1)"
      "room (hp s2) = room (hp s)" "nb_player s2 = nb_player s"
    using s1 by auto
  have ok2: "board_ok two (spawn_and_move E (n_rand s1) two ?b1)" by (rule spawn_and_move_ok [OF ok1])
  have j: "judge two (spawn_and_move E (n_rand s1) two ?b1) = (r, b')" using nb by (simp add: next_board_def)
  have room2: "2 \<le> room (hp s2)" using room dm(3) by simp
  have two2: "two = (nb_player s2 = 2)" using two dm(4) by simp
  from judge_rep [OF dm(2) ok2 two2 room2 j] dm judge_ok [OF ok2 j] inp show ?thesis
    by (auto simp: game_tick_def)
qed

end
