(* ===== verification/Menu_Laws.thy ===== *)
theory Menu_Laws
  imports Menus
begin

text \<open>
  The dialogs of \<open>Menus\<close> on any sequence of keys: the highlighted line after the keys read, when the
  loops end, and the values the dialogs leave in the globals.
\<close>

section \<open>The highlighted line\<close>

definition presses :: "int \<Rightarrow> (nat \<Rightarrow> u8) \<Rightarrow> nat \<Rightarrow> nat \<Rightarrow> int" where
  "presses c keys k j = int (length (filter (\<lambda>i. uint (keys i) = c) [k ..< j]))"

text \<open>The line reached from line \<open>hl\<close> of \<open>n\<close> by the keys number \<open>k\<close> to \<open>j - 1\<close>.\<close>

definition line_after :: "int \<Rightarrow> (nat \<Rightarrow> u8) \<Rightarrow> nat \<Rightarrow> nat \<Rightarrow> int \<Rightarrow> int" where
  "line_after n keys k j hl = (hl + presses USBKEY_DOWN keys k j - presses USBKEY_UP keys k j) mod n"

lemma move_highlight_mod:
  assumes "0 \<le> hl" "hl < n" "2 \<le> n"
  shows "move_highlight n c hl =
    (hl + (if c = USBKEY_DOWN then 1 else if c = USBKEY_UP then -1 else 0)) mod n"
proof -
  have "(hl + 1) mod n = (if hl + 1 = n then 0 else hl + 1)" using assms by simp
  moreover have "(hl - 1) mod n = (if hl = 0 then n - 1 else hl - 1)"
    using assms zmod_minus1 [of n] by simp
  ultimately show ?thesis using assms by (simp add: move_highlight_def)
qed

lemma move_highlight_range: "0 \<le> hl \<Longrightarrow> hl < n \<Longrightarrow> 2 \<le> n \<Longrightarrow> 0 \<le> move_highlight n c hl \<and> move_highlight n c hl < n"
  by (simp add: move_highlight_mod)

lemma presses_step:
  "k < j \<Longrightarrow> presses c keys k j = (if uint (keys k) = c then 1 else 0) + presses c keys (Suc k) j"
  by (simp add: presses_def upt_conv_Cons)

lemma line_after_refl [simp]: "0 \<le> hl \<Longrightarrow> hl < n \<Longrightarrow> line_after n keys j j hl = hl"
  by (simp add: line_after_def presses_def)

lemma line_after_step:
  assumes "k < j" "0 \<le> hl" "hl < n" "2 \<le> n"
  shows "line_after n keys (Suc k) j (move_highlight n (uint (keys k)) hl) = line_after n keys k j hl"
proof -
  let ?d = "if uint (keys k) = USBKEY_DOWN then 1 else if uint (keys k) = USBKEY_UP then -1 else 0 :: int"
  let ?p = "presses USBKEY_DOWN keys (Suc k) j - presses USBKEY_UP keys (Suc k) j"
  have "((hl + ?d) mod n + ?p) mod n = (hl + ?d + ?p) mod n" by (rule mod_add_left_eq)
  then show ?thesis using assms unfolding line_after_def
    by (simp add: move_highlight_mod presses_step add_diff_eq) (simp add: algebra_simps)
qed

lemma move_highlight_FCT [simp]: "move_highlight n 33 hl = hl"
  by (simp add: move_highlight_def)

lemma line_after_range: "2 \<le> n \<Longrightarrow> 0 \<le> line_after n keys k j hl \<and> line_after n keys k j hl < n"
  by (simp add: line_after_def)

section \<open>The loops\<close>

lemma menu_loop_reads:
  assumes "k \<le> j" "uint (keys j) = USBKEY_FCT" "\<forall>i. k \<le> i \<and> i < j \<longrightarrow> uint (keys i) \<noteq> USBKEY_FCT"
    and "0 \<le> hl" "hl < 4"
  shows "\<exists>fs. menu_loop keys k hl = Some (line_after 4 keys k j hl, Suc j, fs) \<and> length fs = Suc j - k"
  using assms
proof (induction "j - k" arbitrary: k hl)
  case 0
  then show ?case by (subst menu_loop.simps) simp
next
  case (Suc n)
  let ?hl = "move_highlight 4 (uint (keys k)) hl"
  have "\<exists>fs. menu_loop keys (Suc k) ?hl = Some (line_after 4 keys (Suc k) j ?hl, Suc j, fs) \<and>
      length fs = Suc j - Suc k"
    using Suc move_highlight_range [of hl 4] by (intro Suc.hyps(1)) auto
  moreover have "k < j" "uint (keys k) \<noteq> USBKEY_FCT" using Suc by auto
  ultimately show ?case using Suc.prems line_after_step [of k j hl 4 keys]
    by (subst menu_loop.simps) (auto simp: Let_def)
qed

lemma quit_loop_reads:
  assumes "k \<le> j" "uint (keys j) = USBKEY_FCT" "\<forall>i. k \<le> i \<and> i < j \<longrightarrow> uint (keys i) \<noteq> USBKEY_FCT"
    and "0 \<le> hl" "hl < 2"
  shows "\<exists>fs. quit_loop keys k hl = Some (line_after 2 keys k j hl, Suc j, fs) \<and> length fs = Suc j - k"
  using assms
proof (induction "j - k" arbitrary: k hl)
  case 0
  then have "hl = 0 \<or> hl = 1" by auto
  with 0 show ?case by (subst quit_loop.simps) auto
next
  case (Suc n)
  let ?hl = "move_highlight 2 (uint (keys k)) hl"
  have "\<exists>fs. quit_loop keys (Suc k) ?hl = Some (line_after 2 keys (Suc k) j ?hl, Suc j, fs) \<and>
      length fs = Suc j - Suc k"
    using Suc move_highlight_range [of hl 2] by (intro Suc.hyps(1)) auto
  moreover have "k < j" "uint (keys k) \<noteq> USBKEY_FCT" using Suc by auto
  ultimately show ?case using Suc.prems line_after_step [of k j hl 2 keys]
    by (subst quit_loop.simps) (auto simp: Let_def)
qed

lemma menu_loop_end:
  assumes "menu_loop keys k hl = Some r"
  shows "\<exists>j\<ge>k. uint (keys j) = USBKEY_FCT"
proof (rule menu_loop.raw_induct [OF _ assms, of "\<lambda>keys k hl r. \<exists>j\<ge>k. uint (keys j) = USBKEY_FCT"])
  fix loop and keys :: "nat \<Rightarrow> u8" and k hl and r :: "int \<times> nat \<times> frame list"
  assume IH: "\<And>keys k hl r. loop keys k hl = Some r \<Longrightarrow> \<exists>j\<ge>k. uint (keys j) = USBKEY_FCT"
    and "(let shown = menu_frame ''Spawning rate'' rate_choices hl; choice = uint (keys k);
          highlight = move_highlight 4 choice hl
      in if choice = USBKEY_FCT then Some (highlight, Suc k, [shown])
         else do { (hl, k', frames) \<leftarrow> loop keys (Suc k) highlight; Some (hl, k', shown # frames) }) = Some r"
  then have "uint (keys k) = USBKEY_FCT \<or>
      (\<exists>r'. loop keys (Suc k) (move_highlight 4 (uint (keys k)) hl) = Some r')"
    by (cases "uint (keys k) = USBKEY_FCT") (auto simp: Let_def bind_eq_Some_conv)
  with IH [of keys "Suc k"] show "\<exists>j\<ge>k. uint (keys j) = USBKEY_FCT" by (meson Suc_leD order_refl)
qed

lemma quit_loop_end:
  assumes "quit_loop keys k hl = Some r"
  shows "\<exists>j\<ge>k. uint (keys j) = USBKEY_FCT"
proof (rule quit_loop.raw_induct [OF _ assms, of "\<lambda>keys k hl r. \<exists>j\<ge>k. uint (keys j) = USBKEY_FCT"])
  fix loop and keys :: "nat \<Rightarrow> u8" and k hl and r :: "int \<times> nat \<times> frame list"
  assume IH: "\<And>keys k hl r. loop keys k hl = Some r \<Longrightarrow> \<exists>j\<ge>k. uint (keys j) = USBKEY_FCT"
    and "(let shown = menu_frame ''PAUSE'' quit_choices hl; choice = uint (keys k);
          highlight = move_highlight 2 choice hl
      in if choice = USBKEY_FCT \<and> highlight = 0 then Some (0, Suc k, [shown])
         else if choice = USBKEY_FCT \<and> highlight = 1 then Some (1, Suc k, [shown])
         else do { (r, k', frames) \<leftarrow> loop keys (Suc k) highlight; Some (r, k', shown # frames) }) = Some r"
  then have "uint (keys k) = USBKEY_FCT \<or>
      (\<exists>r'. loop keys (Suc k) (move_highlight 2 (uint (keys k)) hl) = Some r')"
    by (cases "uint (keys k) = USBKEY_FCT") (auto simp: Let_def bind_eq_Some_conv)
  with IH [of keys "Suc k"] show "\<exists>j\<ge>k. uint (keys j) = USBKEY_FCT" by (meson Suc_leD order_refl)
qed

text \<open>The next time the button is read.\<close>

lemma next_FCT:
  fixes k :: nat
  assumes "\<exists>j\<ge>k. uint (keys j) = USBKEY_FCT"
  obtains j where "k \<le> j" "uint (keys j) = USBKEY_FCT" "\<forall>i. k \<le> i \<and> i < j \<longrightarrow> uint (keys i) \<noteq> USBKEY_FCT"
  using assms exists_least_iff [of "\<lambda>j. k \<le> j \<and> uint (keys j) = USBKEY_FCT"] that by blast

lemma chosen_rate_nth:
  "0 \<le> hl \<Longrightarrow> hl < 4 \<Longrightarrow> chosen_rate hl old = [LOW, NORMAL, FAST, INSANE] ! nat hl"
proof -
  assume "0 \<le> hl" "hl < 4"
  then have "hl = 0 \<or> hl = 1 \<or> hl = 2 \<or> hl = 3" by auto
  then show ?thesis by (auto simp: chosen_rate_def)
qed

section \<open>The number typed\<close>

lemma digits_foldl:
  "\<forall>c \<in> set t. is_digit c \<Longrightarrow> 0 \<le> a \<Longrightarrow>
     0 \<le> foldl (\<lambda>n c. 10 * n + (of_char c - 48)) a t \<and>
     foldl (\<lambda>n c. 10 * n + (of_char c - 48)) a t < (a + 1) * (10 :: int) ^ length t"
proof (induction t arbitrary: a)
  case (Cons c t)
  have c: "48 \<le> (of_char c :: int)" "of_char c \<le> (57 :: int)"
    using Cons.prems(1) unfolding is_digit_def of_nat_of_char [of c, where 'a = int, symmetric] by simp_all
  let ?a = "10 * a + (of_char c - 48) :: int"
  have IH: "0 \<le> foldl (\<lambda>n c. 10 * n + (of_char c - 48)) ?a t \<and>
      foldl (\<lambda>n c. 10 * n + (of_char c - 48)) ?a t < (?a + 1) * 10 ^ length t"
    by (rule Cons.IH) (use Cons.prems c in auto)
  have "(?a + 1) * 10 ^ length t \<le> ((a + 1) * 10) * 10 ^ length t"
    using c by (intro mult_right_mono) auto
  also have "... = (a + 1) * 10 ^ length (c # t)" by simp
  finally show ?case using IH unfolding foldl_Cons by (blast intro: less_le_trans)
qed simp

lemma digits_value_bound: "0 \<le> digits_value s" "digits_value s < 10 ^ length s"
proof -
  let ?t = "takeWhile is_digit s"
  have "\<forall>c \<in> set ?t. is_digit c" by (blast dest: set_takeWhileD)
  from digits_foldl [OF this, of 0] have d: "0 \<le> digits_value s" "digits_value s < 10 ^ length ?t"
    by (simp_all add: digits_value_def)
  moreover have "(10 :: int) ^ length ?t \<le> 10 ^ length s"
    by (rule power_increasing) (simp_all add: length_takeWhile_le)
  ultimately show "0 \<le> digits_value s" "digits_value s < 10 ^ length s" by (blast intro: less_le_trans)+
qed

lemma atoi_short:
  assumes "length s \<le> 9"
  shows "\<exists>n. atoi s = Some n"
proof -
  have bound: "digits_value u < 2 ^ 31" if "length u \<le> 9" for u
  proof -
    have "digits_value u < 10 ^ length u" by (rule digits_value_bound)
    also have "... \<le> (10 :: int) ^ 9" using that by (intro power_increasing) auto
    finally show ?thesis by simp
  qed
  let ?t = "dropWhile is_space s"
  have t: "length ?t \<le> 9" using assms length_dropWhile_le [of is_space s] by simp
  show ?thesis
  proof (cases ?t)
    case (Cons c u)
    then have "digits_value u < 2 ^ 31" "digits_value ?t < 2 ^ 31" using t by (intro bound; simp)+
    moreover have "0 \<le> digits_value u" "0 \<le> digits_value ?t" by (rule digits_value_bound)+
    ultimately show ?thesis unfolding atoi_def Let_def Cons list.case
      by (cases "c = CHR ''-''"; cases "c = CHR ''+''") simp_all
  next
    case Nil
    then show ?thesis unfolding atoi_def Let_def Nil by simp
  qed
qed

lemma menu2_disp_total:
  assumes "length amount < 8"
  obtains n where "atoi amount = Some n"
    "menu2_disp yx amount g = Some (g\<lparr>max_y := fst yx, max_x := snd yx, max_bonus := min n 100\<rparr>)"
proof -
  from atoi_short [of amount] assms obtain n where "atoi amount = Some n" by auto
  with that [of n] assms show thesis by (simp add: menu2_disp_def min_def)
qed

section \<open>Properties of the dialogs\<close>

text \<open>
  The rate menu returns exactly when the button is read eventually; it then has taken
  the rate on the line reached by the up and down keys read before, counted around the four lines.
\<close>

lemma menu_disp_chooses:
  assumes "k \<le> j" "uint (keys j) = USBKEY_FCT" "\<forall>i. k \<le> i \<and> i < j \<longrightarrow> uint (keys i) \<noteq> USBKEY_FCT"
  shows "\<exists>frames. menu_disp yx keys k g =
     Some (g\<lparr>max_y := fst yx, max_x := snd yx,
             spawning_rate := [LOW, NORMAL, FAST, INSANE] !
               nat ((presses USBKEY_DOWN keys k j - presses USBKEY_UP keys k j) mod 4)\<rparr>, Suc j, frames)"
proof -
  from menu_loop_reads [OF assms, of 0] obtain fs
    where "menu_loop keys k 0 = Some (line_after 4 keys k j 0, Suc j, fs)" by auto
  moreover have "chosen_rate (line_after 4 keys k j 0) r = [LOW, NORMAL, FAST, INSANE] !
      nat ((presses USBKEY_DOWN keys k j - presses USBKEY_UP keys k j) mod 4)" for r
    using chosen_rate_nth [of "line_after 4 keys k j 0"] line_after_range [of 4 keys k j 0]
    unfolding line_after_def by simp
  ultimately show ?thesis unfolding menu_disp_def by simp
qed

text \<open>
  The pause menu, when the button is read as key \<open>j\<close>, returns 0 (resume) or 1 (quit) by
  the parity of the number of up and down keys read before.
\<close>

lemma quit_disp_decides:
  assumes "k \<le> j" "uint (keys j) = USBKEY_FCT" "\<forall>i. k \<le> i \<and> i < j \<longrightarrow> uint (keys i) \<noteq> USBKEY_FCT"
  shows "\<exists>frames. quit_disp yx keys k g =
     Some ((presses USBKEY_DOWN keys k j + presses USBKEY_UP keys k j) mod 2,
           g\<lparr>max_y := fst yx, max_x := snd yx\<rparr>, Suc j, frames)"
proof -
  have "(a - b) mod 2 = (a + b) mod 2" for a b :: int by presburger
  with quit_loop_reads [OF assms, of 0] show ?thesis by (auto simp: quit_disp_def line_after_def)
qed

text \<open>
  Property C17. The rate menu and the pause menu return exactly when the joystick button is read
  at some later time; a player who never presses it stays in the menu forever.
\<close>

theorem menus_return_iff:
  "((\<exists>r. menu_disp yx keys k g = Some r) = (\<exists>j. k \<le> j \<and> uint (keys j) = USBKEY_FCT)) \<and>
   ((\<exists>r. quit_disp yx keys k g = Some r) = (\<exists>j. k \<le> j \<and> uint (keys j) = USBKEY_FCT))"
proof -
  have "(\<exists>r. menu_loop keys k 0 = Some r) = (\<exists>j. k \<le> j \<and> uint (keys j) = USBKEY_FCT)"
    (is "?r = ?j")
  proof
    assume ?r then show ?j using menu_loop_end by blast
  next
    assume ?j
    then obtain j where "k \<le> j" "uint (keys j) = USBKEY_FCT"
      "\<forall>i. k \<le> i \<and> i < j \<longrightarrow> uint (keys i) \<noteq> USBKEY_FCT" by (rule next_FCT)
    from menu_loop_reads [OF this, of 0] show ?r by auto
  qed
  moreover have "(\<exists>r. quit_loop keys k 0 = Some r) = (\<exists>j. k \<le> j \<and> uint (keys j) = USBKEY_FCT)"
    (is "?r = ?j")
  proof
    assume ?r then show ?j using quit_loop_end by blast
  next
    assume ?j
    then obtain j where "k \<le> j" "uint (keys j) = USBKEY_FCT"
      "\<forall>i. k \<le> i \<and> i < j \<longrightarrow> uint (keys i) \<noteq> USBKEY_FCT" by (rule next_FCT)
    from quit_loop_reads [OF this, of 0] show ?r by auto
  qed
  moreover have "(\<exists>r. menu_disp yx keys k g = Some r) = (\<exists>r. menu_loop keys k 0 = Some r)"
    by (cases "menu_loop keys k 0") (auto simp: menu_disp_def)
  moreover have "(\<exists>r. quit_disp yx keys k g = Some r) = (\<exists>r. quit_loop keys k 0 = Some r)"
    by (cases "quit_loop keys k 0") (auto simp: quit_disp_def)
  ultimately show ?thesis by blast
qed

end
