(* ===== verification/Game_Run.thy ===== *)
theory Game_Run
  imports Game_Refinement Menu_Laws
begin

text \<open>
  Whole games: from the start of \<open>main\<close>'s game part (\<open>game_init\<close>) through any number of rounds. The
  inputs are arbitrary except that the pause menu is always left eventually, that the window never
  has one of the two sizes on which \<open>bonus_create\<close> divides by zero, and that \<open>malloc\<close> succeeds.
\<close>

section \<open>Rounds\<close>

fun ticks :: "env \<Rightarrow> nat \<Rightarrow> game \<Rightarrow> (outcome \<times> game) option" where
  "ticks E 0 s = Some (Continue, s)"
| "ticks E (Suc n) s = do {
     (r, s) \<leftarrow> game_tick E s;
     case r of Stop l \<Rightarrow> Some (Stop l, s) | Continue \<Rightarrow> ticks E n s }"

definition responsive :: "env \<Rightarrow> bool" where
  "responsive E \<longleftrightarrow> (\<forall>k. \<exists>j\<ge>k. uint (keys_of E j) = USBKEY_FCT)"

definition windows_ok :: "env \<Rightarrow> bool" where
  "windows_ok E \<longleftrightarrow> (\<forall>k. snd (maxyx_at E k) \<noteq> 4 \<and> fst (maxyx_at E k) \<noteq> 6)"

section \<open>Inputs are always read\<close>

lemma pause_total:
  assumes "responsive E" "windows_ok E"
  shows "\<exists>q s1. pause E ch s = Some (q, ch, s1) \<and> window_ok (gv s1)"
proof -
  let ?s = "send2 E 49 s"
  from assms(1) have "\<exists>j\<ge>n_key ?s. uint (keys_of E j) = USBKEY_FCT" by (simp add: responsive_def)
  then obtain j where "n_key ?s \<le> j" "uint (keys_of E j) = USBKEY_FCT"
    "\<forall>i. n_key ?s \<le> i \<and> i < j \<longrightarrow> uint (keys_of E i) \<noteq> USBKEY_FCT" by (rule next_FCT)
  from quit_loop_reads [OF this, of 0] obtain r k fs
    where "quit_loop (keys_of E) (n_key ?s) 0 = Some (r, k, fs)" by auto
  then have "quit_disp (maxyx_at E (n_maxyx ?s)) (keys_of E) (n_key ?s) (gv ?s) =
      Some (r, (gv ?s)\<lparr>max_y := fst (maxyx_at E (n_maxyx ?s)), max_x := snd (maxyx_at E (n_maxyx ?s))\<rparr>, k, fs)"
    by (simp add: quit_disp_def)
  then show ?thesis using assms(2)
    by (cases "r = 0") (auto simp: pause_def window_ok_def windows_ok_def send2_def)
qed

lemma poll_window: "windows_ok E \<Longrightarrow> window_ok (gv (snd (poll E s)))"
  by (cases "nb_player s = 2") (simp_all add: poll_def window_ok_def windows_ok_def Let_def)

lemma read_inputs_total:
  assumes "responsive E" "windows_ok E"
  shows "\<exists>q ch s1. read_inputs E s = Some (q, ch, s1) \<and> window_ok (gv s1)"
proof -
  obtain ch s0 where p: "poll E s = (ch, s0)" by fastforce
  have w: "window_ok (gv s0)" using poll_window [OF assms(2), of s] p by simp
  show ?thesis
  proof (cases "(ch = USBKEY_FCT \<or> ch2 s0 = 27) \<and> start s0 = 0")
    case True
    then have "read_inputs E s = pause E ch s0" by (simp add: read_inputs_def p)
    with pause_total [OF assms, of ch s0] show ?thesis by auto
  next
    case False
    then have "read_inputs E s = Some (False, ch, s0\<lparr>start := 0\<rparr>)" by (auto simp: read_inputs_def p)
    with w show ?thesis by auto
  qed
qed

section \<open>A round from any good state\<close>

definition scores_below :: "int \<Rightarrow> globals \<Rightarrow> bool" where
  "scores_below n g \<longleftrightarrow> score g < n \<and> score_b g < n"

lemma spawn_and_move_scores [simp]:
  "score (glob (spawn_and_move E k two b)) = score (glob b)"
  "score_b (glob (spawn_and_move E k two b)) = score_b (glob b)"
  by (simp_all add: spawn_and_move_def move_all_def Let_def)

lemma eat_scores: "eat i cs g = (cs', g') \<Longrightarrow> i = 1 \<or> i = 2 \<Longrightarrow>
    score g' + score_b g' \<le> score g + score_b g + 1 \<and> score g' \<le> score g + (if i = 1 then 1 else 0) \<and>
    score_b g' \<le> score_b g + (if i = 2 then 1 else 0)"
  by (auto simp: eat_def split: option.splits)

lemma judge_1_scores: "judge_1 b = (r, b') \<Longrightarrow>
    score (glob b') \<le> score (glob b) + 1 \<and> score_b (glob b') \<le> score_b (glob b)"
  by (auto simp: judge_1_def split: if_splits prod.splits dest: eat_scores)

lemma judge_2_scores: "judge_2 b = (r, b') \<Longrightarrow>
    score (glob b') \<le> score (glob b) \<and> score_b (glob b') \<le> score_b (glob b) + 1"
  by (auto simp: judge_2_def Let_def split: if_splits prod.splits dest: eat_scores)

lemma judge_scores: "judge two b = (r, b') \<Longrightarrow> scores_below n (glob b) \<Longrightarrow> scores_below (n + 1) (glob b')"
  by (fastforce simp: judge_def scores_below_def split: prod.splits outcome.splits if_splits
      dest: judge_1_scores judge_2_scores)

lemma same_store_scores: "same_store s s' \<Longrightarrow> scores_below n (gv s') = scores_below n (gv s)"
  by (simp add: same_store_def same_play_def scores_below_def)

lemma game_tick_total:
  assumes E: "responsive E" "windows_ok E" and rep: "represents s b" and ok: "board_ok two b"
    and two: "two = (nb_player s = 2)" and room: "2 \<le> room (hp s)"
    and sc: "scores_below n (gv s)" "n \<le> 10 ^ 7"
  shows "\<exists>r s' b'. game_tick E s = Some (r, s') \<and> represents s' b' \<and> board_ok two b' \<and>
     room (hp s) \<le> room (hp s') + 2 \<and> nb_player s' = nb_player s \<and> scores_below (n + 1) (gv s')"
proof -
  from read_inputs_total [OF E] obtain q ch s1
    where inp: "read_inputs E s = Some (q, ch, s1)" and w: "window_ok (gv s1)" by blast
  note st = read_inputs_store [OF inp]
  have sc1: "scores_below n (gv s1)" using same_store_scores [OF st] sc(1) by simp
  show ?thesis
  proof (cases q)
    case True
    then have "game_tick E s = Some (Stop 0, s1)" using inp by (simp add: game_tick_def)
    moreover have "board_ok two (b\<lparr>glob := gv s1\<rparr>)"
      using same_play_board_ok [OF ok] st rep by (simp add: same_store_def represents_def)
    moreover have "scores_below (n + 1) (gv s1)" using sc1 by (simp add: scores_below_def)
    ultimately show ?thesis using same_store_represents [OF rep st] st
      by (auto simp: same_store_def)
  next
    case False
    obtain r b' where nb: "next_board E ch s1 two b = (r, b')" by fastforce
    have d: "drawable (gv s1)" using w sc1 sc(2) by (simp add: drawable_def scores_below_def)
    from game_tick_rep [OF rep ok two room _ d nb] inp False obtain s'
      where s': "game_tick E s = Some (r, s')" "represents s' b'" "board_ok two b'"
        "room (hp s) \<le> room (hp s') + 2" "nb_player s' = nb_player s" by auto
    have "scores_below n (gv (steer E ch s1))"
      using sc1 same_store_scores [OF steer_store] by simp
    then have "scores_below (n + 1) (glob b')"
      using judge_scores nb by (fastforce simp: next_board_def scores_below_def)
    with s' show ?thesis by (auto simp: represents_def)
  qed
qed

lemma ticks_total:
  assumes "responsive E" "windows_ok E" "represents s b" "board_ok two b" "two = (nb_player s = 2)"
    and "2 * N \<le> room (hp s)" "scores_below n (gv s)" "n + int N \<le> 10 ^ 7"
  shows "\<exists>r s' b'. ticks E N s = Some (r, s') \<and> represents s' b' \<and> board_ok two b' \<and>
     nb_player s' = nb_player s \<and> scores_below (n + int N) (gv s')"
  using assms
proof (induction N arbitrary: s b n)
  case 0
  then show ?case by auto
next
  case (Suc N)
  from Suc.prems have "2 \<le> room (hp s)" "n \<le> 10 ^ 7" by auto
  from game_tick_total [OF Suc.prems(1-5) this(1) Suc.prems(7) this(2)] obtain r s1 b1
    where t: "game_tick E s = Some (r, s1)" "represents s1 b1" "board_ok two b1"
      "room (hp s) \<le> room (hp s1) + 2" "nb_player s1 = nb_player s" "scores_below (n + 1) (gv s1)" by blast
  show ?case
  proof (cases r)
    case Continue
    have "2 * N \<le> room (hp s1)" "n + 1 + int N \<le> 10 ^ 7" "two = (nb_player s1 = 2)"
      using Suc.prems t by auto
    from Suc.IH [OF Suc.prems(1,2) t(2,3) this(3,1) t(6) this(2)] t Continue show ?thesis
      by (auto simp: algebra_simps)
  next
    case (Stop l)
    moreover have "scores_below (n + int (Suc N)) (gv s1)" using t(6) by (auto simp: scores_below_def)
    ultimately show ?thesis using t by auto
  qed
qed

section \<open>The start of a game\<close>

text \<open>Nothing is allocated before the snakes are built.\<close>

definition fresh :: "heap \<Rightarrow> bool" where
  "fresh h \<longleftrightarrow> cells h = Map.empty \<and> 0 < brk h"

lemma fresh_rep: "fresh h \<Longrightarrow> snake_rep h 0 [] Map.empty"
  by (simp add: fresh_def snake_rep_def heap_ok_def)

lemma linked_start: "linked (start_snake row)"
  by (simp add: start_snake_def is_dir_def shift_pos_def)

lemma snakes_one: "snake_rep h p cs Map.empty \<Longrightarrow> snakes h p cs 0 []"
proof -
  assume "snake_rep h p cs Map.empty"
  then obtain A where A: "heap_ok h" "chain (cells h) p A cs" "cells h |` (- set A) = Map.empty"
    by (auto simp: snake_rep_def)
  have "dom (cells h) \<subseteq> set A"
  proof
    fix a
    assume "a \<in> dom (cells h)"
    then show "a \<in> set A" using fun_cong [OF A(3), of a] by (auto simp: restrict_map_def split: if_splits)
  qed
  with A chain_dom [OF A(2)] show ?thesis unfolding snakes_def
    by (intro exI [of _ A] exI [of _ "[]"]) auto
qed

lemma snakes_two:
  assumes "snakes h p cs 0 []" "3 \<le> room h"
  shows "\<exists>q h'. init_snake 2 h g =
      Some (q, h', g\<lparr>snake_end_b := end_cell (start_snake (max_y g - 3))\<rparr>) \<and>
      snakes h' p cs q (start_snake (max_y g - 3)) \<and> room h' + 3 = room h"
proof -
  from snakes_focus [OF snakes_sym [OF assms(1)]] obtain R where R: "snake_rep h 0 [] R"
    "\<forall>h' p' cs'. snake_rep h' p' cs' R \<longrightarrow> snakes h' p' cs' p cs" by blast
  from init_snake_rep [OF R(1) assms(2), of 2 "max_y g - 3" g] obtain q h'
    where "init_snake 2 h g = Some (q, h', set_snake_end 2 \<lparr>cpos = last (start_snake (max_y g - 3)), cnext = 0\<rparr> g)"
      "snake_rep h' q (start_snake (max_y g - 3)) R" "room h' + 3 = room h" by auto
  with R(2) show ?thesis by (auto simp: set_snake_end_def end_cell_def intro: snakes_sym)
qed

lemma init_bonus_Some:
  "length (bonus_list g) = MAX_BONUS \<Longrightarrow> max_bonus g \<le> 100 \<Longrightarrow>
     \<exists>bl. init_bonus g = Some (g\<lparr>bonus_list := bl\<rparr>) \<and> length bl = MAX_BONUS"
  using clear_bonus_spec [of 0 "nat (max_bonus g)" "bonus_list g"] by (auto simp: init_bonus_def)


lemma menu_disp_rate:
  assumes "\<exists>j\<ge>k. uint (keys j) = USBKEY_FCT"
  shows "\<exists>r k' fs. menu_disp yx keys k g = Some (g\<lparr>max_y := fst yx, max_x := snd yx, spawning_rate := r\<rparr>, k', fs) \<and> is_rate r"
proof -
  from assms obtain j where "k \<le> j" "uint (keys j) = USBKEY_FCT"
    "\<forall>i. k \<le> i \<and> i < j \<longrightarrow> uint (keys i) \<noteq> USBKEY_FCT" by (rule next_FCT)
  from menu_loop_reads [OF this, of 0] obtain fs
    where "menu_loop keys k 0 = Some (line_after 4 keys k j 0, Suc j, fs)" by auto
  moreover have "is_rate (chosen_rate (line_after 4 keys k j 0) r)" for r
    using line_after_range [of 4 keys k j 0] by (auto simp: chosen_rate_def is_rate_def)
  ultimately show ?thesis by (auto simp: menu_disp_def)
qed

text \<open>The globals after the two dialogs and the third \<open>getmaxyx\<close>.\<close>

definition ready :: "globals \<Rightarrow> bool" where
  "ready g \<longleftrightarrow> length (bonus_list g) = MAX_BONUS \<and> max_bonus g \<le> 100 \<and> score g = 0 \<and> score_b g = 0 \<and>
     is_dir (dir g) \<and> is_dir (dir_b g) \<and> is_rate (spawning_rate g)"

lemma menus_ready:
  assumes "responsive E" "length (typed E) < 8"
  shows "\<exists>g1 k fs g2. menu_disp (maxyx_at E 0) (keys_of E) 0 globals0 = Some (g1, k, fs) \<and>
     menu2_disp (maxyx_at E 1) (typed E) g1 = Some g2 \<and> ready g2"
proof -
  from assms(1) have "\<exists>j\<ge>0. uint (keys_of E j) = USBKEY_FCT" unfolding responsive_def by blast
  from menu_disp_rate [OF this, of "maxyx_at E 0" globals0] obtain r k fs where m1: "is_rate r"
    "menu_disp (maxyx_at E 0) (keys_of E) 0 globals0 =
      Some (globals0\<lparr>max_y := fst (maxyx_at E 0), max_x := snd (maxyx_at E 0), spawning_rate := r\<rparr>, k, fs)"
    by blast
  let ?g1 = "globals0\<lparr>max_y := fst (maxyx_at E 0), max_x := snd (maxyx_at E 0), spawning_rate := r\<rparr>"
  from menu2_disp_total [OF assms(2), of "maxyx_at E 1" ?g1] obtain m where
    m2: "menu2_disp (maxyx_at E 1) (typed E) ?g1 =
      Some (?g1\<lparr>max_y := fst (maxyx_at E 1), max_x := snd (maxyx_at E 1), max_bonus := min m 100\<rparr>)" .
  from m1 m2 show ?thesis by (auto simp: ready_def globals0_def is_dir_def)
qed

lemma game_init_rep:
  assumes E: "responsive E" "length (typed E) < 8" and n: "n = 1 \<or> n = 2"
    and h: "fresh h" "6 \<le> room h"
  shows "\<exists>s b. game_init E u h n junk_b = Some s \<and> represents s b \<and> board_ok (n = 2) b \<and>
     nb_player s = n \<and> room h \<le> room (hp s) + 6 \<and> score (gv s) = 0 \<and> score_b (gv s) = 0 \<and>
     start s = 1 \<and> link s = u"
proof -
  from menus_ready [OF E] obtain g1 k fs g0 where m: "ready g0"
    "menu_disp (maxyx_at E 0) (keys_of E) 0 globals0 = Some (g1, k, fs)"
    "menu2_disp (maxyx_at E 1) (typed E) g1 = Some g0" by blast
  define g where "g = g0\<lparr>max_y := fst (maxyx_at E 2), max_x := snd (maxyx_at E 2)\<rparr>"
  have g: "ready g" using m(1) by (simp add: ready_def g_def)
  from h have "3 \<le> room h" by simp
  from init_snake_rep [OF fresh_rep [OF h(1)] this, of 1 2 g] obtain p h1
    where i1: "init_snake 1 h g = Some (p, h1, g\<lparr>snake_end := end_cell (start_snake 2)\<rparr>)"
      "snakes h1 p (start_snake 2) 0 []" "room h1 + 3 = room h"
    by (auto simp: set_snake_end_def end_cell_def dest: snakes_one)
  define g2 where "g2 = g\<lparr>snake_end := end_cell (start_snake 2)\<rparr>"
  have "3 \<le> room h1" using i1(3) h(2) by simp
  from snakes_two [OF i1(2) this, of g2] obtain q h2
    where i2: "init_snake 2 h1 g2 = Some (q, h2, g2\<lparr>snake_end_b := end_cell (start_snake (max_y g2 - 3))\<rparr>)"
      "snakes h2 p (start_snake 2) q (start_snake (max_y g2 - 3))" "room h2 + 3 = room h1" by blast
  define g3 where "g3 = (if n = 2 then g2\<lparr>snake_end_b := end_cell (start_snake (max_y g2 - 3))\<rparr> else g2)"
  define h3 where "h3 = (if n = 2 then h2 else h1)"
  define ds where "ds = (if n = 2 then start_snake (max_y g2 - 3) else [])"
  have g3: "ready g3" using g by (simp add: ready_def g3_def g2_def)
  with init_bonus_Some [of g3] obtain bl
    where bl: "init_bonus g3 = Some (g3\<lparr>bonus_list := bl\<rparr>)" "length bl = MAX_BONUS"
    by (auto simp: ready_def)
  let ?s = "\<lparr>hp = h3, gv = g3\<lparr>bonus_list := bl\<rparr>, snake = p, snake_b = if n = 2 then q else junk_b,
    nb_player = n, ch2 = ch2_junk E, start = 1, n_key = k, n_getch = 0, n_rand = 0, n_maxyx = 3, link = u,
    picture = []\<rparr>"
  let ?b = "\<lparr>body = start_snake 2, body_b = ds, glob = g3\<lparr>bonus_list := bl\<rparr>\<rparr>"
  have "game_init E u h n junk_b = Some ?s"
    using m(2,3) i1(1) i2(1) bl(1) n
    by (auto simp: game_init_def g3_def h3_def g2_def [symmetric] g_def [symmetric])
  moreover have "represents ?s ?b" using i1(2) i2(2) by (simp add: represents_def h3_def ds_def)
  moreover have "board_ok (n = 2) ?b" using g bl(2)
    by (auto simp: board_ok_def bonus_ok_def ready_def g3_def g2_def ds_def linked_start) (auto simp: start_snake_def)
  moreover have "room h \<le> room h3 + 6" using i1(3) i2(3) by (simp add: h3_def)
  ultimately show ?thesis using g3 by (intro exI [of _ ?s] exI [of _ ?b]) (simp add: ready_def)
qed

section \<open>The loop and its rounds\<close>

lemma ticks_loop: "ticks E N s = Some (Stop l, s') \<Longrightarrow> game_loop E s = Some (l, s')"
proof (induction N arbitrary: s)
  case (Suc N)
  then obtain r s1 where t: "game_tick E s = Some (r, s1)" by (auto simp: bind_eq_Some_conv)
  with Suc show ?case by (subst game_loop.simps) (cases r; simp)
qed simp

lemma loop_ticks:
  assumes "game_loop E s = Some (l, s')"
  shows "\<exists>N. ticks E N s = Some (Stop l, s')"
proof -
  have "\<exists>N. ticks E N s = Some (Stop (fst x), snd x)" if "game_loop E s = Some x" for x
  proof (rule game_loop.raw_induct [OF _ that, of "\<lambda>E s x. \<exists>N. ticks E N s = Some (Stop (fst x), snd x)"])
    fix loop and E :: env and s :: game and x :: "int \<times> game"
    assume IH: "\<And>E s x. loop E s = Some x \<Longrightarrow> \<exists>N. ticks E N s = Some (Stop (fst x), snd x)"
      and step: "(do { (r, s) \<leftarrow> game_tick E s;
         case r of Stop l \<Rightarrow> Some (l, s) | Continue \<Rightarrow> loop E s }) = Some x"
    from step obtain r s1 where t: "game_tick E s = Some (r, s1)" by (auto simp: bind_eq_Some_conv)
    show "\<exists>N. ticks E N s = Some (Stop (fst x), snd x)"
    proof (cases r)
      case Continue
      with t step have "loop E s1 = Some x" by simp
      from IH [OF this] obtain N where "ticks E N s1 = Some (Stop (fst x), snd x)" ..
      with t Continue have "ticks E (Suc N) s = Some (Stop (fst x), snd x)" by simp
      then show ?thesis ..
    next
      case (Stop l)
      with t step have "ticks E (Suc 0) s = Some (Stop (fst x), snd x)" by auto
      then show ?thesis ..
    qed
  qed
  from this [OF assms] show ?thesis by simp
qed

lemma represents_live: "represents s b \<Longrightarrow> card (dom (cells (hp s))) = length (body b) + length (body_b b)"
  using snakes_live by (auto simp: represents_def)

lemma board_ok_lengths:
  "board_ok two b \<Longrightarrow> int (length (body b) + length (body_b b)) =
     3 + score (glob b) + (if two then 3 + score_b (glob b) else 0)"
  by (auto simp: board_ok_def)

section \<open>Properties of whole games\<close>

text \<open>
  Property C1. From the start of a game, for one or two players and any inputs, each of the next \<open>N\<close>
  rounds returns: no \<open>NULL\<close> or dangling pointer is followed, no walk over a list is endless and no
  buffer overruns. The state reached satisfies the invariant, with exactly the cells of the snakes
  allocated: three and one per point of each player. This needs memory for the cells, pauses that
  end, and a window that is not exactly 4 columns wide or 6 lines high.
\<close>

theorem game_rounds_safe:
  assumes "responsive E" "windows_ok E" "length (typed E) < 8" "n = 1 \<or> n = 2"
    and "fresh h" "6 + 2 * N \<le> room h" "N < 10 ^ 7"
  shows "\<exists>s0 r s b. game_init E u h n junk_b = Some s0 \<and> ticks E N s0 = Some (r, s) \<and>
     represents s b \<and> board_ok (n = 2) b \<and>
     int (card (dom (cells (hp s)))) = 3 + score (gv s) + (if n = 2 then 3 + score_b (gv s) else 0)"
proof -
  from assms(6) have "6 \<le> room h" by simp
  from game_init_rep [OF assms(1,3-5) this] obtain s0 b0 where i: "game_init E u h n junk_b = Some s0"
    "represents s0 b0" "board_ok (n = 2) b0" "nb_player s0 = n" "room h \<le> room (hp s0) + 6"
    "score (gv s0) = 0" "score_b (gv s0) = 0" by blast
  have "(n = 2) = (nb_player s0 = 2)" "2 * N \<le> room (hp s0)" "scores_below 1 (gv s0)" "1 + int N \<le> 10 ^ 7"
    using i assms(6,7) by (auto simp: scores_below_def)
  from ticks_total [OF assms(1,2) i(2,3) this] obtain r s b
    where t: "ticks E N s0 = Some (r, s)" "represents s b" "board_ok (n = 2) b" by blast
  have "glob b = gv s" using t(2) by (simp add: represents_def)
  with i(1) t represents_live [OF t(2)] board_ok_lengths [OF t(3)] show ?thesis by metis
qed

text \<open>A player who holds the button down, in an 80x24 window.\<close>

definition demo_env :: env where
  "demo_env = \<lparr>lib = \<lparr>ret = \<lambda>_ _. 0, idProduct = \<lambda>_. ID_PRODUCT,
       active_config = \<lambda>_. \<lparr>bNumInterfaces = 0, bConfigurationValue = 1, interface = []\<rparr>,
       config = \<lambda>_. \<lparr>bNumInterfaces = 0, bConfigurationValue = 1, interface = []\<rparr>\<rparr>,
     kbd = \<lparr>KEY_LEFT = 260, KEY_RIGHT = 261, KEY_UP = 259, KEY_DOWN = 258\<rparr>,
     transfer_at = \<lambda>_. \<lparr>bytes_in = 1, data = 33\<rparr>, getch_at = \<lambda>_. -1, rand_at = int,
     maxyx_at = \<lambda>_. (24, 80), typed = ''10'', ch2_junk = 0\<rparr>"

definition demo_heap :: heap where
  "demo_heap = \<lparr>cells = Map.empty, brk = 1, junk = zero_cell, room = 1000\<rparr>"

theorem game_rounds_safe_witness:
  "\<exists>s0 r s b. game_init demo_env usb0 demo_heap 2 0 = Some s0 \<and> ticks demo_env 400 s0 = Some (r, s) \<and>
     represents s b \<and> board_ok True b \<and>
     int (card (dom (cells (hp s)))) = 6 + score (gv s) + score_b (gv s)"
proof -
  have "responsive demo_env" "windows_ok demo_env" "length (typed demo_env) < 8"
    "fresh demo_heap" "6 + 2 * 400 \<le> room demo_heap"
    by (auto simp: responsive_def windows_ok_def demo_env_def keys_of_def key_pressed_def fresh_def demo_heap_def)
  from game_rounds_safe [OF this(1-3) _ this(4,5), of 2 usb0 0] show ?thesis by auto
qed


end
