(* ===== verification/Game_Properties.thy ===== *)
theory Game_Properties
  imports Game_Run
begin

text \<open>
  What the single operations of the game do: movement, collisions, bonus items, the LED of the pad
  during a pause, and the end of a game nobody steers.
\<close>

section \<open>Movement and collisions\<close>

lemma shift_pos_adjacent:
  "is_dir e \<Longrightarrow> \<bar>px (shift_pos 1 p e) - px p\<bar> + \<bar>py (shift_pos 1 p e) - py p\<bar> = 1"
  by (auto simp: shift_pos_def is_dir_def)


definition demo_snake :: heap where
  "demo_snake = \<lparr>cells = [1 \<mapsto> \<lparr>cpos = \<lparr>px = 5, py = 5, pdir = RIGHT\<rparr>, cnext = 2\<rparr>,
     2 \<mapsto> \<lparr>cpos = \<lparr>px = 5, py = 6, pdir = RIGHT\<rparr>, cnext = 0\<rparr>], brk = 3, junk = zero_cell, room = 9\<rparr>"

lemma demo_snake_rep:
  "snake_rep demo_snake 1 [\<lparr>px = 5, py = 5, pdir = RIGHT\<rparr>, \<lparr>px = 5, py = 6, pdir = RIGHT\<rparr>] Map.empty"
proof -
  have "cells demo_snake |` (- set [1, 2]) = Map.empty"
    by (rule ext) (simp add: demo_snake_def restrict_map_def)
  moreover have "heap_ok demo_snake" by (auto simp: demo_snake_def heap_ok_def split: if_splits)
  moreover have "chain (cells demo_snake) 1 [1, 2] [\<lparr>px = 5, py = 5, pdir = RIGHT\<rparr>, \<lparr>px = 5, py = 6, pdir = RIGHT\<rparr>]"
    by (simp add: demo_snake_def)
  ultimately show ?thesis unfolding snake_rep_def by blast
qed


text \<open>
  Property C3. On two separate snakes, \<open>crash_check\<close> reports 1 exactly when two cells of the snake
  are at the same place, and \<open>crash_snake_check\<close> exactly when the given head is on the other snake.
\<close>

theorem crash_checks_exact:
  assumes "snakes h p cs q ds"
  shows "crash_check p h = Some (if distinct (map xy cs) then 0 else 1) \<and>
     crash_snake_check q 1 h g = Some (if xy (cpos (snake_end g)) \<in> xy ` set ds then 1 else 0) \<and>
     crash_snake_check p 2 h g = Some (if xy (cpos (snake_end_b g)) \<in> xy ` set cs then 1 else 0)"
proof -
  from assms obtain A B where "chain (cells h) p A cs" "chain (cells h) q B ds" by (auto simp: snakes_def)
  then show ?thesis
    by (simp add: crash_check_def crash_snake_check_def crash_outer_chain crash_inner_chain xy_def)
qed

theorem crash_checks_exact_witness:
  "crash_check 1 demo_snake = Some 0 \<and>
   crash_snake_check 1 2 demo_snake (globals0\<lparr>snake_end_b := \<lparr>cpos = \<lparr>px = 5, py = 5, pdir = UP\<rparr>, cnext = 0\<rparr>\<rparr>) = Some 1"
  using crash_checks_exact [OF snakes_one [OF demo_snake_rep]] by (simp add: xy_def)

lemma border_drawn:
  "(y, x, ''#'') \<in> set (UI_draw g) \<longleftrightarrow>
     (0 \<le> x \<and> x \<le> max_x g \<and> (y = 1 \<or> y = max_y g - 2)) \<or>
     (0 \<le> y - 2 \<and> y - 2 \<le> max_y g - 5 \<and> (x = 0 \<or> x = max_x g - 1))"
proof -
  have "set (UI_draw g) = (\<Union>i \<in> {0..max_x g}. {(1, i, ''#''), (max_y g - 2, i, ''#'')}) \<union>
      (\<Union>i \<in> {0..max_y g - 5}. {(i + 2, 0, ''#''), (i + 2, max_x g - 1, ''#'')}) \<union>
      {(0, max_x g sdiv 2 - int (length title div 2), title)}"
    by (simp add: UI_draw_def Un_assoc)
  moreover have "''#'' \<noteq> title" by (simp add: title_def)
  moreover have "(\<exists>i \<in> {0..max_y g - 5}. y = i + 2 \<and> P) \<longleftrightarrow> 0 \<le> y - 2 \<and> y - 2 \<le> max_y g - 5 \<and> P" for P
    by (auto intro!: bexI [of _ "y - 2"])
  ultimately show ?thesis by (simp add: bex_disj_distrib conj_disj_distribL) blast
qed

text \<open>
  Property C4. After a step from inside the field, \<open>wall_check\<close> reports a collision exactly when
  the head is on a cell where \<open>UI_draw\<close> draws the border, for either player.
\<close>

theorem wall_check_border:
  assumes "inside g p" "is_dir (pdir p)" "is_dir d" "i = 1 \<or> i = 2"
    and "end_of i g = Some \<lparr>cpos = next_head p d, cnext = 0\<rparr>"
  shows "wall_check i g = 1 \<longleftrightarrow> (px (next_head p d), py (next_head p d), ''#'') \<in> set (UI_draw g)"
proof -
  let ?q = "next_head p d"
  have w: "wall_check i g = hits_wall ?q g" using assms(4,5) by (auto simp: wall_check_def end_of_def)
  obtain e where e: "is_dir e" "?q = shift_pos 1 p e" using next_head_shift [OF assms(3,2)] by blast
  show ?thesis unfolding w border_drawn using assms(1) e(1) unfolding e(2)
    by (auto simp: hits_wall_def inside_def shift_pos_def is_dir_def)
qed

theorem wall_check_border_witness:
  "wall_check 1 (globals0\<lparr>max_x := 80, max_y := 24,
      snake_end := \<lparr>cpos = next_head \<lparr>px = 2, py = 9, pdir = RIGHT\<rparr> UP, cnext = 0\<rparr>\<rparr>) = 1"
  using wall_check_border [of "globals0\<lparr>max_x := 80, max_y := 24,
      snake_end := \<lparr>cpos = next_head \<lparr>px = 2, py = 9, pdir = RIGHT\<rparr> UP, cnext = 0\<rparr>\<rparr>"
      "\<lparr>px = 2, py = 9, pdir = RIGHT\<rparr>" UP 1]
  by (simp add: inside_def is_dir_def end_of_def border_drawn) (simp add: next_head_def shift_pos_def opposite_def)

section \<open>Bonus items\<close>

lemma smod_range: "0 \<le> a \<Longrightarrow> 0 < m \<Longrightarrow> 0 \<le> a smod m \<and> a smod m < (m :: int)"
  by (simp add: signed_modulo_int_def signed_divide_int_def) (simp add: sgn_if minus_div_mult_eq_mod)

text \<open>The cell of the screen a bonus is drawn on.\<close>

definition bonus_cell :: "bonus \<Rightarrow> pos" where
  "bonus_cell b = \<lparr>px = pos_y b, py = pos_x b, pdir = RIGHT\<rparr>"



text \<open>
  Property C15. \<open>bonus_check\<close> does not look at the \<open>activ\<close> flag: a head on the place of an item that
  was already eaten, and is no longer drawn, scores and grows again and the item counter drops again.
\<close>

theorem bonus_eaten_again:
  assumes "bonus_ok g" "snake_rep h p cs R" "cs \<noteq> []" "0 < room h" "is_dir (pdir (hd cs))"
    and "j < nat (max_bonus g)" "activ (bonus_list g ! j) = 0"
    and "xy (cpos (snake_end g)) = xy (bonus_cell (bonus_list g ! j))"
  shows "\<exists>p' h' g'. bonus_check p 1 h g = Some (p', h', g') \<and> score g' = score g + 1 \<and>
     nb_bonus g' = nb_bonus g - 1 \<and> snake_rep h' p' (new_tip (hd cs) # cs) R"
proof -
  have e: "end_of 1 g = Some (snake_end g)" by (simp add: end_of_def)
  have "bonus_at (cpos (snake_end g)) g \<noteq> None"
    using assms(6,8) by (auto simp: bonus_at_def find_None_iff xy_def bonus_cell_def)
  then obtain j' where "bonus_at (cpos (snake_end g)) g = Some j'" by blast
  with bonus_check_rep [OF assms(1) e assms(2-5)] show ?thesis by (fastforce simp: collect_def add_score_def)
qed

theorem bonus_eaten_again_witness:
  "\<exists>p' h' g'. bonus_check 1 1 demo_snake
       (globals0\<lparr>max_bonus := 5, bonus_list := \<lparr>pos_x = 6, pos_y = 5, activ = 0\<rparr> # replicate 99 \<lparr>pos_x = 0, pos_y = 0, activ = 0\<rparr>,
         snake_end := \<lparr>cpos = \<lparr>px = 5, py = 6, pdir = RIGHT\<rparr>, cnext = 0\<rparr>\<rparr>) = Some (p', h', g') \<and>
     score g' = 1 \<and> nb_bonus g' = -1"
proof -
  let ?g = "globals0\<lparr>max_bonus := 5, bonus_list := \<lparr>pos_x = 6, pos_y = 5, activ = 0\<rparr> # replicate 99 \<lparr>pos_x = 0, pos_y = 0, activ = 0\<rparr>,
    snake_end := \<lparr>cpos = \<lparr>px = 5, py = 6, pdir = RIGHT\<rparr>, cnext = 0\<rparr>\<rparr>"
  have "bonus_ok ?g" "0 < room demo_snake" "is_dir RIGHT" "0 < nat (max_bonus ?g)" "score ?g = 0" "nb_bonus ?g = 0"
    by (simp_all add: bonus_ok_def demo_snake_def is_dir_def globals0_def)
  then show ?thesis using bonus_eaten_again [OF _ demo_snake_rep, of ?g 0]
    by (auto simp: xy_def bonus_cell_def)
qed

section \<open>The LED of the pad\<close>

definition led_call :: "usb \<Rightarrow> u8 \<Rightarrow> call" where
  "led_call u b = Interrupt_transfer (bEndpointAddress (endp_list u ! 1)) b"

lemma usb_send_simps [simp]:
  "calls (usb_send L b u) = led_call u b # calls u" "endp_list (usb_send L b u) = endp_list u"
  "handle (usb_send L b u) = handle u" "led_call (usb_send L b u) = led_call u"
  by (simp_all add: usb_send_def invoke_def led_call_def fun_eq_iff)

text \<open>
  A pause sends \<open>'1'\<close> twice to the second interrupt endpoint before the menu, and on
  resuming \<open>'0'\<close> twice; on quitting nothing more.
\<close>

lemma pause_led:
  assumes "pause E ch s = Some (quit, c, s')"
  shows "calls (link s') = (if quit then [] else [led_call (link s) 48, led_call (link s) 48]) @
     [led_call (link s) 49, led_call (link s) 49] @ calls (link s)"
  using assms by (auto simp: pause_def send2_def bind_eq_Some_conv Let_def split: if_splits)

end
