(* ===== verification/AVR_IO.thy ===== *)
theory AVR_IO
  imports Prelude
begin

text \<open>
  Input and output registers of the two microcontrollers. The hardware is a parameter: what a read
  returns is any function of the accesses made before (\<open>hw\<close>), so a theorem that does not constrain
  \<open>hw\<close> holds for every behaviour of the peripherals, the bus and the host. The log of the accesses,
  latest first, is what a program does to the outside world.

  The registers and bit positions are those of the ATmega16U2 and ATmega328P data sheets, as
  \<open>avr/io.h\<close> names them.
\<close>

section \<open>Registers\<close>

datatype reg =
    SREG_I  \<comment> \<open>the global interrupt flag, set by \<open>sei\<close> and cleared by \<open>cli\<close>\<close>
  | GPIOR0
  | DDRB | PORTB | DDRD | PORTD | PIND | PCICR | PCMSK2
  | UBRR0H | UBRR0L | UCSR0A | UCSR0B | UCSR0C | UDR0
  | UBRR1H | UBRR1L | UCSR1A | UCSR1B | UCSR1C | UDR1
  | UENUM | UERST | UECONX | UECFG0X | UECFG1X | UESTA0X | UEINTX | UEIENX | UEDATX | UEBCLX | UEINT
  | UDCON | UDINT | UDIEN | UDADDR | UDFNUML | UDFNUMH
  | USBCON | PLLCSR | REGCR

definition DDD2 :: nat where [simp]: "DDD2 = 2"
definition PCIE2 :: nat where [simp]: "PCIE2 = 2"
definition RXC1 :: nat where [simp]: "RXC1 = 7"
definition TXC1 :: nat where [simp]: "TXC1 = 6"
definition UDRE1 :: nat where [simp]: "UDRE1 = 5"
definition U2X1 :: nat where [simp]: "U2X1 = 1"
definition RXCIE1 :: nat where [simp]: "RXCIE1 = 7"
definition RXEN1 :: nat where [simp]: "RXEN1 = 4"
definition TXEN1 :: nat where [simp]: "TXEN1 = 3"
definition UCSZ11 :: nat where [simp]: "UCSZ11 = 2"
definition UCSZ10 :: nat where [simp]: "UCSZ10 = 1"
definition EPEN :: nat where [simp]: "EPEN = 0"
definition RSTDT :: nat where [simp]: "RSTDT = 3"
definition STALLRQC :: nat where [simp]: "STALLRQC = 4"
definition STALLRQ :: nat where [simp]: "STALLRQ = 5"
definition EPDIR :: nat where [simp]: "EPDIR = 0"
definition EPTYPE0 :: nat where [simp]: "EPTYPE0 = 6"
definition ALLOC :: nat where [simp]: "ALLOC = 1"
definition EPBK0 :: nat where [simp]: "EPBK0 = 2"
definition EPSIZE0 :: nat where [simp]: "EPSIZE0 = 4"
definition CFGOK :: nat where [simp]: "CFGOK = 7"
definition TXINI :: nat where [simp]: "TXINI = 0"
definition RXOUTI :: nat where [simp]: "RXOUTI = 2"
definition RXSTPI :: nat where [simp]: "RXSTPI = 3"
definition RWAL :: nat where [simp]: "RWAL = 5"
definition FIFOCON :: nat where [simp]: "FIFOCON = 7"
definition RXSTPE :: nat where [simp]: "RXSTPE = 3"
definition NBUSYBK0 :: nat where [simp]: "NBUSYBK0 = 0"
definition DETACH :: nat where [simp]: "DETACH = 0"
definition RMWKUP :: nat where [simp]: "RMWKUP = 1"
definition SUSPI :: nat where [simp]: "SUSPI = 0"
definition SOFI :: nat where [simp]: "SOFI = 2"
definition EORSTI :: nat where [simp]: "EORSTI = 3"
definition WAKEUPI :: nat where [simp]: "WAKEUPI = 4"
definition ADDEN :: nat where [simp]: "ADDEN = 7"
definition FRZCLK :: nat where [simp]: "FRZCLK = 5"
definition USBE :: nat where [simp]: "USBE = 7"
definition PLOCK :: nat where [simp]: "PLOCK = 0"
definition PLLE :: nat where [simp]: "PLLE = 1"
definition PLLP0 :: nat where [simp]: "PLLP0 = 2"
definition REGDIS :: nat where [simp]: "REGDIS = 0"

section \<open>Accesses\<close>

datatype acc = Rd reg u8 | Wr reg u8

record mcu =
  hw :: "acc list \<Rightarrow> reg \<Rightarrow> u8"
  log :: "acc list"

definition rd :: "reg \<Rightarrow> 'a mcu_scheme \<Rightarrow> u8 \<times> 'a mcu_scheme" where
  "rd r s = (let v = hw s (log s) r in (v, s\<lparr>log := Rd r v # log s\<rparr>))"

definition wr :: "reg \<Rightarrow> u8 \<Rightarrow> 'a mcu_scheme \<Rightarrow> 'a mcu_scheme" where
  "wr r v s = s\<lparr>log := Wr r v # log s\<rparr>"

text \<open>\<open>R |= m\<close>, \<open>R &= ~m\<close> and the test of a bit of \<open>R\<close>\<close>

definition set_bits :: "reg \<Rightarrow> u8 \<Rightarrow> 'a mcu_scheme \<Rightarrow> 'a mcu_scheme" where
  "set_bits r m s = (let (v, s) = rd r s in wr r (v OR m) s)"

definition clr_bits :: "reg \<Rightarrow> u8 \<Rightarrow> 'a mcu_scheme \<Rightarrow> 'a mcu_scheme" where
  "clr_bits r m s = (let (v, s) = rd r s in wr r (v AND NOT m) s)"

definition tst_bit_of :: "reg \<Rightarrow> nat \<Rightarrow> 'a mcu_scheme \<Rightarrow> bool \<times> 'a mcu_scheme" where
  "tst_bit_of r n s = (let (v, s) = rd r s in (tst v n, s))"

text \<open>\<open>while (!(R & (1 << n)));\<close> and \<open>while (R & (1 << n));\<close>\<close>

definition wait_set :: "reg \<Rightarrow> nat \<Rightarrow> 'a mcu_scheme \<Rightarrow> 'a mcu_scheme option" where
  "wait_set r n s = map_option snd (poll_loop (\<lambda>s.
     let (b, s) = tst_bit_of r n s in Some (if b then Some () else None, s)) s)"

definition wait_clear :: "reg \<Rightarrow> nat \<Rightarrow> 'a mcu_scheme \<Rightarrow> 'a mcu_scheme option" where
  "wait_clear r n s = map_option snd (poll_loop (\<lambda>s.
     let (b, s) = tst_bit_of r n s in Some (if b then None else Some (), s)) s)"

section \<open>What was written\<close>

text \<open>The values written to a register, oldest first.\<close>

definition wrote_in :: "reg \<Rightarrow> acc list \<Rightarrow> u8 list" where
  "wrote_in r l = rev (List.map_filter (\<lambda>a. case a of Wr r' v \<Rightarrow> if r' = r then Some v else None | _ \<Rightarrow> None) l)"

definition wrote :: "reg \<Rightarrow> 'a mcu_scheme \<Rightarrow> u8 list" where
  "wrote r s = wrote_in r (log s)"

lemma wrote_in_Nil [simp]: "wrote_in r [] = []"
  by (simp add: wrote_in_def)

lemma wrote_in_Rd [simp]: "wrote_in r (Rd r' v # l) = wrote_in r l"
  by (simp add: wrote_in_def)

lemma wrote_in_Wr [simp]: "wrote_in r (Wr r' v # l) = wrote_in r l @ (if r' = r then [v] else [])"
  by (simp add: wrote_in_def)

lemma wrote_in_append: "wrote_in r (l @ m) = wrote_in r m @ wrote_in r l"
  by (induction l) (auto simp: wrote_in_def split: acc.splits)

lemma wrote_wr [simp, io_simps]: "wrote r (wr r' v s) = wrote r s @ (if r' = r then [v] else [])"
  by (simp add: wrote_def wr_def)

lemma wrote_rd [simp, io_simps]: "wrote r (snd (rd r' s)) = wrote r s"
  by (simp add: wrote_def rd_def Let_def)

lemma hw_wr [simp, io_simps]: "hw (wr r v s) = hw s"
  by (simp add: wr_def)

lemma hw_rd [simp, io_simps]: "hw (snd (rd r s)) = hw s"
  by (simp add: rd_def Let_def)

lemma more_wr [simp, io_simps]: "mcu.more (wr r v s) = mcu.more s"
  by (simp add: wr_def)

lemma more_rd [simp, io_simps]: "mcu.more (snd (rd r s)) = mcu.more s"
  by (simp add: rd_def Let_def)

section \<open>Frames\<close>

text \<open>
  \<open>touches R s s'\<close>: from \<open>s\<close> to \<open>s'\<close> only registers in \<open>R\<close> are written, and nothing else of the state
  changes but the log.
\<close>

definition touches :: "reg set \<Rightarrow> 'a mcu_scheme \<Rightarrow> 'a mcu_scheme \<Rightarrow> bool" where
  "touches R s s' \<longleftrightarrow> hw s' = hw s \<and> mcu.more s' = mcu.more s \<and>
     (\<exists>l. log s' = l @ log s \<and> (\<forall>r v. Wr r v \<in> set l \<longrightarrow> r \<in> R))"

lemma touches_refl [simp]: "touches R s s"
  by (simp add: touches_def)

lemma touches_trans [trans]:
  assumes "touches R s t" "touches R t u"
  shows "touches R s u"
proof -
  from assms obtain l m where "log t = l @ log s" "\<forall>r v. Wr r v \<in> set l \<longrightarrow> r \<in> R"
    "log u = m @ log t" "\<forall>r v. Wr r v \<in> set m \<longrightarrow> r \<in> R" by (auto simp: touches_def)
  then have "log u = (m @ l) @ log s" "\<forall>r v. Wr r v \<in> set (m @ l) \<longrightarrow> r \<in> R" by auto
  with assms show ?thesis unfolding touches_def by metis
qed

lemma log_wr [simp]: "log (wr r v s) = Wr r v # log s"
  by (simp add: wr_def)

lemma touches_log: "touches R s s' \<Longrightarrow> a \<in> set (log s) \<Longrightarrow> a \<in> set (log s')"
  by (auto simp: touches_def)

lemma touches_mono: "touches R s t \<Longrightarrow> R \<subseteq> S \<Longrightarrow> touches S s t"
  unfolding touches_def by blast

lemma touches_rd [simp, intro]: "touches R s (snd (rd r s))"
  by (auto simp: touches_def rd_def Let_def)

lemma touches_wr: "r \<in> R \<Longrightarrow> touches R s (wr r v s)"
  by (auto simp: touches_def wr_def)

lemma touches_set_bits: "r \<in> R \<Longrightarrow> touches R s (set_bits r m s)"
  unfolding set_bits_def Let_def split_beta by (rule touches_trans [OF touches_rd touches_wr])

lemma touches_clr_bits: "r \<in> R \<Longrightarrow> touches R s (clr_bits r m s)"
  unfolding clr_bits_def Let_def split_beta by (rule touches_trans [OF touches_rd touches_wr])

lemma touches_tst [simp, intro]: "touches R s (snd (tst_bit_of r n s))"
  by (simp add: tst_bit_of_def Let_def split_beta)

text \<open>The same as introduction rules that work backwards through a sequence of accesses.\<close>

lemma touch_rd [touch]: "touches R s t \<Longrightarrow> touches R s (snd (rd r t))"
  by (rule touches_trans [OF _ touches_rd])

lemma touch_tst [touch]: "touches R s t \<Longrightarrow> touches R s (snd (tst_bit_of r n t))"
  by (rule touches_trans [OF _ touches_tst])

lemma touch_wr [touch]: "touches R s t \<Longrightarrow> r \<in> R \<Longrightarrow> touches R s (wr r v t)"
  by (rule touches_trans [OF _ touches_wr])

lemma touch_set [touch]: "touches R s t \<Longrightarrow> r \<in> R \<Longrightarrow> touches R s (set_bits r m t)"
  by (rule touches_trans [OF _ touches_set_bits])

lemma touch_clr [touch]: "touches R s t \<Longrightarrow> r \<in> R \<Longrightarrow> touches R s (clr_bits r m t)"
  by (rule touches_trans [OF _ touches_clr_bits])

lemma touch_if [touch]: "(b \<Longrightarrow> touches R s t) \<Longrightarrow> (\<not> b \<Longrightarrow> touches R s u) \<Longrightarrow> touches R s (if b then t else u)"
  by simp

lemma tst_fst: "fst (tst_bit_of r n s) = tst (hw s (log s) r) n"
  by (simp add: tst_bit_of_def rd_def Let_def)

lemma wrote_in_none: "\<forall>v. Wr r v \<notin> set l \<Longrightarrow> wrote_in r l = []"
proof (induction l)
  case (Cons a l)
  then show ?case by (cases a) auto
qed simp

lemma touches_wrote: "touches R s s' \<Longrightarrow> r \<notin> R \<Longrightarrow> wrote r s' = wrote r s"
  by (fastforce simp: touches_def wrote_def wrote_in_append intro: wrote_in_none)

lemma touches_hw: "touches R s s' \<Longrightarrow> hw s' = hw s"
  by (simp add: touches_def)

lemma touches_more: "touches R s s' \<Longrightarrow> mcu.more s' = mcu.more s"
  by (simp add: touches_def)

text \<open>\<open>adds\<close> is \<open>touches\<close> without the condition on the variables.\<close>

definition adds :: "reg set \<Rightarrow> 'a mcu_scheme \<Rightarrow> 'b mcu_scheme \<Rightarrow> bool" where
  "adds R s s' \<longleftrightarrow> hw s' = hw s \<and> (\<exists>l. log s' = l @ log s \<and> (\<forall>r v. Wr r v \<in> set l \<longrightarrow> r \<in> R))"

lemma touches_adds: "touches R s s' \<Longrightarrow> adds R s s'"
  by (auto simp: touches_def adds_def)

lemma adds_refl [simp]: "adds R s s"
  by (simp add: adds_def)

lemma adds_trans:
  assumes "adds R s t" "adds R t u"
  shows "adds R s u"
proof -
  from assms obtain l m where "log t = l @ log s" "\<forall>r v. Wr r v \<in> set l \<longrightarrow> r \<in> R"
    "log u = m @ log t" "\<forall>r v. Wr r v \<in> set m \<longrightarrow> r \<in> R" by (auto simp: adds_def)
  then have "log u = (m @ l) @ log s" "\<forall>r v. Wr r v \<in> set (m @ l) \<longrightarrow> r \<in> R" by auto
  with assms show ?thesis unfolding adds_def by metis
qed

lemma adds_mono: "adds R s t \<Longrightarrow> R \<subseteq> S \<Longrightarrow> adds S s t"
  unfolding adds_def by blast

lemma adds_touches: "adds R s t \<Longrightarrow> touches R t u \<Longrightarrow> adds R s u"
  by (rule adds_trans [OF _ touches_adds])

lemma adds_wrote: "adds R s s' \<Longrightarrow> r \<notin> R \<Longrightarrow> wrote r s' = wrote r s"
  by (fastforce simp: adds_def wrote_def wrote_in_append intro: wrote_in_none)

lemma adds_hw: "adds R s s' \<Longrightarrow> hw s' = hw s"
  by (simp add: adds_def)

section \<open>Waiting\<close>

text \<open>A wait that returns has seen the bit in its last read, and has written nothing.\<close>

lemma wait_set_touches: "wait_set r n s = Some s' \<Longrightarrow> touches R s s'"
  unfolding wait_set_def map_option_eq_Some
  by (elim exE conjE, hypsubst, rule poll_loop_rule [where I = "touches R s" and Q = "\<lambda>_. touches R s"])
    (auto simp: Let_def split_beta intro: touches_trans)

lemma wait_clear_touches: "wait_clear r n s = Some s' \<Longrightarrow> touches R s s'"
  unfolding wait_clear_def map_option_eq_Some
  by (elim exE conjE, hypsubst, rule poll_loop_rule [where I = "touches R s" and Q = "\<lambda>_. touches R s"])
    (auto simp: Let_def split_beta intro: touches_trans)

lemma wait_set_seen: "wait_set r n s = Some s' \<Longrightarrow> \<exists>v l. log s' = Rd r v # l \<and> tst v n"
  unfolding wait_set_def map_option_eq_Some
  by (elim exE conjE, hypsubst, rule poll_loop_rule [where I = "\<lambda>_. True" and Q = "\<lambda>_ t. \<exists>v l. log t = Rd r v # l \<and> tst v n"])
    (auto simp: Let_def tst_bit_of_def rd_def split: if_splits)

text \<open>The log after \<open>k\<close> further reads of the same register, and hardware that answers a poll in the end.\<close>

primrec poll_log :: "(acc list \<Rightarrow> reg \<Rightarrow> u8) \<Rightarrow> reg \<Rightarrow> nat \<Rightarrow> acc list \<Rightarrow> acc list" where
  "poll_log H r 0 l = l"
| "poll_log H r (Suc k) l = poll_log H r k (Rd r (H l r) # l)"

definition raises :: "(acc list \<Rightarrow> reg \<Rightarrow> u8) \<Rightarrow> reg \<Rightarrow> nat \<Rightarrow> bool" where
  "raises H r n \<longleftrightarrow> (\<forall>l. \<exists>k. tst (H (poll_log H r k l) r) n)"

lemma wait_set_step:
  "wait_set r n s = (if tst (hw s (log s) r) n then Some (snd (rd r s)) else wait_set r n (snd (rd r s)))"
  unfolding wait_set_def
  by (subst poll_loop.simps) (simp add: tst_bit_of_def rd_def Let_def)

lemma wait_set_total:
  assumes "raises (hw s) r n"
  shows "\<exists>s'. wait_set r n s = Some s'"
proof -
  from assms obtain k where "tst (hw s (poll_log (hw s) r k (log s)) r) n" by (auto simp: raises_def)
  then show ?thesis
  proof (induction k arbitrary: s)
    case 0
    then show ?case by (subst wait_set_step) simp
  next
    case (Suc k)
    then have "\<exists>s'. wait_set r n (snd (rd r s)) = Some s'" by (simp add: rd_def Let_def)
    then show ?case by (subst wait_set_step) simp
  qed
qed

section \<open>Sequences of writes\<close>

text \<open>All writes with their registers, oldest first, and a state change that makes exactly some writes.\<close>

definition writes_in :: "acc list \<Rightarrow> (reg \<times> u8) list" where
  "writes_in l = rev (List.map_filter (\<lambda>a. case a of Wr r v \<Rightarrow> Some (r, v) | Rd r v \<Rightarrow> None) l)"

definition puts :: "(reg \<times> u8) list \<Rightarrow> 'a mcu_scheme \<Rightarrow> 'a mcu_scheme \<Rightarrow> bool" where
  "puts ws s t \<longleftrightarrow> hw t = hw s \<and> mcu.more t = mcu.more s \<and> writes_in (log t) = writes_in (log s) @ ws"

lemma writes_in_simps [simp]:
  "writes_in [] = []" "writes_in (Rd r v # l) = writes_in l" "writes_in (Wr r v # l) = writes_in l @ [(r, v)]"
  by (simp_all add: writes_in_def)

lemma writes_in_none: "\<forall>r v. Wr r v \<notin> set l \<Longrightarrow> writes_in (l @ m) = writes_in m"
proof (induction l)
  case (Cons a l)
  then show ?case by (cases a) auto
qed simp

lemma wrote_in_writes: "wrote_in r l = map snd (filter (\<lambda>(r', v). r' = r) (writes_in l))"
proof (induction l)
  case (Cons a l)
  then show ?case by (cases a) auto
qed simp

lemma puts_refl [simp]: "puts [] s s"
  by (simp add: puts_def)

lemma puts_trans: "puts ws s t \<Longrightarrow> puts vs t u \<Longrightarrow> puts (ws @ vs) s u"
  by (simp add: puts_def)

lemma puts_wr: "puts [(r, v)] s (wr r v s)"
  by (simp add: puts_def wr_def)

lemma puts_reads: "touches {} s t \<Longrightarrow> puts [] s t"
  by (auto simp: puts_def touches_def writes_in_none)

lemma puts_wrote: "puts ws s t \<Longrightarrow> wrote r t = wrote r s @ map snd (filter (\<lambda>(r', v). r' = r) ws)"
  by (simp add: puts_def wrote_def wrote_in_writes)

lemma puts_hw: "puts ws s t \<Longrightarrow> hw t = hw s"
  by (simp add: puts_def)

lemma puts_clr_bits: "\<exists>v. puts [(r, v AND NOT m)] s (clr_bits r m s)"
  by (auto simp: puts_def clr_bits_def rd_def wr_def Let_def)

lemma puts_set_bits: "\<exists>v. puts [(r, v OR m)] s (set_bits r m s)"
  by (auto simp: puts_def set_bits_def rd_def wr_def Let_def)

section \<open>What is read\<close>

text \<open>The values read from a register, oldest first.\<close>

definition was_read_in :: "reg \<Rightarrow> acc list \<Rightarrow> u8 list" where
  "was_read_in r l = rev (List.map_filter (\<lambda>a. case a of Rd r' v \<Rightarrow> if r' = r then Some v else None | _ \<Rightarrow> None) l)"

definition was_read :: "reg \<Rightarrow> 'a mcu_scheme \<Rightarrow> u8 list" where
  "was_read r s = was_read_in r (log s)"

lemma was_read_in_simps [simp]:
  "was_read_in r [] = []" "was_read_in r (Wr r' v # l) = was_read_in r l"
  "was_read_in r (Rd r' v # l) = was_read_in r l @ (if r' = r then [v] else [])"
  by (simp_all add: was_read_in_def)

lemma was_read_in_append: "was_read_in r (l @ m) = was_read_in r m @ was_read_in r l"
  by (induction l) (auto simp: was_read_in_def split: acc.splits)

lemma was_read_simps [simp]:
  "was_read r (wr r' v s) = was_read r s" "was_read r (snd (rd r' s)) = was_read r s @ (if r' = r then [fst (rd r' s)] else [])"
  by (simp_all add: was_read_def wr_def rd_def Let_def)

lemma was_read_bits [simp]:
  "was_read r (snd (tst_bit_of r' n s)) = was_read r s @ (if r' = r then [fst (rd r' s)] else [])"
  "was_read r (set_bits r' m s) = was_read r s @ (if r' = r then [fst (rd r' s)] else [])"
  "was_read r (clr_bits r' m s) = was_read r s @ (if r' = r then [fst (rd r' s)] else [])"
  by (simp_all add: tst_bit_of_def set_bits_def clr_bits_def Let_def split_beta)

text \<open>\<open>reads_as r vs s\<close>: the next reads of \<open>r\<close>, one after the other, give \<open>vs\<close>.\<close>

primrec reads_as :: "reg \<Rightarrow> u8 list \<Rightarrow> 'a mcu_scheme \<Rightarrow> bool" where
  "reads_as r [] s = True"
| "reads_as r (v # vs) s = (fst (rd r s) = v \<and> reads_as r vs (snd (rd r s)))"

end
