(* ===== verification/Arduino.thy ===== *)
theory Arduino
  imports AVR_IO
begin

text \<open>
  The firmware of the ATmega328P, \<open>src/AT328p/arduino.c\<close>: five buttons on PD2 to PD6 are sampled by a
  pin-change interrupt, the main loop sends the sample over the serial line, and bytes received
  switch the LED on PB5.

  Interrupts run between any two accesses of the main loop, so the loop is a step function on
  program points and the two handlers are further steps of the transition relation.
\<close>

abbreviation BAUDRATE :: u8 where "BAUDRATE \<equiv> 103"

definition UDRE0 :: nat where [simp]: "UDRE0 = 5"
definition U2X0 :: nat where [simp]: "U2X0 = 1"
definition RXCIE0 :: nat where [simp]: "RXCIE0 = 7"
definition RXEN0 :: nat where [simp]: "RXEN0 = 4"
definition TXEN0 :: nat where [simp]: "TXEN0 = 3"
definition UCSZ01 :: nat where [simp]: "UCSZ01 = 2"
definition UCSZ00 :: nat where [simp]: "UCSZ00 = 1"

record arduino = mcu +
  state :: int

section \<open>Set-up\<close>

definition buttons_mask :: u8 where
  "buttons_mask = bv 2 OR bv 3 OR bv 4 OR bv 5 OR bv 6"

definition init_boutons :: "arduino \<Rightarrow> arduino" where
  "init_boutons s =
     (let s = clr_bits DDRD buttons_mask s;
          s = set_bits PORTD buttons_mask s;
          s = set_bits PCICR (bv PCIE2) s;
          s = set_bits PCMSK2 buttons_mask s
      in wr SREG_I 1 s)"

definition init_serial :: "arduino \<Rightarrow> arduino" where
  "init_serial s =
     (let s = wr UBRR0H 0 s;
          s = wr UBRR0L BAUDRATE s;
          s = wr UCSR0B (bv RXCIE0 OR bv TXEN0 OR bv RXEN0) s;
          s = wr UCSR0C (bv UCSZ01 OR bv UCSZ00) s
      in clr_bits UCSR0A (bv U2X0) s)"

definition send_serial :: "u8 \<Rightarrow> arduino \<Rightarrow> arduino option" where
  "send_serial c s = do { s \<leftarrow> wait_set UCSR0A UDRE0 s; Some (wr UDR0 c s) }"

definition output_init :: "arduino \<Rightarrow> arduino" where
  "output_init s = set_bits DDRB 0x20 s"

section \<open>Interrupt handlers\<close>

text \<open>\<open>ISR (USART_RX_vect)\<close>: the data register is read twice.\<close>

definition USART_RX_isr :: "arduino \<Rightarrow> arduino" where
  "USART_RX_isr s =
     (let (v, s) = rd UDR0 s;
          s = (if v = 49 then set_bits PORTB 0x20 s else s);
          (v, s) = rd UDR0 s
      in if v = 48 then (let (p, s) = rd PORTB s in wr PORTB (p AND 0xDF) s) else s)"

text \<open>\<open>((~(PIND) & 0x7C)>>2)\<close> after the integer promotions\<close>

definition sample :: "u8 \<Rightarrow> int" where
  "sample p = drop_bit 2 (NOT (uint p) AND 0x7C)"

definition PCINT2_isr :: "arduino \<Rightarrow> arduino" where
  "PCINT2_isr s = (let (p, s) = rd PIND s in s\<lparr>state := sample p\<rparr>)"

section \<open>The main loop\<close>

datatype loop_pc =
    Test       \<comment> \<open>\<open>if(state!=0)\<close>\<close>
  | Load       \<comment> \<open>\<open>msg = state | 0x20; if(msg != 0x20)\<close>\<close>
  | Send u8    \<comment> \<open>in the wait loop of \<open>send_serial(msg)\<close>\<close>
  | Delay      \<comment> \<open>\<open>_delay_ms(100)\<close>\<close>
  | Clear      \<comment> \<open>\<open>state = 0\<close>\<close>

definition loop_step :: "loop_pc \<Rightarrow> arduino \<Rightarrow> loop_pc \<times> arduino" where
  "loop_step pc s = (case pc of
       Test \<Rightarrow> (if state s \<noteq> 0 then Load else Test, s)
     | Load \<Rightarrow> (let msg = word_of_int (state s OR 0x20) in if msg \<noteq> 0x20 then (Send msg, s) else (Test, s))
     | Send msg \<Rightarrow> (let (ready, s) = tst_bit_of UCSR0A UDRE0 s in
         if ready then (Delay, wr UDR0 msg s) else (Send msg, s))
     | Delay \<Rightarrow> (Clear, s)
     | Clear \<Rightarrow> (Test, s\<lparr>state := 0\<rparr>))"

definition main_setup :: "arduino \<Rightarrow> arduino" where
  "main_setup s = output_init (init_boutons (init_serial s))"

inductive arduino_step :: "loop_pc \<times> arduino \<Rightarrow> loop_pc \<times> arduino \<Rightarrow> bool" where
  main_loop: "arduino_step (pc, s) (loop_step pc s)"
| usart_rx: "arduino_step (pc, s) (pc, USART_RX_isr s)"
| pcint2: "arduino_step (pc, s) (pc, PCINT2_isr s)"

inductive_cases arduino_stepE: "arduino_step (pc, s) c"

section \<open>Samples\<close>

lemma sample_bits: "bit (sample p) k \<longleftrightarrow> k < 5 \<and> \<not> bit p (k + 2)"
proof -
  have "bit (0x7C :: int) (k + 2) \<longleftrightarrow> k < 5"
  proof (cases "k < 5")
    case True
    then have "k = 0 \<or> k = 1 \<or> k = 2 \<or> k = 3 \<or> k = 4" by auto
    then show ?thesis by auto
  next
    case False
    have "(0x7C :: int) div 2 ^ (k + 2) = 0"
    proof -
      have "(2 :: int) ^ 7 \<le> 2 ^ (k + 2)" using False by (intro power_increasing) auto
      then show ?thesis by (intro div_pos_pos_trivial) auto
    qed
    with False show ?thesis by (simp add: bit_iff_odd)
  qed
  then show ?thesis
    by (auto simp: sample_def bit_drop_bit_eq bit_and_iff bit_not_iff add.commute bit_uint_iff)
qed

lemma sample_range: "0 \<le> sample p \<and> sample p < 32"
proof -
  have "sample p = take_bit 5 (sample p)"
    by (rule bit_eqI) (auto simp: bit_take_bit_iff sample_bits)
  then show ?thesis using take_bit_int_less_exp [of 5 "sample p"] take_bit_nonnegative [of 5 "sample p"] by simp
qed

text \<open>The byte for a sample: bit 5 is set in all of them.\<close>

definition key_byte :: "u8 \<Rightarrow> u8" where
  "key_byte p = word_of_int (sample p OR 0x20)"

lemma or_32:
  assumes "0 \<le> n" "n < 32"
  shows "n OR 32 = n + (32 :: int)"
proof -
  have "list_all (\<lambda>n. n OR 32 = n + (32 :: int)) [0 .. 31]" by code_simp
  with assms show ?thesis by (simp add: list_all_iff)
qed

lemma key_byte_uint: "uint (key_byte p) = sample p + 32"
proof -
  have r: "0 \<le> sample p" "sample p < 32" using sample_range by auto
  have "key_byte p = word_of_int (sample p + 32)" unfolding key_byte_def or_32 [OF r] ..
  then have "uint (key_byte p) = (sample p + 32) mod 2 ^ 8" by (simp only: uint_word_of_int) simp
  with r show ?thesis by simp
qed

lemma key_byte_eq: "key_byte p = 0x20 \<longleftrightarrow> sample p = 0"
  by (simp add: word_uint_eq_iff key_byte_uint)

section \<open>Interleavings\<close>

text \<open>What holds at every point, whatever the hardware and however the handlers interleave.\<close>

definition sampled :: "arduino \<Rightarrow> u8 \<Rightarrow> bool" where
  "sampled s v \<longleftrightarrow> (\<exists>p. Rd PIND p \<in> set (log s) \<and> sample p \<noteq> 0 \<and> v = key_byte p)"

definition arduino_inv :: "loop_pc \<times> arduino \<Rightarrow> bool" where
  "arduino_inv c \<longleftrightarrow> (let (pc, s) = c in
     (state s = 0 \<or> (\<exists>p. Rd PIND p \<in> set (log s) \<and> state s = sample p)) \<and>
     (\<forall>m. pc = Send m \<longrightarrow> sampled s m) \<and> (\<forall>v \<in> set (wrote UDR0 s). sampled s v))"

lemma touches_state: "touches R s s' \<Longrightarrow> state s' = state s"
  by (cases s; cases s') (auto dest: touches_more)

lemma sampled_mono: "touches R s s' \<Longrightarrow> sampled s v \<Longrightarrow> sampled s' v"
  using touches_log unfolding sampled_def by blast

lemma arduino_inv_touches:
  assumes "arduino_inv (pc, s)" "touches R s s'" "UDR0 \<notin> R"
  shows "arduino_inv (pc, s')"
proof -
  have "\<exists>p. Rd PIND p \<in> set (log s') \<and> state s = sample p" if "\<exists>p. Rd PIND p \<in> set (log s) \<and> state s = sample p"
    using that touches_log [OF assms(2)] by blast
  with assms(1) touches_state [OF assms(2)] sampled_mono [OF assms(2)] touches_wrote [OF assms(2,3)]
  show ?thesis by (auto simp: arduino_inv_def)
qed

lemma touches_rx: "touches {PORTB} s (USART_RX_isr s)"
  unfolding USART_RX_isr_def Let_def split_beta by (intro touch touches_refl insertI1)

lemma arduino_step_inv: "arduino_step c c' \<Longrightarrow> arduino_inv c \<Longrightarrow> arduino_inv c'"
proof (induction rule: arduino_step.induct)
  case (usart_rx pc s)
  then show ?case by (rule arduino_inv_touches [OF _ touches_rx]) simp
next
  case (pcint2 pc s)
  have "arduino_inv (pc, snd (rd PIND s))" by (rule arduino_inv_touches [OF pcint2 touches_rd, of "{}"]) simp
  then show ?case by (auto simp: arduino_inv_def PCINT2_isr_def rd_def Let_def sampled_def wrote_def)
next
  case (main_loop pc s)
  show ?case
  proof (cases pc)
    case Load
    have "sampled s (word_of_int (state s OR 0x20))" if "word_of_int (state s OR 0x20) \<noteq> (0x20 :: u8)"
      using main_loop that key_byte_eq by (auto simp: arduino_inv_def Load sampled_def key_byte_def)
    with main_loop show ?thesis by (auto simp: loop_step_def Load arduino_inv_def Let_def)
  next
    case (Send m)
    let ?s = "snd (tst_bit_of UCSR0A UDRE0 s)"
    have "arduino_inv (Send m, ?s)" by (rule arduino_inv_touches [OF main_loop [unfolded Send] touches_tst, of "{}"]) simp
    then show ?thesis by (auto simp: loop_step_def Send arduino_inv_def Let_def split_beta sampled_def wr_def wrote_def)
  qed (use main_loop in \<open>auto simp: loop_step_def arduino_inv_def wrote_def sampled_def\<close>)
qed

lemma touches_setup: "touches {UBRR0H, UBRR0L, UCSR0B, UCSR0C, UCSR0A, DDRD, PORTD, PCICR, PCMSK2, SREG_I, DDRB} s (main_setup s)"
  unfolding main_setup_def output_init_def init_boutons_def init_serial_def Let_def
  by (intro touch touches_refl) simp_all

section \<open>Properties of the pad's sampling firmware\<close>

text \<open>
  Property C20. However the interrupt handlers interleave with the main loop and whatever the
  hardware does, every byte put on the serial line is the code of a sample of the buttons that was
  really read, with at least one button pressed.
\<close>

theorem arduino_sends_samples:
  assumes "arduino_step\<^sup>*\<^sup>* (Test, main_setup s) (pc, s')" "state s = 0" "wrote UDR0 s = []"
  shows "\<forall>v \<in> set (wrote UDR0 s'). sampled s' v"
proof -
  have "arduino_inv (Test, main_setup s)"
    using assms(2,3) touches_state [OF touches_setup, of s] touches_wrote [OF touches_setup, of UDR0 s]
    by (auto simp: arduino_inv_def)
  with assms(1) have "arduino_inv (pc, s')"
    by (induction rule: rtranclp_induct) (auto intro: arduino_step_inv)
  then show ?thesis by (simp add: arduino_inv_def)
qed

text \<open>A board with a free transmitter whose up button (PD4) is held down.\<close>

definition demo_arduino :: arduino where
  "demo_arduino = \<lparr>hw = \<lambda>_ r. if r = PIND then 0xEF else 0x20, log = [], state = 0\<rparr>"

lemma demo_arduino_simps [simp]:
  "hw demo_arduino l PIND = 0xEF" "hw demo_arduino l UCSR0A = 0x20" "state demo_arduino = 0" "wrote r demo_arduino = []"
  by (simp_all add: demo_arduino_def wrote_def)

theorem arduino_sends_samples_witness:
  "\<exists>pc s'. arduino_step\<^sup>*\<^sup>* (Test, main_setup demo_arduino) (pc, s') \<and> wrote UDR0 s' = [36] \<and> sampled s' 36"
proof -
  let ?s0 = "main_setup demo_arduino"
  let ?s1 = "PCINT2_isr ?s0"
  have hw0: "hw ?s0 = hw demo_arduino" by (rule touches_hw [OF touches_setup])
  have w0: "wrote UDR0 ?s0 = []" using touches_wrote [OF touches_setup, of UDR0 demo_arduino] by simp
  have s1: "state ?s1 = 4" "hw ?s1 = hw demo_arduino" "wrote UDR0 ?s1 = []"
    using w0 by (simp_all add: PCINT2_isr_def rd_def Let_def hw0 sample_def wrote_def)
  define s4 where "s4 = wr UDR0 36 (snd (tst_bit_of UCSR0A UDRE0 ?s1))"
  have "fst (tst_bit_of UCSR0A UDRE0 ?s1)" by (simp only: tst_fst s1(2) demo_arduino_simps tst_bit UDRE0_def) simp
  then have c4: "loop_step (Send 36) ?s1 = (Delay, s4)" by (simp add: loop_step_def s4_def Let_def split_beta)
  have w4: "wrote UDR0 s4 = [36]"
    using touches_wrote [OF touches_tst, of UDR0 "{}" UCSR0A UDRE0 ?s1] s1(3) by (simp add: s4_def)
  have 1: "arduino_step (Test, ?s0) (Test, ?s1)" by (rule pcint2)
  have 2: "arduino_step (Test, ?s1) (Load, ?s1)"
    using main_loop [of Test ?s1] s1 by (simp add: loop_step_def)
  have 3: "arduino_step (Load, ?s1) (Send 36, ?s1)"
    using main_loop [of Load ?s1] s1 by (simp add: loop_step_def)
  have 4: "arduino_step (Send 36, ?s1) (Delay, s4)"
    using main_loop [of "Send 36" ?s1] unfolding c4 .
  have r: "arduino_step\<^sup>*\<^sup>* (Test, ?s0) (Delay, s4)"
    by (rule converse_rtranclp_into_rtranclp [OF 1 converse_rtranclp_into_rtranclp [OF 2
          converse_rtranclp_into_rtranclp [where r = arduino_step, OF 3 r_into_rtranclp [of arduino_step, OF 4]]]])
  from arduino_sends_samples [OF this] w4 have "sampled s4 36" by simp
  with r w4 show ?thesis by blast
qed

text \<open>
  When both reads of the data register return the byte \<open>v\<close>, the receive handler switches the LED
  (bit 5 of port B) on for \<open>'1'\<close> and off for \<open>'0'\<close>, keeps the other pins, and leaves the port alone for
  any other byte.
\<close>

lemma led_follows_byte:
  assumes "\<forall>l. hw s l UDR0 = v"
  shows "if v = 49 \<or> v = 48
     then \<exists>p q. Rd PORTB p \<in> set (log (USART_RX_isr s)) \<and>
       wrote PORTB (USART_RX_isr s) = wrote PORTB s @ [q] \<and>
       bit q 5 = (v = 49) \<and> (\<forall>k. k \<noteq> 5 \<longrightarrow> bit q k = bit p k)
     else wrote PORTB (USART_RX_isr s) = wrote PORTB s"
proof -
  have on: "bit (p OR 0x20 :: u8) k \<longleftrightarrow> bit p k \<or> k = 5" for p k
    using bit_bv [of 5 k, where 'a = 8] by (simp add: bit_or_iff bv_def)
  have off: "bit (p AND 0xDF :: u8) k \<longleftrightarrow> bit p k \<and> k \<noteq> 5" for p k
  proof -
    have "(0xDF :: u8) = NOT (bv 5)" by (simp add: bv_def)
    then show ?thesis using bit_bv [of 5 k, where 'a = 8] bit_imp_le_length [of p k]
      by (auto simp only: bit_and_iff bit_not_iff possible_bit_word)
  qed
  consider "v = 49" | "v = 48" | "v \<noteq> 49" "v \<noteq> 48" by blast
  then show ?thesis
  proof cases
    case 1
    let ?p = "hw s (Rd UDR0 49 # log s) PORTB"
    have "wrote PORTB (USART_RX_isr s) = wrote PORTB s @ [?p OR 0x20]" "Rd PORTB ?p \<in> set (log (USART_RX_isr s))"
      using assms 1 by (simp_all add: USART_RX_isr_def set_bits_def rd_def Let_def wrote_def)
    with 1 on [of ?p] show ?thesis by auto
  next
    case 2
    let ?p = "hw s (Rd UDR0 48 # Rd UDR0 48 # log s) PORTB"
    have "wrote PORTB (USART_RX_isr s) = wrote PORTB s @ [?p AND 0xDF]" "Rd PORTB ?p \<in> set (log (USART_RX_isr s))"
      using assms 2 by (simp_all add: USART_RX_isr_def rd_def Let_def wrote_def)
    with 2 off [of ?p] show ?thesis by auto
  next
    case 3
    then show ?thesis using assms by (simp add: USART_RX_isr_def rd_def Let_def wrote_def)
  qed
qed

end
