(* ===== verification/Endpoint_AVR8.thy ===== *)
theory Endpoint_AVR8
  imports AVR_IO
begin

text \<open>
  Endpoints of the USB controller, \<open>src/AT16u2/LUFA/Drivers/USB/Core/AVR8/Endpoint_AVR8.h\<close> and
  \<open>Endpoint_AVR8.c\<close>, as configured for the ATmega16U2 by \<open>PAD/Config/LUFAConfig.h\<close>: the inline
  accessors, the configuration of an endpoint, the status stage and the wait for an endpoint.

  \<open>USB_DeviceState\<close> lives in the register \<open>GPIOR0\<close>; interrupts change it while the code waits, so it is
  read like any other register.
\<close>

section \<open>Constants\<close>

abbreviation ENDPOINT_EPNUM_MASK :: u8 where "ENDPOINT_EPNUM_MASK \<equiv> 0x0F"
abbreviation ENDPOINT_CONTROLEP :: u8 where "ENDPOINT_CONTROLEP \<equiv> 0"
abbreviation ENDPOINT_DIR_IN :: u8 where "ENDPOINT_DIR_IN \<equiv> 0x80"
abbreviation ENDPOINT_DIR_OUT :: u8 where "ENDPOINT_DIR_OUT \<equiv> 0x00"
definition ENDPOINT_TOTAL_ENDPOINTS :: nat where "ENDPOINT_TOTAL_ENDPOINTS = 5"
abbreviation EP_TYPE_CONTROL :: u8 where "EP_TYPE_CONTROL \<equiv> 0"
abbreviation EP_TYPE_INTERRUPT :: u8 where "EP_TYPE_INTERRUPT \<equiv> 3"
definition USB_STREAM_TIMEOUT_MS :: u8 where "USB_STREAM_TIMEOUT_MS = 100"

abbreviation DEVICE_STATE_Unattached :: u8 where "DEVICE_STATE_Unattached \<equiv> 0"
abbreviation DEVICE_STATE_Powered :: u8 where "DEVICE_STATE_Powered \<equiv> 1"
abbreviation DEVICE_STATE_Default :: u8 where "DEVICE_STATE_Default \<equiv> 2"
abbreviation DEVICE_STATE_Addressed :: u8 where "DEVICE_STATE_Addressed \<equiv> 3"
abbreviation DEVICE_STATE_Configured :: u8 where "DEVICE_STATE_Configured \<equiv> 4"
abbreviation DEVICE_STATE_Suspended :: u8 where "DEVICE_STATE_Suspended \<equiv> 5"

datatype readywait =
    ENDPOINT_READYWAIT_NoError
  | ENDPOINT_READYWAIT_EndpointStalled
  | ENDPOINT_READYWAIT_DeviceDisconnected
  | ENDPOINT_READYWAIT_BusSuspended
  | ENDPOINT_READYWAIT_Timeout

section \<open>Accessors\<close>

definition Endpoint_BytesInEndpoint :: "'a mcu_scheme \<Rightarrow> u16 \<times> 'a mcu_scheme" where
  "Endpoint_BytesInEndpoint s = (let (v, s) = rd UEBCLX s in (ucast v, s))"

definition Endpoint_GetEndpointDirection :: "'a mcu_scheme \<Rightarrow> u8 \<times> 'a mcu_scheme" where
  "Endpoint_GetEndpointDirection s =
     (let (dir, s) = tst_bit_of UECFG0X EPDIR s in (if dir then ENDPOINT_DIR_IN else ENDPOINT_DIR_OUT, s))"

definition Endpoint_GetCurrentEndpoint :: "'a mcu_scheme \<Rightarrow> u8 \<times> 'a mcu_scheme" where
  "Endpoint_GetCurrentEndpoint s =
     (let (num, s) = rd UENUM s; (dir, s) = Endpoint_GetEndpointDirection s
      in ((num AND ENDPOINT_EPNUM_MASK) OR dir, s))"

definition Endpoint_SelectEndpoint :: "u8 \<Rightarrow> 'a mcu_scheme \<Rightarrow> 'a mcu_scheme" where
  "Endpoint_SelectEndpoint Address s = wr UENUM (Address AND ENDPOINT_EPNUM_MASK) s"

definition Endpoint_ResetEndpoint :: "u8 \<Rightarrow> 'a mcu_scheme \<Rightarrow> 'a mcu_scheme" where
  "Endpoint_ResetEndpoint Address s = wr UERST 0 (wr UERST (bv (unat (Address AND ENDPOINT_EPNUM_MASK))) s)"

definition Endpoint_EnableEndpoint :: "'a mcu_scheme \<Rightarrow> 'a mcu_scheme" where
  "Endpoint_EnableEndpoint s = set_bits UECONX (bv EPEN) s"

definition Endpoint_DisableEndpoint :: "'a mcu_scheme \<Rightarrow> 'a mcu_scheme" where
  "Endpoint_DisableEndpoint s = clr_bits UECONX (bv EPEN) s"

definition Endpoint_IsEnabled :: "'a mcu_scheme \<Rightarrow> bool \<times> 'a mcu_scheme" where
  "Endpoint_IsEnabled s = tst_bit_of UECONX EPEN s"

definition Endpoint_GetBusyBanks :: "'a mcu_scheme \<Rightarrow> u8 \<times> 'a mcu_scheme" where
  "Endpoint_GetBusyBanks s = (let (v, s) = rd UESTA0X s in (v AND push_bit NBUSYBK0 3, s))"

definition Endpoint_AbortPendingIN :: "'a mcu_scheme \<Rightarrow> 'a mcu_scheme option" where
  "Endpoint_AbortPendingIN s = map_option snd (poll_loop (\<lambda>s.
     let (busy, s) = Endpoint_GetBusyBanks s
     in if busy \<noteq> 0
        then do { s \<leftarrow> wait_clear UEINTX RXOUTI (set_bits UEINTX (bv RXOUTI) s); Some (None, s) }
        else Some (Some (), s)) s)"

definition Endpoint_IsReadWriteAllowed :: "'a mcu_scheme \<Rightarrow> bool \<times> 'a mcu_scheme" where
  "Endpoint_IsReadWriteAllowed s = tst_bit_of UEINTX RWAL s"

definition Endpoint_IsConfigured :: "'a mcu_scheme \<Rightarrow> bool \<times> 'a mcu_scheme" where
  "Endpoint_IsConfigured s = tst_bit_of UESTA0X CFGOK s"

definition Endpoint_GetEndpointInterrupts :: "'a mcu_scheme \<Rightarrow> u8 \<times> 'a mcu_scheme" where
  "Endpoint_GetEndpointInterrupts s = rd UEINT s"

definition Endpoint_HasEndpointInterrupted :: "u8 \<Rightarrow> 'a mcu_scheme \<Rightarrow> bool \<times> 'a mcu_scheme" where
  "Endpoint_HasEndpointInterrupted Address s =
     (let (v, s) = Endpoint_GetEndpointInterrupts s in (tst v (unat (Address AND ENDPOINT_EPNUM_MASK)), s))"

definition Endpoint_IsINReady :: "'a mcu_scheme \<Rightarrow> bool \<times> 'a mcu_scheme" where
  "Endpoint_IsINReady s = tst_bit_of UEINTX TXINI s"

definition Endpoint_IsOUTReceived :: "'a mcu_scheme \<Rightarrow> bool \<times> 'a mcu_scheme" where
  "Endpoint_IsOUTReceived s = tst_bit_of UEINTX RXOUTI s"

definition Endpoint_IsSETUPReceived :: "'a mcu_scheme \<Rightarrow> bool \<times> 'a mcu_scheme" where
  "Endpoint_IsSETUPReceived s = tst_bit_of UEINTX RXSTPI s"

definition Endpoint_ClearSETUP :: "'a mcu_scheme \<Rightarrow> 'a mcu_scheme" where
  "Endpoint_ClearSETUP s = clr_bits UEINTX (bv RXSTPI) s"

definition Endpoint_ClearIN :: "'a mcu_scheme \<Rightarrow> 'a mcu_scheme" where
  "Endpoint_ClearIN s = clr_bits UEINTX (bv TXINI OR bv FIFOCON) s"

definition Endpoint_ClearOUT :: "'a mcu_scheme \<Rightarrow> 'a mcu_scheme" where
  "Endpoint_ClearOUT s = clr_bits UEINTX (bv RXOUTI OR bv FIFOCON) s"

definition Endpoint_StallTransaction :: "'a mcu_scheme \<Rightarrow> 'a mcu_scheme" where
  "Endpoint_StallTransaction s = set_bits UECONX (bv STALLRQ) s"

definition Endpoint_ClearStall :: "'a mcu_scheme \<Rightarrow> 'a mcu_scheme" where
  "Endpoint_ClearStall s = set_bits UECONX (bv STALLRQC) s"

definition Endpoint_IsStalled :: "'a mcu_scheme \<Rightarrow> bool \<times> 'a mcu_scheme" where
  "Endpoint_IsStalled s = tst_bit_of UECONX STALLRQ s"

definition Endpoint_ResetDataToggle :: "'a mcu_scheme \<Rightarrow> 'a mcu_scheme" where
  "Endpoint_ResetDataToggle s = set_bits UECONX (bv RSTDT) s"

definition Endpoint_SetEndpointDirection :: "u8 \<Rightarrow> 'a mcu_scheme \<Rightarrow> 'a mcu_scheme" where
  "Endpoint_SetEndpointDirection DirectionMask s =
     (let (v, s) = rd UECFG0X s
      in wr UECFG0X ((v AND NOT (bv EPDIR)) OR (if DirectionMask \<noteq> 0 then bv EPDIR else 0)) s)"

section \<open>Data in the bank\<close>

definition Endpoint_Read_8 :: "'a mcu_scheme \<Rightarrow> u8 \<times> 'a mcu_scheme" where
  "Endpoint_Read_8 s = rd UEDATX s"

definition Endpoint_Write_8 :: "u8 \<Rightarrow> 'a mcu_scheme \<Rightarrow> 'a mcu_scheme" where
  "Endpoint_Write_8 Data s = wr UEDATX Data s"

definition Endpoint_Discard_8 :: "'a mcu_scheme \<Rightarrow> 'a mcu_scheme" where
  "Endpoint_Discard_8 s = snd (rd UEDATX s)"

definition Endpoint_Read_16_LE :: "'a mcu_scheme \<Rightarrow> u16 \<times> 'a mcu_scheme" where
  "Endpoint_Read_16_LE s = (let (b0, s) = rd UEDATX s; (b1, s) = rd UEDATX s in (word16 b0 b1, s))"

definition Endpoint_Read_16_BE :: "'a mcu_scheme \<Rightarrow> u16 \<times> 'a mcu_scheme" where
  "Endpoint_Read_16_BE s = (let (b1, s) = rd UEDATX s; (b0, s) = rd UEDATX s in (word16 b0 b1, s))"

definition Endpoint_Write_16_LE :: "u16 \<Rightarrow> 'a mcu_scheme \<Rightarrow> 'a mcu_scheme" where
  "Endpoint_Write_16_LE Data s = wr UEDATX (ucast (drop_bit 8 Data)) (wr UEDATX (ucast (Data AND 0xFF)) s)"

definition Endpoint_Write_16_BE :: "u16 \<Rightarrow> 'a mcu_scheme \<Rightarrow> 'a mcu_scheme" where
  "Endpoint_Write_16_BE Data s = wr UEDATX (ucast (Data AND 0xFF)) (wr UEDATX (ucast (drop_bit 8 Data)) s)"

definition Endpoint_Discard_16 :: "'a mcu_scheme \<Rightarrow> 'a mcu_scheme" where
  "Endpoint_Discard_16 s = snd (rd UEDATX (snd (rd UEDATX s)))"

definition Endpoint_Read_32_LE :: "'a mcu_scheme \<Rightarrow> u32 \<times> 'a mcu_scheme" where
  "Endpoint_Read_32_LE s =
     (let (b0, s) = rd UEDATX s; (b1, s) = rd UEDATX s; (b2, s) = rd UEDATX s; (b3, s) = rd UEDATX s
      in (word32 b0 b1 b2 b3, s))"

definition Endpoint_Read_32_BE :: "'a mcu_scheme \<Rightarrow> u32 \<times> 'a mcu_scheme" where
  "Endpoint_Read_32_BE s =
     (let (b3, s) = rd UEDATX s; (b2, s) = rd UEDATX s; (b1, s) = rd UEDATX s; (b0, s) = rd UEDATX s
      in (word32 b0 b1 b2 b3, s))"

definition Endpoint_Write_32_LE :: "u32 \<Rightarrow> 'a mcu_scheme \<Rightarrow> 'a mcu_scheme" where
  "Endpoint_Write_32_LE Data s =
     (let s = wr UEDATX (ucast (Data AND 0xFF)) s; s = wr UEDATX (ucast (drop_bit 8 Data)) s;
          s = wr UEDATX (ucast (drop_bit 16 Data)) s
      in wr UEDATX (ucast (drop_bit 24 Data)) s)"

definition Endpoint_Write_32_BE :: "u32 \<Rightarrow> 'a mcu_scheme \<Rightarrow> 'a mcu_scheme" where
  "Endpoint_Write_32_BE Data s =
     (let s = wr UEDATX (ucast (drop_bit 24 Data)) s; s = wr UEDATX (ucast (drop_bit 16 Data)) s;
          s = wr UEDATX (ucast (drop_bit 8 Data)) s
      in wr UEDATX (ucast (Data AND 0xFF)) s)"

definition Endpoint_Discard_32 :: "'a mcu_scheme \<Rightarrow> 'a mcu_scheme" where
  "Endpoint_Discard_32 s = snd (rd UEDATX (snd (rd UEDATX (snd (rd UEDATX (snd (rd UEDATX s)))))))"

section \<open>Configuring an endpoint\<close>

text \<open>The loop shifts a 16-bit value: it becomes zero, and the loop endless, for more than 32768 bytes.\<close>

definition Endpoint_BytesToEPSizeMask :: "u16 \<Rightarrow> u8 option" where
  "Endpoint_BytesToEPSizeMask Bytes = map_option fst (poll_loop (\<lambda>(MaskVal :: u8, CheckBytes :: u16).
     Some (if CheckBytes < Bytes then (None, (MaskVal + 1, push_bit 1 CheckBytes))
           else (Some (push_bit EPSIZE0 MaskVal), (MaskVal, CheckBytes)))) (0, 8))"

text \<open>One round of the loop of \<open>Endpoint_ConfigureEndpoint_Prv\<close>: \<open>False\<close> is its \<open>return false\<close>.\<close>

definition configure_round :: "u8 \<Rightarrow> u8 \<Rightarrow> u8 \<Rightarrow> u8 \<Rightarrow> 'a mcu_scheme \<Rightarrow> bool \<times> 'a mcu_scheme" where
  "configure_round Number UECFG0XData UECFG1XData EPNum s =
     (let s = Endpoint_SelectEndpoint EPNum s;
          (UECFG0XTemp, s) = (if EPNum = Number then (UECFG0XData, s) else rd UECFG0X s);
          (UECFG1XTemp, s) = (if EPNum = Number then (UECFG1XData, s) else rd UECFG1X s);
          (UEIENXTemp, s) = (if EPNum = Number then (0, s) else rd UEIENX s)
      in if \<not> tst UECFG1XTemp ALLOC then (True, s)
         else let s = Endpoint_DisableEndpoint s;
                  s = clr_bits UECFG1X (bv ALLOC) s;
                  s = Endpoint_EnableEndpoint s;
                  s = wr UECFG0X UECFG0XTemp s;
                  s = wr UECFG1X UECFG1XTemp s;
                  s = wr UEIENX UEIENXTemp s
              in Endpoint_IsConfigured s)"

fun configure_loop :: "u8 \<Rightarrow> u8 \<Rightarrow> u8 \<Rightarrow> nat list \<Rightarrow> 'a mcu_scheme \<Rightarrow> bool \<times> 'a mcu_scheme" where
  "configure_loop Number UECFG0XData UECFG1XData [] s = (True, s)"
| "configure_loop Number UECFG0XData UECFG1XData (EPNum # EPNums) s =
     (let (ok, s) = configure_round Number UECFG0XData UECFG1XData (of_nat EPNum) s
      in if ok then configure_loop Number UECFG0XData UECFG1XData EPNums s else (False, s))"

definition Endpoint_ConfigureEndpoint_Prv :: "u8 \<Rightarrow> u8 \<Rightarrow> u8 \<Rightarrow> 'a mcu_scheme \<Rightarrow> bool \<times> 'a mcu_scheme" where
  "Endpoint_ConfigureEndpoint_Prv Number UECFG0XData UECFG1XData s =
     (let (ok, s) = configure_loop Number UECFG0XData UECFG1XData [unat Number ..< ENDPOINT_TOTAL_ENDPOINTS] s
      in if ok then (True, Endpoint_SelectEndpoint Number s) else (False, s))"

definition Endpoint_ConfigureEndpoint :: "u8 \<Rightarrow> u8 \<Rightarrow> u16 \<Rightarrow> u8 \<Rightarrow> 'a mcu_scheme \<Rightarrow> (bool \<times> 'a mcu_scheme) option" where
  "Endpoint_ConfigureEndpoint Address Type Size Banks s =
     (let Number = Address AND ENDPOINT_EPNUM_MASK
      in if ENDPOINT_TOTAL_ENDPOINTS \<le> unat Number then Some (False, s)
         else do {
           mask \<leftarrow> Endpoint_BytesToEPSizeMask Size;
           Some (Endpoint_ConfigureEndpoint_Prv Number
             (push_bit EPTYPE0 Type OR (if Address AND ENDPOINT_DIR_IN \<noteq> 0 then bv EPDIR else 0))
             (bv ALLOC OR (if Banks > 1 then bv EPBK0 else 0) OR mask) s) })"

record USB_Endpoint_Table =
  ep_Address :: u8
  ep_Size :: u16
  ep_Type :: u8
  ep_Banks :: u8

fun Endpoint_ConfigureEndpointTable :: "USB_Endpoint_Table list \<Rightarrow> 'a mcu_scheme \<Rightarrow> (bool \<times> 'a mcu_scheme) option" where
  "Endpoint_ConfigureEndpointTable [] s = Some (True, s)"
| "Endpoint_ConfigureEndpointTable (e # Table) s =
     (if ep_Address e = 0 then Endpoint_ConfigureEndpointTable Table s
      else do {
        (ok, s) \<leftarrow> Endpoint_ConfigureEndpoint (ep_Address e) (ep_Type e) (ep_Size e) (ep_Banks e) s;
        if \<not> ok then Some (False, s) else Endpoint_ConfigureEndpointTable Table s })"

definition clear_endpoint :: "nat \<Rightarrow> 'a mcu_scheme \<Rightarrow> 'a mcu_scheme" where
  "clear_endpoint EPNum s =
     (let s = Endpoint_SelectEndpoint (of_nat EPNum) s;
          s = wr UEIENX 0 s;
          s = wr UEINTX 0 s;
          s = wr UECFG1X 0 s
      in Endpoint_DisableEndpoint s)"

definition Endpoint_ClearEndpoints :: "'a mcu_scheme \<Rightarrow> 'a mcu_scheme" where
  "Endpoint_ClearEndpoints s = fold clear_endpoint [0 ..< ENDPOINT_TOTAL_ENDPOINTS] (wr UEINT 0 s)"

section \<open>Waiting for an endpoint\<close>

definition USB_Device_GetFrameNumber :: "'a mcu_scheme \<Rightarrow> u16 \<times> 'a mcu_scheme" where
  "USB_Device_GetFrameNumber s = (let (l, s) = rd UDFNUML s; (h, s) = rd UDFNUMH s in (word16 l h, s))"

definition wait_round :: "u8 \<times> u16 \<times> 'a mcu_scheme \<Rightarrow> readywait option \<times> u8 \<times> u16 \<times> 'a mcu_scheme" where
  "wait_round = (\<lambda>(TimeoutMSRem, PreviousFrameNumber, s).
     let (dir, s) = Endpoint_GetEndpointDirection s;
         (ready, s) = (if dir = ENDPOINT_DIR_IN then Endpoint_IsINReady s else Endpoint_IsOUTReceived s)
     in if ready then (Some ENDPOINT_READYWAIT_NoError, TimeoutMSRem, PreviousFrameNumber, s)
        else let (USB_DeviceState_LCL, s) = rd GPIOR0 s
        in if USB_DeviceState_LCL = DEVICE_STATE_Unattached
           then (Some ENDPOINT_READYWAIT_DeviceDisconnected, TimeoutMSRem, PreviousFrameNumber, s)
           else if USB_DeviceState_LCL = DEVICE_STATE_Suspended
           then (Some ENDPOINT_READYWAIT_BusSuspended, TimeoutMSRem, PreviousFrameNumber, s)
           else let (stalled, s) = Endpoint_IsStalled s
           in if stalled then (Some ENDPOINT_READYWAIT_EndpointStalled, TimeoutMSRem, PreviousFrameNumber, s)
              else let (CurrentFrameNumber, s) = USB_Device_GetFrameNumber s
              in if CurrentFrameNumber \<noteq> PreviousFrameNumber
                 then (if TimeoutMSRem = 0 then Some ENDPOINT_READYWAIT_Timeout else None,
                       TimeoutMSRem - 1, CurrentFrameNumber, s)
                 else (None, TimeoutMSRem, PreviousFrameNumber, s))"

definition Endpoint_WaitUntilReady :: "'a mcu_scheme \<Rightarrow> (readywait \<times> 'a mcu_scheme) option" where
  "Endpoint_WaitUntilReady s = do {
     let (PreviousFrameNumber, s) = USB_Device_GetFrameNumber s;
     (r, _, _, s) \<leftarrow> poll_loop (\<lambda>t. Some (wait_round t)) (USB_STREAM_TIMEOUT_MS, PreviousFrameNumber, s);
     Some (r, s) }"

end
