(* ===== verification/Endpoint_Laws.thy ===== *)
theory Endpoint_Laws
  imports Endpoint_AVR8
begin

text \<open>
  Laws of the endpoint driver: the registers each routine may write, round trips of multi-byte data,
  the size code of an endpoint bank, the register sequence that configures an endpoint, and the wait
  for an endpoint with its timeout.
\<close>

section \<open>Frames\<close>

lemma touch_BytesInEndpoint [touch]: "touches R s t \<Longrightarrow> touches R s (snd (Endpoint_BytesInEndpoint t))"
  by (simp add: Endpoint_BytesInEndpoint_def split_beta Let_def touch)

lemma touch_Direction [touch]: "touches R s t \<Longrightarrow> touches R s (snd (Endpoint_GetEndpointDirection t))"
  by (simp add: Endpoint_GetEndpointDirection_def split_beta Let_def touch)

lemma touch_CurrentEndpoint [touch]: "touches R s t \<Longrightarrow> touches R s (snd (Endpoint_GetCurrentEndpoint t))"
  by (simp add: Endpoint_GetCurrentEndpoint_def split_beta Let_def touch)

lemma touch_Select [touch]: "touches R s t \<Longrightarrow> UENUM \<in> R \<Longrightarrow> touches R s (Endpoint_SelectEndpoint n t)"
  by (simp add: Endpoint_SelectEndpoint_def touch)

lemma touch_ResetEndpoint [touch]: "touches R s t \<Longrightarrow> UERST \<in> R \<Longrightarrow> touches R s (Endpoint_ResetEndpoint n t)"
  by (simp add: Endpoint_ResetEndpoint_def touch)

lemma touch_UECONX [touch]:
  assumes "touches R s t" "UECONX \<in> R"
  shows "touches R s (Endpoint_EnableEndpoint t)" "touches R s (Endpoint_DisableEndpoint t)"
    "touches R s (Endpoint_StallTransaction t)" "touches R s (Endpoint_ClearStall t)"
    "touches R s (Endpoint_ResetDataToggle t)"
  using assms by (simp_all add: Endpoint_EnableEndpoint_def Endpoint_DisableEndpoint_def
    Endpoint_StallTransaction_def Endpoint_ClearStall_def Endpoint_ResetDataToggle_def touch)

lemma touch_UEINTX [touch]:
  assumes "touches R s t" "UEINTX \<in> R"
  shows "touches R s (Endpoint_ClearSETUP t)" "touches R s (Endpoint_ClearIN t)" "touches R s (Endpoint_ClearOUT t)"
  using assms by (simp_all add: Endpoint_ClearSETUP_def Endpoint_ClearIN_def Endpoint_ClearOUT_def touch)

lemma touch_tests [touch]:
  assumes "touches R s t"
  shows "touches R s (snd (Endpoint_IsEnabled t))" "touches R s (snd (Endpoint_IsReadWriteAllowed t))"
    "touches R s (snd (Endpoint_IsConfigured t))" "touches R s (snd (Endpoint_IsINReady t))"
    "touches R s (snd (Endpoint_IsOUTReceived t))" "touches R s (snd (Endpoint_IsSETUPReceived t))"
    "touches R s (snd (Endpoint_IsStalled t))"
  using assms by (simp_all add: Endpoint_IsEnabled_def Endpoint_IsReadWriteAllowed_def Endpoint_IsConfigured_def
    Endpoint_IsINReady_def Endpoint_IsOUTReceived_def Endpoint_IsSETUPReceived_def Endpoint_IsStalled_def touch)

lemma touch_reads [touch]:
  assumes "touches R s t"
  shows "touches R s (snd (Endpoint_Read_8 t))" "touches R s (Endpoint_Discard_8 t)"
    "touches R s (snd (USB_Device_GetFrameNumber t))"
  using assms by (simp_all add: Endpoint_Read_8_def Endpoint_Discard_8_def USB_Device_GetFrameNumber_def
    split_beta Let_def touch)

lemma touch_writes [touch]:
  assumes "touches R s t" "UEDATX \<in> R"
  shows "touches R s (Endpoint_Write_8 d t)" "touches R s (Endpoint_Write_16_LE w t)"
  using assms by (simp_all add: Endpoint_Write_8_def Endpoint_Write_16_LE_def touch)

section \<open>Multi-byte data\<close>

lemma ucast_low [simp]: "ucast (d AND 0xFF :: u16) = (ucast d :: u8)" "ucast (e AND 0xFF :: u32) = (ucast e :: u8)"
proof -
  have m: "(0xFF :: u16) = mask 8" "(0xFF :: u32) = mask 8" by (simp_all add: mask_eq_exp_minus_1)
  show "ucast (d AND 0xFF :: u16) = (ucast d :: u8)" unfolding m by (rule bit_word_eqI) (simp add: bit_simps)
  show "ucast (e AND 0xFF :: u32) = (ucast e :: u8)" unfolding m by (rule bit_word_eqI) (simp add: bit_simps)
qed

definition appended :: "reg \<Rightarrow> ('a mcu_scheme \<Rightarrow> 'a mcu_scheme) \<Rightarrow> 'a mcu_scheme \<Rightarrow> u8 list" where
  "appended r f s = drop (length (wrote r s)) (wrote r (f s))"

lemma appended_writes:
  "appended UEDATX (Endpoint_Write_16_LE w) s = bytes16 w" "appended UEDATX (Endpoint_Write_16_BE w) s = rev (bytes16 w)"
  "appended UEDATX (Endpoint_Write_32_LE d) s = bytes32 d" "appended UEDATX (Endpoint_Write_32_BE d) s = rev (bytes32 d)"
  by (simp_all add: appended_def Endpoint_Write_16_LE_def Endpoint_Write_16_BE_def Endpoint_Write_32_LE_def
    Endpoint_Write_32_BE_def bytes16_def bytes32_def Let_def)

text \<open>
  Data written with \<open>Endpoint_Write_16_LE\<close>, \<open>Endpoint_Write_16_BE\<close>, \<open>Endpoint_Write_32_LE\<close>
  or \<open>Endpoint_Write_32_BE\<close> and delivered byte by byte at the other end is read back unchanged by the
  reader of the same width and byte order.
\<close>

lemma endpoint_data_roundtrip:
  "(reads_as UEDATX (appended UEDATX (Endpoint_Write_16_LE w) t) s \<longrightarrow> fst (Endpoint_Read_16_LE s) = w) \<and>
   (reads_as UEDATX (appended UEDATX (Endpoint_Write_16_BE w) t) s \<longrightarrow> fst (Endpoint_Read_16_BE s) = w) \<and>
   (reads_as UEDATX (appended UEDATX (Endpoint_Write_32_LE d) t) s \<longrightarrow> fst (Endpoint_Read_32_LE s) = d) \<and>
   (reads_as UEDATX (appended UEDATX (Endpoint_Write_32_BE d) t) s \<longrightarrow> fst (Endpoint_Read_32_BE s) = d)"
  unfolding appended_writes
  by (simp add: bytes16_def bytes32_def Endpoint_Read_16_LE_def Endpoint_Read_16_BE_def Endpoint_Read_32_LE_def
    Endpoint_Read_32_BE_def Let_def split_beta)

section \<open>The size code of a bank\<close>

abbreviation mask_body :: "u16 \<Rightarrow> u8 \<times> u16 \<Rightarrow> (u8 option \<times> u8 \<times> u16) option" where
  "mask_body Bytes \<equiv> \<lambda>(MaskVal, CheckBytes).
     Some (if CheckBytes < Bytes then (None, (MaskVal + 1, push_bit 1 CheckBytes))
           else (Some (push_bit EPSIZE0 MaskVal), (MaskVal, CheckBytes)))"

lemma unat_bank: "k \<le> 12 \<Longrightarrow> unat (of_nat (8 * 2 ^ k) :: u16) = 8 * 2 ^ k"
proof -
  assume "k \<le> 12"
  then have "(2 :: nat) ^ k \<le> 2 ^ 12" by (intro power_increasing) auto
  then have "8 * 2 ^ k < (2 :: nat) ^ 16" by simp
  then show ?thesis by (simp add: unat_of_nat take_bit_nat_eq_self del: of_nat_mult of_nat_power)
qed

lemma mask_loop:
  assumes "k \<le> m" "m \<le> 12" "unat B \<le> 8 * 2 ^ m" "\<forall>j. k \<le> j \<and> j < m \<longrightarrow> 8 * 2 ^ j < unat B"
  shows "map_option fst (poll_loop (mask_body B) (of_nat k, of_nat (8 * 2 ^ k))) = Some (push_bit 4 (of_nat m))"
  using assms
proof (induction "m - k" arbitrary: k)
  case 0
  then have [simp]: "k = m" by simp
  from 0 have "\<not> of_nat (8 * 2 ^ m) < B" by (simp add: word_less_nat_alt unat_bank del: of_nat_mult of_nat_power)
  then show ?case by (subst poll_loop.simps) (simp del: of_nat_mult of_nat_power)
next
  case (Suc n)
  then have "k < m" by simp
  with Suc.prems have less: "of_nat (8 * 2 ^ k) < B" by (simp add: word_less_nat_alt unat_bank del: of_nat_mult of_nat_power)
  have "push_bit 1 (of_nat (8 * 2 ^ k)) = (of_nat (8 * 2 ^ Suc k) :: u16)" by (simp add: push_bit_eq_mult)
  moreover have "map_option fst (poll_loop (mask_body B) (of_nat (Suc k), of_nat (8 * 2 ^ Suc k))) = Some (push_bit 4 (of_nat m))"
    using Suc by (intro Suc.hyps) auto
  ultimately show ?case using less
    by (subst poll_loop.simps) (simp del: of_nat_mult of_nat_power power_Suc add: add.commute)
qed

lemma mask_never:
  assumes "unat B > 32768"
  shows "poll_loop (mask_body B) (0, 8) = None"
proof (rule ccontr)
  let ?I = "\<lambda>(m :: u8, c :: u16). c = 0 \<or> (\<exists>k \<le> 12. c = of_nat (8 * 2 ^ k))"
  assume "poll_loop (mask_body B) (0, 8) \<noteq> None"
  then obtain x s' where p: "poll_loop (mask_body B) (0, 8) = Some (x, s')" by auto
  have start: "?I (0, 8)" by (auto intro: exI [of _ 0])
  have step: "c < B \<and> ?I (m + 1, push_bit 1 c)" if "?I (m, c)" for m c
  proof (cases "c = 0")
    case True
    with assms show ?thesis by (simp add: word_less_nat_alt)
  next
    case False
    with that obtain k where k: "k \<le> 12" "c = of_nat (8 * 2 ^ k)" by auto
    then have "(2 :: nat) ^ k \<le> 2 ^ 12" by (intro power_increasing) auto
    with k assms have "c < B" by (simp add: word_less_nat_alt unat_bank del: of_nat_mult of_nat_power)
    moreover have s: "push_bit 1 c = of_nat (8 * 2 ^ Suc k)" using k by (simp add: push_bit_eq_mult)
    moreover have "of_nat (8 * 2 ^ Suc k) = (0 :: u16)" if "k = 12" using that by simp
    ultimately show ?thesis using k(1) by (cases "k = 12") (auto intro!: exI [of _ "Suc k"])
  qed
  show False
  proof (rule poll_loop_rule [where I = ?I and Q = "\<lambda>_ _. False", OF p start])
    fix s t assume "?I s" "mask_body B s = Some (None, t)"
    with step [of "fst s" "snd s"] show "?I t" by (auto simp: split_beta)
  next
    fix s x t assume "?I s" "mask_body B s = Some (Some x, t)"
    with step [of "fst s" "snd s"] show False by (auto simp: split_beta)
  qed
qed

text \<open>
  Property C21. \<open>Endpoint_BytesToEPSizeMask\<close> gives, shifted to the position of \<open>EPSIZE0\<close>, the smallest code
  \<open>k\<close> whose bank of \<open>8 * 2 ^ k\<close> bytes holds the requested size; for more than 32768 bytes it never
  returns.
\<close>

theorem BytesToEPSizeMask_spec:
  "Endpoint_BytesToEPSizeMask Bytes =
     (if unat Bytes \<le> 32768 then Some (push_bit 4 (of_nat (LEAST k. unat Bytes \<le> 8 * 2 ^ k))) else None)"
proof (cases "unat Bytes \<le> 32768")
  case True
  let ?m = "LEAST k. unat Bytes \<le> 8 * 2 ^ k"
  from True have b: "unat Bytes \<le> 8 * 2 ^ 12" by simp
  have "map_option fst (poll_loop (mask_body Bytes) (of_nat 0, of_nat (8 * 2 ^ 0))) = Some (push_bit 4 (of_nat ?m))"
  proof (rule mask_loop)
    show "?m \<le> 12" using b by (rule Least_le)
    show "unat Bytes \<le> 8 * 2 ^ ?m" using b by (rule LeastI)
    show "\<forall>j. 0 \<le> j \<and> j < ?m \<longrightarrow> 8 * 2 ^ j < unat Bytes"
      using not_less_Least [of _ "\<lambda>k. unat Bytes \<le> 8 * 2 ^ k"] by (simp add: not_le)
  qed simp
  with True show ?thesis by (simp add: Endpoint_BytesToEPSizeMask_def)
next
  case False
  then show ?thesis using mask_never [of Bytes] by (simp add: Endpoint_BytesToEPSizeMask_def)
qed

section \<open>The registers that configure an endpoint\<close>

lemma ex_app_Cons: "\<exists>l. y = l @ z \<and> P (x # l) \<Longrightarrow> \<exists>l. x # y = l @ z \<and> P l"
  by (metis append_Cons)

lemma ex_app_Nil: "P [] \<Longrightarrow> \<exists>l. z = l @ z \<and> P l"
  by (metis append_Nil)

text \<open>
  The endpoints behind the configured one are allocated again, since their memory has moved: they are
  rewritten with the values read from them.
\<close>

definition slides :: "acc list \<Rightarrow> bool" where
  "slides l \<longleftrightarrow> (\<forall>v. Wr UECFG0X v \<in> set l \<longrightarrow> Rd UECFG0X v \<in> set l) \<and>
     (\<forall>v. Wr UEIENX v \<in> set l \<longrightarrow> Rd UEIENX v \<in> set l) \<and>
     list_all (\<lambda>a. case a of Wr r v \<Rightarrow> r \<in> {UENUM, UECONX, UECFG0X, UECFG1X, UEIENX} | Rd r v \<Rightarrow> True) l"

lemma slides_append: "slides l \<Longrightarrow> slides m \<Longrightarrow> slides (l @ m)"
  by (auto simp: slides_def)

lemmas register_steps = Endpoint_SelectEndpoint_def Endpoint_DisableEndpoint_def Endpoint_EnableEndpoint_def
  Endpoint_IsConfigured_def set_bits_def clr_bits_def tst_bit_of_def rd_def wr_def

lemma round_slides:
  assumes "EPNum \<noteq> Number"
  shows "\<exists>l. log (snd (configure_round Number d0 d1 EPNum s)) = l @ log s \<and> slides l"
  using assms unfolding configure_round_def
  by (simp add: register_steps Let_def split_beta slides_def del: EPEN_def CFGOK_def ALLOC_def)

lemma loop_slides:
  assumes "Number \<notin> of_nat ` set ns"
  shows "\<exists>l. log (snd (configure_loop Number d0 d1 ns s)) = l @ log s \<and> slides l"
  using assms
proof (induction ns arbitrary: s)
  case Nil
  then show ?case by (simp add: slides_def)
next
  case (Cons n ns)
  let ?c = "configure_round Number d0 d1 (of_nat n) s"
  from Cons.prems have "of_nat n \<noteq> Number" by auto
  from round_slides [OF this, of d0 d1 s] obtain l where l: "log (snd ?c) = l @ log s" "slides l" by blast
  from Cons obtain m where m: "log (snd (configure_loop Number d0 d1 ns (snd ?c))) = m @ log (snd ?c)" "slides m"
    by fastforce
  from l m slides_append [OF m(2) l(2)] show ?case
    by (cases "fst ?c") (auto simp: split_beta Let_def)
qed

lemma round_first:
  assumes "tst d1 ALLOC"
  obtains a b c st where
    "configure_round Number d0 d1 Number s = (bit st CFGOK, s\<lparr>log :=
      [Rd UESTA0X st, Wr UEIENX 0, Wr UECFG1X d1, Wr UECFG0X d0, Wr UECONX (c OR bv EPEN), Rd UECONX c,
       Wr UECFG1X (b AND NOT (bv ALLOC)), Rd UECFG1X b, Wr UECONX (a AND NOT (bv EPEN)), Rd UECONX a,
       Wr UENUM (Number AND ENDPOINT_EPNUM_MASK)] @ log s\<rparr>)"
  using assms unfolding configure_round_def
  by (simp add: register_steps Let_def tst_bit del: EPEN_def CFGOK_def ALLOC_def)

lemma and_mask_mask [simp]: "(a AND ENDPOINT_EPNUM_MASK) AND ENDPOINT_EPNUM_MASK = a AND ENDPOINT_EPNUM_MASK"
  by (simp add: and.assoc)

lemma upt_first: "n < m \<Longrightarrow> [n ..< m] = n # [Suc n ..< m]"
  by (simp add: upt_conv_Cons)

text \<open>
  \<open>Endpoint_ConfigureEndpoint\<close> refuses an endpoint number the controller does not have
  without touching it. When it reports success, the endpoint was selected, disabled, freed, enabled
  and given the type and direction, then the size and the number of banks, with its interrupts off,
  and the controller confirmed it; the endpoints behind it were only written back, and the endpoint
  is selected at the end.
\<close>

lemma ConfigureEndpoint_sequence:
  assumes "Number = Address AND ENDPOINT_EPNUM_MASK"
    and "d0 = push_bit EPTYPE0 Type OR (if Address AND ENDPOINT_DIR_IN \<noteq> 0 then bv EPDIR else 0)"
    and "Endpoint_BytesToEPSizeMask Size = Some m" "d1 = bv ALLOC OR (if Banks > 1 then bv EPBK0 else 0) OR m"
  shows "(ENDPOINT_TOTAL_ENDPOINTS \<le> unat Number \<longrightarrow> Endpoint_ConfigureEndpoint Address Type Size Banks s = Some (False, s)) \<and>
    (\<forall>s'. unat Number < ENDPOINT_TOTAL_ENDPOINTS \<longrightarrow> Endpoint_ConfigureEndpoint Address Type Size Banks s = Some (True, s') \<longrightarrow>
      (\<exists>l a b c st. bit st CFGOK \<and> slides l \<and> log s' = Wr UENUM Number # l @
        [Rd UESTA0X st, Wr UEIENX 0, Wr UECFG1X d1, Wr UECFG0X d0, Wr UECONX (c OR bv EPEN), Rd UECONX c,
         Wr UECFG1X (b AND NOT (bv ALLOC)), Rd UECFG1X b, Wr UECONX (a AND NOT (bv EPEN)), Rd UECONX a,
         Wr UENUM Number] @ log s))"
proof (intro conjI impI allI)
  assume "ENDPOINT_TOTAL_ENDPOINTS \<le> unat Number"
  then show "Endpoint_ConfigureEndpoint Address Type Size Banks s = Some (False, s)"
    by (simp add: Endpoint_ConfigureEndpoint_def assms(1))
next
  fix s' assume n: "unat Number < ENDPOINT_TOTAL_ENDPOINTS"
    and r: "Endpoint_ConfigureEndpoint Address Type Size Banks s = Some (True, s')"
  have "tst d1 ALLOC" by (simp add: tst_bit assms(4) bit_or_iff bit_bv)
  then obtain a b c st where f: "configure_round Number d0 d1 Number s = (bit st CFGOK, s\<lparr>log :=
      [Rd UESTA0X st, Wr UEIENX 0, Wr UECFG1X d1, Wr UECFG0X d0, Wr UECONX (c OR bv EPEN), Rd UECONX c,
       Wr UECFG1X (b AND NOT (bv ALLOC)), Rd UECFG1X b, Wr UECONX (a AND NOT (bv EPEN)), Rd UECONX a,
       Wr UENUM (Number AND ENDPOINT_EPNUM_MASK)] @ log s\<rparr>)" (is "_ = (_, ?t)") by (rule round_first)
  let ?ns = "[Suc (unat Number) ..< ENDPOINT_TOTAL_ENDPOINTS]"
  from r n have p: "Endpoint_ConfigureEndpoint_Prv Number d0 d1 s = (True, s')"
    unfolding Endpoint_ConfigureEndpoint_def assms by (simp add: Let_def del: EPTYPE0_def ALLOC_def EPBK0_def EPDIR_def)
  then have k: "bit st CFGOK" "s' = Endpoint_SelectEndpoint Number (snd (configure_loop Number d0 d1 ?ns ?t))"
    unfolding Endpoint_ConfigureEndpoint_Prv_def upt_first [OF n]
    by (auto simp: f Let_def split_beta split: if_splits simp del: CFGOK_def)
  have "Number \<notin> of_nat ` set ?ns"
    using n by (auto simp: ENDPOINT_TOTAL_ENDPOINTS_def unat_of_nat take_bit_nat_eq_self)
  from loop_slides [OF this, of d0 d1 ?t] obtain l where "slides l"
    "log (snd (configure_loop Number d0 d1 ?ns ?t)) = l @ log ?t" by blast
  with k assms(1) show "\<exists>l a b c st. bit st CFGOK \<and> slides l \<and> log s' = Wr UENUM Number # l @
        [Rd UESTA0X st, Wr UEIENX 0, Wr UECFG1X d1, Wr UECFG0X d0, Wr UECONX (c OR bv EPEN), Rd UECONX c,
         Wr UECFG1X (b AND NOT (bv ALLOC)), Rd UECFG1X b, Wr UECONX (a AND NOT (bv EPEN)), Rd UECONX a,
         Wr UENUM Number] @ log s"
    by (auto simp: Endpoint_SelectEndpoint_def simp del: CFGOK_def EPEN_def ALLOC_def)
qed

section \<open>The wait for an endpoint\<close>

text \<open>The frame numbers read, latest first, and how often they change.\<close>

fun frames :: "acc list \<Rightarrow> u16 list" where
  "frames (Rd UDFNUMH h # Rd UDFNUML l # as) = word16 l h # frames as"
| "frames (a # as) = frames as"
| "frames [] = []"

fun changes :: "u16 list \<Rightarrow> nat" where
  "changes (x # y # xs) = (if x \<noteq> y then 1 else 0) + changes (y # xs)"
| "changes xs = 0"

lemma frames_skip [simp]: "r \<noteq> UDFNUMH \<Longrightarrow> frames (Rd r v # as) = frames as"
  by (cases r) auto

text \<open>The six reads of a round that neither ends the wait nor finds the endpoint ready.\<close>

definition next_read :: "(acc list \<Rightarrow> reg \<Rightarrow> u8) \<Rightarrow> reg \<Rightarrow> acc list \<Rightarrow> acc list" where
  "next_read H r l = Rd r (H l r) # l"

definition idle_log :: "(acc list \<Rightarrow> reg \<Rightarrow> u8) \<Rightarrow> acc list \<Rightarrow> acc list" where
  "idle_log H = fold (next_read H) [UECFG0X, UEINTX, GPIOR0, UECONX, UDFNUML, UDFNUMH]"

lemma frames_idle: "\<exists>x. frames (idle_log H l) = x # frames l"
  by (simp add: idle_log_def next_read_def)

lemma rd_next: "rd r s = (hw s (log s) r, s\<lparr>log := next_read (hw s) r (log s)\<rparr>)"
  by (simp add: rd_def Let_def next_read_def)

lemmas wait_steps = Endpoint_GetEndpointDirection_def Endpoint_IsINReady_def Endpoint_IsOUTReceived_def
  Endpoint_IsStalled_def USB_Device_GetFrameNumber_def tst_bit_of_def rd_next

lemma wait_round_idle:
  assumes "wait_round (T, p, s) = (r, T', p', s')"
  shows "if r = None \<or> r = Some ENDPOINT_READYWAIT_Timeout
    then s' = s\<lparr>log := idle_log (hw s) (log s)\<rparr> \<and>
      (if hd (frames (log s')) = p then r = None \<and> T' = T \<and> p' = p
       else (r = None \<longleftrightarrow> T \<noteq> 0) \<and> T' = T - 1 \<and> p' = hd (frames (log s')))
    else True"
  using assms unfolding wait_round_def
  by (auto simp: wait_steps Let_def split_beta idle_log_def next_read_def split: if_splits)

text \<open>
  The state of the wait: what was read since it started, the remaining milliseconds and the frame
  number seen last.
\<close>

definition waiting :: "'a mcu_scheme \<Rightarrow> u8 \<times> u16 \<times> 'a mcu_scheme \<Rightarrow> bool" where
  "waiting s0 = (\<lambda>(T, p, s). touches {} s0 s \<and> (\<exists>l fs. log s = l @ log s0 \<and> frames l = p # fs \<and>
     changes (p # fs) + unat T = 100))"

lemma frames_append_idle: "frames (idle_log H (l @ m)) = hd (frames (idle_log H (l @ m))) # frames (l @ m)"
  by (simp add: idle_log_def next_read_def)

lemma idle_log_app: "\<exists>k. idle_log H (l @ m) = (k @ l) @ m \<and> frames (k @ l) = hd (frames (idle_log H (l @ m))) # frames l"
  by (simp add: idle_log_def next_read_def)

lemma touches_idle: "touches {} s (s\<lparr>log := idle_log (hw s) (log s)\<rparr>)"
  by (auto simp: touches_def idle_log_def next_read_def)

lemma waiting_start:
  assumes "USB_Device_GetFrameNumber s0 = (p, s)"
  shows "waiting s0 (USB_STREAM_TIMEOUT_MS, p, s)"
  using assms by (auto simp: waiting_def USB_Device_GetFrameNumber_def rd_next next_read_def touches_def
    USB_STREAM_TIMEOUT_MS_def)

lemma waiting_round:
  assumes "waiting s0 (T, p, s)" "wait_round (T, p, s) = (None, t)"
  shows "waiting s0 t"
proof -
  obtain T' p' s' where t: "t = (T', p', s')" by (cases t)
  let ?f = "hd (frames (log s'))"
  from wait_round_idle [OF assms(2) [unfolded t]] have s': "s' = s\<lparr>log := idle_log (hw s) (log s)\<rparr>"
    and n: "if ?f = p then T' = T \<and> p' = p else T \<noteq> 0 \<and> T' = T - 1 \<and> p' = ?f" by (auto split: if_splits)
  from assms(1) obtain l fs where l: "log s = l @ log s0" "frames l = p # fs" "changes (p # fs) + unat T = 100"
    "touches {} s0 s" by (auto simp: waiting_def)
  from idle_log_app [of "hw s" l "log s0"] obtain k where
    k: "log s' = (k @ l) @ log s0" "frames (k @ l) = ?f # p # fs" using l by (auto simp: s')
  have "touches {} s0 s'" unfolding s' by (rule touches_trans [OF l(4) touches_idle])
  moreover have "changes (?f # p # fs) + unat T' = 100 \<and> p' = ?f"
    using n l(3) by (auto split: if_splits simp: unat_minus_one word_unat_eq_iff)
  ultimately show ?thesis using k by (auto simp: waiting_def t)
qed

text \<open>What the wait has seen when it ends.\<close>

definition wait_seen :: "readywait \<Rightarrow> 'a mcu_scheme \<Rightarrow> 'a mcu_scheme \<Rightarrow> bool" where
  "wait_seen r s0 s = (case r of
     ENDPOINT_READYWAIT_NoError \<Rightarrow> \<exists>v c l. log s = Rd UEINTX v # Rd UECFG0X c # l \<and>
       (tst c EPDIR \<and> tst v TXINI \<or> \<not> tst c EPDIR \<and> tst v RXOUTI)
   | ENDPOINT_READYWAIT_DeviceDisconnected \<Rightarrow> \<exists>l. log s = Rd GPIOR0 DEVICE_STATE_Unattached # l
   | ENDPOINT_READYWAIT_BusSuspended \<Rightarrow> \<exists>l. log s = Rd GPIOR0 DEVICE_STATE_Suspended # l
   | ENDPOINT_READYWAIT_EndpointStalled \<Rightarrow> \<exists>v l. log s = Rd UECONX v # l \<and> tst v STALLRQ
   | ENDPOINT_READYWAIT_Timeout \<Rightarrow> \<exists>l. log s = l @ log s0 \<and> changes (frames l) = 101)"

lemma wait_round_seen:
  assumes "wait_round (T, p, s) = (Some r, T', p', s')" "r \<noteq> ENDPOINT_READYWAIT_Timeout"
  shows "touches {} s s' \<and> wait_seen r s0 s'"
  using assms unfolding wait_round_def
  by (auto simp: wait_steps Let_def split_beta next_read_def wait_seen_def touches_def
    split: if_splits)

lemma wait_round_end:
  assumes "waiting s0 (T, p, s)" "wait_round (T, p, s) = (Some r, T', p', s')"
  shows "touches {} s0 s' \<and> wait_seen r s0 s'"
proof (cases "r = ENDPOINT_READYWAIT_Timeout")
  case False
  from assms(1) have "touches {} s0 s" by (simp add: waiting_def)
  with wait_round_seen [OF assms(2) False, of s0] show ?thesis by (auto intro: touches_trans)
next
  case True
  let ?f = "hd (frames (log s'))"
  from True wait_round_idle [OF assms(2)] have s': "s' = s\<lparr>log := idle_log (hw s) (log s)\<rparr>"
    and n: "?f \<noteq> p" "T = 0" by (auto split: if_splits)
  from assms(1) n obtain l fs where l: "log s = l @ log s0" "frames l = p # fs" "changes (p # fs) = 100"
    "touches {} s0 s" by (auto simp: waiting_def)
  from idle_log_app [of "hw s" l "log s0"] obtain k where
    k: "log s' = (k @ l) @ log s0" "frames (k @ l) = ?f # p # fs" using l by (auto simp: s')
  have "touches {} s0 s'" unfolding s' by (rule touches_trans [OF l(4) touches_idle])
  moreover have "changes (frames (k @ l)) = 101" using n l(3) by (simp add: k(2))
  ultimately show ?thesis using k(1) True by (auto simp: wait_seen_def)
qed

lemma WaitUntilReady_seen:
  assumes "Endpoint_WaitUntilReady s = Some (r, s')"
  shows "touches {} s s' \<and> wait_seen r s s'"
proof -
  obtain p t where f: "USB_Device_GetFrameNumber s = (p, t)" by fastforce
  from assms obtain x where
    x: "poll_loop (\<lambda>t. Some (wait_round t)) (USB_STREAM_TIMEOUT_MS, p, t) = Some (r, x)" "s' = snd (snd x)"
    by (auto simp: Endpoint_WaitUntilReady_def f bind_eq_Some_conv)
  have "(\<lambda>r x. touches {} s (snd (snd x)) \<and> wait_seen r s (snd (snd x))) r x"
  proof (rule poll_loop_rule [OF x(1), where I = "waiting s"])
    show "waiting s (USB_STREAM_TIMEOUT_MS, p, t)" by (rule waiting_start [OF f])
  next
    fix u v assume "waiting s u" "Some (wait_round u) = Some (None, v)"
    then show "waiting s v" by (cases u) (auto intro: waiting_round)
  next
    fix u r v assume "waiting s u" "Some (wait_round u) = Some (Some r, v)"
    then show "touches {} s (snd (snd v)) \<and> wait_seen r s (snd (snd v))"
      by (cases u, cases v) (auto dest: wait_round_end)
  qed
  with x(2) show ?thesis by simp
qed

text \<open>
  \<open>Endpoint_WaitUntilReady\<close> writes no register and its answer is what it saw last: the bank
  ready in the direction of the endpoint, the device unattached or suspended, the endpoint stalled,
  or exactly 101 changes of the frame number since the start.
\<close>

lemma WaitUntilReady_answer:
  assumes "Endpoint_WaitUntilReady s = Some (r, s')"
  shows "touches {} s s' \<and> wait_seen r s s'"
  by (rule WaitUntilReady_seen [OF assms])

text \<open>The frame number read in further rounds does not stay the same for ever.\<close>

definition frames_advance :: "(acc list \<Rightarrow> reg \<Rightarrow> u8) \<Rightarrow> bool" where
  "frames_advance H \<longleftrightarrow> (\<forall>f l. \<exists>n. hd (frames ((idle_log H ^^ Suc n) l)) \<noteq> f)"

lemma wait_loop_returns:
  assumes "frames_advance (hw s)"
  shows "\<exists>x. poll_loop (\<lambda>t. Some (wait_round t)) (T, p, s) = Some x"
  using assms
proof (induction "unat T" arbitrary: T p s rule: less_induct)
  case less
  let ?loop = "poll_loop (\<lambda>t. Some (wait_round t)) :: _ \<Rightarrow> (readywait \<times> u8 \<times> u16 \<times> 'a mcu_scheme) option"
  have step: "\<exists>x. ?loop (T, p, s) = Some x" if "frames_advance (hw s)"
    "hd (frames (idle_log (hw s) (log s))) \<noteq> p \<or> (\<exists>x. ?loop (T, p, s\<lparr>log := idle_log (hw s) (log s)\<rparr>) = Some x)" for s
  proof -
    obtain r T' p' s' where w: "wait_round (T, p, s) = (r, T', p', s')" by (cases "wait_round (T, p, s)")
    show ?thesis
    proof (cases r)
      case None
      note i = wait_round_idle [OF w]
      have "\<exists>x. ?loop (T', p', s') = Some x"
      proof (cases "hd (frames (log s')) = p")
        case False
        with i None that(1) show ?thesis
          by (intro less.hyps) (auto simp: unat_minus_one word_unat_eq_iff split: if_splits)
      next
        case True
        with i None that(2) show ?thesis by auto
      qed
      with None show ?thesis by (subst poll_loop.simps) (simp add: w)
    next
      case (Some x)
      then show ?thesis by (subst poll_loop.simps) (simp add: w)
    qed
  qed
  from less.prems obtain n where "hd (frames ((idle_log (hw s) ^^ Suc n) (log s))) \<noteq> p" by (auto simp: frames_advance_def)
  with less.prems show ?case
  proof (induction n arbitrary: s)
    case (0 s)
    with step [of s] show ?case by simp
  next
    case (Suc n s)
    have "\<exists>x. ?loop (T, p, s\<lparr>log := idle_log (hw s) (log s)\<rparr>) = Some x"
      using Suc.prems by (intro Suc.IH) (simp_all add: funpow_swap1)
    with step [of s] Suc.prems show ?case by blast
  qed
qed

text \<open>
  As long as the frame number on the bus keeps changing, \<open>Endpoint_WaitUntilReady\<close> returns,
  whatever the endpoint does.
\<close>

lemma WaitUntilReady_returns:
  assumes "frames_advance (hw s)"
  shows "\<exists>r s'. Endpoint_WaitUntilReady s = Some (r, s')"
proof -
  obtain p t where f: "USB_Device_GetFrameNumber s = (p, t)" by fastforce
  then have "hw t = hw s" by (auto simp: USB_Device_GetFrameNumber_def rd_next)
  with wait_loop_returns [of t USB_STREAM_TIMEOUT_MS p] assms show ?thesis
    by (auto simp: Endpoint_WaitUntilReady_def f)
qed

text \<open>A bus where the low byte of the frame number is the number of accesses so far, and nothing is ever ready\<close>

definition ticking :: "acc list \<Rightarrow> reg \<Rightarrow> u8" where
  "ticking l r = (if r = UDFNUML then of_nat (length l) else if r = GPIOR0 then DEVICE_STATE_Configured else 0)"

lemma ucast_16_eq [simp]: "(ucast (a :: u8) :: u16) = ucast b \<longleftrightarrow> a = b"
proof
  assume "(ucast a :: u16) = ucast b"
  then have "ucast (ucast a :: u16) = (ucast (ucast b :: u16) :: u8)" by simp
  moreover have "ucast (ucast c :: u16) = (c :: u8)" for c by (rule bit_word_eqI) (simp add: bit_simps)
  ultimately show "a = b" by simp
qed simp

lemma frames_advance_ticking: "frames_advance ticking"
proof -
  have "\<exists>n. hd (frames ((idle_log ticking ^^ Suc n) l)) \<noteq> f" for f l
  proof -
    have "hd (frames ((idle_log ticking ^^ Suc 0) l)) \<noteq> hd (frames ((idle_log ticking ^^ Suc (Suc 0)) l))"
      by (simp add: idle_log_def next_read_def ticking_def word16_def)
    then show ?thesis by metis
  qed
  then show ?thesis by (simp add: frames_advance_def)
qed

end
