(* ===== verification/USB_Device.thy ===== *)
theory USB_Device
  imports Endpoint_Laws
begin

text \<open>
  State of the device stack (\<open>Core/USBTask.c\<close>, \<open>Core/DeviceStandardReq.c\<close>, \<open>Core/StdRequestType.h\<close>), the
  status stage of a control request (\<open>Endpoint_AVR8.c\<close>) and the inline routines of \<open>Device_AVR8.h\<close>.

  \<open>USB_DeviceState\<close> is the register \<open>GPIOR0\<close> (\<open>DEVICE_STATE_AS_GPIOR\<close> in \<open>LUFAConfig.h\<close>).
\<close>

section \<open>Requests\<close>

record USB_Request_Header =
  bmRequestType :: u8
  bRequest :: u8
  wValue :: u16
  wIndex :: u16
  wLength :: u16

abbreviation CONTROL_REQTYPE_RECIPIENT :: u8 where "CONTROL_REQTYPE_RECIPIENT \<equiv> 0x1F"
abbreviation REQDIR_HOSTTODEVICE :: u8 where "REQDIR_HOSTTODEVICE \<equiv> 0"
abbreviation REQDIR_DEVICETOHOST :: u8 where "REQDIR_DEVICETOHOST \<equiv> 0x80"
abbreviation REQTYPE_STANDARD :: u8 where "REQTYPE_STANDARD \<equiv> 0"
abbreviation REQTYPE_CLASS :: u8 where "REQTYPE_CLASS \<equiv> 0x20"
abbreviation REQREC_DEVICE :: u8 where "REQREC_DEVICE \<equiv> 0"
abbreviation REQREC_INTERFACE :: u8 where "REQREC_INTERFACE \<equiv> 1"
abbreviation REQREC_ENDPOINT :: u8 where "REQREC_ENDPOINT \<equiv> 2"

abbreviation REQ_GetStatus :: u8 where "REQ_GetStatus \<equiv> 0"
abbreviation REQ_ClearFeature :: u8 where "REQ_ClearFeature \<equiv> 1"
abbreviation REQ_SetFeature :: u8 where "REQ_SetFeature \<equiv> 3"
abbreviation REQ_SetAddress :: u8 where "REQ_SetAddress \<equiv> 5"
abbreviation REQ_GetDescriptor :: u8 where "REQ_GetDescriptor \<equiv> 6"
abbreviation REQ_GetConfiguration :: u8 where "REQ_GetConfiguration \<equiv> 8"
abbreviation REQ_SetConfiguration :: u8 where "REQ_SetConfiguration \<equiv> 9"

abbreviation FEATURE_SEL_EndpointHalt :: u8 where "FEATURE_SEL_EndpointHalt \<equiv> 0"
abbreviation FEATURE_SEL_DeviceRemoteWakeup :: u8 where "FEATURE_SEL_DeviceRemoteWakeup \<equiv> 1"
abbreviation FEATURE_SELFPOWERED_ENABLED :: u8 where "FEATURE_SELFPOWERED_ENABLED \<equiv> 1"
abbreviation FEATURE_REMOTE_WAKEUP_ENABLED :: u8 where "FEATURE_REMOTE_WAKEUP_ENABLED \<equiv> 2"

section \<open>The state of the stack\<close>

record dev = mcu +
  USB_ControlRequest :: USB_Request_Header
  USB_Device_ConfigurationNumber :: u8
  USB_Device_CurrentlySelfPowered :: bool
  USB_Device_RemoteWakeupEnabled :: bool
  USB_IsInitialized :: bool

text \<open>The variables as they are before any request, with a request header given.\<close>

definition dev_at :: "(acc list \<Rightarrow> reg \<Rightarrow> u8) \<Rightarrow> USB_Request_Header \<Rightarrow> dev" where
  "dev_at H q = \<lparr>hw = H, log = [], USB_ControlRequest = q, USB_Device_ConfigurationNumber = 0,
     USB_Device_CurrentlySelfPowered = False, USB_Device_RemoteWakeupEnabled = False, USB_IsInitialized = True\<rparr>"

lemma dev_at_simps [simp]:
  "hw (dev_at H q) = H" "log (dev_at H q) = []" "USB_ControlRequest (dev_at H q) = q"
  "USB_Device_ConfigurationNumber (dev_at H q) = 0" "wrote r (dev_at H q) = []"
  by (simp_all add: dev_at_def wrote_def)

text \<open>A change that touches registers only leaves the variables of the stack alone.\<close>

lemma touches_dev:
  fixes s s' :: "'a dev_scheme"
  assumes "touches R s s'"
  shows "USB_ControlRequest s' = USB_ControlRequest s"
    "USB_Device_ConfigurationNumber s' = USB_Device_ConfigurationNumber s"
    "USB_Device_CurrentlySelfPowered s' = USB_Device_CurrentlySelfPowered s"
    "USB_Device_RemoteWakeupEnabled s' = USB_Device_RemoteWakeupEnabled s"
    "USB_IsInitialized s' = USB_IsInitialized s" "dev.more s' = dev.more s"
  using touches_more [OF assms] by (cases s; cases s'; simp)+

section \<open>Address of the device\<close>

definition USB_Device_SetDeviceAddress :: "u8 \<Rightarrow> 'a mcu_scheme \<Rightarrow> 'a mcu_scheme" where
  "USB_Device_SetDeviceAddress Addr s =
     (let (v, s) = rd UDADDR s in wr UDADDR ((v AND bv ADDEN) OR (Addr AND 0x7F)) s)"

definition USB_Device_EnableDeviceAddress :: "u8 \<Rightarrow> 'a mcu_scheme \<Rightarrow> 'a mcu_scheme" where
  "USB_Device_EnableDeviceAddress Addr s = set_bits UDADDR (bv ADDEN) s"

definition USB_Device_IsAddressSet :: "'a mcu_scheme \<Rightarrow> bool \<times> 'a mcu_scheme" where
  "USB_Device_IsAddressSet s = tst_bit_of UDADDR ADDEN s"

section \<open>The status stage\<close>

text \<open>Waiting for a packet; \<open>False\<close> is the early return of an unattached device.\<close>

definition status_wait :: "('a mcu_scheme \<Rightarrow> bool \<times> 'a mcu_scheme) \<Rightarrow> 'a mcu_scheme \<Rightarrow> (bool \<times> 'a mcu_scheme) option" where
  "status_wait arrived = poll_loop (\<lambda>s.
     let (b, s) = arrived s
     in if b then Some (Some True, s)
        else let (st, s) = rd GPIOR0 s
             in Some (if st = DEVICE_STATE_Unattached then Some False else None, s))"

definition Endpoint_ClearStatusStage :: "'a dev_scheme \<Rightarrow> 'a dev_scheme option" where
  "Endpoint_ClearStatusStage s =
     (if bmRequestType (USB_ControlRequest s) AND REQDIR_DEVICETOHOST \<noteq> 0
      then do { (ok, s) \<leftarrow> status_wait Endpoint_IsOUTReceived s; Some (if ok then Endpoint_ClearOUT s else s) }
      else do { (ok, s) \<leftarrow> status_wait Endpoint_IsINReady s; Some (if ok then Endpoint_ClearIN s else s) })"

section \<open>Frames\<close>

lemma touch_address [touch]:
  assumes "touches R s t"
  shows "UDADDR \<in> R \<Longrightarrow> touches R s (USB_Device_SetDeviceAddress a t)"
    "UDADDR \<in> R \<Longrightarrow> touches R s (USB_Device_EnableDeviceAddress a t)"
    "touches R s (snd (USB_Device_IsAddressSet t))"
  using assms by (simp_all add: USB_Device_SetDeviceAddress_def USB_Device_EnableDeviceAddress_def
    USB_Device_IsAddressSet_def Let_def split_beta touch)

lemma status_wait_touches:
  assumes "status_wait arrived s = Some (ok, s')" "\<And>s t. touches R s t \<Longrightarrow> touches R s (snd (arrived t))"
  shows "touches R s s'"
proof -
  have "(\<lambda>_. touches R s) ok s'"
    by (rule poll_loop_rule [OF assms(1) [unfolded status_wait_def], where I = "touches R s"])
      (auto simp: Let_def split_beta split: if_splits intro: touch assms(2))
  then show ?thesis .
qed

lemma status_wait_seen:
  assumes "status_wait (tst_bit_of r n) s = Some (ok, s')"
  shows "if ok then \<exists>v l. log s' = Rd r v # l \<and> tst v n else \<exists>l. log s' = Rd GPIOR0 DEVICE_STATE_Unattached # l"
proof -
  have "(\<lambda>ok s'. if ok then \<exists>v l. log s' = Rd r v # l \<and> tst v n
      else \<exists>l. log s' = Rd GPIOR0 DEVICE_STATE_Unattached # l) ok s'"
    by (rule poll_loop_rule [OF assms [unfolded status_wait_def], where I = "\<lambda>_. True"])
      (auto simp: Let_def tst_bit_of_def rd_def split: if_splits)
  then show ?thesis .
qed

lemma ClearStatusStage_touches:
  assumes "Endpoint_ClearStatusStage s = Some s'"
  shows "touches {UEINTX} s s'"
  using assms unfolding Endpoint_ClearStatusStage_def
  by (auto simp: bind_eq_Some_conv split: if_splits intro!: touch elim!: status_wait_touches)

text \<open>A ready answer at the first read\<close>

lemma status_wait_ready: "fst (arrived s) \<Longrightarrow> status_wait arrived s = Some (True, snd (arrived s))"
  unfolding status_wait_def by (subst poll_loop.simps) (simp add: split_beta Let_def)

end
