(* ===== verification/Control_Streams.thy ===== *)
theory Control_Streams
  imports USB_Device
begin

text \<open>
  Streams on the control endpoint: the templates \<open>Template_Endpoint_Control_W.c\<close> and
  \<open>Template_Endpoint_Control_R.c\<close> and their instances in \<open>EndpointStream_AVR8.c\<close>. A buffer, in RAM, flash
  or EEPROM, is the list of its bytes; an access outside it is \<open>None\<close>. The instances differ in the
  order in which the buffer is walked.
\<close>

section \<open>Buffers\<close>

datatype order = LE | BE

text \<open>\<open>TEMPLATE_BUFFER_OFFSET\<close> and \<open>TEMPLATE_BUFFER_MOVE\<close>\<close>

definition buffer_offset :: "order \<Rightarrow> u16 \<Rightarrow> int" where
  "buffer_offset ord Length = (case ord of LE \<Rightarrow> 0 | BE \<Rightarrow> uint (Length - 1))"

definition buffer_move :: "order \<Rightarrow> int \<Rightarrow> int \<Rightarrow> int" where
  "buffer_move ord pos n = (case ord of LE \<Rightarrow> pos + n | BE \<Rightarrow> pos - n)"

definition byte_at :: "u8 list \<Rightarrow> int \<Rightarrow> u8 option" where
  "byte_at Buffer pos = (if 0 \<le> pos \<and> pos < int (length Buffer) then Some (Buffer ! nat pos) else None)"

definition set_byte :: "u8 list \<Rightarrow> int \<Rightarrow> u8 \<Rightarrow> u8 list option" where
  "set_byte Buffer pos v = (if 0 \<le> pos \<and> pos < int (length Buffer) then Some (Buffer[nat pos := v]) else None)"

section \<open>Writing\<close>

datatype rwcstream =
    ENDPOINT_RWCSTREAM_NoError
  | ENDPOINT_RWCSTREAM_HostAborted
  | ENDPOINT_RWCSTREAM_DeviceDisconnected
  | ENDPOINT_RWCSTREAM_BusSuspended

abbreviation USB_Device_ControlEndpointSize :: u16 where "USB_Device_ControlEndpointSize \<equiv> 8"

text \<open>The inner loop: one packet\<close>

function fill_packet :: "order \<Rightarrow> u8 list \<Rightarrow> int \<Rightarrow> u16 \<Rightarrow> u16 \<Rightarrow> 'a mcu_scheme \<Rightarrow> (int \<times> u16 \<times> u16 \<times> 'a mcu_scheme) option" where
  "fill_packet ord Buffer DataStream Length BytesInEndpoint s =
     (if Length \<noteq> 0 \<and> BytesInEndpoint < USB_Device_ControlEndpointSize
      then do {
        b \<leftarrow> byte_at Buffer DataStream;
        fill_packet ord Buffer (buffer_move ord DataStream 1) (Length - 1) (BytesInEndpoint + 1) (Endpoint_Write_8 b s) }
      else Some (DataStream, Length, BytesInEndpoint, s))"
  by pat_completeness auto

termination
  by (relation "measure (\<lambda>(ord, Buffer, DataStream, Length, n, s). unat Length)")
    (auto simp: unat_minus_one word_unat_eq_iff)

declare fill_packet.simps [simp del]

text \<open>
  One round of the outer loop. The result of the loop is \<open>Some error\<close> for a return from the function and
  \<open>None\<close> when the loop is left.
\<close>

definition write_round :: "order \<Rightarrow> u8 list \<Rightarrow> int \<times> u16 \<times> bool \<times> 'a mcu_scheme \<Rightarrow>
    (rwcstream option option \<times> int \<times> u16 \<times> bool \<times> 'a mcu_scheme) option" where
  "write_round ord Buffer = (\<lambda>(DataStream, Length, LastPacketFull, s).
     if Length = 0 \<and> \<not> LastPacketFull then Some (Some None, DataStream, Length, LastPacketFull, s)
     else let (st, s) = rd GPIOR0 s
     in if st = DEVICE_STATE_Unattached
        then Some (Some (Some ENDPOINT_RWCSTREAM_DeviceDisconnected), DataStream, Length, LastPacketFull, s)
        else if st = DEVICE_STATE_Suspended
        then Some (Some (Some ENDPOINT_RWCSTREAM_BusSuspended), DataStream, Length, LastPacketFull, s)
        else let (setup, s) = Endpoint_IsSETUPReceived s
        in if setup then Some (Some (Some ENDPOINT_RWCSTREAM_HostAborted), DataStream, Length, LastPacketFull, s)
           else let (out, s) = Endpoint_IsOUTReceived s
           in if out then Some (Some None, DataStream, Length, LastPacketFull, s)
              else let (ready, s) = Endpoint_IsINReady s
              in if \<not> ready then Some (None, DataStream, Length, LastPacketFull, s)
                 else let (BytesInEndpoint, s) = Endpoint_BytesInEndpoint s
                 in do {
                   (DataStream, Length, BytesInEndpoint, s) \<leftarrow> fill_packet ord Buffer DataStream Length BytesInEndpoint s;
                   Some (None, DataStream, Length, BytesInEndpoint = USB_Device_ControlEndpointSize, Endpoint_ClearIN s) })"

text \<open>The wait for the status stage\<close>

definition out_round :: "'a mcu_scheme \<Rightarrow> rwcstream option \<times> 'a mcu_scheme" where
  "out_round s =
     (let (out, s) = Endpoint_IsOUTReceived s
      in if out then (Some ENDPOINT_RWCSTREAM_NoError, s)
         else let (st, s) = rd GPIOR0 s
         in if st = DEVICE_STATE_Unattached then (Some ENDPOINT_RWCSTREAM_DeviceDisconnected, s)
            else if st = DEVICE_STATE_Suspended then (Some ENDPOINT_RWCSTREAM_BusSuspended, s)
            else let (setup, s) = Endpoint_IsSETUPReceived s
            in (if setup then Some ENDPOINT_RWCSTREAM_HostAborted else None, s))"

definition control_write :: "order \<Rightarrow> u8 list \<Rightarrow> u16 \<Rightarrow> 'a dev_scheme \<Rightarrow> (rwcstream \<times> 'a dev_scheme) option" where
  "control_write ord Buffer Length s = do {
     let DataStream = buffer_offset ord Length;
     let s' = (if \<not> wLength (USB_ControlRequest s) < Length \<and> Length = 0 then Endpoint_ClearIN s else s);
     let Length = (if wLength (USB_ControlRequest s) < Length then wLength (USB_ControlRequest s) else Length);
     (r, _, _, _, s) \<leftarrow> poll_loop (write_round ord Buffer) (DataStream, Length, False, s');
     case r of Some e \<Rightarrow> Some (e, s) | None \<Rightarrow> poll_loop (\<lambda>s. Some (out_round s)) s }"

definition Endpoint_Write_Control_Stream_LE :: "u8 list \<Rightarrow> u16 \<Rightarrow> 'a dev_scheme \<Rightarrow> (rwcstream \<times> 'a dev_scheme) option" where
  "Endpoint_Write_Control_Stream_LE = control_write LE"

definition Endpoint_Write_Control_Stream_BE :: "u8 list \<Rightarrow> u16 \<Rightarrow> 'a dev_scheme \<Rightarrow> (rwcstream \<times> 'a dev_scheme) option" where
  "Endpoint_Write_Control_Stream_BE = control_write BE"

definition Endpoint_Write_Control_PStream_LE :: "u8 list \<Rightarrow> u16 \<Rightarrow> 'a dev_scheme \<Rightarrow> (rwcstream \<times> 'a dev_scheme) option" where
  "Endpoint_Write_Control_PStream_LE = control_write LE"

definition Endpoint_Write_Control_PStream_BE :: "u8 list \<Rightarrow> u16 \<Rightarrow> 'a dev_scheme \<Rightarrow> (rwcstream \<times> 'a dev_scheme) option" where
  "Endpoint_Write_Control_PStream_BE = control_write BE"

definition Endpoint_Write_Control_EStream_LE :: "u8 list \<Rightarrow> u16 \<Rightarrow> 'a dev_scheme \<Rightarrow> (rwcstream \<times> 'a dev_scheme) option" where
  "Endpoint_Write_Control_EStream_LE = control_write LE"

definition Endpoint_Write_Control_EStream_BE :: "u8 list \<Rightarrow> u16 \<Rightarrow> 'a dev_scheme \<Rightarrow> (rwcstream \<times> 'a dev_scheme) option" where
  "Endpoint_Write_Control_EStream_BE = control_write BE"

section \<open>Reading\<close>

function drain_packet :: "order \<Rightarrow> u8 list \<Rightarrow> int \<Rightarrow> u16 \<Rightarrow> 'a mcu_scheme \<Rightarrow> (u8 list \<times> int \<times> u16 \<times> 'a mcu_scheme) option" where
  "drain_packet ord Buffer DataStream Length s =
     (if Length = 0 then Some (Buffer, DataStream, Length, s)
      else let (n, s) = Endpoint_BytesInEndpoint s
      in if n = 0 then Some (Buffer, DataStream, Length, s)
         else let (v, s) = Endpoint_Read_8 s
         in do {
           Buffer \<leftarrow> set_byte Buffer DataStream v;
           drain_packet ord Buffer (buffer_move ord DataStream 1) (Length - 1) s })"
  by pat_completeness auto

termination
  by (relation "measure (\<lambda>(ord, Buffer, DataStream, Length, s). unat Length)")
    (auto simp: unat_minus_one word_unat_eq_iff)

declare drain_packet.simps [simp del]

definition read_round :: "order \<Rightarrow> u8 list \<times> int \<times> u16 \<times> 'a mcu_scheme \<Rightarrow>
    (rwcstream option option \<times> u8 list \<times> int \<times> u16 \<times> 'a mcu_scheme) option" where
  "read_round ord = (\<lambda>(Buffer, DataStream, Length, s).
     if Length = 0 then Some (Some None, Buffer, DataStream, Length, s)
     else let (st, s) = rd GPIOR0 s
     in if st = DEVICE_STATE_Unattached
        then Some (Some (Some ENDPOINT_RWCSTREAM_DeviceDisconnected), Buffer, DataStream, Length, s)
        else if st = DEVICE_STATE_Suspended
        then Some (Some (Some ENDPOINT_RWCSTREAM_BusSuspended), Buffer, DataStream, Length, s)
        else let (setup, s) = Endpoint_IsSETUPReceived s
        in if setup then Some (Some (Some ENDPOINT_RWCSTREAM_HostAborted), Buffer, DataStream, Length, s)
           else let (out, s) = Endpoint_IsOUTReceived s
           in if \<not> out then Some (None, Buffer, DataStream, Length, s)
              else do {
                (Buffer, DataStream, Length, s) \<leftarrow> drain_packet ord Buffer DataStream Length s;
                Some (None, Buffer, DataStream, Length, Endpoint_ClearOUT s) })"

definition in_round :: "'a mcu_scheme \<Rightarrow> rwcstream option \<times> 'a mcu_scheme" where
  "in_round s =
     (let (ready, s) = Endpoint_IsINReady s
      in if ready then (Some ENDPOINT_RWCSTREAM_NoError, s)
         else let (st, s) = rd GPIOR0 s
         in (if st = DEVICE_STATE_Unattached then Some ENDPOINT_RWCSTREAM_DeviceDisconnected
             else if st = DEVICE_STATE_Suspended then Some ENDPOINT_RWCSTREAM_BusSuspended
             else None, s))"

definition control_read :: "order \<Rightarrow> u8 list \<Rightarrow> u16 \<Rightarrow> 'a dev_scheme \<Rightarrow> (rwcstream \<times> u8 list \<times> 'a dev_scheme) option" where
  "control_read ord Buffer Length s = do {
     let DataStream = buffer_offset ord Length;
     let s = (if Length = 0 then Endpoint_ClearOUT s else s);
     (r, Buffer, _, _, s) \<leftarrow> poll_loop (read_round ord) (Buffer, DataStream, Length, s);
     case r of Some e \<Rightarrow> Some (e, Buffer, s)
     | None \<Rightarrow> do { (e, s) \<leftarrow> poll_loop (\<lambda>s. Some (in_round s)) s; Some (e, Buffer, s) } }"

definition Endpoint_Read_Control_Stream_LE :: "u8 list \<Rightarrow> u16 \<Rightarrow> 'a dev_scheme \<Rightarrow> (rwcstream \<times> u8 list \<times> 'a dev_scheme) option" where
  "Endpoint_Read_Control_Stream_LE = control_read LE"

definition Endpoint_Read_Control_Stream_BE :: "u8 list \<Rightarrow> u16 \<Rightarrow> 'a dev_scheme \<Rightarrow> (rwcstream \<times> u8 list \<times> 'a dev_scheme) option" where
  "Endpoint_Read_Control_Stream_BE = control_read BE"

definition Endpoint_Read_Control_EStream_LE :: "u8 list \<Rightarrow> u16 \<Rightarrow> 'a dev_scheme \<Rightarrow> (rwcstream \<times> u8 list \<times> 'a dev_scheme) option" where
  "Endpoint_Read_Control_EStream_LE = control_read LE"

definition Endpoint_Read_Control_EStream_BE :: "u8 list \<Rightarrow> u16 \<Rightarrow> 'a dev_scheme \<Rightarrow> (rwcstream \<times> u8 list \<times> 'a dev_scheme) option" where
  "Endpoint_Read_Control_EStream_BE = control_read BE"

end
