(* ===== verification/Control_Laws.thy ===== *)
theory Control_Laws
  imports Control_Streams
begin

text \<open>
  What a control stream transfers: for every behaviour of the hardware the bytes written are a prefix
  of the buffer in the order of the stream, never more than the host asked for; and a host that waits
  for its data gets all of it.
\<close>

section \<open>Walking a buffer\<close>

definition walk :: "order \<Rightarrow> u16 \<Rightarrow> nat \<Rightarrow> int" where
  "walk ord Length k = (case ord of LE \<Rightarrow> int k | BE \<Rightarrow> uint (Length - 1) - int k)"

definition stream :: "order \<Rightarrow> u8 list \<Rightarrow> u16 \<Rightarrow> u8 list" where
  "stream ord Buffer Length = (case ord of LE \<Rightarrow> take (unat Length) Buffer | BE \<Rightarrow> rev (take (unat Length) Buffer))"

lemma walk_0: "walk ord Length 0 = buffer_offset ord Length"
  by (simp add: walk_def buffer_offset_def split: order.split)

lemma walk_Suc: "buffer_move ord (walk ord Length k) 1 = walk ord Length (Suc k)"
  by (simp add: walk_def buffer_move_def split: order.split)

lemma length_stream [simp]: "unat Length \<le> length Buffer \<Longrightarrow> length (stream ord Buffer Length) = unat Length"
  by (simp add: stream_def split: order.split)

lemma uint_minus_1: "L \<noteq> 0 \<Longrightarrow> uint (L - 1 :: u16) = int (unat L) - 1"
proof -
  assume "L \<noteq> 0"
  then have "unat L > 0" by (simp add: word_unat_eq_iff)
  moreover have "uint (L - 1) = int (unat (L - 1))" by simp
  moreover have "unat (L - 1) = unat L - 1" using \<open>L \<noteq> 0\<close> by (simp add: unat_minus_one)
  ultimately show ?thesis by linarith
qed

lemma walk_range:
  assumes "k < unat Length" "unat Length \<le> length Buffer"
  shows "0 \<le> walk ord Length k \<and> walk ord Length k < int (length Buffer)"
proof -
  from assms have "Length \<noteq> 0" by (auto simp: word_unat_eq_iff)
  with assms show ?thesis by (cases ord) (auto simp: walk_def uint_minus_1 simp del: of_nat_unat)
qed

lemma byte_at_walk:
  assumes "k < unat Length" "unat Length \<le> length Buffer"
  shows "byte_at Buffer (walk ord Length k) = Some (stream ord Buffer Length ! k)"
proof -
  from assms have n: "Length \<noteq> 0" by (auto simp: word_unat_eq_iff)
  have "Buffer ! nat (walk ord Length k) = stream ord Buffer Length ! k"
  proof (cases ord)
    case LE
    with assms show ?thesis by (simp add: walk_def stream_def)
  next
    case BE
    from assms have "nat (int (unat Length) - 1 - int k) = unat Length - Suc k" by linarith
    with BE assms n show ?thesis by (simp add: walk_def stream_def uint_minus_1 rev_nth)
  qed
  with walk_range [OF assms, of ord] show ?thesis by (simp add: byte_at_def)
qed

section \<open>One packet\<close>

lemma unat_Suc_less: "n < USB_Device_ControlEndpointSize \<Longrightarrow> unat (n + 1) = Suc (unat n)"
  by (simp add: word_less_nat_alt unat_word_ariths)

lemma fill_packet_spec:
  assumes "k + unat L \<le> unat Length" "unat Length \<le> length Buffer"
  shows "\<exists>j L' n' s'. fill_packet ord Buffer (walk ord Length k) L n s = Some (walk ord Length (k + j), L', n', s') \<and>
    j + unat L' = unat L \<and> (unat n \<le> 8 \<longrightarrow> unat n' = unat n + j \<and> unat n' \<le> 8) \<and> (L \<noteq> 0 \<and> unat n < 8 \<longrightarrow> 0 < j) \<and>
    wrote UEDATX s' = wrote UEDATX s @ take j (drop k (stream ord Buffer Length)) \<and> touches {UEDATX} s s'"
  using assms
proof (induction "unat L" arbitrary: k L n s)
  case 0
  then have "L = 0" by (simp add: word_unat_eq_iff)
  then show ?case by (subst fill_packet.simps) (auto intro: exI [of _ 0])
next
  case (Suc m)
  show ?case
  proof (cases "n < USB_Device_ControlEndpointSize")
    case False
    then have "\<not> unat n < 8" by (simp add: word_less_nat_alt)
    with False show ?thesis by (subst fill_packet.simps) (auto intro: exI [of _ 0])
  next
    case True
    from Suc have "L \<noteq> 0" and k: "k < unat Length" by (auto simp: word_unat_eq_iff)
    then have m: "unat (L - 1) = m" using Suc.hyps(2) by (simp add: unat_minus_one)
    let ?b = "stream ord Buffer Length ! k"
    from Suc.hyps(1) [of "L - 1" "Suc k" "n + 1" "Endpoint_Write_8 ?b s"] m Suc.hyps(2) Suc.prems
    obtain j L' n' s' where
      *: "fill_packet ord Buffer (walk ord Length (Suc k)) (L - 1) (n + 1) (Endpoint_Write_8 ?b s) =
        Some (walk ord Length (Suc k + j), L', n', s')" "j + unat L' = m"
      "unat (n + 1) \<le> 8 \<longrightarrow> unat n' = unat (n + 1) + j \<and> unat n' \<le> 8"
      "wrote UEDATX s' = wrote UEDATX (Endpoint_Write_8 ?b s) @ take j (drop (Suc k) (stream ord Buffer Length))"
      "touches {UEDATX} (Endpoint_Write_8 ?b s) s'" by auto
    have "fill_packet ord Buffer (walk ord Length k) L n s = Some (walk ord Length (k + Suc j), L', n', s')"
      using True \<open>L \<noteq> 0\<close> byte_at_walk [OF k Suc.prems(2), of ord] *(1)
      by (subst fill_packet.simps) (simp add: walk_Suc)
    moreover have "touches {UEDATX} s s'"
      by (rule touches_trans [OF _ *(5)]) (simp add: touch)
    moreover have "take (Suc j) (drop k (stream ord Buffer Length)) = ?b # take j (drop (Suc k) (stream ord Buffer Length))"
      using k Suc.prems(2) by (simp add: Cons_nth_drop_Suc [symmetric])
    moreover have "unat n < 8" using True by (simp add: word_less_nat_alt)
    ultimately show ?thesis using * unat_Suc_less [OF True] Suc.hyps(2)
      by (intro exI [of _ "Suc j"] exI [of _ L'] exI [of _ n'] exI [of _ s']) (auto simp: Endpoint_Write_8_def)
  qed
qed

section \<open>A whole stream\<close>

text \<open>What the code saw when it returned.\<close>

definition control_seen :: "rwcstream \<Rightarrow> nat \<Rightarrow> 'a mcu_scheme \<Rightarrow> bool" where
  "control_seen r flag s = (case r of
     ENDPOINT_RWCSTREAM_NoError \<Rightarrow> \<exists>v l. log s = Rd UEINTX v # l \<and> tst v flag
   | ENDPOINT_RWCSTREAM_HostAborted \<Rightarrow> \<exists>v l. log s = Rd UEINTX v # l \<and> tst v RXSTPI
   | ENDPOINT_RWCSTREAM_DeviceDisconnected \<Rightarrow> \<exists>l. log s = Rd GPIOR0 DEVICE_STATE_Unattached # l
   | ENDPOINT_RWCSTREAM_BusSuspended \<Rightarrow> \<exists>l. log s = Rd GPIOR0 DEVICE_STATE_Suspended # l)"

lemmas stream_tests = Endpoint_IsSETUPReceived_def Endpoint_IsOUTReceived_def Endpoint_IsINReady_def
  Endpoint_BytesInEndpoint_def tst_bit_of_def rd_def

lemma out_round_seen: "out_round s = (Some r, s') \<Longrightarrow> touches R s s' \<and> control_seen r RXOUTI s'"
  unfolding out_round_def
  by (auto simp: stream_tests Let_def split_beta control_seen_def touches_def split: if_splits)

lemma out_round_again: "out_round s = (None, s') \<Longrightarrow> touches R s s'"
  unfolding out_round_def by (auto simp: stream_tests Let_def split_beta touches_def split: if_splits)

lemma out_wait:
  assumes "poll_loop (\<lambda>s. Some (out_round s)) s = Some (r, s')"
  shows "touches R s s' \<and> control_seen r RXOUTI s'"
proof -
  have "(\<lambda>r t. touches R s t \<and> control_seen r RXOUTI t) r s'"
    by (rule poll_loop_rule [OF assms, where I = "touches R s"])
      (auto intro: touches_trans dest: out_round_again [where R = R] out_round_seen [where R = R])
  then show ?thesis .
qed

text \<open>\<open>sent s0 ord Buffer Length n\<close>: the state of the outer loop, with at most \<open>n\<close> bytes to send.\<close>

definition sent :: "'a mcu_scheme \<Rightarrow> order \<Rightarrow> u8 list \<Rightarrow> u16 \<Rightarrow> nat \<Rightarrow> int \<times> u16 \<times> bool \<times> 'a mcu_scheme \<Rightarrow> bool" where
  "sent s0 ord Buffer Length n = (\<lambda>(DataStream, L, LastPacketFull, s). touches {UEDATX, UEINTX} s0 s \<and>
     (\<exists>k. DataStream = walk ord Length k \<and> k + unat L = n \<and>
        wrote UEDATX s = wrote UEDATX s0 @ take k (stream ord Buffer Length)))"

lemma sentI:
  assumes "touches {UEDATX, UEINTX} s0 s" "k + unat L = n"
    "wrote UEDATX s = wrote UEDATX s0 @ take k (stream ord Buffer Length)"
  shows "sent s0 ord Buffer Length n (walk ord Length k, L, b, s)"
  using assms by (auto simp: sent_def)

lemma touches_same_wrote: "touches {} s t \<Longrightarrow> wrote r t = wrote r s"
  using touches_wrote [of "{}"] by simp

text \<open>The host ends a stream early when it answers before it has all the data.\<close>

definition patient :: "(acc list \<Rightarrow> reg \<Rightarrow> u8) \<Rightarrow> nat \<Rightarrow> bool" where
  "patient H m \<longleftrightarrow> (\<forall>l. length (wrote_in UEDATX l) < m \<longrightarrow> \<not> tst (H l UEINTX) RXOUTI)"

lemma patientD: "patient (hw s) m \<Longrightarrow> length (wrote UEDATX s) < m \<Longrightarrow> \<not> fst (Endpoint_IsOUTReceived s)"
  by (auto simp: patient_def Endpoint_IsOUTReceived_def tst_fst wrote_def)

lemma sent_reads: "sent s0 ord Buffer Length n (p, L, b, s) \<Longrightarrow> touches {} s t \<Longrightarrow> sent s0 ord Buffer Length n (p, L, b', t)"
  using touches_trans [OF _ touches_mono [of "{}" s t "{UEDATX, UEINTX}"], of s0]
  by (auto simp: sent_def touches_same_wrote)

lemma wrote_ClearIN [simp]: "wrote UEDATX (Endpoint_ClearIN s) = wrote UEDATX s"
  using touches_wrote [of "{UEINTX}" s "Endpoint_ClearIN s" UEDATX] by (simp add: touch)

lemma sent_packet:
  assumes "sent s0 ord Buffer Length n (p, L, b, s)" "n \<le> unat Length" "unat Length \<le> length Buffer"
  shows "\<exists>p' L' m' s'. fill_packet ord Buffer p L m s = Some (p', L', m', s') \<and>
    sent s0 ord Buffer Length n (p', L', b', Endpoint_ClearIN s') \<and> (L \<noteq> 0 \<and> unat m < 8 \<longrightarrow> unat L' < unat L)"
proof -
  from assms(1) obtain k where k: "p = walk ord Length k" "k + unat L = n" "touches {UEDATX, UEINTX} s0 s"
    "wrote UEDATX s = wrote UEDATX s0 @ take k (stream ord Buffer Length)" by (auto simp: sent_def)
  from fill_packet_spec [of k L Length Buffer ord m s] k(2) assms(2,3) obtain j L' m' s' where
    f: "fill_packet ord Buffer (walk ord Length k) L m s = Some (walk ord Length (k + j), L', m', s')"
    "j + unat L' = unat L" "L \<noteq> 0 \<and> unat m < 8 \<longrightarrow> 0 < j"
    "wrote UEDATX s' = wrote UEDATX s @ take j (drop k (stream ord Buffer Length))" "touches {UEDATX} s s'" by blast
  have "touches {UEDATX, UEINTX} s0 (Endpoint_ClearIN s')"
    by (intro touch touches_trans [OF k(3) touches_mono [OF f(5)]]) auto
  then have "sent s0 ord Buffer Length n (walk ord Length (k + j), L', b', Endpoint_ClearIN s')"
    by (rule sentI) (use f k in \<open>simp_all add: take_add\<close>)
  with f(1-3) k(1) show ?thesis by (intro exI [of _ "walk ord Length (k + j)"] exI) (auto simp: k(1))
qed

lemma write_round_sent:
  assumes I: "sent s0 ord Buffer Length n (p, L, b, s)" and n: "n \<le> unat Length" "unat Length \<le> length Buffer"
    and w: "write_round ord Buffer (p, L, b, s) = Some (r, t)"
  shows "sent s0 ord Buffer Length n t \<and>
    (\<forall>e. r = Some (Some e) \<longrightarrow> e \<noteq> ENDPOINT_RWCSTREAM_NoError \<and> control_seen e RXOUTI (snd (snd (snd t)))) \<and>
    (r = Some None \<longrightarrow> patient (hw s0) (length (wrote UEDATX s0) + n) \<longrightarrow> fst (snd t) = 0)"
proof -
  let ?s1 = "snd (rd GPIOR0 s)"
  let ?s2 = "snd (Endpoint_IsSETUPReceived ?s1)"
  let ?s3 = "snd (Endpoint_IsOUTReceived ?s2)"
  let ?s4 = "snd (Endpoint_IsINReady ?s3)"
  let ?s5 = "snd (Endpoint_BytesInEndpoint ?s4)"
  have t: "touches {} s ?s1" "touches {} s ?s2" "touches {} s ?s3" "touches {} s ?s4" "touches {} s ?s5"
    by (intro touch touches_refl)+
  note S = t [THEN sent_reads [OF I]]
  have early: "fst (Endpoint_IsOUTReceived ?s2) \<Longrightarrow> patient (hw s0) (length (wrote UEDATX s0) + n) \<Longrightarrow> L = 0"
  proof (rule ccontr)
    assume "fst (Endpoint_IsOUTReceived ?s2)" "patient (hw s0) (length (wrote UEDATX s0) + n)" "L \<noteq> 0"
    moreover from S(2) [of b] \<open>L \<noteq> 0\<close> n have "length (wrote UEDATX ?s2) < length (wrote UEDATX s0) + n"
      "hw ?s2 = hw s0" by (auto simp: sent_def word_unat_eq_iff dest: touches_hw)
    ultimately show False using patientD [of ?s2] by simp
  qed
  have seen: "fst (rd GPIOR0 s) = DEVICE_STATE_Unattached \<Longrightarrow> control_seen ENDPOINT_RWCSTREAM_DeviceDisconnected RXOUTI ?s1"
    "fst (rd GPIOR0 s) = DEVICE_STATE_Suspended \<Longrightarrow> control_seen ENDPOINT_RWCSTREAM_BusSuspended RXOUTI ?s1"
    "fst (Endpoint_IsSETUPReceived ?s1) \<Longrightarrow> control_seen ENDPOINT_RWCSTREAM_HostAborted RXOUTI ?s2"
    by (auto simp: control_seen_def stream_tests Let_def)
  from sent_packet [OF S(5) n, where m = "fst (Endpoint_BytesInEndpoint ?s4)"]
  have "\<exists>p' L' m' s'. fill_packet ord Buffer p L (fst (Endpoint_BytesInEndpoint ?s4)) ?s5 = Some (p', L', m', s') \<and>
    sent s0 ord Buffer Length n (p', L', b', Endpoint_ClearIN s')" for b' by blast
  then obtain p' L' m' s' where
    f: "fill_packet ord Buffer p L (fst (Endpoint_BytesInEndpoint ?s4)) ?s5 = Some (p', L', m', s')"
    "\<And>b'. sent s0 ord Buffer Length n (p', L', b', Endpoint_ClearIN s')" by (metis option.inject prod.inject)
  show ?thesis
    using w I unfolding write_round_def
    by (auto simp: Let_def split_beta f S early seen split: if_splits simp del: RXOUTI_def)
qed

definition asked :: "u16 \<Rightarrow> 'a dev_scheme \<Rightarrow> nat" where
  "asked Length s = min (unat Length) (unat (wLength (USB_ControlRequest s)))"

lemma control_write_start:
  fixes s :: "'a dev_scheme"
  assumes "L = (if wLength (USB_ControlRequest s) < Length then wLength (USB_ControlRequest s) else Length)"
  shows "unat L = asked Length s"
    "sent s ord Buffer Length (asked Length s) (buffer_offset ord Length, L, False, if b then Endpoint_ClearIN s else s)"
proof -
  show L: "unat L = asked Length s" by (auto simp: assms asked_def word_less_nat_alt)
  have "touches {UEDATX, UEINTX} s (if b then Endpoint_ClearIN s else s)" by (intro touch touches_refl) auto
  then have "sent s ord Buffer Length (asked Length s) (walk ord Length 0, L, False, if b then Endpoint_ClearIN s else s)"
    by (rule sentI) (use L in auto)
  then show "sent s ord Buffer Length (asked Length s) (buffer_offset ord Length, L, False, if b then Endpoint_ClearIN s else s)"
    by (simp add: walk_0)
qed

lemma control_write_prefix:
  fixes s :: "'a dev_scheme"
  assumes "control_write ord Buffer Length s = Some (r, s')" "unat Length \<le> length Buffer"
  shows "\<exists>k \<le> asked Length s. wrote UEDATX s' = wrote UEDATX s @ take k (stream ord Buffer Length) \<and>
    touches {UEDATX, UEINTX} s s' \<and> control_seen r RXOUTI s' \<and>
    (r = ENDPOINT_RWCSTREAM_NoError \<longrightarrow> patient (hw s) (length (wrote UEDATX s) + asked Length s) \<longrightarrow> k = asked Length s)"
proof -
  let ?n = "asked Length s"
  define L where "L = (if wLength (USB_ControlRequest s) < Length then wLength (USB_ControlRequest s) else Length)"
  define b where "b \<longleftrightarrow> \<not> wLength (USB_ControlRequest s) < Length \<and> Length = 0"
  note start = control_write_start [OF L_def]
  have n: "?n \<le> unat Length" by (simp add: asked_def)
  let ?p = "poll_loop (write_round ord Buffer) (buffer_offset ord Length, L, False, if b then Endpoint_ClearIN s else s)"
  have "?p \<bind> (\<lambda>(q, _, _, _, s). case q of Some e \<Rightarrow> Some (e, s) | None \<Rightarrow> poll_loop (\<lambda>s. Some (out_round s)) s) = Some (r, s')"
    using assms(1) unfolding control_write_def Let_def L_def b_def .
  then obtain q x where q: "?p = Some (q, x)"
    and e: "(case q of Some e \<Rightarrow> Some (e, snd (snd (snd x))) | None \<Rightarrow> poll_loop (\<lambda>s. Some (out_round s)) (snd (snd (snd x)))) = Some (r, s')"
    by (cases ?p) (auto simp: split_beta cong: option.case_cong)
  have Q: "sent s ord Buffer Length ?n x \<and> (\<forall>e. q = Some e \<longrightarrow> e \<noteq> ENDPOINT_RWCSTREAM_NoError \<and> control_seen e RXOUTI (snd (snd (snd x)))) \<and>
    (q = None \<longrightarrow> patient (hw s) (length (wrote UEDATX s) + ?n) \<longrightarrow> fst (snd x) = 0)"
  proof (rule poll_loop_rule [OF q, where I = "sent s ord Buffer Length ?n" and Q = "\<lambda>q x. sent s ord Buffer Length ?n x \<and>
      (\<forall>e. q = Some e \<longrightarrow> e \<noteq> ENDPOINT_RWCSTREAM_NoError \<and> control_seen e RXOUTI (snd (snd (snd x)))) \<and>
      (q = None \<longrightarrow> patient (hw s) (length (wrote UEDATX s) + ?n) \<longrightarrow> fst (snd x) = 0)"])
    show "sent s ord Buffer Length ?n (buffer_offset ord Length, L, False, if b then Endpoint_ClearIN s else s)"
      by (rule start)
  next
    fix u v assume "sent s ord Buffer Length ?n u" "write_round ord Buffer u = Some (None, v)"
    then show "sent s ord Buffer Length ?n v"
      using write_round_sent [OF _ n assms(2)] by (cases u) blast
  next
    fix u q v assume "sent s ord Buffer Length ?n u" "write_round ord Buffer u = Some (Some q, v)"
    then show "sent s ord Buffer Length ?n v \<and> (\<forall>e. q = Some e \<longrightarrow> e \<noteq> ENDPOINT_RWCSTREAM_NoError \<and> control_seen e RXOUTI (snd (snd (snd v)))) \<and>
      (q = None \<longrightarrow> patient (hw s) (length (wrote UEDATX s) + ?n) \<longrightarrow> fst (snd v) = 0)"
      using write_round_sent [OF _ n assms(2)] by (cases u) blast
  qed
  then obtain k where k: "k + unat (fst (snd x)) = ?n" "touches {UEDATX, UEINTX} s (snd (snd (snd x)))"
    "wrote UEDATX (snd (snd (snd x))) = wrote UEDATX s @ take k (stream ord Buffer Length)"
    by (auto simp: sent_def split_beta)
  show ?thesis
  proof (cases q)
    case (Some f)
    with e Q have "s' = snd (snd (snd x))" "control_seen r RXOUTI s'" "r \<noteq> ENDPOINT_RWCSTREAM_NoError" by auto
    with k show ?thesis by (intro exI [of _ k]) auto
  next
    case None
    with e have "poll_loop (\<lambda>s. Some (out_round s)) (snd (snd (snd x))) = Some (r, s')" by simp
    from out_wait [OF this] have o: "touches {} (snd (snd (snd x))) s'" "control_seen r RXOUTI s'" by blast+
    have "touches {UEDATX, UEINTX} s s'" by (rule touches_trans [OF k(2) touches_mono [OF o(1)]]) simp
    with k o None Q touches_same_wrote [OF o(1)] show ?thesis by (intro exI [of _ k]) auto
  qed
qed

text \<open>
  Property C22. Whatever the controller and the host do, \<open>Endpoint_Write_Control_Stream_LE\<close> and
  \<open>Endpoint_Write_Control_Stream_BE\<close> put into the bank a prefix of the buffer, in their order, of at most
  \<open>wLength\<close> bytes, and write no other register than the data and the interrupt flags of the endpoint;
  the result code is what was seen last; and a result without error means that all was written,
  unless the host asked for the status stage before.
\<close>

theorem control_write_safe:
  fixes s :: "'a dev_scheme"
  assumes "control_write ord Buffer Length s = Some (r, s')" "unat Length \<le> length Buffer"
  shows "\<exists>k \<le> asked Length s. wrote UEDATX s' = wrote UEDATX s @ take k (stream ord Buffer Length) \<and>
    touches {UEDATX, UEINTX} s s' \<and> control_seen r RXOUTI s' \<and>
    (r = ENDPOINT_RWCSTREAM_NoError \<longrightarrow> patient (hw s) (length (wrote UEDATX s) + asked Length s) \<longrightarrow> k = asked Length s)"
  by (rule control_write_prefix [OF assms])

section \<open>A host that takes its data\<close>

text \<open>
  The bus stays up, the bank is free when it is polled, no new request comes, and the host starts the
  status stage when it has \<open>m\<close> bytes.
\<close>

definition serves :: "(acc list \<Rightarrow> reg \<Rightarrow> u8) \<Rightarrow> nat \<Rightarrow> bool" where
  "serves H m \<longleftrightarrow> (\<forall>l. H l GPIOR0 \<noteq> DEVICE_STATE_Unattached \<and> H l GPIOR0 \<noteq> DEVICE_STATE_Suspended \<and>
     tst (H l UEINTX) TXINI \<and> \<not> tst (H l UEINTX) RXSTPI \<and> unat (H l UEBCLX) < 8 \<and>
     (tst (H l UEINTX) RXOUTI \<longleftrightarrow> m \<le> length (wrote_in UEDATX l)))"

lemma serves_patient: "serves H m \<Longrightarrow> patient H m"
  by (auto simp: serves_def patient_def)

lemma serves_reads:
  assumes "serves (hw s) m"
  shows "fst (rd GPIOR0 s) \<noteq> DEVICE_STATE_Unattached" "fst (rd GPIOR0 s) \<noteq> DEVICE_STATE_Suspended"
    "fst (Endpoint_IsINReady s)" "\<not> fst (Endpoint_IsSETUPReceived s)" "unat (fst (Endpoint_BytesInEndpoint s)) < 8"
    "fst (Endpoint_IsOUTReceived s) \<longleftrightarrow> m \<le> length (wrote UEDATX s)"
  using assms by (auto simp: serves_def stream_tests wrote_def Let_def unat_ucast_16)

lemma write_round_progress:
  assumes I: "sent s0 ord Buffer Length n (p, L, b, s)" and n: "n \<le> unat Length" "unat Length \<le> length Buffer"
    and h: "serves (hw s0) (length (wrote UEDATX s0) + n)"
  shows "\<exists>r t. write_round ord Buffer (p, L, b, s) = Some (r, t) \<and> (r = Some None \<or> r = None \<and> unat (fst (snd t)) < unat L)"
proof (cases "L = 0 \<and> \<not> b")
  case True
  then show ?thesis by (auto simp: write_round_def)
next
  case False
  let ?s1 = "snd (rd GPIOR0 s)"
  let ?s2 = "snd (Endpoint_IsSETUPReceived ?s1)"
  let ?s3 = "snd (Endpoint_IsOUTReceived ?s2)"
  let ?s4 = "snd (Endpoint_IsINReady ?s3)"
  let ?s5 = "snd (Endpoint_BytesInEndpoint ?s4)"
  have t: "touches {} s ?s1" "touches {} s ?s2" "touches {} s ?s3" "touches {} s ?s4" "touches {} s ?s5"
    by (intro touch touches_refl)+
  from I obtain k where k: "k + unat L = n" "wrote UEDATX s = wrote UEDATX s0 @ take k (stream ord Buffer Length)" "hw s = hw s0"
    by (auto simp: sent_def dest: touches_hw)
  have h': "serves (hw u) (length (wrote UEDATX s0) + n)" if "touches {} s u" for u
    using h k touches_hw [OF that] by simp
  note r = serves_reads [OF h' [OF touches_refl]] serves_reads [OF h' [OF t(1)]] serves_reads [OF h' [OF t(2)]]
    serves_reads [OF h' [OF t(3)]] serves_reads [OF h' [OF t(4)]]
  have out: "fst (Endpoint_IsOUTReceived ?s2) \<longleftrightarrow> L = 0"
    using r(18) k n touches_same_wrote [OF t(2)] by (auto simp: word_unat_eq_iff min_def)
  from sent_packet [OF sent_reads [OF I t(5)] n, where m = "fst (Endpoint_BytesInEndpoint ?s4)"]
  obtain p' L' m' s' where f: "fill_packet ord Buffer p L (fst (Endpoint_BytesInEndpoint ?s4)) ?s5 = Some (p', L', m', s')"
    "L \<noteq> 0 \<longrightarrow> unat L' < unat L" using r(29) by blast
  show ?thesis
  proof (cases "L = 0")
    case True
    with False out r show ?thesis by (auto simp: write_round_def Let_def split_beta)
  next
    case L: False
    with f out r show ?thesis by (auto simp: write_round_def Let_def split_beta)
  qed
qed

lemma out_round_served:
  assumes "serves (hw s) m" "m \<le> length (wrote UEDATX s)"
  shows "\<exists>s'. poll_loop (\<lambda>s. Some (out_round s)) s = Some (ENDPOINT_RWCSTREAM_NoError, s')"
  using serves_reads(6) [OF assms(1)] assms(2)
  by (subst poll_loop.simps) (auto simp: out_round_def Let_def split_beta)

lemma write_loop_served:
  assumes "sent s0 ord Buffer Length n x" "n \<le> unat Length" "unat Length \<le> length Buffer"
    and h: "serves (hw s0) (length (wrote UEDATX s0) + n)"
  shows "\<exists>y. poll_loop (write_round ord Buffer) x = Some (None, y) \<and> sent s0 ord Buffer Length n y \<and> fst (snd y) = 0"
proof -
  have "\<exists>q y. poll_loop (write_round ord Buffer) x = Some (q, y)"
  proof (rule poll_loop_total [where I = "sent s0 ord Buffer Length n" and m = "\<lambda>x. unat (fst (snd x))"])
    fix u assume u: "sent s0 ord Buffer Length n u"
    obtain p L b s where [simp]: "u = (p, L, b, s)" by (cases u)
    from write_round_progress [OF u [simplified] assms(2) assms(3) h] obtain r t where
      w: "write_round ord Buffer (p, L, b, s) = Some (r, t)" "r = Some None \<or> r = None \<and> unat (fst (snd t)) < unat L" by blast
    with write_round_sent [OF u [simplified] assms(2) assms(3) w(1)]
    show "\<exists>r t. write_round ord Buffer u = Some (r, t) \<and>
      (r = None \<longrightarrow> sent s0 ord Buffer Length n t \<and> unat (fst (snd t)) < unat (fst (snd u)))" by auto
  qed (rule assms(1))
  then obtain q y where y: "poll_loop (write_round ord Buffer) x = Some (q, y)" by blast
  have "(\<lambda>q y. q = None \<and> sent s0 ord Buffer Length n y \<and> fst (snd y) = 0) q y"
  proof (rule poll_loop_rule [OF y, where I = "sent s0 ord Buffer Length n"])
    fix u v assume "sent s0 ord Buffer Length n u" "write_round ord Buffer u = Some (None, v)"
    then show "sent s0 ord Buffer Length n v"
      using write_round_sent [OF _ assms(2,3)] by (cases u) blast
  next
    fix u q v assume u: "sent s0 ord Buffer Length n u" and w: "write_round ord Buffer u = Some (Some q, v)"
    obtain p L b s where [simp]: "u = (p, L, b, s)" by (cases u)
    from write_round_progress [OF u [simplified] assms(2) assms(3) h] w have "q = None" by auto
    with write_round_sent [OF u [simplified] assms(2,3)] w serves_patient [OF h]
    show "q = None \<and> sent s0 ord Buffer Length n v \<and> fst (snd v) = 0" by simp
  qed (rule assms(1))
  with y show ?thesis by blast
qed

lemma control_write_all:
  fixes s :: "'a dev_scheme"
  assumes "serves (hw s) (length (wrote UEDATX s) + asked Length s)" "unat Length \<le> length Buffer"
  shows "\<exists>s'. control_write ord Buffer Length s = Some (ENDPOINT_RWCSTREAM_NoError, s') \<and>
    wrote UEDATX s' = wrote UEDATX s @ take (asked Length s) (stream ord Buffer Length) \<and> touches {UEDATX, UEINTX} s s'"
proof -
  define L where "L = (if wLength (USB_ControlRequest s) < Length then wLength (USB_ControlRequest s) else Length)"
  define b where "b \<longleftrightarrow> \<not> wLength (USB_ControlRequest s) < Length \<and> Length = 0"
  have "asked Length s \<le> unat Length" by (simp add: asked_def)
  from write_loop_served [OF control_write_start(2) [OF L_def] this assms(2) assms(1), of ord b]
  obtain p L' c t where y: "poll_loop (write_round ord Buffer) (buffer_offset ord Length, L, False,
      if b then Endpoint_ClearIN s else s) = Some (None, p, L', c, t)"
    "sent s ord Buffer Length (asked Length s) (p, L', c, t)" "L' = 0" by auto
  from y(2,3) have "hw t = hw s" "length (wrote UEDATX s) + asked Length s \<le> length (wrote UEDATX t)"
    using assms(2) by (auto simp: sent_def asked_def dest: touches_hw)
  with out_round_served [of t] assms(1) obtain s' where
    "poll_loop (\<lambda>s. Some (out_round s)) t = Some (ENDPOINT_RWCSTREAM_NoError, s')" by auto
  with y have w: "control_write ord Buffer Length s = Some (ENDPOINT_RWCSTREAM_NoError, s')"
    unfolding control_write_def Let_def L_def [symmetric] b_def [symmetric] by simp
  from control_write_prefix [OF w assms(2)] serves_patient [OF assms(1)] w show ?thesis by auto
qed


definition taker :: "nat \<Rightarrow> acc list \<Rightarrow> reg \<Rightarrow> u8" where
  "taker m l r = (if r = GPIOR0 then DEVICE_STATE_Configured
     else if r = UEINTX then (if m \<le> length (wrote_in UEDATX l) then 0x05 else 0x01) else 0)"

lemma serves_taker: "serves (taker m) m"
proof -
  have "tst 5 TXINI" "tst 1 TXINI" "tst 5 RXOUTI" "\<not> tst 1 RXOUTI" "\<not> tst 5 RXSTPI" "\<not> tst 1 RXSTPI" by code_simp+
  then show ?thesis by (auto simp: serves_def taker_def)
qed


theorem control_write_safe_witness:
  "\<exists>s' k. control_write BE [7, 8, 9, 10] 4 (dev_at (taker 3) \<lparr>bmRequestType = 0x80, bRequest = 6, wValue = 0, wIndex = 0, wLength = 3\<rparr>) =
     Some (ENDPOINT_RWCSTREAM_NoError, s') \<and> wrote UEDATX s' = take k [10, 9, 8, 7] \<and> k = 3"
proof -
  let ?s = "dev_at (taker 3) \<lparr>bmRequestType = 0x80, bRequest = 6, wValue = 0, wIndex = 0, wLength = 3\<rparr>"
  have a: "asked 4 ?s = 3" by (simp add: asked_def)
  with control_write_all [of ?s 4 "[7, 8, 9, 10]" BE] serves_taker [of 3] obtain s' where
    w: "control_write BE [7, 8, 9, 10] 4 ?s = Some (ENDPOINT_RWCSTREAM_NoError, s')" by auto
  from control_write_safe [OF w] a serves_patient [OF serves_taker [of 3]] obtain k where
    "wrote UEDATX s' = take k [10, 9, 8, 7]" "k = 3" by (auto simp: stream_def)
  with w show ?thesis by blast
qed

end
