(* ===== verification/Device_Std_Req.thy ===== *)
theory Device_Std_Req
  imports Control_Laws
begin

text \<open>
  Standard requests of a USB device, \<open>src/AT16u2/LUFA/Drivers/USB/Core/DeviceStandardReq.c\<close>, with
  \<open>FIXED_NUM_CONFIGURATIONS\<close>, \<open>USE_FLASH_DESCRIPTORS\<close> and the internal serial number of the ATmega16U2.

  What the stack calls outside of itself is a record of functions: the callback that finds a
  descriptor (its size and the memory behind the returned pointer), the event handlers of the
  application, and avr-libc's \<open>boot_signature_byte_get\<close>.
\<close>

record 's application =
  CALLBACK_USB_GetDescriptor :: "u16 \<Rightarrow> u16 \<Rightarrow> u16 \<times> u8 list"
  EVENT_USB_Device_ControlRequest :: "'s \<Rightarrow> 's option"
  EVENT_USB_Device_ConfigurationChanged :: "'s \<Rightarrow> 's option"
  EVENT_USB_Device_Connect :: "'s \<Rightarrow> 's option"
  EVENT_USB_Device_Disconnect :: "'s \<Rightarrow> 's option"
  EVENT_USB_Device_Reset :: "'s \<Rightarrow> 's option"
  EVENT_USB_Device_StartOfFrame :: "'s \<Rightarrow> 's option"
  boot_signature_byte_get :: "u8 \<Rightarrow> u8"

text \<open>Event handlers the application does not define are aliases of an empty function (\<open>Core/Events.c\<close>).\<close>

definition USB_Event_Stub :: "'s \<Rightarrow> 's option" where
  "USB_Event_Stub s = Some s"

definition stub_application :: "(u16 \<Rightarrow> u16 \<Rightarrow> u16 \<times> u8 list) \<Rightarrow> (u8 \<Rightarrow> u8) \<Rightarrow> 's application" where
  "stub_application desc sig = \<lparr>CALLBACK_USB_GetDescriptor = desc, EVENT_USB_Device_ControlRequest = USB_Event_Stub,
     EVENT_USB_Device_ConfigurationChanged = USB_Event_Stub, EVENT_USB_Device_Connect = USB_Event_Stub,
     EVENT_USB_Device_Disconnect = USB_Event_Stub, EVENT_USB_Device_Reset = USB_Event_Stub,
     EVENT_USB_Device_StartOfFrame = USB_Event_Stub, boot_signature_byte_get = sig\<rparr>"

abbreviation NO_DESCRIPTOR :: u16 where "NO_DESCRIPTOR \<equiv> 0"
abbreviation DTYPE_Device :: u8 where "DTYPE_Device \<equiv> 1"
abbreviation DTYPE_Configuration :: u8 where "DTYPE_Configuration \<equiv> 2"
abbreviation DTYPE_String :: u8 where "DTYPE_String \<equiv> 3"
abbreviation DTYPE_Interface :: u8 where "DTYPE_Interface \<equiv> 4"
abbreviation DTYPE_Endpoint :: u8 where "DTYPE_Endpoint \<equiv> 5"
abbreviation FIXED_NUM_CONFIGURATIONS :: u8 where "FIXED_NUM_CONFIGURATIONS \<equiv> 1"
abbreviation USE_INTERNAL_SERIAL :: u8 where "USE_INTERNAL_SERIAL \<equiv> 0xDC"
abbreviation INTERNAL_SERIAL_LENGTH_BITS :: nat where "INTERNAL_SERIAL_LENGTH_BITS \<equiv> 80"
abbreviation INTERNAL_SERIAL_START_ADDRESS :: u8 where "INTERNAL_SERIAL_START_ADDRESS \<equiv> 0x0E"

section \<open>The serial number\<close>

definition serial_char :: "u8 \<Rightarrow> u16" where
  "serial_char SerialByte = ucast (if 10 \<le> SerialByte then (65 - 10) + SerialByte else 48 + SerialByte)"

fun serial_loop :: "(u8 \<Rightarrow> u8) \<Rightarrow> nat list \<Rightarrow> u8 \<Rightarrow> u16 list" where
  "serial_loop sig [] SigReadAddress = []"
| "serial_loop sig (SerialCharNum # ns) SigReadAddress =
     (let SerialByte = sig SigReadAddress;
          SerialByte' = (if odd SerialCharNum then drop_bit 4 SerialByte else SerialByte);
          SigReadAddress' = (if odd SerialCharNum then SigReadAddress + 1 else SigReadAddress)
      in serial_char (SerialByte' AND 0x0F) # serial_loop sig ns SigReadAddress')"

definition USB_Device_GetSerialString :: "(u8 \<Rightarrow> u8) \<Rightarrow> 'a mcu_scheme \<Rightarrow> u16 list \<times> 'a mcu_scheme" where
  "USB_Device_GetSerialString sig s =
     (let (CurrentGlobalInt, s) = rd SREG_I s;
          s = wr SREG_I 0 s;
          str = serial_loop sig [0 ..< INTERNAL_SERIAL_LENGTH_BITS div 4] INTERNAL_SERIAL_START_ADDRESS
      in (str, wr SREG_I CurrentGlobalInt s))"

definition USB_STRING_LEN :: "nat \<Rightarrow> u8" where
  "USB_STRING_LEN UnicodeChars = of_nat (2 + UnicodeChars * 2)"

definition USB_Device_GetInternalSerialDescriptor :: "'a dev_scheme application \<Rightarrow> 'a dev_scheme \<Rightarrow> 'a dev_scheme option" where
  "USB_Device_GetInternalSerialDescriptor app s = do {
     let (UnicodeString, s) = USB_Device_GetSerialString (boot_signature_byte_get app) s;
     let SignatureDescriptor = [USB_STRING_LEN (INTERNAL_SERIAL_LENGTH_BITS div 4), DTYPE_String] @ concat (map bytes16 UnicodeString);
     let s = Endpoint_ClearSETUP s;
     (_, s) \<leftarrow> Endpoint_Write_Control_Stream_LE SignatureDescriptor (of_nat (2 + 2 * (INTERNAL_SERIAL_LENGTH_BITS div 4))) s;
     Some (Endpoint_ClearOUT s) }"

section \<open>The requests\<close>

definition USB_Device_SetAddress :: "'a dev_scheme \<Rightarrow> 'a dev_scheme option" where
  "USB_Device_SetAddress s = do {
     let DeviceAddress = (ucast (wValue (USB_ControlRequest s) AND 0x7F) :: u8);
     let s = USB_Device_SetDeviceAddress DeviceAddress s;
     let s = Endpoint_ClearSETUP s;
     s \<leftarrow> Endpoint_ClearStatusStage s;
     s \<leftarrow> wait_set UEINTX TXINI s;
     let s = USB_Device_EnableDeviceAddress DeviceAddress s;
     Some (wr GPIOR0 (if DeviceAddress \<noteq> 0 then DEVICE_STATE_Addressed else DEVICE_STATE_Default) s) }"

definition USB_Device_SetConfiguration :: "'a dev_scheme application \<Rightarrow> 'a dev_scheme \<Rightarrow> 'a dev_scheme option" where
  "USB_Device_SetConfiguration app s =
     (if FIXED_NUM_CONFIGURATIONS < ucast (wValue (USB_ControlRequest s)) then Some s
      else do {
        let s = Endpoint_ClearSETUP s;
        let s = s\<lparr>USB_Device_ConfigurationNumber := ucast (wValue (USB_ControlRequest s))\<rparr>;
        s \<leftarrow> Endpoint_ClearStatusStage s;
        let s = (if USB_Device_ConfigurationNumber s \<noteq> 0 then wr GPIOR0 DEVICE_STATE_Configured s
                 else let (addressed, s) = USB_Device_IsAddressSet s
                      in wr GPIOR0 (if addressed then DEVICE_STATE_Configured else DEVICE_STATE_Powered) s);
        EVENT_USB_Device_ConfigurationChanged app s })"

definition USB_Device_GetConfiguration :: "'a dev_scheme \<Rightarrow> 'a dev_scheme option" where
  "USB_Device_GetConfiguration s =
     (let s = Endpoint_ClearSETUP s;
          s = Endpoint_Write_8 (USB_Device_ConfigurationNumber s) s;
          s = Endpoint_ClearIN s
      in Endpoint_ClearStatusStage s)"

definition USB_Device_GetDescriptor :: "'a dev_scheme application \<Rightarrow> 'a dev_scheme \<Rightarrow> 'a dev_scheme option" where
  "USB_Device_GetDescriptor app s =
     (if wValue (USB_ControlRequest s) = (push_bit 8 (ucast DTYPE_String) OR ucast USE_INTERNAL_SERIAL)
      then USB_Device_GetInternalSerialDescriptor app s
      else let (DescriptorSize, DescriptorPointer) =
             CALLBACK_USB_GetDescriptor app (wValue (USB_ControlRequest s)) (wIndex (USB_ControlRequest s))
      in if DescriptorSize = NO_DESCRIPTOR then Some s
         else do {
           let s = Endpoint_ClearSETUP s;
           (_, s) \<leftarrow> Endpoint_Write_Control_PStream_LE DescriptorPointer DescriptorSize s;
           Some (Endpoint_ClearOUT s) })"

text \<open>\<open>None\<close> is the early return of \<open>USB_Device_GetStatus\<close>.\<close>

definition current_status :: "'a dev_scheme \<Rightarrow> u8 option \<times> 'a dev_scheme" where
  "current_status s =
     (if bmRequestType (USB_ControlRequest s) = (REQDIR_DEVICETOHOST OR REQTYPE_STANDARD OR REQREC_DEVICE)
      then (Some ((if USB_Device_CurrentlySelfPowered s then FEATURE_SELFPOWERED_ENABLED else 0) OR
                  (if USB_Device_RemoteWakeupEnabled s then FEATURE_REMOTE_WAKEUP_ENABLED else 0)), s)
      else if bmRequestType (USB_ControlRequest s) = (REQDIR_DEVICETOHOST OR REQTYPE_STANDARD OR REQREC_ENDPOINT)
      then let EndpointIndex = ucast (wIndex (USB_ControlRequest s)) AND ENDPOINT_EPNUM_MASK
           in if ENDPOINT_TOTAL_ENDPOINTS \<le> unat EndpointIndex then (None, s)
              else let s = Endpoint_SelectEndpoint EndpointIndex s;
                       (stalled, s) = Endpoint_IsStalled s;
                       s = Endpoint_SelectEndpoint ENDPOINT_CONTROLEP s
                   in (Some (if stalled then 1 else 0), s)
      else (None, s))"

definition USB_Device_GetStatus :: "'a dev_scheme \<Rightarrow> 'a dev_scheme option" where
  "USB_Device_GetStatus s =
     (case current_status s of
        (None, s) \<Rightarrow> Some s
      | (Some CurrentStatus, s) \<Rightarrow>
          let s = Endpoint_ClearSETUP s;
              s = Endpoint_Write_16_LE (ucast CurrentStatus) s;
              s = Endpoint_ClearIN s
          in Endpoint_ClearStatusStage s)"

text \<open>\<open>False\<close> is an early return of \<open>USB_Device_ClearSetFeature\<close>.\<close>

definition feature_endpoint :: "'a dev_scheme \<Rightarrow> bool \<times> 'a dev_scheme" where
  "feature_endpoint s =
     (if ucast (wValue (USB_ControlRequest s)) = FEATURE_SEL_EndpointHalt
      then let EndpointIndex = ucast (wIndex (USB_ControlRequest s)) AND ENDPOINT_EPNUM_MASK
           in if EndpointIndex = ENDPOINT_CONTROLEP \<or> ENDPOINT_TOTAL_ENDPOINTS \<le> unat EndpointIndex then (False, s)
              else let s = Endpoint_SelectEndpoint EndpointIndex s;
                       (enabled, s) = Endpoint_IsEnabled s
                   in (True, if \<not> enabled then s
                             else if bRequest (USB_ControlRequest s) = REQ_SetFeature then Endpoint_StallTransaction s
                             else Endpoint_ResetDataToggle (Endpoint_ResetEndpoint EndpointIndex (Endpoint_ClearStall s)))
      else (True, s))"

definition USB_Device_ClearSetFeature :: "'a dev_scheme \<Rightarrow> 'a dev_scheme option" where
  "USB_Device_ClearSetFeature s =
     (let recipient = bmRequestType (USB_ControlRequest s) AND CONTROL_REQTYPE_RECIPIENT;
          (go, s) = (if recipient = REQREC_DEVICE
            then if ucast (wValue (USB_ControlRequest s)) = FEATURE_SEL_DeviceRemoteWakeup
                 then (True, s\<lparr>USB_Device_RemoteWakeupEnabled := bRequest (USB_ControlRequest s) = REQ_SetFeature\<rparr>)
                 else (False, s)
            else if recipient = REQREC_ENDPOINT then feature_endpoint s
            else (False, s))
      in if \<not> go then Some s
         else let s = Endpoint_SelectEndpoint ENDPOINT_CONTROLEP s;
                  s = Endpoint_ClearSETUP s
              in Endpoint_ClearStatusStage s)"

section \<open>Dispatch\<close>

text \<open>The eight bytes of the header, in memory order.\<close>

definition read_header :: "'a dev_scheme \<Rightarrow> 'a dev_scheme" where
  "read_header s =
     (let (b0, s) = Endpoint_Read_8 s; (b1, s) = Endpoint_Read_8 s; (b2, s) = Endpoint_Read_8 s;
          (b3, s) = Endpoint_Read_8 s; (b4, s) = Endpoint_Read_8 s; (b5, s) = Endpoint_Read_8 s;
          (b6, s) = Endpoint_Read_8 s; (b7, s) = Endpoint_Read_8 s
      in s\<lparr>USB_ControlRequest := \<lparr>bmRequestType = b0, bRequest = b1, wValue = word16 b2 b3,
            wIndex = word16 b4 b5, wLength = word16 b6 b7\<rparr>\<rparr>)"

definition dispatch :: "'a dev_scheme application \<Rightarrow> 'a dev_scheme \<Rightarrow> 'a dev_scheme option" where
  "dispatch app s =
     (let ty = bmRequestType (USB_ControlRequest s); rq = bRequest (USB_ControlRequest s)
      in if rq = REQ_GetStatus
         then if ty = (REQDIR_DEVICETOHOST OR REQTYPE_STANDARD OR REQREC_DEVICE) \<or>
                 ty = (REQDIR_DEVICETOHOST OR REQTYPE_STANDARD OR REQREC_ENDPOINT)
              then USB_Device_GetStatus s else Some s
         else if rq = REQ_ClearFeature \<or> rq = REQ_SetFeature
         then if ty = (REQDIR_HOSTTODEVICE OR REQTYPE_STANDARD OR REQREC_DEVICE) \<or>
                 ty = (REQDIR_HOSTTODEVICE OR REQTYPE_STANDARD OR REQREC_ENDPOINT)
              then USB_Device_ClearSetFeature s else Some s
         else if rq = REQ_SetAddress
         then if ty = (REQDIR_HOSTTODEVICE OR REQTYPE_STANDARD OR REQREC_DEVICE) then USB_Device_SetAddress s else Some s
         else if rq = REQ_GetDescriptor
         then if ty = (REQDIR_DEVICETOHOST OR REQTYPE_STANDARD OR REQREC_DEVICE) \<or>
                 ty = (REQDIR_DEVICETOHOST OR REQTYPE_STANDARD OR REQREC_INTERFACE)
              then USB_Device_GetDescriptor app s else Some s
         else if rq = REQ_GetConfiguration
         then if ty = (REQDIR_DEVICETOHOST OR REQTYPE_STANDARD OR REQREC_DEVICE) then USB_Device_GetConfiguration s else Some s
         else if rq = REQ_SetConfiguration
         then if ty = (REQDIR_HOSTTODEVICE OR REQTYPE_STANDARD OR REQREC_DEVICE) then USB_Device_SetConfiguration app s else Some s
         else Some s)"

definition USB_Device_ProcessControlRequest :: "'a dev_scheme application \<Rightarrow> 'a dev_scheme \<Rightarrow> 'a dev_scheme option" where
  "USB_Device_ProcessControlRequest app s = do {
     let s = read_header s;
     s \<leftarrow> EVENT_USB_Device_ControlRequest app s;
     let (setup, s) = Endpoint_IsSETUPReceived s;
     s \<leftarrow> (if setup then dispatch app s else Some s);
     let (setup, s) = Endpoint_IsSETUPReceived s;
     Some (if setup then Endpoint_StallTransaction (Endpoint_ClearSETUP s) else s) }"

section \<open>The device task\<close>

text \<open>\<open>src/AT16u2/LUFA/Drivers/USB/Core/USBTask.c\<close>\<close>

definition USB_DeviceTask :: "'a dev_scheme application \<Rightarrow> 'a dev_scheme \<Rightarrow> 'a dev_scheme option" where
  "USB_DeviceTask app s =
     (let (st, s) = rd GPIOR0 s
      in if st = DEVICE_STATE_Unattached then Some s
         else do {
           let (PrevEndpoint, s) = Endpoint_GetCurrentEndpoint s;
           let s = Endpoint_SelectEndpoint ENDPOINT_CONTROLEP s;
           let (setup, s) = Endpoint_IsSETUPReceived s;
           s \<leftarrow> (if setup then USB_Device_ProcessControlRequest app s else Some s);
           Some (Endpoint_SelectEndpoint PrevEndpoint s) })"

definition USB_USBTask :: "'a dev_scheme application \<Rightarrow> 'a dev_scheme \<Rightarrow> 'a dev_scheme option" where
  "USB_USBTask app s = USB_DeviceTask app s"

end
