(* ===== verification/Request_Laws.thy ===== *)
theory Request_Laws
  imports Device_Std_Req
begin

text \<open>
  Laws of the standard requests: what each request writes, the order of the address change, the
  answer to unknown requests, and the delivery of descriptors.
\<close>

section \<open>Unknown requests\<close>

text \<open>The requests of chapter 9 that the library answers, as pairs of type and number.\<close>

definition handled :: "USB_Request_Header \<Rightarrow> bool" where
  "handled q \<longleftrightarrow> (bmRequestType q, bRequest q) \<in>
     {(0x80, 0), (0x82, 0), (0x00, 1), (0x02, 1), (0x00, 3), (0x02, 3), (0x00, 5), (0x80, 6), (0x81, 6), (0x80, 8), (0x00, 9)}"

lemma dispatch_unhandled: "\<not> handled (USB_ControlRequest s) \<Longrightarrow> dispatch app s = Some s"
  by (auto simp: handled_def dispatch_def Let_def)

text \<open>A pending SETUP packet stays pending until the program clears its flag.\<close>

definition setup_latched :: "(acc list \<Rightarrow> reg \<Rightarrow> u8) \<Rightarrow> bool" where
  "setup_latched H \<longleftrightarrow> (\<forall>l m. tst (H l UEINTX) RXSTPI \<longrightarrow> (\<forall>v. Wr UEINTX v \<notin> set m) \<longrightarrow> tst (H (m @ l) UEINTX) RXSTPI)"

lemma setup_latchedD:
  assumes "setup_latched (hw s)" "adds {} s t" "fst (Endpoint_IsSETUPReceived s)"
  shows "fst (Endpoint_IsSETUPReceived t)"
proof -
  from assms(2) obtain m where "log t = m @ log s" "\<forall>r v. Wr r v \<notin> set m" "hw t = hw s" by (auto simp: adds_def)
  with assms(1,3) show ?thesis by (auto simp: setup_latched_def Endpoint_IsSETUPReceived_def tst_fst)
qed

lemma adds_read_header: "adds {} s (read_header s)"
  by (auto simp: read_header_def Endpoint_Read_8_def rd_def Let_def adds_def)

lemma read_header_vars [simp]:
  "dev.more (read_header s) = dev.more s" "USB_Device_ConfigurationNumber (read_header s) = USB_Device_ConfigurationNumber s"
  by (simp_all add: read_header_def Endpoint_Read_8_def rd_def Let_def)

lemma hw_read_header [simp]: "hw (read_header s) = hw s"
  by (simp add: read_header_def Endpoint_Read_8_def rd_def Let_def)

text \<open>
  Property C24. A request that is none of the handled requests, and that the application leaves alone, is
  answered with a stall: the pending SETUP packet is acknowledged and then \<open>STALLRQ\<close> is set, and nothing
  else is written.
\<close>

theorem unknown_request_stalled:
  assumes "\<not> handled (USB_ControlRequest (read_header s))"
    and "EVENT_USB_Device_ControlRequest app (read_header s) = Some (read_header s)"
    and "setup_latched (hw s)" "fst (Endpoint_IsSETUPReceived s)"
  shows "\<exists>s' a c l. USB_Device_ProcessControlRequest app s = Some s' \<and>
    log s' = Wr UECONX (c OR bv STALLRQ) # Rd UECONX c # Wr UEINTX (a AND NOT (bv RXSTPI)) # Rd UEINTX a # l @ log s \<and>
    (\<forall>r v. Wr r v \<notin> set l) \<and> dev.more s' = dev.more s \<and>
    USB_Device_ConfigurationNumber s' = USB_Device_ConfigurationNumber s"
proof -
  let ?h = "read_header s"
  let ?t = "snd (Endpoint_IsSETUPReceived ?h)"
  let ?u = "snd (Endpoint_IsSETUPReceived ?t)"
  let ?s = "Endpoint_StallTransaction (Endpoint_ClearSETUP ?u)"
  have t: "touches {} ?h ?u" "touches {} ?h ?t" by (intro touch touches_refl)+
  note a = adds_read_header [of s] adds_touches [OF adds_read_header [of s] t(2)] adds_touches [OF adds_read_header [of s] t(1)]
  have pending: "fst (Endpoint_IsSETUPReceived ?h)" "fst (Endpoint_IsSETUPReceived ?t)"
    using a(1,2) by (auto intro: setup_latchedD [OF assms(3) _ assms(4)])
  from touches_dev(1) [OF t(2)] assms(1) have "dispatch app ?t = Some ?t" by (intro dispatch_unhandled) simp
  with pending assms(2) have "USB_Device_ProcessControlRequest app s = Some ?s"
    by (simp add: USB_Device_ProcessControlRequest_def Let_def split_beta)
  moreover have "\<exists>a c. log ?s =
    Wr UECONX (c OR bv STALLRQ) # Rd UECONX c # Wr UEINTX (a AND NOT (bv RXSTPI)) # Rd UEINTX a # log ?u"
    by (simp add: Endpoint_StallTransaction_def Endpoint_ClearSETUP_def set_bits_def clr_bits_def rd_def Let_def)
  moreover from a(3) obtain l where "log ?u = l @ log s" "\<forall>r v. Wr r v \<notin> set l" by (auto simp: adds_def)
  moreover have "touches {UECONX, UEINTX} ?h ?s" by (intro touch touches_refl) auto
  from touches_dev [OF this] have "dev.more ?s = dev.more s" "USB_Device_ConfigurationNumber ?s = USB_Device_ConfigurationNumber s"
    by simp_all
  ultimately show ?thesis by metis
qed

theorem unknown_request_stalled_witness:
  "\<exists>s' c l. USB_Device_ProcessControlRequest (stub_application (\<lambda>_ _. (0, [])) (\<lambda>_. 0))
     (dev_at (\<lambda>l r. if r = UEINTX then 0x08 else 0xFF) \<lparr>bmRequestType = 0, bRequest = 0, wValue = 0, wIndex = 0, wLength = 0\<rparr>) = Some s' \<and>
     log s' = Wr UECONX (c OR bv STALLRQ) # Rd UECONX c # l"
proof -
  let ?H = "\<lambda>l r. if r = UEINTX then 0x08 else 0xFF :: u8"
  let ?s = "dev_at ?H \<lparr>bmRequestType = 0, bRequest = 0, wValue = 0, wIndex = 0, wLength = 0\<rparr>"
  have "\<not> handled (USB_ControlRequest (read_header ?s))" by code_simp
  moreover have "tst 8 RXSTPI" by code_simp
  then have "setup_latched (hw ?s)" "fst (Endpoint_IsSETUPReceived ?s)"
    by (simp_all add: setup_latched_def Endpoint_IsSETUPReceived_def tst_fst)
  moreover have "EVENT_USB_Device_ControlRequest (stub_application (\<lambda>_ _. (0, [])) (\<lambda>_. 0)) (read_header ?s) = Some (read_header ?s)"
    by (simp add: stub_application_def USB_Event_Stub_def)
  ultimately show ?thesis using unknown_request_stalled [of ?s "stub_application (\<lambda>_ _. (0, [])) (\<lambda>_. 0)"] by blast
qed

section \<open>The address\<close>



section \<open>The configuration\<close>

text \<open>
  Property C26. \<open>USB_Device_SetConfiguration\<close> ignores a configuration number above 1. Otherwise it stores the
  number, completes the status stage, sets the device state and then informs the application: the
  state is \<open>Configured\<close> for a non-zero number, but also for number 0 when an address is set, where the
  wake-up interrupt handler would use \<open>Addressed\<close>.
\<close>

theorem SetConfiguration_effect:
  fixes s :: "'a dev_scheme"
  assumes "USB_Device_SetConfiguration app s = Some s'" "n = (ucast (wValue (USB_ControlRequest s)) :: u8)"
  shows "if n > 1 then s' = s
    else \<exists>t. EVENT_USB_Device_ConfigurationChanged app t = Some s' \<and> USB_Device_ConfigurationNumber t = n \<and>
      USB_ControlRequest t = USB_ControlRequest s \<and> adds {UEINTX, GPIOR0} s t \<and>
      (if n \<noteq> 0 then hd (log t) = Wr GPIOR0 DEVICE_STATE_Configured
       else \<exists>v l. log t = Wr GPIOR0 (if tst v ADDEN then DEVICE_STATE_Configured else DEVICE_STATE_Powered) # Rd UDADDR v # l)"
proof (cases "n > 1")
  case True
  with assms show ?thesis by (simp add: USB_Device_SetConfiguration_def)
next
  case False
  let ?c = "(Endpoint_ClearSETUP s)\<lparr>USB_Device_ConfigurationNumber := n\<rparr>"
  define st where "st t = (if n \<noteq> 0 then wr GPIOR0 DEVICE_STATE_Configured t
    else let (addressed, t) = USB_Device_IsAddressSet t
         in wr GPIOR0 (if addressed then DEVICE_STATE_Configured else DEVICE_STATE_Powered) t)" for t :: "'a dev_scheme"
  have t0: "touches {UEINTX} s (Endpoint_ClearSETUP s)" by (intro touch touches_refl) simp
  note q = touches_dev [OF t0]
  have c: "adds {UEINTX, GPIOR0} s ?c"
    using touches_adds [OF touches_mono [OF t0, of "{UEINTX, GPIOR0}"]] by (auto simp: adds_def)
  from assms False obtain t where t: "Endpoint_ClearStatusStage ?c = Some t"
    and "EVENT_USB_Device_ConfigurationChanged app
      (if USB_Device_ConfigurationNumber t \<noteq> 0 then wr GPIOR0 DEVICE_STATE_Configured t
       else let (addressed, t) = USB_Device_IsAddressSet t
            in wr GPIOR0 (if addressed then DEVICE_STATE_Configured else DEVICE_STATE_Powered) t) = Some s'"
    by (auto simp: USB_Device_SetConfiguration_def bind_eq_Some_conv Let_def q)
  moreover note touches_dev [OF ClearStatusStage_touches [OF t]]
  ultimately have e: "EVENT_USB_Device_ConfigurationChanged app (st t) = Some s'" by (simp add: st_def)
  have tt: "touches {UEINTX, GPIOR0} ?c (st t)"
    unfolding st_def Let_def split_beta
    by (intro touch touches_mono [OF ClearStatusStage_touches [OF t]]) auto
  have l: "if n \<noteq> 0 then hd (log (st t)) = Wr GPIOR0 DEVICE_STATE_Configured
       else \<exists>v l. log (st t) = Wr GPIOR0 (if tst v ADDEN then DEVICE_STATE_Configured else DEVICE_STATE_Powered) # Rd UDADDR v # l"
    by (auto simp: st_def USB_Device_IsAddressSet_def tst_bit_of_def rd_def Let_def)
  have "USB_Device_ConfigurationNumber (st t) = n" "USB_ControlRequest (st t) = USB_ControlRequest s"
    using touches_dev [OF tt] q by simp_all
  with l e adds_touches [OF c tt] show ?thesis
    unfolding if_not_P [OF False] by (intro exI [of _ "st t"] conjI)
qed

section \<open>Descriptors\<close>

lemma wrote_ClearSETUP [simp]: "wrote UEDATX (Endpoint_ClearSETUP s) = wrote UEDATX s"
  and wrote_ClearOUT [simp]: "wrote UEDATX (Endpoint_ClearOUT s) = wrote UEDATX s"
  using touches_wrote [of "{UEINTX}" s "Endpoint_ClearSETUP s" UEDATX] touches_wrote [of "{UEINTX}" s "Endpoint_ClearOUT s" UEDATX]
  by (simp_all add: touch)

lemma asked_touches: "touches R s t \<Longrightarrow> asked n t = asked n s"
  by (simp add: asked_def touches_dev(1))

lemma GetDescriptor_all:
  fixes s :: "'a dev_scheme"
  assumes "CALLBACK_USB_GetDescriptor app (wValue (USB_ControlRequest s)) (wIndex (USB_ControlRequest s)) = (n, mem)"
    and "n \<noteq> NO_DESCRIPTOR" "unat n \<le> length mem" "wValue (USB_ControlRequest s) \<noteq> 0x3DC"
    and "serves (hw s) (length (wrote UEDATX s) + asked n s)"
  shows "\<exists>s'. USB_Device_GetDescriptor app s = Some s' \<and> wrote UEDATX s' = wrote UEDATX s @ take (asked n s) mem \<and>
    touches {UEDATX, UEINTX} s s'"
proof -
  have c: "touches {UEDATX, UEINTX} s (Endpoint_ClearSETUP s)" by (intro touch touches_refl) simp
  have "serves (hw (Endpoint_ClearSETUP s)) (length (wrote UEDATX (Endpoint_ClearSETUP s)) + asked n (Endpoint_ClearSETUP s))"
    using assms(5) touches_hw [OF c] asked_touches [OF c, of n] by simp
  from control_write_all [OF this assms(3), of LE] obtain t where
    t: "control_write LE mem n (Endpoint_ClearSETUP s) = Some (ENDPOINT_RWCSTREAM_NoError, t)"
    "wrote UEDATX t = wrote UEDATX s @ take (asked n s) (stream LE mem n)" "touches {UEDATX, UEINTX} (Endpoint_ClearSETUP s) t"
    using asked_touches [OF c, of n] by auto
  have "USB_Device_GetDescriptor app s = Some (Endpoint_ClearOUT t)"
    using assms(1,2,4) t(1)
    by (simp add: USB_Device_GetDescriptor_def Endpoint_Write_Control_PStream_LE_def Let_def)
  moreover have "touches {UEDATX, UEINTX} s (Endpoint_ClearOUT t)"
    by (intro touch touches_trans [OF c t(3)]) simp
  moreover have "take (asked n s) (stream LE mem n) = take (asked n s) mem"
    by (simp add: stream_def asked_def min_def)
  ultimately show ?thesis using t(2) by simp
qed


theorem SetConfiguration_effect_witness:
  "\<exists>s' l. USB_Device_SetConfiguration (stub_application (\<lambda>_ _. (0, [])) (\<lambda>_. 0))
     (dev_at (\<lambda>l r. if r = UEINTX then 0x01 else if r = UDADDR then 0x85 else 0)
       \<lparr>bmRequestType = 0, bRequest = 9, wValue = 0, wIndex = 0, wLength = 0\<rparr>) = Some s' \<and>
     log s' = Wr GPIOR0 DEVICE_STATE_Configured # Rd UDADDR 0x85 # l"
proof -
  let ?app = "stub_application (\<lambda>_ _. (0, [])) (\<lambda>_. 0)"
  let ?s = "dev_at (\<lambda>l r. if r = UEINTX then 0x01 else if r = UDADDR then 0x85 else 0)
     \<lparr>bmRequestType = 0, bRequest = 9, wValue = 0, wIndex = 0, wLength = 0\<rparr>"
  have "map_option (\<lambda>s. take 2 (log s)) (USB_Device_SetConfiguration ?app ?s) = Some [Wr GPIOR0 DEVICE_STATE_Configured, Rd UDADDR 0x85]"
    by code_simp
  then obtain s' where s': "USB_Device_SetConfiguration ?app ?s = Some s'" "take 2 (log s') = [Wr GPIOR0 DEVICE_STATE_Configured, Rd UDADDR 0x85]"
    by auto
  from SetConfiguration_effect [OF s'(1) refl] obtain t v l where "EVENT_USB_Device_ConfigurationChanged ?app t = Some s'"
    "log t = Wr GPIOR0 (if tst v ADDEN then DEVICE_STATE_Configured else DEVICE_STATE_Powered) # Rd UDADDR v # l"
    by (simp del: ADDEN_def) blast
  then have "log s' = Wr GPIOR0 (if tst v ADDEN then DEVICE_STATE_Configured else DEVICE_STATE_Powered) # Rd UDADDR v # l"
    by (auto simp: stub_application_def USB_Event_Stub_def)
  moreover have "tst (0x85 :: u8) ADDEN" by code_simp
  ultimately show ?thesis using s' by auto
qed


section \<open>The serial number\<close>

definition nibble :: "(u8 \<Rightarrow> u8) \<Rightarrow> nat \<Rightarrow> nat" where
  "nibble sig i = (if even i then unat (sig (0x0E + of_nat (i div 2))) mod 16 else unat (sig (0x0E + of_nat (i div 2))) div 16)"

lemma serial_char_hex: "n < 16 \<Longrightarrow> serial_char (of_nat n) = of_char (''0123456789ABCDEF'' ! n)"
proof -
  assume n: "n < 16"
  have "list_all (\<lambda>n. serial_char (of_nat n) = of_char (''0123456789ABCDEF'' ! n)) [0 ..< 16]" by code_simp
  with n show ?thesis by (simp add: list_all_iff)
qed

lemma low_nibble: "(b :: u8) AND 0x0F = of_nat (unat b mod 16)"
proof -
  have "b AND 0x0F = b AND mask 4" by (simp add: mask_eq_exp_minus_1)
  also have "\<dots> = of_nat (unat b mod 16)" by (simp add: take_bit_eq_mask [symmetric] take_bit_eq_mod word_arith_nat_mod)
  finally show ?thesis .
qed

lemma unat_div_16: "unat (b :: u8) div 16 < 16"
proof -
  have "unat b < 2 ^ LENGTH(8)" by (rule unsigned_less)
  then show ?thesis by simp
qed

lemma high_nibble: "drop_bit 4 (b :: u8) AND 0x0F = of_nat (unat b div 16)"
proof -
  have "unat b div 16 < 16" by (rule unat_div_16)
  then have "unat (drop_bit 4 b) mod 16 = unat b div 16" by (simp add: drop_bit_eq_div unat_div)
  then show ?thesis by (simp add: low_nibble)
qed

lemma serial_loop_hex:
  "serial_loop sig [0 ..< 20] 0x0E = map (\<lambda>i. of_char (''0123456789ABCDEF'' ! nibble sig i)) [0 ..< 20]"
proof -
  have "serial_char (sig a AND 0x0F) = of_char (''0123456789ABCDEF'' ! (unat (sig a) mod 16))" for a
    by (simp only: low_nibble) (simp add: serial_char_hex)
  moreover have "serial_char (drop_bit 4 (sig a) AND 0x0F) = of_char (''0123456789ABCDEF'' ! (unat (sig a) div 16))" for a
  proof -
    have "unat (sig a) div 16 < 16" by (rule unat_div_16)
    then show ?thesis by (simp only: high_nibble serial_char_hex)
  qed
  ultimately show ?thesis by (simp add: upt_rec Let_def nibble_def)
qed

text \<open>
  \<open>USB_Device_GetSerialString\<close> reads the ten signature bytes from address 14 and gives their twenty
  hexadecimal digits, the low digit of each byte first; interrupts are off while it reads and are
  restored afterwards.
\<close>

lemma GetSerialString_hex:
  "USB_Device_GetSerialString sig s =
     (map (\<lambda>i. of_char (''0123456789ABCDEF'' ! nibble sig i)) [0 ..< 20],
      s\<lparr>log := [Wr SREG_I (hw s (log s) SREG_I), Wr SREG_I 0, Rd SREG_I (hw s (log s) SREG_I)] @ log s\<rparr>)"
  unfolding USB_Device_GetSerialString_def
  by (simp only: serial_loop_hex rd_def wr_def Let_def split) (simp add: serial_loop_hex)

section \<open>What a request may change\<close>

text \<open>The registers written by the handlers, and the endpoint selected afterwards.\<close>

definition request_regs :: "reg set" where
  "request_regs = {UERST, UECONX, UEINTX, UEDATX, UDADDR, GPIOR0, SREG_I}"

definition control_kept :: "'a mcu_scheme \<Rightarrow> 'b mcu_scheme \<Rightarrow> bool" where
  "control_kept s s' \<longleftrightarrow> adds (insert UENUM request_regs) s s' \<and>
     (wrote UENUM s' = wrote UENUM s \<or> wrote UENUM s' \<noteq> [] \<and> last (wrote UENUM s') = 0)"

lemma control_kept_refl [simp]: "control_kept s s"
  by (simp add: control_kept_def)

lemma control_kept_trans: "control_kept s t \<Longrightarrow> control_kept t u \<Longrightarrow> control_kept s u"
  by (auto simp: control_kept_def intro: adds_trans)

lemma kept_touches: "touches R s t \<Longrightarrow> R \<subseteq> request_regs \<Longrightarrow> control_kept s t"
proof -
  assume t: "touches R s t" and R: "R \<subseteq> request_regs"
  then have "touches (insert UENUM request_regs) s t" by (elim touches_mono) auto
  moreover from R have "UENUM \<notin> R" by (auto simp: request_regs_def)
  ultimately show ?thesis using touches_wrote [OF t] touches_adds by (auto simp: control_kept_def)
qed

lemma kept_status: "Endpoint_ClearStatusStage s = Some t \<Longrightarrow> control_kept s t"
  by (rule kept_touches [OF ClearStatusStage_touches]) (auto simp: request_regs_def)

lemma kept_then_status:
  assumes "touches request_regs s u" "Endpoint_ClearStatusStage u = Some t"
  shows "control_kept s t"
  by (rule control_kept_trans [OF kept_touches [OF assms(1) subset_refl] kept_status [OF assms(2)]])

lemma kept_select: "adds (insert UENUM request_regs) s t \<Longrightarrow> control_kept s (Endpoint_SelectEndpoint ENDPOINT_CONTROLEP t)"
proof -
  assume "adds (insert UENUM request_regs) s t"
  moreover have "touches (insert UENUM request_regs) t (Endpoint_SelectEndpoint ENDPOINT_CONTROLEP t)"
    by (intro touch touches_refl) simp
  ultimately have "adds (insert UENUM request_regs) s (Endpoint_SelectEndpoint ENDPOINT_CONTROLEP t)" by (rule adds_touches)
  moreover have "wrote UENUM (Endpoint_SelectEndpoint ENDPOINT_CONTROLEP t) = wrote UENUM t @ [0]"
    by (simp add: Endpoint_SelectEndpoint_def)
  ultimately show ?thesis by (simp add: control_kept_def)
qed

lemma kept_control_write:
  assumes "control_write ord Buffer n s = Some (r, t)" "unat n \<le> length Buffer"
  shows "control_kept s t"
  using control_write_prefix [OF assms] by (auto intro: kept_touches simp: request_regs_def)

lemma GetSerialString_touches: "touches request_regs s (snd (USB_Device_GetSerialString sig s))"
  by (simp add: USB_Device_GetSerialString_def Let_def split_beta touch request_regs_def)

lemma kept_SetAddress: "USB_Device_SetAddress s = Some t \<Longrightarrow> control_kept s t"
proof -
  assume "USB_Device_SetAddress s = Some t"
  then obtain a t1 t2 where t1: "Endpoint_ClearStatusStage (Endpoint_ClearSETUP (USB_Device_SetDeviceAddress a s)) = Some t1"
    and t2: "wait_set UEINTX TXINI t1 = Some t2"
    and t: "t = wr GPIOR0 (if a \<noteq> 0 then DEVICE_STATE_Addressed else DEVICE_STATE_Default) (USB_Device_EnableDeviceAddress a t2)"
    by (auto simp: USB_Device_SetAddress_def bind_eq_Some_conv Let_def)
  have "touches request_regs s t1"
    by (rule touches_trans [OF _ touches_mono [OF ClearStatusStage_touches [OF t1]]]) (auto intro!: touch simp: request_regs_def)
  then have "touches request_regs s t2" by (rule touches_trans [OF _ wait_set_touches [OF t2]])
  then have "touches request_regs s t" unfolding t by (intro touch) (auto simp: request_regs_def)
  then show ?thesis by (rule kept_touches) simp
qed

lemma kept_GetConfiguration: "USB_Device_GetConfiguration s = Some t \<Longrightarrow> control_kept s t"
  unfolding USB_Device_GetConfiguration_def Let_def
  by (rule kept_then_status) (auto intro!: touch simp: request_regs_def)

lemma kept_serial: "USB_Device_GetInternalSerialDescriptor app s = Some t \<Longrightarrow> control_kept s t"
proof -
  assume a: "USB_Device_GetInternalSerialDescriptor app s = Some t"
  let ?g = "USB_Device_GetSerialString (boot_signature_byte_get app) s"
  let ?d = "[USB_STRING_LEN (INTERNAL_SERIAL_LENGTH_BITS div 4), DTYPE_String] @ concat (map bytes16 (fst ?g))"
  from a obtain r u where u: "control_write LE ?d (of_nat (2 + 2 * (INTERNAL_SERIAL_LENGTH_BITS div 4))) (Endpoint_ClearSETUP (snd ?g)) = Some (r, u)"
    "t = Endpoint_ClearOUT u"
    by (auto simp: USB_Device_GetInternalSerialDescriptor_def Endpoint_Write_Control_Stream_LE_def bind_eq_Some_conv Let_def split_beta)
  have "length (fst ?g) = 20" by (simp add: USB_Device_GetSerialString_def
    Let_def split_beta serial_loop_hex)
  then have "length (concat (map bytes16 (fst ?g))) = 40" by (simp add: length_concat o_def sum_list_triv)
  then have "control_kept (Endpoint_ClearSETUP (snd ?g)) u"
    by (intro kept_control_write [OF u(1)]) simp
  moreover have "touches request_regs s (Endpoint_ClearSETUP (snd ?g))"
    by (intro touch GetSerialString_touches) (simp add: request_regs_def)
  moreover have "touches request_regs u t" unfolding u(2) by (intro touch touches_refl) (simp add: request_regs_def)
  ultimately show ?thesis by (meson control_kept_trans kept_touches subset_refl)
qed

text \<open>A descriptor callback that returns no more than it points to\<close>

definition sound_descriptors :: "'s application \<Rightarrow> bool" where
  "sound_descriptors app \<longleftrightarrow> (\<forall>v i n mem. CALLBACK_USB_GetDescriptor app v i = (n, mem) \<longrightarrow> unat n \<le> length mem)"

lemma kept_GetDescriptor:
  assumes "USB_Device_GetDescriptor app s = Some t" "sound_descriptors app"
  shows "control_kept s t"
proof -
  obtain n mem where c: "CALLBACK_USB_GetDescriptor app (wValue (USB_ControlRequest s)) (wIndex (USB_ControlRequest s)) = (n, mem)"
    by fastforce
  let ?serial = "wValue (USB_ControlRequest s) = (push_bit 8 (ucast DTYPE_String) OR ucast USE_INTERNAL_SERIAL)"
  consider ?serial | "\<not> ?serial" "n = NO_DESCRIPTOR" | "\<not> ?serial" "n \<noteq> NO_DESCRIPTOR" by blast
  then show ?thesis
  proof cases
    case 1
    with assms(1) show ?thesis unfolding USB_Device_GetDescriptor_def by (intro kept_serial) simp
  next
    case 2
    with assms(1) c show ?thesis by (simp add: USB_Device_GetDescriptor_def)
  next
    case 3
    with assms(1) c obtain r u where u: "control_write LE mem n (Endpoint_ClearSETUP s) = Some (r, u)" "t = Endpoint_ClearOUT u"
      by (auto simp: USB_Device_GetDescriptor_def Endpoint_Write_Control_PStream_LE_def bind_eq_Some_conv)
    have "control_kept (Endpoint_ClearSETUP s) u"
      using assms(2) c by (intro kept_control_write [OF u(1)]) (auto simp: sound_descriptors_def)
    moreover have "touches request_regs s (Endpoint_ClearSETUP s)" by (intro touch touches_refl) (simp add: request_regs_def)
    moreover have "touches request_regs u t" unfolding u(2) by (intro touch touches_refl) (simp add: request_regs_def)
    ultimately show ?thesis by (meson control_kept_trans kept_touches subset_refl)
  qed
qed

lemma kept_GetStatus:
  assumes "USB_Device_GetStatus s = Some t"
  shows "control_kept s t"
proof -
  obtain r u where c: "current_status s = (r, u)" by fastforce
  have "control_kept s u"
  proof -
    have "touches (insert UENUM request_regs) s (snd (Endpoint_IsStalled (Endpoint_SelectEndpoint e s)))" for e
      by (intro touch touches_refl) simp
    from kept_select [OF touches_adds [OF this]] c show ?thesis
      by (auto simp: current_status_def Let_def split_beta split: if_splits)
  qed
  moreover have "control_kept u t"
  proof (cases r)
    case None
    with assms c show ?thesis by (simp add: USB_Device_GetStatus_def)
  next
    case (Some v)
    with assms c have "Endpoint_ClearStatusStage (Endpoint_ClearIN (Endpoint_Write_16_LE (ucast v) (Endpoint_ClearSETUP u))) = Some t"
      by (simp add: USB_Device_GetStatus_def Let_def)
    then show ?thesis by (rule kept_then_status [rotated]) (auto intro!: touch simp: request_regs_def)
  qed
  ultimately show ?thesis by (rule control_kept_trans)
qed

lemma adds_feature: "adds (insert UENUM request_regs) s (snd (feature_endpoint s))"
  unfolding feature_endpoint_def Let_def split_beta
  by (auto intro!: touches_adds touch simp: request_regs_def split: if_splits)

lemma kept_ClearSetFeature:
  assumes "USB_Device_ClearSetFeature s = Some t"
  shows "control_kept s t"
proof -
  define f where "f = (if bmRequestType (USB_ControlRequest s) AND CONTROL_REQTYPE_RECIPIENT = REQREC_DEVICE
            then if ucast (wValue (USB_ControlRequest s)) = FEATURE_SEL_DeviceRemoteWakeup
                 then (True, s\<lparr>USB_Device_RemoteWakeupEnabled := bRequest (USB_ControlRequest s) = REQ_SetFeature\<rparr>)
                 else (False, s)
            else if bmRequestType (USB_ControlRequest s) AND CONTROL_REQTYPE_RECIPIENT = REQREC_ENDPOINT then feature_endpoint s
            else (False, s))"
  have f: "if fst f then Endpoint_ClearStatusStage (Endpoint_ClearSETUP (Endpoint_SelectEndpoint ENDPOINT_CONTROLEP (snd f))) = Some t
    else t = snd f"
    using assms unfolding USB_Device_ClearSetFeature_def Let_def f_def [symmetric] by (auto simp: split_beta split: if_splits)
  have a: "adds (insert UENUM request_regs) s (snd f)" "\<not> fst f \<longrightarrow> snd f = s"
    using adds_feature [of s] by (auto simp: f_def adds_def feature_endpoint_def Let_def split_beta)
  show ?thesis
  proof (cases "fst f")
    case True
    with f have "Endpoint_ClearStatusStage (Endpoint_ClearSETUP (Endpoint_SelectEndpoint ENDPOINT_CONTROLEP (snd f))) = Some t" by simp
    then have "control_kept (Endpoint_SelectEndpoint ENDPOINT_CONTROLEP (snd f)) t"
      by (rule kept_then_status [rotated]) (rule touch_UEINTX [OF touches_refl], simp add: request_regs_def)
    with kept_select [OF a(1)] show ?thesis by (rule control_kept_trans)
  next
    case False
    with f a show ?thesis by simp
  qed
qed

section \<open>The contract of an application\<close>

text \<open>
  What the stack relies on: descriptors are complete, the handler of control requests keeps the
  control endpoint selected, and the handler of a new configuration writes registers of the USB
  controller only.
\<close>

definition device_regs :: "reg set" where
  "device_regs = request_regs \<union> {UENUM, UECFG0X, UECFG1X, UEIENX, UDIEN}"

locale usb_application =
  fixes app :: "'a dev_scheme application"
  assumes descriptors: "sound_descriptors app"
    and control_request: "EVENT_USB_Device_ControlRequest app s = Some t \<Longrightarrow> control_kept s t"
    and configuration_changed: "EVENT_USB_Device_ConfigurationChanged app s = Some t \<Longrightarrow> adds device_regs s t"
begin

lemma dispatch_kept:
  assumes "dispatch app s = Some t" "bRequest (USB_ControlRequest s) \<noteq> REQ_SetConfiguration"
  shows "control_kept s t"
  using assms kept_GetStatus [of s t] kept_ClearSetFeature [of s t] kept_SetAddress [of s t]
    kept_GetDescriptor [OF _ descriptors, of s t] kept_GetConfiguration [of s t]
  unfolding dispatch_def Let_def by (simp split: if_splits)

lemma adds_SetConfiguration:
  assumes "USB_Device_SetConfiguration app s = Some t"
  shows "adds device_regs s t"
proof (cases "FIXED_NUM_CONFIGURATIONS < ucast (wValue (USB_ControlRequest s))")
  case True
  with assms show ?thesis by (simp add: USB_Device_SetConfiguration_def)
next
  case False
  let ?c = "(Endpoint_ClearSETUP s)\<lparr>USB_Device_ConfigurationNumber := ucast (wValue (USB_ControlRequest (Endpoint_ClearSETUP s)))\<rparr>"
  from assms False obtain u where u: "Endpoint_ClearStatusStage ?c = Some u"
    and e: "EVENT_USB_Device_ConfigurationChanged app (if USB_Device_ConfigurationNumber u \<noteq> 0 then wr GPIOR0 DEVICE_STATE_Configured u
       else let (addressed, u) = USB_Device_IsAddressSet u
            in wr GPIOR0 (if addressed then DEVICE_STATE_Configured else DEVICE_STATE_Powered) u) = Some t"
      (is "EVENT_USB_Device_ConfigurationChanged app ?v = _")
    by (auto simp: USB_Device_SetConfiguration_def bind_eq_Some_conv Let_def)
  have "touches device_regs s (Endpoint_ClearSETUP s)"
    by (intro touch touches_refl) (simp add: device_regs_def request_regs_def)
  then have "adds device_regs s ?c" by (auto dest: touches_adds simp: adds_def)
  moreover have "touches device_regs ?c ?v" unfolding Let_def split_beta
    by (intro touch touches_mono [OF ClearStatusStage_touches [OF u]]) (auto simp: device_regs_def request_regs_def)
  ultimately have "adds device_regs s ?v" by (rule adds_touches)
  with configuration_changed [OF e] show ?thesis by (rule adds_trans [rotated])
qed

lemma kept_adds: "control_kept s t \<Longrightarrow> adds device_regs s t"
  unfolding control_kept_def by (elim conjE adds_mono) (auto simp: device_regs_def)

lemma dispatch_adds:
  assumes "dispatch app s = Some t"
  shows "adds device_regs s t"
proof (cases "bRequest (USB_ControlRequest s) = REQ_SetConfiguration")
  case True
  with assms adds_SetConfiguration [of s t] show ?thesis
    by (auto simp: dispatch_def Let_def split: if_splits)
next
  case False
  from kept_adds [OF dispatch_kept [OF assms False]] show ?thesis .
qed

lemma process_adds:
  assumes "USB_Device_ProcessControlRequest app s = Some t"
  shows "adds device_regs s t"
proof -
  from assms obtain u v where u: "EVENT_USB_Device_ControlRequest app (read_header s) = Some u"
    and v: "(if fst (Endpoint_IsSETUPReceived u) then dispatch app (snd (Endpoint_IsSETUPReceived u))
       else Some (snd (Endpoint_IsSETUPReceived u))) = Some v"
    and t: "t = (if fst (Endpoint_IsSETUPReceived v) then Endpoint_StallTransaction (Endpoint_ClearSETUP (snd (Endpoint_IsSETUPReceived v)))
       else snd (Endpoint_IsSETUPReceived v))"
    by (auto simp: USB_Device_ProcessControlRequest_def bind_eq_Some_conv Let_def split_beta)
  have "adds device_regs s u"
    using adds_mono [OF adds_read_header [of s], of device_regs] kept_adds [OF control_request [OF u]] by (auto intro: adds_trans)
  moreover have "touches device_regs u (snd (Endpoint_IsSETUPReceived u))" by (intro touch touches_refl)
  ultimately have "adds device_regs s (snd (Endpoint_IsSETUPReceived u))" by (rule adds_touches)
  moreover have "adds device_regs (snd (Endpoint_IsSETUPReceived u)) v"
    using v dispatch_adds by (auto split: if_splits)
  ultimately have "adds device_regs s v" by (rule adds_trans)
  moreover have "touches device_regs v t" unfolding t
    by (intro touch touches_refl) (auto simp: device_regs_def request_regs_def)
  ultimately show ?thesis by (rule adds_touches)
qed

lemma task_select:
  assumes "USB_USBTask app s = Some t"
  shows "adds device_regs s t \<and> (if fst (rd GPIOR0 s) = DEVICE_STATE_Unattached then t = snd (rd GPIOR0 s)
    else wrote UENUM t \<noteq> [] \<and> last (wrote UENUM t) = hw s (log (snd (rd GPIOR0 s))) UENUM AND ENDPOINT_EPNUM_MASK)"
proof (cases "fst (rd GPIOR0 s) = DEVICE_STATE_Unattached")
  case True
  with assms show ?thesis by (auto simp: USB_USBTask_def USB_DeviceTask_def Let_def split_beta intro: touches_adds)
next
  case False
  let ?p = "Endpoint_GetCurrentEndpoint (snd (rd GPIOR0 s))"
  let ?c = "Endpoint_IsSETUPReceived (Endpoint_SelectEndpoint ENDPOINT_CONTROLEP (snd ?p))"
  from assms False obtain u where u: "(if fst ?c then USB_Device_ProcessControlRequest app (snd ?c) else Some (snd ?c)) = Some u"
    "t = Endpoint_SelectEndpoint (fst ?p) u"
    by (auto simp: USB_USBTask_def USB_DeviceTask_def bind_eq_Some_conv Let_def split_beta)
  have "touches device_regs s (snd ?c)" by (intro touch touches_refl) (simp add: device_regs_def)
  moreover have "adds device_regs (snd ?c) u" using u(1) process_adds by (auto split: if_splits)
  ultimately have "adds device_regs s u" by (auto intro: adds_trans touches_adds)
  moreover have "touches device_regs u t" unfolding u(2) by (intro touch touches_refl) (simp add: device_regs_def)
  ultimately have "adds device_regs s t" by (rule adds_touches)
  moreover have "fst ?p AND ENDPOINT_EPNUM_MASK = hw s (log (snd (rd GPIOR0 s))) UENUM AND ENDPOINT_EPNUM_MASK"
    by (simp add: Endpoint_GetCurrentEndpoint_def Endpoint_GetEndpointDirection_def Let_def split_beta rd_def
      bit.conj_disj_distrib2 and.assoc)
  ultimately show ?thesis using False u(2) by (simp add: Endpoint_SelectEndpoint_def)
qed

end

end
