(* ===== verification/Endpoint_Streams.thy ===== *)
theory Endpoint_Streams
  imports Request_Laws
begin

text \<open>
  Streams on the other endpoints: \<open>Template_Endpoint_RW.c\<close> and its instances, \<open>Endpoint_Discard_Stream\<close> and
  \<open>Endpoint_Null_Stream\<close>, all in \<open>EndpointStream_AVR8.c\<close>. \<open>BytesProcessed\<close> is \<open>None\<close> for the null pointer. The
  template calls \<open>USB_USBTask\<close> after each packet, since the control endpoint is not served by an interrupt.
\<close>

section \<open>The template\<close>

datatype rwstream =
    ENDPOINT_RWSTREAM_NoError
  | ENDPOINT_RWSTREAM_EndpointStalled
  | ENDPOINT_RWSTREAM_DeviceDisconnected
  | ENDPOINT_RWSTREAM_BusSuspended
  | ENDPOINT_RWSTREAM_Timeout
  | ENDPOINT_RWSTREAM_IncompleteTransfer

text \<open>The codes of \<open>Endpoint_WaitUntilReady\<close> are returned unchanged: the two enumerations agree on them.\<close>

fun rw_code :: "readywait \<Rightarrow> rwstream" where
  "rw_code ENDPOINT_READYWAIT_NoError = ENDPOINT_RWSTREAM_NoError"
| "rw_code ENDPOINT_READYWAIT_EndpointStalled = ENDPOINT_RWSTREAM_EndpointStalled"
| "rw_code ENDPOINT_READYWAIT_DeviceDisconnected = ENDPOINT_RWSTREAM_DeviceDisconnected"
| "rw_code ENDPOINT_READYWAIT_BusSuspended = ENDPOINT_RWSTREAM_BusSuspended"
| "rw_code ENDPOINT_READYWAIT_Timeout = ENDPOINT_RWSTREAM_Timeout"

text \<open>
  A round of the loop; \<open>clear\<close> is \<open>TEMPLATE_CLEAR_ENDPOINT\<close>, \<open>transfer\<close> is \<open>TEMPLATE_TRANSFER_BYTE\<close>. The
  result carries the new value of \<open>BytesProcessed\<close>.
\<close>

definition stream_round :: "order \<Rightarrow> ('s mcu_scheme \<Rightarrow> 's mcu_scheme) \<Rightarrow> ('s mcu_scheme \<Rightarrow> 's mcu_scheme option) \<Rightarrow>
    (int \<Rightarrow> 'b \<times> 's mcu_scheme \<Rightarrow> ('b \<times> 's mcu_scheme) option) \<Rightarrow> u16 option \<Rightarrow>
    int \<times> u16 \<times> u16 \<times> 'b \<times> 's mcu_scheme \<Rightarrow> ((rwstream \<times> u16 option) option \<times> int \<times> u16 \<times> u16 \<times> 'b \<times> 's mcu_scheme) option" where
  "stream_round ord clear task transfer BytesProcessed = (\<lambda>(DataStream, Length, BytesInTransfer, b, s).
     if Length = 0 then Some (Some (ENDPOINT_RWSTREAM_NoError, BytesProcessed), DataStream, Length, BytesInTransfer, b, s)
     else let (allowed, s) = Endpoint_IsReadWriteAllowed s
     in if \<not> allowed
        then do {
          s \<leftarrow> task (clear s);
          case BytesProcessed of
            Some n \<Rightarrow> Some (Some (ENDPOINT_RWSTREAM_IncompleteTransfer, Some (n + BytesInTransfer)), DataStream, Length, BytesInTransfer, b, s)
          | None \<Rightarrow> do {
              (ErrorCode, s) \<leftarrow> Endpoint_WaitUntilReady s;
              Some (if ErrorCode = ENDPOINT_READYWAIT_NoError then None else Some (rw_code ErrorCode, None),
                    DataStream, Length, BytesInTransfer, b, s) } }
        else do {
          (b, s) \<leftarrow> transfer DataStream (b, s);
          Some (None, buffer_move ord DataStream 1, Length - 1, BytesInTransfer + 1, b, s) })"

definition stream_template :: "order \<Rightarrow> ('s mcu_scheme \<Rightarrow> 's mcu_scheme) \<Rightarrow> ('s mcu_scheme \<Rightarrow> 's mcu_scheme option) \<Rightarrow>
    (int \<Rightarrow> 'b \<times> 's mcu_scheme \<Rightarrow> ('b \<times> 's mcu_scheme) option) \<Rightarrow> 'b \<Rightarrow> u16 \<Rightarrow> u16 option \<Rightarrow> 's mcu_scheme \<Rightarrow>
    (rwstream \<times> u16 option \<times> 'b \<times> 's mcu_scheme) option" where
  "stream_template ord clear task transfer b Length BytesProcessed s = do {
     let DataStream = buffer_offset ord Length;
     (ErrorCode, s) \<leftarrow> Endpoint_WaitUntilReady s;
     if ErrorCode \<noteq> ENDPOINT_READYWAIT_NoError then Some (rw_code ErrorCode, BytesProcessed, b, s)
     else do {
       let (Length, DataStream) = (case BytesProcessed of
           Some n \<Rightarrow> (Length - n, buffer_move ord DataStream (uint n))
         | None \<Rightarrow> (Length, DataStream));
       ((e, n), _, _, _, b, s) \<leftarrow> poll_loop (stream_round ord clear task transfer BytesProcessed) (DataStream, Length, 0, b, s);
       Some (e, n, b, s) } }"

section \<open>Instances\<close>

definition put_byte :: "int \<Rightarrow> u8 list \<times> 's mcu_scheme \<Rightarrow> (u8 list \<times> 's mcu_scheme) option" where
  "put_byte pos = (\<lambda>(Buffer, s). do { v \<leftarrow> byte_at Buffer pos; Some (Buffer, Endpoint_Write_8 v s) })"

definition get_byte :: "int \<Rightarrow> u8 list \<times> 's mcu_scheme \<Rightarrow> (u8 list \<times> 's mcu_scheme) option" where
  "get_byte pos = (\<lambda>(Buffer, s). let (v, s) = Endpoint_Read_8 s in do { Buffer \<leftarrow> set_byte Buffer pos v; Some (Buffer, s) })"

definition Endpoint_Write_Stream_LE :: "'a dev_scheme application \<Rightarrow> u8 list \<Rightarrow> u16 \<Rightarrow> u16 option \<Rightarrow> 'a dev_scheme \<Rightarrow>
    (rwstream \<times> u16 option \<times> u8 list \<times> 'a dev_scheme) option" where
  "Endpoint_Write_Stream_LE app = stream_template LE Endpoint_ClearIN (USB_USBTask app) put_byte"

definition Endpoint_Write_Stream_BE :: "'a dev_scheme application \<Rightarrow> u8 list \<Rightarrow> u16 \<Rightarrow> u16 option \<Rightarrow> 'a dev_scheme \<Rightarrow>
    (rwstream \<times> u16 option \<times> u8 list \<times> 'a dev_scheme) option" where
  "Endpoint_Write_Stream_BE app = stream_template BE Endpoint_ClearIN (USB_USBTask app) put_byte"

definition Endpoint_Read_Stream_LE :: "'a dev_scheme application \<Rightarrow> u8 list \<Rightarrow> u16 \<Rightarrow> u16 option \<Rightarrow> 'a dev_scheme \<Rightarrow>
    (rwstream \<times> u16 option \<times> u8 list \<times> 'a dev_scheme) option" where
  "Endpoint_Read_Stream_LE app = stream_template LE Endpoint_ClearOUT (USB_USBTask app) get_byte"

definition Endpoint_Read_Stream_BE :: "'a dev_scheme application \<Rightarrow> u8 list \<Rightarrow> u16 \<Rightarrow> u16 option \<Rightarrow> 'a dev_scheme \<Rightarrow>
    (rwstream \<times> u16 option \<times> u8 list \<times> 'a dev_scheme) option" where
  "Endpoint_Read_Stream_BE app = stream_template BE Endpoint_ClearOUT (USB_USBTask app) get_byte"

definition Endpoint_Write_PStream_LE :: "'a dev_scheme application \<Rightarrow> u8 list \<Rightarrow> u16 \<Rightarrow> u16 option \<Rightarrow> 'a dev_scheme \<Rightarrow>
    (rwstream \<times> u16 option \<times> u8 list \<times> 'a dev_scheme) option" where
  "Endpoint_Write_PStream_LE app = stream_template LE Endpoint_ClearIN (USB_USBTask app) put_byte"

definition Endpoint_Write_PStream_BE :: "'a dev_scheme application \<Rightarrow> u8 list \<Rightarrow> u16 \<Rightarrow> u16 option \<Rightarrow> 'a dev_scheme \<Rightarrow>
    (rwstream \<times> u16 option \<times> u8 list \<times> 'a dev_scheme) option" where
  "Endpoint_Write_PStream_BE app = stream_template BE Endpoint_ClearIN (USB_USBTask app) put_byte"

definition Endpoint_Write_EStream_LE :: "'a dev_scheme application \<Rightarrow> u8 list \<Rightarrow> u16 \<Rightarrow> u16 option \<Rightarrow> 'a dev_scheme \<Rightarrow>
    (rwstream \<times> u16 option \<times> u8 list \<times> 'a dev_scheme) option" where
  "Endpoint_Write_EStream_LE app = stream_template LE Endpoint_ClearIN (USB_USBTask app) put_byte"

definition Endpoint_Write_EStream_BE :: "'a dev_scheme application \<Rightarrow> u8 list \<Rightarrow> u16 \<Rightarrow> u16 option \<Rightarrow> 'a dev_scheme \<Rightarrow>
    (rwstream \<times> u16 option \<times> u8 list \<times> 'a dev_scheme) option" where
  "Endpoint_Write_EStream_BE app = stream_template BE Endpoint_ClearIN (USB_USBTask app) put_byte"

definition Endpoint_Read_EStream_LE :: "'a dev_scheme application \<Rightarrow> u8 list \<Rightarrow> u16 \<Rightarrow> u16 option \<Rightarrow> 'a dev_scheme \<Rightarrow>
    (rwstream \<times> u16 option \<times> u8 list \<times> 'a dev_scheme) option" where
  "Endpoint_Read_EStream_LE app = stream_template LE Endpoint_ClearOUT (USB_USBTask app) get_byte"

definition Endpoint_Read_EStream_BE :: "'a dev_scheme application \<Rightarrow> u8 list \<Rightarrow> u16 \<Rightarrow> u16 option \<Rightarrow> 'a dev_scheme \<Rightarrow>
    (rwstream \<times> u16 option \<times> u8 list \<times> 'a dev_scheme) option" where
  "Endpoint_Read_EStream_BE app = stream_template BE Endpoint_ClearOUT (USB_USBTask app) get_byte"

text \<open>
  \<open>Endpoint_Discard_Stream\<close> and \<open>Endpoint_Null_Stream\<close> have the loop of the template without a buffer and
  without the call of \<open>USB_USBTask\<close>.
\<close>

definition Endpoint_Discard_Stream :: "u16 \<Rightarrow> u16 option \<Rightarrow> 's mcu_scheme \<Rightarrow> (rwstream \<times> u16 option \<times> unit \<times> 's mcu_scheme) option" where
  "Endpoint_Discard_Stream = stream_template LE Endpoint_ClearOUT Some (\<lambda>_ (_, s). Some ((), Endpoint_Discard_8 s)) ()"

definition Endpoint_Null_Stream :: "u16 \<Rightarrow> u16 option \<Rightarrow> 's mcu_scheme \<Rightarrow> (rwstream \<times> u16 option \<times> unit \<times> 's mcu_scheme) option" where
  "Endpoint_Null_Stream = stream_template LE Endpoint_ClearIN Some (\<lambda>_ (_, s). Some ((), Endpoint_Write_8 0 s)) ()"

section \<open>Invariants of a stream\<close>

text \<open>What reads, the hand-over of a bank, the device task and the transfer of a byte keep, a stream keeps.\<close>

lemma stream_round_keeps:
  assumes "stream_round ord clear task transfer bp (p, L, m, b, s) = Some (r, p', L', m', b', s')" "I s"
    and "\<And>s t. I s \<Longrightarrow> touches {} s t \<Longrightarrow> I t" "\<And>s. I s \<Longrightarrow> I (clear s)"
    and "\<And>s t. I s \<Longrightarrow> task s = Some t \<Longrightarrow> I t" "\<And>p b s b' t. I s \<Longrightarrow> transfer p (b, s) = Some (b', t) \<Longrightarrow> I t"
  shows "I s'"
proof -
  let ?a = "Endpoint_IsReadWriteAllowed s"
  have a: "I (snd ?a)" by (rule assms(3) [OF assms(2)]) (intro touch touches_refl)
  have w: "I u'" if "I u" "Endpoint_WaitUntilReady u = Some (c, u')" for u c u'
    using WaitUntilReady_seen [OF that(2)] assms(3) that(1) by blast
  show ?thesis
  proof (cases "L = 0")
    case True
    with assms(1,2) show ?thesis by (simp add: stream_round_def)
  next
    case L: False
    show ?thesis
    proof (cases "fst ?a")
      case True
      with L assms(1) obtain b1 where "transfer p (b, snd ?a) = Some (b1, s')"
        by (auto simp: stream_round_def Let_def split_beta bind_eq_Some_conv)
      then show ?thesis by (rule assms(6) [OF a])
    next
      case False
      with L assms(1) obtain u where u: "task (clear (snd ?a)) = Some u" "s' = u \<or> (\<exists>c. Endpoint_WaitUntilReady u = Some (c, s'))"
        by (auto simp: stream_round_def Let_def split_beta bind_eq_Some_conv split: option.splits)
      from assms(5) [OF assms(4) [OF a] u(1)] u(2) w show ?thesis by blast
    qed
  qed
qed

lemma stream_keeps:
  assumes "stream_template ord clear task transfer b Length bp s = Some (e, bp', b', s')" "I s"
    and "\<And>s t. I s \<Longrightarrow> touches {} s t \<Longrightarrow> I t" "\<And>s. I s \<Longrightarrow> I (clear s)"
    and "\<And>s t. I s \<Longrightarrow> task s = Some t \<Longrightarrow> I t" "\<And>p b s b' t. I s \<Longrightarrow> transfer p (b, s) = Some (b', t) \<Longrightarrow> I t"
  shows "I s'"
proof -
  from assms(1) obtain c t where w: "Endpoint_WaitUntilReady s = Some (c, t)"
    and r: "if c \<noteq> ENDPOINT_READYWAIT_NoError then s' = t
      else \<exists>x0 L0 p L m. poll_loop (stream_round ord clear task transfer bp) (x0, L0, 0, b, t) = Some ((e, bp'), p, L, m, b', s')"
    by (auto simp: stream_template_def bind_eq_Some_conv Let_def split: if_splits option.splits) (blast, blast, blast, blast)
  from WaitUntilReady_seen [OF w] assms(2,3) have t: "I t" by blast
  show ?thesis
  proof (cases "c = ENDPOINT_READYWAIT_NoError")
    case False
    with r t show ?thesis by simp
  next
    case True
    with r obtain x0 L0 p L m where l: "poll_loop (stream_round ord clear task transfer bp) (x0, L0, 0, b, t) = Some ((e, bp'), p, L, m, b', s')"
      by auto
    have "(\<lambda>_ (p, L, m, b, s). I s) (e, bp') (p, L, m, b', s')"
      by (rule poll_loop_rule [OF l, where I = "\<lambda>(p, L, m, b, s). I s"])
        (use t in \<open>auto intro: stream_round_keeps [where I = I] assms(3-6)\<close>)
    then show ?thesis by simp
  qed
qed

section \<open>Streams on endpoints that are ready\<close>

text \<open>Hardware on which the selected bank can be accessed whenever the program looks\<close>

definition banks_ready :: "(acc list \<Rightarrow> reg \<Rightarrow> u8) \<Rightarrow> bool" where
  "banks_ready H \<longleftrightarrow> (\<forall>l. tst (H l UEINTX) RWAL \<and> tst (H l UEINTX) TXINI \<and> tst (H l UEINTX) RXOUTI)"

text \<open>Reads of other registers than the data register\<close>

definition glances :: "'s mcu_scheme \<Rightarrow> 's mcu_scheme \<Rightarrow> bool" where
  "glances s t \<longleftrightarrow> touches {} s t \<and> was_read UEDATX t = was_read UEDATX s"

lemma glances_rd: "glances s t \<Longrightarrow> r \<noteq> UEDATX \<Longrightarrow> glances s (snd (rd r t))"
  by (simp add: glances_def touch)

lemma glances_tst: "glances s t \<Longrightarrow> r \<noteq> UEDATX \<Longrightarrow> glances s (snd (tst_bit_of r n t))"
  by (simp add: glances_def touch)

lemma glances_refl: "glances s s"
  by (simp add: glances_def)

lemma glances_allowed: "glances s (snd (Endpoint_IsReadWriteAllowed s))"
  unfolding Endpoint_IsReadWriteAllowed_def by (intro glances_tst glances_refl) simp

lemma wait_ready:
  assumes "banks_ready (hw s)"
  shows "\<exists>t. Endpoint_WaitUntilReady s = Some (ENDPOINT_READYWAIT_NoError, t) \<and> glances s t"
proof -
  let ?f = "USB_Device_GetFrameNumber s" and ?d = "\<lambda>s. Endpoint_GetEndpointDirection s"
  have f: "glances s (snd ?f)" "glances s (snd (?d (snd ?f)))"
    by (simp_all add: USB_Device_GetFrameNumber_def Endpoint_GetEndpointDirection_def Let_def split_beta glances_rd glances_tst glances_refl)
  let ?r = "if fst (?d (snd ?f)) = ENDPOINT_DIR_IN then Endpoint_IsINReady (snd (?d (snd ?f))) else Endpoint_IsOUTReceived (snd (?d (snd ?f)))"
  have "hw (snd (?d (snd ?f))) = hw s" using f(2) by (auto simp: glances_def dest: touches_hw)
  with assms have "fst ?r" by (simp add: banks_ready_def Endpoint_IsINReady_def Endpoint_IsOUTReceived_def tst_fst)
  then have "wait_round (USB_STREAM_TIMEOUT_MS, fst ?f, snd ?f) = (Some ENDPOINT_READYWAIT_NoError, USB_STREAM_TIMEOUT_MS, fst ?f, snd ?r)"
    by (simp add: wait_round_def Let_def split_beta)
  then have "poll_loop (\<lambda>t. Some (wait_round t)) (USB_STREAM_TIMEOUT_MS, fst ?f, snd ?f) =
      Some (ENDPOINT_READYWAIT_NoError, USB_STREAM_TIMEOUT_MS, fst ?f, snd ?r)" by (simp only: poll_stop)
  then have "Endpoint_WaitUntilReady s = Some (ENDPOINT_READYWAIT_NoError, snd ?r)"
    unfolding Endpoint_WaitUntilReady_def Let_def split_beta by (simp only: bind.bind_lunit snd_conv fst_conv)
  moreover have "glances s (snd ?r)" using f(2)
    by (simp add: Endpoint_IsINReady_def Endpoint_IsOUTReceived_def glances_tst)
  ultimately show ?thesis by blast
qed

lemma loop_ready:
  assumes H: "banks_ready H" and hwI: "\<And>k b s. I k b s \<Longrightarrow> hw s = H"
    and stable: "\<And>k b s t. I k b s \<Longrightarrow> glances s t \<Longrightarrow> I k b t"
    and step: "\<And>k b s. k < unat Length \<Longrightarrow> I k b s \<Longrightarrow> \<exists>b' t. transfer (walk ord Length k) (b, s) = Some (b', t) \<and> I (Suc k) b' t"
    and "I k b s" "k + unat L = unat Length"
  shows "\<exists>x y z b' t. poll_loop (stream_round ord clear task transfer bp) (walk ord Length k, L, m, b, s) =
    Some ((ENDPOINT_RWSTREAM_NoError, bp), x, y, z, b', t) \<and> I (unat Length) b' t"
  using assms(5,6)
proof (induction "unat L" arbitrary: k L m b s)
  case 0
  then have "L = 0" by (simp add: unat_eq_0)
  with 0 have "poll_loop (stream_round ord clear task transfer bp) (walk ord Length k, L, m, b, s) =
      Some ((ENDPOINT_RWSTREAM_NoError, bp), walk ord Length k, L, m, b, s)" "I (unat Length) b s"
    by (auto intro!: poll_stop simp: stream_round_def)
  then show ?case by blast
next
  case (Suc n)
  then have "L \<noteq> 0" by auto
  then have L: "L \<noteq> 0" "unat (L - 1) = n" using Suc.hyps(2) by (simp_all add: unat_sub_one)
  let ?a = "Endpoint_IsReadWriteAllowed s"
  have a: "fst ?a" using H hwI [OF Suc.prems(1)] by (simp add: banks_ready_def Endpoint_IsReadWriteAllowed_def tst_fst)
  have "k < unat Length" using Suc by simp
  from step [OF this stable [OF Suc.prems(1) glances_allowed]] obtain b' t where
    t: "transfer (walk ord Length k) (b, snd ?a) = Some (b', t)" "I (Suc k) b' t" by blast
  have "stream_round ord clear task transfer bp (walk ord Length k, L, m, b, s) =
      Some (None, walk ord Length (Suc k), L - 1, m + 1, b', t)"
    using L(1) a t(1) by (simp add: stream_round_def Let_def split_beta walk_Suc)
  note e = poll_again [of "stream_round ord clear task transfer bp", OF this]
  have "Suc k + unat (L - 1) = unat Length" using Suc.prems(2) Suc.hyps(2) L(2) by simp
  from Suc.hyps(1) [OF L(2) [symmetric] t(2) this, of "m + 1"] show ?case unfolding e .
qed

text \<open>A stream runs to its end; \<open>I k b s\<close> describes buffer and state after \<open>k\<close> bytes.\<close>

lemma stream_ready:
  assumes H: "banks_ready H" and hwI: "\<And>k b s. I k b s \<Longrightarrow> hw s = H"
    and stable: "\<And>k b s t. I k b s \<Longrightarrow> glances s t \<Longrightarrow> I k b t"
    and step: "\<And>k b s. k < unat Length \<Longrightarrow> I k b s \<Longrightarrow> \<exists>b' t. transfer (walk ord Length k) (b, s) = Some (b', t) \<and> I (Suc k) b' t"
    and "I 0 b s" "bp = None \<or> bp = Some 0"
  shows "\<exists>b' t. stream_template ord clear task transfer b Length bp s = Some (ENDPOINT_RWSTREAM_NoError, bp, b', t) \<and> I (unat Length) b' t"
proof -
  from wait_ready [of s] H hwI [OF assms(5)] obtain u where
    u: "Endpoint_WaitUntilReady s = Some (ENDPOINT_READYWAIT_NoError, u)" "glances s u" by auto
  have "\<exists>x y z b' t. poll_loop (stream_round ord clear task transfer bp) (walk ord Length 0, Length, 0, b, u) =
      Some ((ENDPOINT_RWSTREAM_NoError, bp), x, y, z, b', t) \<and> I (unat Length) b' t"
    by (rule loop_ready [where I = I and H = H]) (rule H, erule hwI, erule (1) stable, erule (1) step, rule stable [OF assms(5) u(2)], simp)
  then obtain x y z b' t where t: "poll_loop (stream_round ord clear task transfer bp) (walk ord Length 0, Length, 0, b, u) =
      Some ((ENDPOINT_RWSTREAM_NoError, bp), x, y, z, b', t)" "I (unat Length) b' t" by blast
  have z: "buffer_move ord p 0 = p" for p by (simp add: buffer_move_def split: order.split)
  from assms(6) have "stream_template ord clear task transfer b Length bp s = Some (ENDPOINT_RWSTREAM_NoError, bp, b', t)"
    using t(1) u(1) unfolding stream_template_def walk_0 by (elim disjE) (simp_all add: z)
  with t(2) show ?thesis by blast
qed

section \<open>No byte is lost or repeated\<close>

text \<open>A function that keeps the hardware and writes no data, at least while the hardware is \<open>H\<close>.\<close>

definition dataless :: "(acc list \<Rightarrow> reg \<Rightarrow> u8) \<Rightarrow> 's mcu_scheme \<Rightarrow> 's mcu_scheme \<Rightarrow> bool" where
  "dataless H s t \<longleftrightarrow> (hw s = H \<longrightarrow> hw t = H \<and> wrote UEDATX t = wrote UEDATX s)"

lemma touches_dataless: "touches R s t \<Longrightarrow> UEDATX \<notin> R \<Longrightarrow> dataless H s t"
  by (simp add: dataless_def touches_wrote touches_hw)

text \<open>
  The contract between a stream and the routine that moves one byte: at position \<open>k\<close> it sends the byte
  \<open>k\<close> of \<open>d\<close> and keeps the buffer.
\<close>

locale byte_stream =
  fixes ord :: order and clear :: "'s mcu_scheme \<Rightarrow> 's mcu_scheme" and task :: "'s mcu_scheme \<Rightarrow> 's mcu_scheme option"
    and transfer :: "int \<Rightarrow> 'b \<times> 's mcu_scheme \<Rightarrow> ('b \<times> 's mcu_scheme) option"
    and b :: 'b and Length :: u16 and d :: "u8 list" and H :: "acc list \<Rightarrow> reg \<Rightarrow> u8"
  assumes length_d: "length d = unat Length"
    and transfer_byte: "k < unat Length \<Longrightarrow> transfer (walk ord Length k) (b, s) = Some (b', s') \<Longrightarrow>
      b' = b \<and> hw s' = hw s \<and> wrote UEDATX s' = wrote UEDATX s @ [d ! k]"
    and clear_dataless: "dataless H s (clear s)"
    and task_dataless: "task s = Some t \<Longrightarrow> dataless H s t"
begin

definition moved :: "u8 list \<Rightarrow> nat \<Rightarrow> int \<times> u16 \<times> u16 \<times> 'b \<times> 's mcu_scheme \<Rightarrow> bool" where
  "moved w0 n0 = (\<lambda>(DataStream, L, BytesInTransfer, b', s). b' = b \<and> hw s = H \<and>
     (\<exists>k. DataStream = walk ord Length (n0 + k) \<and> n0 + k + unat L = unat Length \<and> BytesInTransfer = of_nat k \<and>
        wrote UEDATX s = w0 @ take k (drop n0 d)))"

lemma moved_dataless: "moved w0 n0 (p, L, m, b', s) \<Longrightarrow> dataless H s t \<Longrightarrow> moved w0 n0 (p, L, m, b', t)"
  by (auto simp: moved_def dataless_def)

lemma moved_byte:
  assumes "moved w0 n0 (p, L, m, b', s)" "L \<noteq> 0" "transfer p (b', s) = Some (b'', s')"
  shows "moved w0 n0 (buffer_move ord p 1, L - 1, m + 1, b'', s')"
proof -
  from assms(1) obtain k where k: "b' = b" "hw s = H" "p = walk ord Length (n0 + k)" "n0 + k + unat L = unat Length"
    "m = of_nat k" "wrote UEDATX s = w0 @ take k (drop n0 d)" by (auto simp: moved_def)
  from assms(2) have L: "unat L > 0" "unat (L - 1) = unat L - 1" by (auto simp: word_unat_eq_iff unat_minus_one)
  with k have n: "n0 + k < unat Length" by simp
  from transfer_byte [OF n, of s b'' s'] assms(3) k have "b'' = b" "hw s' = H" "wrote UEDATX s' = w0 @ take k (drop n0 d) @ [d ! (n0 + k)]"
    by auto
  moreover have "take (Suc k) (drop n0 d) = take k (drop n0 d) @ [d ! (n0 + k)]"
    using n length_d by (simp add: take_Suc_conv_app_nth)
  ultimately show ?thesis using k L by (auto simp: moved_def walk_Suc intro!: exI [of _ "Suc k"])
qed

lemma round_moved:
  assumes I: "moved w0 n0 (p, L, m, b', s)" and r: "stream_round ord clear task transfer bp (p, L, m, b', s) = Some (r, x)"
  shows "moved w0 n0 x \<and> (\<forall>e n. r = Some (e, n) \<longrightarrow> (e = ENDPOINT_RWSTREAM_NoError \<longrightarrow> fst (snd x) = 0) \<and>
    (e = ENDPOINT_RWSTREAM_IncompleteTransfer \<longrightarrow> (\<exists>n0. bp = Some n0 \<and> n = Some (n0 + fst (snd (snd x))))))"
proof -
  let ?a = "Endpoint_IsReadWriteAllowed s"
  have a: "dataless H s (snd ?a)" by (rule touches_dataless [where R = "{}"]) (intro touch touches_refl, simp)
  note Ia = moved_dataless [OF I a]
  consider "L = 0" | "L \<noteq> 0" "fst ?a" | "L \<noteq> 0" "\<not> fst ?a" by blast
  then show ?thesis
  proof cases
    case 1
    with I r show ?thesis by (auto simp: stream_round_def)
  next
    case 2
    with r obtain b'' s' where "transfer p (b', snd ?a) = Some (b'', s')" "r = None"
      "x = (buffer_move ord p 1, L - 1, m + 1, b'', s')"
      by (auto simp: stream_round_def Let_def split_beta bind_eq_Some_conv)
    with moved_byte [OF Ia 2(1)] show ?thesis by simp
  next
    case 3
    with r obtain t where t: "task (clear (snd ?a)) = Some t"
      and x: "(case bp of Some n \<Rightarrow> Some (Some (ENDPOINT_RWSTREAM_IncompleteTransfer, Some (n + m)), p, L, m, b', t)
        | None \<Rightarrow> do { (ErrorCode, s) \<leftarrow> Endpoint_WaitUntilReady t;
            Some (if ErrorCode = ENDPOINT_READYWAIT_NoError then None else Some (rw_code ErrorCode, None), p, L, m, b', s) }) = Some (r, x)"
      by (auto simp: stream_round_def Let_def split_beta bind_eq_Some_conv cong: option.case_cong)
    note It = moved_dataless [OF moved_dataless [OF Ia clear_dataless] task_dataless [OF t]]
    show ?thesis
    proof (cases bp)
      case None
      with x obtain e s' where w: "Endpoint_WaitUntilReady t = Some (e, s')" and
        "r = (if e = ENDPOINT_READYWAIT_NoError then None else Some (rw_code e, None))" "x = (p, L, m, b', s')"
        by (auto simp: bind_eq_Some_conv)
      moreover have "dataless H t s'" using WaitUntilReady_seen [OF w] by (auto intro: touches_dataless)
      ultimately show ?thesis using moved_dataless [OF It] by (cases e) auto
    next
      case (Some n)
      with x It show ?thesis by auto
    qed
  qed
qed

lemma template_bytes:
  assumes r: "stream_template ord clear task transfer b Length bp s = Some (e, bp', b', s')" and "hw s = H"
    and n0: "n0 = (case bp of None \<Rightarrow> 0 | Some n \<Rightarrow> unat n)" "n0 \<le> unat Length"
  shows "\<exists>k. n0 + k \<le> unat Length \<and> wrote UEDATX s' = wrote UEDATX s @ take k (drop n0 d) \<and>
    (e = ENDPOINT_RWSTREAM_NoError \<longrightarrow> n0 + k = unat Length) \<and>
    (e = ENDPOINT_RWSTREAM_IncompleteTransfer \<longrightarrow> (\<exists>n. bp = Some n \<and> bp' = Some (n + of_nat k)))"
proof -
  from r obtain c t where w: "Endpoint_WaitUntilReady s = Some (c, t)"
    by (cases "Endpoint_WaitUntilReady s") (auto simp: stream_template_def)
  have t: "wrote UEDATX t = wrote UEDATX s" "hw t = H"
    using WaitUntilReady_seen [OF w] \<open>hw s = H\<close> by (auto dest: touches_same_wrote touches_hw)
  show ?thesis
  proof (cases "c = ENDPOINT_READYWAIT_NoError")
    case False
    with r w have "e = rw_code c" "s' = t" by (auto simp: stream_template_def)
    with False t n0 show ?thesis by (intro exI [of _ 0]) (cases c; simp)
  next
    case True
    let ?L = "case bp of Some n \<Rightarrow> Length - n | None \<Rightarrow> Length"
      and ?p = "case bp of Some n \<Rightarrow> buffer_move ord (buffer_offset ord Length) (uint n) | None \<Rightarrow> buffer_offset ord Length"
    from r w True obtain p L m where
      x: "poll_loop (stream_round ord clear task transfer bp) (?p, ?L, 0, b, t) = Some ((e, bp'), p, L, m, b', s')"
      by (cases bp) (auto simp: stream_template_def bind_eq_Some_conv)
    have "?p = walk ord Length n0" "unat ?L = unat Length - n0"
      using n0 by (auto simp: walk_def buffer_offset_def buffer_move_def unat_sub word_le_nat_alt split: option.splits order.splits)
    then have start: "moved (wrote UEDATX s) n0 (?p, ?L, 0, b, t)" using t n0(2) by (auto simp: moved_def intro!: exI [of _ 0])
    have "(\<lambda>(e, n) x. moved (wrote UEDATX s) n0 x \<and> (e = ENDPOINT_RWSTREAM_NoError \<longrightarrow> fst (snd x) = 0) \<and>
      (e = ENDPOINT_RWSTREAM_IncompleteTransfer \<longrightarrow> (\<exists>n0. bp = Some n0 \<and> n = Some (n0 + fst (snd (snd x)))))) (e, bp') (p, L, m, b', s')"
    proof (rule poll_loop_rule [OF x, where I = "moved (wrote UEDATX s) n0"])
      fix u v assume "moved (wrote UEDATX s) n0 u" "stream_round ord clear task transfer bp u = Some (None, v)"
      then show "moved (wrote UEDATX s) n0 v" using round_moved by (cases u) blast
    next
      fix u q v assume "moved (wrote UEDATX s) n0 u" "stream_round ord clear task transfer bp u = Some (Some q, v)"
      then show "(\<lambda>(e, n) x. moved (wrote UEDATX s) n0 x \<and> (e = ENDPOINT_RWSTREAM_NoError \<longrightarrow> fst (snd x) = 0) \<and>
        (e = ENDPOINT_RWSTREAM_IncompleteTransfer \<longrightarrow> (\<exists>n0. bp = Some n0 \<and> n = Some (n0 + fst (snd (snd x)))))) q v"
        using round_moved by (cases u; cases q) (auto; blast)
    qed (rule start)
    then have m: "moved (wrote UEDATX s) n0 (p, L, m, b', s')" "e = ENDPOINT_RWSTREAM_NoError \<longrightarrow> L = 0"
      "e = ENDPOINT_RWSTREAM_IncompleteTransfer \<longrightarrow> (\<exists>n0. bp = Some n0 \<and> bp' = Some (n0 + m))" by auto
    then obtain k where "n0 + k + unat L = unat Length" "m = of_nat k" "wrote UEDATX s' = wrote UEDATX s @ take k (drop n0 d)"
      by (auto simp: moved_def)
    with m(2,3) show ?thesis by (intro exI [of _ k]) auto
  qed
qed

end

text \<open>The null stream sends zeros, and the write streams their buffer, while no control request comes.\<close>

interpretation null_stream: byte_stream LE "Endpoint_ClearIN :: 's mcu_scheme \<Rightarrow> 's mcu_scheme" Some
  "\<lambda>_ (_, s). Some ((), Endpoint_Write_8 0 s)" "()" Length "replicate (unat Length) 0" H
  for Length :: u16 and H :: "acc list \<Rightarrow> reg \<Rightarrow> u8"
proof
  show "dataless H s (Endpoint_ClearIN s)" for s :: "'s mcu_scheme"
    by (rule touches_dataless [where R = "{UEINTX}"]) (intro touch touches_refl, simp_all)
qed (auto simp: Endpoint_Write_8_def dataless_def)

lemma Null_Stream_zeros:
  assumes "Endpoint_Null_Stream Length None s = Some (ENDPOINT_RWSTREAM_NoError, bp, b, s')"
  shows "wrote UEDATX s' = wrote UEDATX s @ replicate (unat Length) 0"
  using null_stream.template_bytes [OF assms [unfolded Endpoint_Null_Stream_def] refl, of 0] by simp

definition no_requests :: "(acc list \<Rightarrow> reg \<Rightarrow> u8) \<Rightarrow> bool" where
  "no_requests H \<longleftrightarrow> (\<forall>l. \<not> tst (H l UEINTX) RXSTPI)"

lemma task_idle:
  assumes "USB_USBTask app s = Some t" "no_requests (hw s)"
  shows "touches {UENUM} s t"
proof -
  let ?p = "Endpoint_GetCurrentEndpoint (snd (rd GPIOR0 s))"
  let ?c = "Endpoint_SelectEndpoint ENDPOINT_CONTROLEP (snd ?p)"
  have c: "touches {UENUM} s ?c" by (intro touch touches_refl) simp
  then have "hw ?c = hw s" by (rule touches_hw)
  with assms(2) have "\<not> fst (Endpoint_IsSETUPReceived ?c)"
    by (simp add: no_requests_def Endpoint_IsSETUPReceived_def tst_fst)
  with assms(1) have "t = (if fst (rd GPIOR0 s) = DEVICE_STATE_Unattached then snd (rd GPIOR0 s)
      else Endpoint_SelectEndpoint (fst ?p) (snd (Endpoint_IsSETUPReceived ?c)))"
    by (auto simp: USB_USBTask_def USB_DeviceTask_def Let_def split_beta split: if_splits)
  moreover have "touches {UENUM} s (if fst (rd GPIOR0 s) = DEVICE_STATE_Unattached then snd (rd GPIOR0 s)
      else Endpoint_SelectEndpoint (fst ?p) (snd (Endpoint_IsSETUPReceived ?c)))"
    by (intro touch touches_refl) simp_all
  ultimately show ?thesis by simp
qed

lemma put_byte_at:
  assumes "k < unat Length" "unat Length \<le> length Buffer" "put_byte (walk ord Length k) (Buffer, s) = Some (b', s')"
  shows "b' = Buffer \<and> hw s' = hw s \<and> wrote UEDATX s' = wrote UEDATX s @ [stream ord Buffer Length ! k]"
  using assms(3) byte_at_walk [OF assms(1,2), of ord] by (auto simp: put_byte_def Endpoint_Write_8_def)

lemma write_stream:
  assumes "unat Length \<le> length Buffer" "no_requests H"
  shows "byte_stream ord Endpoint_ClearIN (USB_USBTask app) put_byte Buffer Length (stream ord Buffer Length) H"
proof
  show "length (stream ord Buffer Length) = unat Length" using assms(1) by simp
  show "dataless H s (Endpoint_ClearIN s)" for s :: "'a dev_scheme"
    by (rule touches_dataless [where R = "{UEINTX}"]) (intro touch touches_refl, simp_all)
  show "dataless H s t" if "USB_USBTask app s = Some t" for s t
    using task_idle [OF that] assms(2) touches_dataless [where R = "{UENUM}"] by (auto simp: dataless_def)
qed (rule put_byte_at [OF _ assms(1)])

text \<open>
  Property C28. A write stream neither loses nor repeats a byte, with or without interruption: while no control
  request comes, it has written the bytes of the buffer from \<open>BytesProcessed\<close> on, all of them when it
  reports no error, and when it reports an incomplete transfer it has advanced \<open>BytesProcessed\<close> by
  exactly the number of bytes written.
\<close>

theorem write_stream_resumes:
  assumes "stream_template ord Endpoint_ClearIN (USB_USBTask app) put_byte Buffer Length bp s = Some (e, bp', b', s')"
    and "unat Length \<le> length Buffer" "no_requests (hw s)"
    and "n0 = (case bp of None \<Rightarrow> 0 | Some n \<Rightarrow> unat n)" "n0 \<le> unat Length"
  shows "\<exists>k. n0 + k \<le> unat Length \<and> wrote UEDATX s' = wrote UEDATX s @ take k (drop n0 (stream ord Buffer Length)) \<and>
    (e = ENDPOINT_RWSTREAM_NoError \<longrightarrow> n0 + k = unat Length) \<and>
    (e = ENDPOINT_RWSTREAM_IncompleteTransfer \<longrightarrow> (\<exists>n. bp = Some n \<and> bp' = Some (n + of_nat k)))"
  by (rule byte_stream.template_bytes [OF write_stream [OF assms(2,3)] assms(1) refl assms(4,5)])

theorem write_stream_resumes_witness:
  "\<exists>s' b'. stream_template LE Endpoint_ClearIN (USB_USBTask (stub_application (\<lambda>_ _. (0, [])) (\<lambda>_. 0))) put_byte [5, 6, 7] 3 (Some 1)
     (dev_at (\<lambda>l r. if r = UEINTX then 0x25 else 0) \<lparr>bmRequestType = 0, bRequest = 0, wValue = 0, wIndex = 0, wLength = 0\<rparr>) =
     Some (ENDPOINT_RWSTREAM_NoError, Some 1, b', s') \<and> wrote UEDATX s' = [6, 7]"
proof -
  let ?app = "stub_application (\<lambda>_ _. (0, [])) (\<lambda>_. 0)"
  let ?s = "dev_at (\<lambda>l r. if r = UEINTX then 0x25 else 0) \<lparr>bmRequestType = 0, bRequest = 0, wValue = 0, wIndex = 0, wLength = 0\<rparr>"
  let ?r = "stream_template LE Endpoint_ClearIN (USB_USBTask ?app) put_byte [5, 6, 7] 3 (Some 1) ?s"
  have "map_option (\<lambda>(e, n, b, s). (e, n)) ?r = Some (ENDPOINT_RWSTREAM_NoError, Some 1)" by code_simp
  then obtain b' s' where r: "?r = Some (ENDPOINT_RWSTREAM_NoError, Some 1, b', s')" by auto
  have "\<not> tst 0x25 RXSTPI" "\<not> tst 0 RXSTPI" by code_simp+
  then have "no_requests (hw ?s)" by (simp add: no_requests_def)
  from write_stream_resumes [OF r _ this, of 1] r show ?thesis by (auto simp: stream_def)
qed

end
