(* ===== verification/USB_Controller.thy ===== *)
theory USB_Controller
  imports Device_Std_Req
begin

text \<open>
  The USB controller: \<open>USBController_AVR8.h\<close>, \<open>USBController_AVR8.c\<close>, \<open>USBInterrupt_AVR8.h\<close>,
  \<open>USBInterrupt_AVR8.c\<close> and \<open>Device_AVR8.c\<close> under \<open>src/AT16u2/LUFA/Drivers/USB/Core/AVR8\<close>, for the ATmega16U2
  in device mode with the static options of \<open>LUFAConfig.h\<close>.
\<close>

section \<open>Interrupt sources\<close>

datatype USB_Interrupts = USB_INT_WAKEUPI | USB_INT_SUSPI | USB_INT_EORSTI | USB_INT_SOFI | USB_INT_RXSTPI

definition USB_INT_Enable :: "USB_Interrupts \<Rightarrow> 'a mcu_scheme \<Rightarrow> 'a mcu_scheme" where
  "USB_INT_Enable Interrupt s = (case Interrupt of
     USB_INT_WAKEUPI \<Rightarrow> set_bits UDIEN (bv WAKEUPI) s
   | USB_INT_SUSPI \<Rightarrow> set_bits UDIEN (bv SUSPI) s
   | USB_INT_EORSTI \<Rightarrow> set_bits UDIEN (bv EORSTI) s
   | USB_INT_SOFI \<Rightarrow> set_bits UDIEN (bv SOFI) s
   | USB_INT_RXSTPI \<Rightarrow> set_bits UEIENX (bv RXSTPE) s)"

definition USB_INT_Disable :: "USB_Interrupts \<Rightarrow> 'a mcu_scheme \<Rightarrow> 'a mcu_scheme" where
  "USB_INT_Disable Interrupt s = (case Interrupt of
     USB_INT_WAKEUPI \<Rightarrow> clr_bits UDIEN (bv WAKEUPI) s
   | USB_INT_SUSPI \<Rightarrow> clr_bits UDIEN (bv SUSPI) s
   | USB_INT_EORSTI \<Rightarrow> clr_bits UDIEN (bv EORSTI) s
   | USB_INT_SOFI \<Rightarrow> clr_bits UDIEN (bv SOFI) s
   | USB_INT_RXSTPI \<Rightarrow> clr_bits UEIENX (bv RXSTPE) s)"

definition USB_INT_Clear :: "USB_Interrupts \<Rightarrow> 'a mcu_scheme \<Rightarrow> 'a mcu_scheme" where
  "USB_INT_Clear Interrupt s = (case Interrupt of
     USB_INT_WAKEUPI \<Rightarrow> clr_bits UDINT (bv WAKEUPI) s
   | USB_INT_SUSPI \<Rightarrow> clr_bits UDINT (bv SUSPI) s
   | USB_INT_EORSTI \<Rightarrow> clr_bits UDINT (bv EORSTI) s
   | USB_INT_SOFI \<Rightarrow> clr_bits UDINT (bv SOFI) s
   | USB_INT_RXSTPI \<Rightarrow> clr_bits UEINTX (bv RXSTPI) s)"

definition USB_INT_IsEnabled :: "USB_Interrupts \<Rightarrow> 'a mcu_scheme \<Rightarrow> bool \<times> 'a mcu_scheme" where
  "USB_INT_IsEnabled Interrupt s = (case Interrupt of
     USB_INT_WAKEUPI \<Rightarrow> tst_bit_of UDIEN WAKEUPI s
   | USB_INT_SUSPI \<Rightarrow> tst_bit_of UDIEN SUSPI s
   | USB_INT_EORSTI \<Rightarrow> tst_bit_of UDIEN EORSTI s
   | USB_INT_SOFI \<Rightarrow> tst_bit_of UDIEN SOFI s
   | USB_INT_RXSTPI \<Rightarrow> tst_bit_of UEIENX RXSTPE s)"

definition USB_INT_HasOccurred :: "USB_Interrupts \<Rightarrow> 'a mcu_scheme \<Rightarrow> bool \<times> 'a mcu_scheme" where
  "USB_INT_HasOccurred Interrupt s = (case Interrupt of
     USB_INT_WAKEUPI \<Rightarrow> tst_bit_of UDINT WAKEUPI s
   | USB_INT_SUSPI \<Rightarrow> tst_bit_of UDINT SUSPI s
   | USB_INT_EORSTI \<Rightarrow> tst_bit_of UDINT EORSTI s
   | USB_INT_SOFI \<Rightarrow> tst_bit_of UDINT SOFI s
   | USB_INT_RXSTPI \<Rightarrow> tst_bit_of UEINTX RXSTPI s)"

definition USB_INT_DisableAllInterrupts :: "'a mcu_scheme \<Rightarrow> 'a mcu_scheme" where
  "USB_INT_DisableAllInterrupts s = wr UDIEN 0 s"

definition USB_INT_ClearAllInterrupts :: "'a mcu_scheme \<Rightarrow> 'a mcu_scheme" where
  "USB_INT_ClearAllInterrupts s = wr UDINT 0 s"

definition USB_Device_EnableSOFEvents :: "'a mcu_scheme \<Rightarrow> 'a mcu_scheme" where
  "USB_Device_EnableSOFEvents s = USB_INT_Enable USB_INT_SOFI s"

definition USB_Device_DisableSOFEvents :: "'a mcu_scheme \<Rightarrow> 'a mcu_scheme" where
  "USB_Device_DisableSOFEvents s = USB_INT_Disable USB_INT_SOFI s"

section \<open>The controller\<close>

abbreviation USB_Options :: u8 where "USB_Options \<equiv> 0"
abbreviation USB_OPT_REG_DISABLED :: u8 where "USB_OPT_REG_DISABLED \<equiv> 0x02"
abbreviation USB_OPT_REG_KEEP_ENABLED :: u8 where "USB_OPT_REG_KEEP_ENABLED \<equiv> 0x08"
abbreviation USB_OPT_MANUAL_PLL :: u8 where "USB_OPT_MANUAL_PLL \<equiv> 0x04"
definition USB_PLL_PSC :: u8 where "USB_PLL_PSC = bv PLLP0"

definition USB_Detach :: "'a mcu_scheme \<Rightarrow> 'a mcu_scheme" where
  "USB_Detach s = set_bits UDCON (bv DETACH) s"

definition USB_Attach :: "'a mcu_scheme \<Rightarrow> 'a mcu_scheme" where
  "USB_Attach s = clr_bits UDCON (bv DETACH) s"

definition USB_PLL_On :: "'a mcu_scheme \<Rightarrow> 'a mcu_scheme" where
  "USB_PLL_On s = wr PLLCSR (USB_PLL_PSC OR bv PLLE) (wr PLLCSR USB_PLL_PSC s)"

definition USB_PLL_Off :: "'a mcu_scheme \<Rightarrow> 'a mcu_scheme" where
  "USB_PLL_Off s = wr PLLCSR 0 s"

definition USB_PLL_IsReady :: "'a mcu_scheme \<Rightarrow> bool \<times> 'a mcu_scheme" where
  "USB_PLL_IsReady s = tst_bit_of PLLCSR PLOCK s"

definition USB_REG_On :: "'a mcu_scheme \<Rightarrow> 'a mcu_scheme" where
  "USB_REG_On s = clr_bits REGCR (bv REGDIS) s"

definition USB_REG_Off :: "'a mcu_scheme \<Rightarrow> 'a mcu_scheme" where
  "USB_REG_Off s = set_bits REGCR (bv REGDIS) s"

definition USB_CLK_Freeze :: "'a mcu_scheme \<Rightarrow> 'a mcu_scheme" where
  "USB_CLK_Freeze s = set_bits USBCON (bv FRZCLK) s"

definition USB_CLK_Unfreeze :: "'a mcu_scheme \<Rightarrow> 'a mcu_scheme" where
  "USB_CLK_Unfreeze s = clr_bits USBCON (bv FRZCLK) s"

definition USB_Controller_Enable :: "'a mcu_scheme \<Rightarrow> 'a mcu_scheme" where
  "USB_Controller_Enable s = set_bits USBCON (bv USBE) s"

definition USB_Controller_Disable :: "'a mcu_scheme \<Rightarrow> 'a mcu_scheme" where
  "USB_Controller_Disable s = clr_bits USBCON (bv USBE) s"

definition USB_Controller_Reset :: "'a mcu_scheme \<Rightarrow> 'a mcu_scheme" where
  "USB_Controller_Reset s = set_bits USBCON (bv USBE) (clr_bits USBCON (bv USBE) s)"

text \<open>\<open>USB_PLL_On(); while (!(USB_PLL_IsReady()));\<close>\<close>

definition pll_up :: "'a mcu_scheme \<Rightarrow> 'a mcu_scheme option" where
  "pll_up s = (if USB_Options AND USB_OPT_MANUAL_PLL = 0 then wait_set PLLCSR PLOCK (USB_PLL_On s) else Some s)"

definition pll_down :: "'a mcu_scheme \<Rightarrow> 'a mcu_scheme" where
  "pll_down s = (if USB_Options AND USB_OPT_MANUAL_PLL = 0 then USB_PLL_Off s else s)"

definition USB_Init_Device :: "'a dev_scheme \<Rightarrow> 'a dev_scheme option" where
  "USB_Init_Device s = do {
     let s = wr GPIOR0 DEVICE_STATE_Unattached s;
     let s = s\<lparr>USB_Device_ConfigurationNumber := 0, USB_Device_RemoteWakeupEnabled := False,
               USB_Device_CurrentlySelfPowered := False\<rparr>;
     (_, s) \<leftarrow> Endpoint_ConfigureEndpoint ENDPOINT_CONTROLEP EP_TYPE_CONTROL USB_Device_ControlEndpointSize 1 s;
     let s = USB_INT_Clear USB_INT_SUSPI s;
     let s = USB_INT_Enable USB_INT_SUSPI s;
     let s = USB_INT_Enable USB_INT_EORSTI s;
     Some (USB_Attach s) }"

definition USB_ResetInterface :: "'a dev_scheme \<Rightarrow> 'a dev_scheme option" where
  "USB_ResetInterface s = do {
     let s = USB_INT_DisableAllInterrupts s;
     let s = USB_INT_ClearAllInterrupts s;
     let s = USB_Controller_Reset s;
     let s = USB_CLK_Unfreeze s;
     s \<leftarrow> pll_up s;
     USB_Init_Device s }"

definition USB_Init :: "'a dev_scheme \<Rightarrow> 'a dev_scheme option" where
  "USB_Init s =
     (let s = (if USB_Options AND USB_OPT_REG_DISABLED = 0 then USB_REG_On s else USB_REG_Off s)
      in USB_ResetInterface (s\<lparr>USB_IsInitialized := True\<rparr>))"

definition USB_Disable :: "'a dev_scheme \<Rightarrow> 'a dev_scheme" where
  "USB_Disable s =
     (let s = USB_INT_DisableAllInterrupts s;
          s = USB_INT_ClearAllInterrupts s;
          s = USB_Detach s;
          s = USB_Controller_Disable s;
          s = pll_down s;
          s = (if USB_Options AND USB_OPT_REG_KEEP_ENABLED = 0 then USB_REG_Off s else s)
      in s\<lparr>USB_IsInitialized := False\<rparr>)"

definition USB_Device_SendRemoteWakeup :: "'a mcu_scheme \<Rightarrow> 'a mcu_scheme option" where
  "USB_Device_SendRemoteWakeup s = do {
     s \<leftarrow> pll_up s;
     let s = USB_CLK_Unfreeze s;
     let s = set_bits UDCON (bv RMWKUP) s;
     wait_clear UDCON RMWKUP s }"

section \<open>The interrupt handler\<close>

text \<open>\<open>USB_INT_HasOccurred(i) && USB_INT_IsEnabled(i)\<close>\<close>

definition int_pending :: "USB_Interrupts \<Rightarrow> 'a mcu_scheme \<Rightarrow> bool \<times> 'a mcu_scheme" where
  "int_pending i s = (let (b, s) = USB_INT_HasOccurred i s in if b then USB_INT_IsEnabled i s else (False, s))"

definition isr_sof :: "'a dev_scheme application \<Rightarrow> 'a dev_scheme \<Rightarrow> 'a dev_scheme option" where
  "isr_sof app s = EVENT_USB_Device_StartOfFrame app (USB_INT_Clear USB_INT_SOFI s)"

definition isr_suspend :: "'a dev_scheme application \<Rightarrow> 'a dev_scheme \<Rightarrow> 'a dev_scheme option" where
  "isr_suspend app s =
     (let s = USB_INT_Disable USB_INT_SUSPI s;
          s = USB_INT_Enable USB_INT_WAKEUPI s;
          s = USB_CLK_Freeze s;
          s = pll_down s;
          s = wr GPIOR0 DEVICE_STATE_Unattached s
      in EVENT_USB_Device_Disconnect app s)"

definition isr_wakeup :: "'a dev_scheme application \<Rightarrow> 'a dev_scheme \<Rightarrow> 'a dev_scheme option" where
  "isr_wakeup app s = do {
     s \<leftarrow> pll_up s;
     let s = USB_CLK_Unfreeze s;
     let s = USB_INT_Clear USB_INT_WAKEUPI s;
     let s = USB_INT_Disable USB_INT_WAKEUPI s;
     let s = USB_INT_Enable USB_INT_SUSPI s;
     let s = (if USB_Device_ConfigurationNumber s \<noteq> 0 then wr GPIOR0 DEVICE_STATE_Configured s
              else let (addressed, s) = USB_Device_IsAddressSet s
                   in wr GPIOR0 (if addressed then DEVICE_STATE_Addressed else DEVICE_STATE_Powered) s);
     EVENT_USB_Device_Connect app s }"

definition isr_reset :: "'a dev_scheme application \<Rightarrow> 'a dev_scheme \<Rightarrow> 'a dev_scheme option" where
  "isr_reset app s = do {
     let s = USB_INT_Clear USB_INT_EORSTI s;
     let s = wr GPIOR0 DEVICE_STATE_Default s;
     let s = s\<lparr>USB_Device_ConfigurationNumber := 0\<rparr>;
     let s = USB_INT_Clear USB_INT_SUSPI s;
     let s = USB_INT_Disable USB_INT_SUSPI s;
     let s = USB_INT_Enable USB_INT_WAKEUPI s;
     (_, s) \<leftarrow> Endpoint_ConfigureEndpoint ENDPOINT_CONTROLEP EP_TYPE_CONTROL USB_Device_ControlEndpointSize 1 s;
     EVENT_USB_Device_Reset app s }"

definition when_pending :: "USB_Interrupts \<Rightarrow> ('a mcu_scheme \<Rightarrow> 'a mcu_scheme option) \<Rightarrow> 'a mcu_scheme \<Rightarrow> 'a mcu_scheme option" where
  "when_pending i f s = (let (b, s) = int_pending i s in if b then f s else Some s)"

definition USB_GEN_vect :: "'a dev_scheme application \<Rightarrow> 'a dev_scheme \<Rightarrow> 'a dev_scheme option" where
  "USB_GEN_vect app s = do {
     s \<leftarrow> when_pending USB_INT_SOFI (isr_sof app) s;
     s \<leftarrow> when_pending USB_INT_SUSPI (isr_suspend app) s;
     s \<leftarrow> when_pending USB_INT_WAKEUPI (isr_wakeup app) s;
     when_pending USB_INT_EORSTI (isr_reset app) s }"

section \<open>Frames\<close>

lemma touch_INT [touch]:
  assumes "touches R s t" "UDIEN \<in> R" "UDINT \<in> R" "UEIENX \<in> R" "UEINTX \<in> R"
  shows "touches R s (USB_INT_Enable i t)" "touches R s (USB_INT_Disable i t)" "touches R s (USB_INT_Clear i t)"
  using assms by (cases i; simp add: USB_INT_Enable_def USB_INT_Disable_def USB_INT_Clear_def touch)+

lemma touch_controller [touch]:
  assumes "touches R s t"
  shows "UDCON \<in> R \<Longrightarrow> touches R s (USB_Attach t)" "UDCON \<in> R \<Longrightarrow> touches R s (USB_Detach t)"
    "PLLCSR \<in> R \<Longrightarrow> touches R s (USB_PLL_On t)" "PLLCSR \<in> R \<Longrightarrow> touches R s (pll_down t)"
    "REGCR \<in> R \<Longrightarrow> touches R s (USB_REG_On t)" "REGCR \<in> R \<Longrightarrow> touches R s (USB_REG_Off t)"
    "USBCON \<in> R \<Longrightarrow> touches R s (USB_CLK_Freeze t)" "USBCON \<in> R \<Longrightarrow> touches R s (USB_CLK_Unfreeze t)"
    "USBCON \<in> R \<Longrightarrow> touches R s (USB_Controller_Disable t)" "USBCON \<in> R \<Longrightarrow> touches R s (USB_Controller_Reset t)"
    "UDIEN \<in> R \<Longrightarrow> touches R s (USB_INT_DisableAllInterrupts t)" "UDINT \<in> R \<Longrightarrow> touches R s (USB_INT_ClearAllInterrupts t)"
  using assms by (simp_all add: USB_Attach_def USB_Detach_def USB_PLL_On_def pll_down_def USB_PLL_Off_def USB_REG_On_def
    USB_REG_Off_def USB_CLK_Freeze_def USB_CLK_Unfreeze_def USB_Controller_Disable_def USB_Controller_Reset_def
    USB_INT_DisableAllInterrupts_def USB_INT_ClearAllInterrupts_def touch)

lemma touch_pending [touch]: "touches R s t \<Longrightarrow> touches R s (snd (int_pending i t))"
  by (cases i) (simp_all add: int_pending_def USB_INT_HasOccurred_def USB_INT_IsEnabled_def Let_def split_beta touch)

lemma pll_up_touches: "pll_up s = Some t \<Longrightarrow> touches {PLLCSR} s t"
proof -
  assume "pll_up s = Some t"
  then have "wait_set PLLCSR PLOCK (USB_PLL_On s) = Some t" by (simp add: pll_up_def)
  from wait_set_touches [OF this, of "{PLLCSR}"] show ?thesis
    by (rule touches_trans [rotated]) (intro touch touches_refl, simp)
qed

lemma pll_up_returns: "raises (hw s) PLLCSR PLOCK \<Longrightarrow> \<exists>t. pll_up s = Some t"
  by (simp add: pll_up_def) (rule wait_set_total, simp add: USB_PLL_On_def)

definition configure_regs :: "reg set" where
  "configure_regs = {UENUM, UECONX, UECFG0X, UECFG1X, UEIENX}"

lemma configure_round_touches: "touches configure_regs s (snd (configure_round n a b e s))"
  unfolding configure_round_def Let_def split_beta
  by (auto intro!: touch simp: configure_regs_def split_beta split: if_splits)

lemma configure_loop_touches: "touches configure_regs s (snd (configure_loop n a b es s))"
  by (induction es arbitrary: s)
    (auto simp: split_beta Let_def intro: touches_trans configure_round_touches)

lemma Configure_Prv_touches:
  assumes "Endpoint_ConfigureEndpoint_Prv m x y s = (ok, t)"
  shows "touches configure_regs s t"
proof -
  let ?l = "configure_loop m x y [unat m ..< ENDPOINT_TOTAL_ENDPOINTS] s"
  have "t = (if fst ?l then Endpoint_SelectEndpoint m (snd ?l) else snd ?l)"
    using assms by (auto simp: Endpoint_ConfigureEndpoint_Prv_def split_beta split: if_splits)
  moreover have "touches configure_regs s (if fst ?l then Endpoint_SelectEndpoint m (snd ?l) else snd ?l)"
    by (intro touch configure_loop_touches) (simp add: configure_regs_def)
  ultimately show ?thesis by simp
qed

lemma Configure_touches:
  assumes "Endpoint_ConfigureEndpoint a ty n bk s = Some (ok, t)"
  shows "touches configure_regs s t"
  using assms unfolding Endpoint_ConfigureEndpoint_def Let_def
  by (auto simp: bind_eq_Some_conv simp del: EPTYPE0_def EPDIR_def ALLOC_def EPBK0_def
    split: if_split_asm dest!: Configure_Prv_touches)

lemma Configure_control:
  "\<exists>ok t. Endpoint_ConfigureEndpoint ENDPOINT_CONTROLEP EP_TYPE_CONTROL USB_Device_ControlEndpointSize 1 s = Some (ok, t)"
proof -
  have "Endpoint_BytesToEPSizeMask USB_Device_ControlEndpointSize = Some 0" by code_simp
  then show ?thesis by (simp add: Endpoint_ConfigureEndpoint_def ENDPOINT_TOTAL_ENDPOINTS_def Let_def)
qed

section \<open>Laws\<close>

text \<open>The registers used to bring the controller up\<close>

definition init_regs :: "reg set" where
  "init_regs = configure_regs \<union> {GPIOR0, UDIEN, UDINT, UEINTX, UDCON, PLLCSR, REGCR, USBCON}"

text \<open>
  When the PLL locks, \<open>USB_Init\<close> returns: it has marked the device as initialised, unattached and
  not configured, has enabled the suspend and the reset interrupt after clearing a pending suspend,
  and attaches to the bus with its last write.
\<close>

lemma USB_Init_attaches:
  fixes s :: "'a dev_scheme"
  assumes "raises (hw s) PLLCSR PLOCK"
  shows "\<exists>s' a b c v l. USB_Init s = Some s' \<and> USB_IsInitialized s' \<and> USB_Device_ConfigurationNumber s' = 0 \<and>
    \<not> USB_Device_RemoteWakeupEnabled s' \<and> \<not> USB_Device_CurrentlySelfPowered s' \<and> adds init_regs s s' \<and>
    wrote GPIOR0 s' = wrote GPIOR0 s @ [DEVICE_STATE_Unattached] \<and>
    log s' = [Wr UDCON (v AND NOT (bv DETACH)), Rd UDCON v, Wr UDIEN (c OR bv EORSTI), Rd UDIEN c,
      Wr UDIEN (b OR bv SUSPI), Rd UDIEN b, Wr UDINT (a AND NOT (bv SUSPI)), Rd UDINT a] @ l"
proof -
  let ?s1 = "(USB_REG_On s)\<lparr>USB_IsInitialized := True\<rparr>"
  let ?s2 = "USB_CLK_Unfreeze (USB_Controller_Reset (USB_INT_ClearAllInterrupts (USB_INT_DisableAllInterrupts ?s1)))"
  have t1: "touches (init_regs - {GPIOR0}) s (USB_REG_On s)" by (intro touch touches_refl) (simp add: init_regs_def)
  then have a1: "adds (init_regs - {GPIOR0}) s ?s1" by (auto dest!: touches_adds simp: adds_def)
  have t2: "touches (init_regs - {GPIOR0}) ?s1 ?s2" by (intro touch touches_refl) (auto simp: init_regs_def)
  from touches_hw [OF t2] adds_hw [OF a1] assms obtain s3 where s3: "pll_up ?s2 = Some s3"
    using pll_up_returns [of ?s2] by auto
  from pll_up_touches [OF s3] have t3: "touches (init_regs - {GPIOR0}) ?s2 s3" by (elim touches_mono) (simp add: init_regs_def)
  let ?s4 = "(wr GPIOR0 DEVICE_STATE_Unattached s3)\<lparr>USB_Device_ConfigurationNumber := 0, USB_Device_RemoteWakeupEnabled := False,
     USB_Device_CurrentlySelfPowered := False\<rparr>"
  obtain ok s5 where s5: "Endpoint_ConfigureEndpoint ENDPOINT_CONTROLEP EP_TYPE_CONTROL USB_Device_ControlEndpointSize 1 ?s4 = Some (ok, s5)"
    using Configure_control [of ?s4] by blast
  let ?s6 = "USB_Attach (USB_INT_Enable USB_INT_EORSTI (USB_INT_Enable USB_INT_SUSPI (USB_INT_Clear USB_INT_SUSPI s5)))"
  from Configure_touches [OF s5] have t5: "touches (init_regs - {GPIOR0}) ?s4 s5"
    by (elim touches_mono) (auto simp: init_regs_def configure_regs_def)
  have t6: "touches (init_regs - {GPIOR0}) ?s4 ?s6"
    by (rule touches_trans [OF t5]) (intro touch touches_refl; simp add: init_regs_def configure_regs_def)
  have "USB_Init s = Some ?s6"
    using s3 s5 by (simp add: USB_Init_def USB_ResetInterface_def USB_Init_Device_def Let_def)
  moreover have a3: "adds (init_regs - {GPIOR0}) s s3" using a1 t2 t3 by (blast intro: adds_touches)
  moreover have "wrote GPIOR0 ?s6 = wrote GPIOR0 s @ [DEVICE_STATE_Unattached]"
    using adds_wrote [OF a3, of GPIOR0] touches_wrote [OF t6, of GPIOR0] by (simp add: wrote_def)
  moreover have "adds init_regs s ?s6"
  proof -
    have "touches init_regs s3 (wr GPIOR0 DEVICE_STATE_Unattached s3)" by (intro touch touches_refl) (simp add: init_regs_def)
    from adds_touches [OF adds_mono [OF a3 Diff_subset] this] have "adds init_regs s ?s4" by (auto simp: adds_def)
    then show ?thesis using touches_mono [OF t6 Diff_subset] by (rule adds_touches)
  qed
  moreover have "\<exists>a b c v l. log ?s6 = [Wr UDCON (v AND NOT (bv DETACH)), Rd UDCON v, Wr UDIEN (c OR bv EORSTI), Rd UDIEN c,
      Wr UDIEN (b OR bv SUSPI), Rd UDIEN b, Wr UDINT (a AND NOT (bv SUSPI)), Rd UDINT a] @ l"
    by (simp add: USB_Attach_def USB_INT_Enable_def USB_INT_Clear_def set_bits_def clr_bits_def rd_def Let_def)
  moreover have "USB_IsInitialized ?s6" "USB_Device_ConfigurationNumber ?s6 = 0" "\<not> USB_Device_RemoteWakeupEnabled ?s6"
    "\<not> USB_Device_CurrentlySelfPowered ?s6"
    using touches_dev [OF t6] touches_dev [OF touches_trans [OF t2 t3]] by (simp_all add: wr_def)
  ultimately show ?thesis by blast
qed

text \<open>What each part of the interrupt handler does before it calls the event of the application.\<close>

lemma isr_suspend_does:
  assumes "isr_suspend app s = Some s'"
  shows "\<exists>t. EVENT_USB_Device_Disconnect app t = Some s' \<and> wrote GPIOR0 t = wrote GPIOR0 s @ [DEVICE_STATE_Unattached] \<and>
    USB_Device_ConfigurationNumber t = USB_Device_ConfigurationNumber s \<and> adds init_regs s t"
proof -
  let ?u = "pll_down (USB_CLK_Freeze (USB_INT_Enable USB_INT_WAKEUPI (USB_INT_Disable USB_INT_SUSPI s)))"
  have u: "touches (init_regs - {GPIOR0}) s ?u"
    by (intro touch touches_refl) (auto simp: init_regs_def configure_regs_def)
  have "EVENT_USB_Device_Disconnect app (wr GPIOR0 DEVICE_STATE_Unattached ?u) = Some s'"
    using assms by (simp add: isr_suspend_def Let_def)
  moreover have "wrote GPIOR0 (wr GPIOR0 DEVICE_STATE_Unattached ?u) = wrote GPIOR0 s @ [DEVICE_STATE_Unattached]"
    using touches_wrote [OF u, of GPIOR0] by simp
  moreover have "USB_Device_ConfigurationNumber (wr GPIOR0 DEVICE_STATE_Unattached ?u) = USB_Device_ConfigurationNumber s"
    using touches_dev [OF u] by (simp add: wr_def)
  moreover have "adds init_regs s (wr GPIOR0 DEVICE_STATE_Unattached ?u)"
    by (rule touches_adds [OF touch_wr [OF touches_mono [OF u Diff_subset]]]) (simp add: init_regs_def)
  ultimately show ?thesis by blast
qed

lemma isr_wakeup_does:
  assumes "isr_wakeup app s = Some s'"
  shows "\<exists>t v. EVENT_USB_Device_Connect app t = Some s' \<and>
    wrote GPIOR0 t = wrote GPIOR0 s @ [if USB_Device_ConfigurationNumber s \<noteq> 0 then DEVICE_STATE_Configured
      else if tst v ADDEN then DEVICE_STATE_Addressed else DEVICE_STATE_Powered] \<and>
    USB_Device_ConfigurationNumber t = USB_Device_ConfigurationNumber s \<and> adds init_regs s t"
proof -
  from assms obtain p where p: "pll_up s = Some p" by (auto simp: isr_wakeup_def bind_eq_Some_conv)
  let ?u = "USB_INT_Enable USB_INT_SUSPI (USB_INT_Disable USB_INT_WAKEUPI (USB_INT_Clear USB_INT_WAKEUPI (USB_CLK_Unfreeze p)))"
  have u: "touches (init_regs - {GPIOR0}) s ?u"
    by (rule touches_trans [OF touches_mono [OF pll_up_touches [OF p]]])
      (auto intro!: touch simp: init_regs_def configure_regs_def)
  let ?c = "USB_Device_ConfigurationNumber s" and ?a = "USB_Device_IsAddressSet ?u"
  define t where "t = (if ?c \<noteq> 0 then wr GPIOR0 DEVICE_STATE_Configured ?u
    else wr GPIOR0 (if fst ?a then DEVICE_STATE_Addressed else DEVICE_STATE_Powered) (snd ?a))"
  have "EVENT_USB_Device_Connect app t = Some s'"
    using assms p touches_dev [OF u] by (cases "?c = 0") (simp_all add: isr_wakeup_def t_def Let_def split_beta)
  moreover have a: "touches (init_regs - {GPIOR0}) s (snd ?a)" by (intro touch u)
  have "wrote GPIOR0 t = wrote GPIOR0 s @ [if ?c \<noteq> 0 then DEVICE_STATE_Configured
      else if tst (hw ?u (log ?u) UDADDR) ADDEN then DEVICE_STATE_Addressed else DEVICE_STATE_Powered]"
    using touches_wrote [OF u, of GPIOR0] touches_wrote [OF a, of GPIOR0]
    by (simp add: t_def USB_Device_IsAddressSet_def tst_fst)
  moreover have "USB_Device_ConfigurationNumber t = ?c"
    using touches_dev [OF u] touches_dev [OF a] by (simp add: t_def wr_def)
  moreover have "adds init_regs s t" unfolding t_def
    by (intro touches_adds touch touches_mono [OF u Diff_subset] touches_mono [OF a Diff_subset]) (simp_all add: init_regs_def)
  ultimately show ?thesis by blast
qed

lemma isr_reset_does:
  assumes "isr_reset app s = Some s'"
  shows "\<exists>t. EVENT_USB_Device_Reset app t = Some s' \<and> wrote GPIOR0 t = wrote GPIOR0 s @ [DEVICE_STATE_Default] \<and>
    USB_Device_ConfigurationNumber t = 0 \<and> adds init_regs s t"
proof -
  let ?w = "wr GPIOR0 DEVICE_STATE_Default (USB_INT_Clear USB_INT_EORSTI s)"
  let ?v = "?w\<lparr>USB_Device_ConfigurationNumber := 0\<rparr>"
  let ?u = "USB_INT_Enable USB_INT_WAKEUPI (USB_INT_Disable USB_INT_SUSPI (USB_INT_Clear USB_INT_SUSPI ?v))"
  from assms obtain ok t where t: "Endpoint_ConfigureEndpoint ENDPOINT_CONTROLEP EP_TYPE_CONTROL USB_Device_ControlEndpointSize 1 ?u = Some (ok, t)"
    "EVENT_USB_Device_Reset app t = Some s'" by (auto simp: isr_reset_def bind_eq_Some_conv Let_def)
  have "touches (init_regs - {GPIOR0}) ?v ?u" by (intro touch touches_refl) (auto simp: init_regs_def configure_regs_def)
  with touches_mono [OF Configure_touches [OF t(1)]] have u: "touches (init_regs - {GPIOR0}) ?v t"
    by (elim touches_trans) (auto simp: init_regs_def configure_regs_def)
  have "touches (init_regs - {GPIOR0}) s (USB_INT_Clear USB_INT_EORSTI s)"
    by (intro touch touches_refl) (auto simp: init_regs_def configure_regs_def)
  from touches_wrote [OF this, of GPIOR0] touches_wrote [OF u, of GPIOR0]
  have "wrote GPIOR0 t = wrote GPIOR0 s @ [DEVICE_STATE_Default]" by (simp add: wrote_def)
  moreover have "touches init_regs s ?w"
    by (intro touch touches_refl) (auto simp: init_regs_def configure_regs_def)
  then have "adds init_regs s ?v" by (auto dest: touches_adds simp: adds_def)
  with touches_mono [OF u Diff_subset] have "adds init_regs s t" by (rule adds_touches [rotated])
  ultimately show ?thesis using t(2) touches_dev [OF u] by auto
qed

text \<open>An application whose event handlers leave the device state and the configuration number alone\<close>

definition quiet :: "('a dev_scheme \<Rightarrow> 'a dev_scheme option) \<Rightarrow> bool" where
  "quiet f \<longleftrightarrow> (\<forall>s s'. f s = Some s' \<longrightarrow> wrote GPIOR0 s' = wrote GPIOR0 s \<and>
     USB_Device_ConfigurationNumber s' = USB_Device_ConfigurationNumber s)"

text \<open>The device state and the configuration number after the handler, for the sources that were pending.\<close>

definition isr_states :: "bool \<Rightarrow> bool \<Rightarrow> bool \<Rightarrow> bool \<Rightarrow> u8 \<Rightarrow> u8 list" where
  "isr_states suspended woken reset addressed config =
     (if suspended then [DEVICE_STATE_Unattached] else []) @
     (if woken then [if config \<noteq> 0 then DEVICE_STATE_Configured
        else if addressed then DEVICE_STATE_Addressed else DEVICE_STATE_Powered] else []) @
     (if reset then [DEVICE_STATE_Default] else [])"

lemma when_pending_quiet:
  assumes "when_pending i f s = Some s'"
  shows "\<exists>t. touches {} s t \<and> (if fst (int_pending i s) then f t = Some s' else s' = t)"
proof -
  have t: "touches {} s (snd (int_pending i s))" by (intro touch touches_refl)
  from assms have "if fst (int_pending i s) then f (snd (int_pending i s)) = Some s' else s' = snd (int_pending i s)"
    by (simp add: when_pending_def split_beta Let_def split: if_splits)
  with t show ?thesis by blast
qed

lemma quietD: "quiet f \<Longrightarrow> f s = Some s' \<Longrightarrow> wrote GPIOR0 s' = wrote GPIOR0 s \<and>
     USB_Device_ConfigurationNumber s' = USB_Device_ConfigurationNumber s"
  by (simp add: quiet_def)

lemma pending_same:
  fixes s t :: "'a dev_scheme"
  assumes "touches {} s t"
  shows "wrote GPIOR0 t = wrote GPIOR0 s" "USB_Device_ConfigurationNumber t = USB_Device_ConfigurationNumber s"
  using touches_same_wrote [OF assms] touches_dev [OF assms] by simp_all

lemma sof_state:
  assumes "when_pending USB_INT_SOFI (isr_sof app) s = Some s'" "quiet (EVENT_USB_Device_StartOfFrame app)"
  shows "wrote GPIOR0 s' = wrote GPIOR0 s \<and> USB_Device_ConfigurationNumber s' = USB_Device_ConfigurationNumber s"
proof -
  from when_pending_quiet [OF assms(1)] obtain t where t: "touches {} s t" "if fst (int_pending USB_INT_SOFI s) then isr_sof app t = Some s' else s' = t" by blast
  have u: "touches {UDIEN, UDINT, UEIENX, UEINTX} t (USB_INT_Clear USB_INT_SOFI t)" by (intro touch touches_refl) auto
  show ?thesis
  proof (cases "fst (int_pending USB_INT_SOFI s)")
    case True
    with t have "EVENT_USB_Device_StartOfFrame app (USB_INT_Clear USB_INT_SOFI t) = Some s'" by (simp add: isr_sof_def)
    from quietD [OF assms(2) this] touches_wrote [OF u, of GPIOR0] touches_dev [OF u] pending_same [OF t(1)] show ?thesis by simp
  next
    case False
    with t pending_same [OF t(1)] show ?thesis by simp
  qed
qed

lemma suspend_state:
  assumes "when_pending USB_INT_SUSPI (isr_suspend app) s = Some s'" "quiet (EVENT_USB_Device_Disconnect app)"
  shows "wrote GPIOR0 s' = wrote GPIOR0 s @ (if fst (int_pending USB_INT_SUSPI s) then [DEVICE_STATE_Unattached] else []) \<and>
    USB_Device_ConfigurationNumber s' = USB_Device_ConfigurationNumber s"
proof -
  from when_pending_quiet [OF assms(1)] obtain t where t: "touches {} s t" "if fst (int_pending USB_INT_SUSPI s) then isr_suspend app t = Some s' else s' = t" by blast
  show ?thesis
  proof (cases "fst (int_pending USB_INT_SUSPI s)")
    case True
    with t isr_suspend_does [of app t s'] obtain u where "EVENT_USB_Device_Disconnect app u = Some s'"
      "wrote GPIOR0 u = wrote GPIOR0 t @ [DEVICE_STATE_Unattached]"
      "USB_Device_ConfigurationNumber u = USB_Device_ConfigurationNumber t" by auto
    with quietD [OF assms(2)] pending_same [OF t(1)] show ?thesis using True by simp
  next
    case False
    with t pending_same [OF t(1)] show ?thesis by simp
  qed
qed

lemma wakeup_state:
  assumes "when_pending USB_INT_WAKEUPI (isr_wakeup app) s = Some s'" "quiet (EVENT_USB_Device_Connect app)"
  shows "\<exists>addressed. wrote GPIOR0 s' = wrote GPIOR0 s @ (if fst (int_pending USB_INT_WAKEUPI s) then [if USB_Device_ConfigurationNumber s \<noteq> 0 then DEVICE_STATE_Configured
        else if addressed then DEVICE_STATE_Addressed else DEVICE_STATE_Powered] else []) \<and>
    USB_Device_ConfigurationNumber s' = USB_Device_ConfigurationNumber s"
proof -
  from when_pending_quiet [OF assms(1)] obtain t where t: "touches {} s t" "if fst (int_pending USB_INT_WAKEUPI s) then isr_wakeup app t = Some s' else s' = t" by blast
  show ?thesis
  proof (cases "fst (int_pending USB_INT_WAKEUPI s)")
    case True
    with t isr_wakeup_does [of app t s'] obtain u v where "EVENT_USB_Device_Connect app u = Some s'"
      "wrote GPIOR0 u = wrote GPIOR0 t @ [if USB_Device_ConfigurationNumber t \<noteq> 0 then DEVICE_STATE_Configured
        else if tst v ADDEN then DEVICE_STATE_Addressed else DEVICE_STATE_Powered]"
      "USB_Device_ConfigurationNumber u = USB_Device_ConfigurationNumber t" by auto
    with quietD [OF assms(2)] pending_same [OF t(1)] show ?thesis using True by (intro exI [of _ "tst v ADDEN"]) simp
  next
    case False
    with t pending_same [OF t(1)] show ?thesis by simp
  qed
qed

lemma reset_state:
  assumes "when_pending USB_INT_EORSTI (isr_reset app) s = Some s'" "quiet (EVENT_USB_Device_Reset app)"
  shows "wrote GPIOR0 s' = wrote GPIOR0 s @ (if fst (int_pending USB_INT_EORSTI s) then [DEVICE_STATE_Default] else []) \<and>
    USB_Device_ConfigurationNumber s' = (if fst (int_pending USB_INT_EORSTI s) then 0 else USB_Device_ConfigurationNumber s)"
proof -
  from when_pending_quiet [OF assms(1)] obtain t where t: "touches {} s t" "if fst (int_pending USB_INT_EORSTI s) then isr_reset app t = Some s' else s' = t" by blast
  show ?thesis
  proof (cases "fst (int_pending USB_INT_EORSTI s)")
    case True
    with t isr_reset_does [of app t s'] obtain u where "EVENT_USB_Device_Reset app u = Some s'"
      "wrote GPIOR0 u = wrote GPIOR0 t @ [DEVICE_STATE_Default]" "USB_Device_ConfigurationNumber u = 0" by auto
    with quietD [OF assms(2)] pending_same [OF t(1)] show ?thesis using True by simp
  next
    case False
    with t pending_same [OF t(1)] show ?thesis by simp
  qed
qed

text \<open>Which registers the handler writes, for event handlers that write the same ones at most\<close>

lemma when_pending_adds:
  assumes "when_pending i f s = Some s'" "\<And>s s'. f s = Some s' \<Longrightarrow> adds R s s'"
  shows "adds R s s'"
proof -
  from when_pending_quiet [OF assms(1)] obtain t where t: "touches {} s t"
    "if fst (int_pending i s) then f t = Some s' else s' = t" by blast
  from touches_adds [OF touches_mono [OF t(1)]] have "adds R s t" by simp
  with t(2) assms(2) show ?thesis by (auto split: if_splits intro: adds_trans)
qed

lemma USB_GEN_adds:
  assumes "USB_GEN_vect app s = Some s'"
    and e: "\<And>s s'. EVENT_USB_Device_StartOfFrame app s = Some s' \<Longrightarrow> adds init_regs s s'"
      "\<And>s s'. EVENT_USB_Device_Disconnect app s = Some s' \<Longrightarrow> adds init_regs s s'"
      "\<And>s s'. EVENT_USB_Device_Connect app s = Some s' \<Longrightarrow> adds init_regs s s'"
      "\<And>s s'. EVENT_USB_Device_Reset app s = Some s' \<Longrightarrow> adds init_regs s s'"
  shows "adds init_regs s s'"
proof -
  from assms(1) obtain s1 s2 s3 where p: "when_pending USB_INT_SOFI (isr_sof app) s = Some s1"
    "when_pending USB_INT_SUSPI (isr_suspend app) s1 = Some s2" "when_pending USB_INT_WAKEUPI (isr_wakeup app) s2 = Some s3"
    "when_pending USB_INT_EORSTI (isr_reset app) s3 = Some s'" by (auto simp: USB_GEN_vect_def bind_eq_Some_conv)
  have f: "adds init_regs u u'" if "isr_sof app u = Some u'" for u u'
  proof -
    have "touches init_regs u (USB_INT_Clear USB_INT_SOFI u)" by (intro touch touches_refl) (auto simp: init_regs_def configure_regs_def)
    with e(1) that show ?thesis unfolding isr_sof_def by (blast intro: adds_trans touches_adds)
  qed
  have "adds init_regs s s1" by (rule when_pending_adds [OF p(1) f])
  moreover have "adds init_regs s1 s2"
    by (rule when_pending_adds [OF p(2)]) (blast dest: isr_suspend_does e(2) intro: adds_trans)
  moreover have "adds init_regs s2 s3"
    by (rule when_pending_adds [OF p(3)]) (blast dest: isr_wakeup_does e(3) intro: adds_trans)
  moreover have "adds init_regs s3 s'"
    by (rule when_pending_adds [OF p(4)]) (blast dest: isr_reset_does e(4) intro: adds_trans)
  ultimately show ?thesis by (blast intro: adds_trans)
qed

text \<open>
  The USB interrupt handler writes the device state once for each pending source, in the order
  suspend, wake-up, reset: \<open>Unattached\<close>; the state that fits the configuration number and the address;
  and \<open>Default\<close>. A reset clears the configuration number, the other sources keep it.
\<close>

lemma USB_GEN_states:
  assumes "USB_GEN_vect app s = Some s'"
    and "quiet (EVENT_USB_Device_StartOfFrame app)" "quiet (EVENT_USB_Device_Disconnect app)"
    and "quiet (EVENT_USB_Device_Connect app)" "quiet (EVENT_USB_Device_Reset app)"
  shows "\<exists>s1 s2 s3 addressed. when_pending USB_INT_SOFI (isr_sof app) s = Some s1 \<and>
    when_pending USB_INT_SUSPI (isr_suspend app) s1 = Some s2 \<and> when_pending USB_INT_WAKEUPI (isr_wakeup app) s2 = Some s3 \<and>
    wrote GPIOR0 s' = wrote GPIOR0 s @ isr_states (fst (int_pending USB_INT_SUSPI s1)) (fst (int_pending USB_INT_WAKEUPI s2))
      (fst (int_pending USB_INT_EORSTI s3)) addressed (USB_Device_ConfigurationNumber s) \<and>
    USB_Device_ConfigurationNumber s' = (if fst (int_pending USB_INT_EORSTI s3) then 0 else USB_Device_ConfigurationNumber s)"
proof -
  let ?c = "USB_Device_ConfigurationNumber"
  from assms(1) obtain s1 s2 s3 where p: "when_pending USB_INT_SOFI (isr_sof app) s = Some s1"
    "when_pending USB_INT_SUSPI (isr_suspend app) s1 = Some s2" "when_pending USB_INT_WAKEUPI (isr_wakeup app) s2 = Some s3"
    "when_pending USB_INT_EORSTI (isr_reset app) s3 = Some s'" by (auto simp: USB_GEN_vect_def bind_eq_Some_conv)
  from wakeup_state [OF p(3) assms(4)] obtain a where 3: "wrote GPIOR0 s3 = wrote GPIOR0 s2 @ (if fst (int_pending USB_INT_WAKEUPI s2)
    then [if ?c s2 \<noteq> 0 then DEVICE_STATE_Configured else if a then DEVICE_STATE_Addressed else DEVICE_STATE_Powered] else [])"
    "?c s3 = ?c s2" by blast
  note 1 = sof_state [OF p(1) assms(2)] and 2 = suspend_state [OF p(2) assms(3)] and 4 = reset_state [OF p(4) assms(5)]
  show ?thesis
    using p(1-3) 1 2 3 4 unfolding isr_states_def
    by (intro exI [of _ s1] exI [of _ s2] exI [of _ s3] exI [of _ a]) simp
qed

end
