(* ===== verification/Pad_Descriptors.thy ===== *)
theory Pad_Descriptors
  imports Device_Std_Req
begin

text \<open>
  The descriptors of the pad, \<open>src/AT16u2/PolytechLille/PAD/Descriptors.c\<close> and \<open>Descriptors.h\<close>, with the packed
  structures of \<open>Core/StdDescriptors.h\<close> and their bytes in flash memory.
\<close>

section \<open>Structures\<close>

record USB_Descriptor_Device =
  d_Size :: u8
  d_Type :: u8
  USBSpecification :: u16
  d_Class :: u8
  d_SubClass :: u8
  d_Protocol :: u8
  Endpoint0Size :: u8
  VendorID :: u16
  ProductID :: u16
  ReleaseNumber :: u16
  ManufacturerStrIndex :: u8
  ProductStrIndex :: u8
  SerialNumStrIndex :: u8
  NumberOfConfigurations :: u8

record USB_Descriptor_Configuration_Header =
  c_Size :: u8
  c_Type :: u8
  TotalConfigurationSize :: u16
  TotalInterfaces :: u8
  ConfigurationNumber :: u8
  ConfigurationStrIndex :: u8
  ConfigAttributes :: u8
  MaxPowerConsumption :: u8

record USB_Descriptor_Interface =
  i_Size :: u8
  i_Type :: u8
  InterfaceNumber :: u8
  AlternateSetting :: u8
  TotalEndpoints :: u8
  i_Class :: u8
  i_SubClass :: u8
  i_Protocol :: u8
  InterfaceStrIndex :: u8

record USB_Descriptor_Endpoint =
  e_Size :: u8
  e_Type :: u8
  EndpointAddress :: u8
  Attributes :: u8
  EndpointSize :: u16
  PollingIntervalMS :: u8

definition device_bytes :: "USB_Descriptor_Device \<Rightarrow> u8 list" where
  "device_bytes d = [d_Size d, d_Type d] @ bytes16 (USBSpecification d) @
     [d_Class d, d_SubClass d, d_Protocol d, Endpoint0Size d] @
     bytes16 (VendorID d) @ bytes16 (ProductID d) @ bytes16 (ReleaseNumber d) @
     [ManufacturerStrIndex d, ProductStrIndex d, SerialNumStrIndex d, NumberOfConfigurations d]"

definition header_bytes :: "USB_Descriptor_Configuration_Header \<Rightarrow> u8 list" where
  "header_bytes c = [c_Size c, c_Type c] @ bytes16 (TotalConfigurationSize c) @
     [TotalInterfaces c, ConfigurationNumber c, ConfigurationStrIndex c, ConfigAttributes c, MaxPowerConsumption c]"

definition interface_bytes :: "USB_Descriptor_Interface \<Rightarrow> u8 list" where
  "interface_bytes i = [i_Size i, i_Type i, InterfaceNumber i, AlternateSetting i, TotalEndpoints i,
     i_Class i, i_SubClass i, i_Protocol i, InterfaceStrIndex i]"

definition endpoint_bytes :: "USB_Descriptor_Endpoint \<Rightarrow> u8 list" where
  "endpoint_bytes e = [e_Size e, e_Type e, EndpointAddress e, Attributes e] @ bytes16 (EndpointSize e) @ [PollingIntervalMS e]"

record USB_Descriptor_Configuration =
  Config :: USB_Descriptor_Configuration_Header
  BoutonsInterface :: USB_Descriptor_Interface
  PAD_ReportINEndpoint :: USB_Descriptor_Endpoint
  LEDInterface :: USB_Descriptor_Interface
  PAD_ReportOUTEndpoint :: USB_Descriptor_Endpoint

definition configuration_bytes :: "USB_Descriptor_Configuration \<Rightarrow> u8 list" where
  "configuration_bytes c = header_bytes (Config c) @ interface_bytes (BoutonsInterface c) @
     endpoint_bytes (PAD_ReportINEndpoint c) @ interface_bytes (LEDInterface c) @ endpoint_bytes (PAD_ReportOUTEndpoint c)"

section \<open>Constants\<close>

definition VERSION_BCD :: "u16 \<Rightarrow> u16 \<Rightarrow> u16 \<Rightarrow> u16" where
  "VERSION_BCD Major Minor Revision = push_bit 8 (Major AND 0xFF) OR push_bit 4 (Minor AND 0x0F) OR (Revision AND 0x0F)"

definition USB_CONFIG_POWER_MA :: "u16 \<Rightarrow> u8" where
  "USB_CONFIG_POWER_MA mA = ucast (drop_bit 1 mA)"

abbreviation USB_CONFIG_ATTR_RESERVED :: u8 where "USB_CONFIG_ATTR_RESERVED \<equiv> 0x80"
abbreviation USB_CONFIG_ATTR_SELFPOWERED :: u8 where "USB_CONFIG_ATTR_SELFPOWERED \<equiv> 0x40"
abbreviation USB_CSCP_VendorSpecificClass :: u8 where "USB_CSCP_VendorSpecificClass \<equiv> 0xFF"
abbreviation USB_CSCP_NoDeviceSubclass :: u8 where "USB_CSCP_NoDeviceSubclass \<equiv> 0"
abbreviation USB_CSCP_NoDeviceProtocol :: u8 where "USB_CSCP_NoDeviceProtocol \<equiv> 0"
abbreviation LANGUAGE_ID_ENG :: u16 where "LANGUAGE_ID_ENG \<equiv> 0x0409"
abbreviation STRING_ID_Language :: u8 where "STRING_ID_Language \<equiv> 0"
abbreviation STRING_ID_Manufacturer :: u8 where "STRING_ID_Manufacturer \<equiv> 1"
abbreviation STRING_ID_Product :: u8 where "STRING_ID_Product \<equiv> 2"
abbreviation STRING_ID_Serial :: u8 where "STRING_ID_Serial \<equiv> 3"
abbreviation INTERRUPT_EPSIZE :: u16 where "INTERRUPT_EPSIZE \<equiv> 1"
definition PAD_IN_EPADDR :: u8 where "PAD_IN_EPADDR = ENDPOINT_DIR_IN OR 1"
definition PAD_OUT_EPADDR :: u8 where "PAD_OUT_EPADDR = ENDPOINT_DIR_OUT OR 2"

section \<open>The descriptors of the pad\<close>

definition PAD_DeviceDescriptor :: USB_Descriptor_Device where
  "PAD_DeviceDescriptor = \<lparr>d_Size = 18, d_Type = DTYPE_Device, USBSpecification = VERSION_BCD 1 1 0,
     d_Class = USB_CSCP_VendorSpecificClass, d_SubClass = USB_CSCP_NoDeviceSubclass, d_Protocol = USB_CSCP_NoDeviceProtocol,
     Endpoint0Size = ucast USB_Device_ControlEndpointSize, VendorID = 0xABCD, ProductID = 0x1234,
     ReleaseNumber = VERSION_BCD 2 0 0, ManufacturerStrIndex = STRING_ID_Manufacturer, ProductStrIndex = STRING_ID_Product,
     SerialNumStrIndex = STRING_ID_Serial, NumberOfConfigurations = FIXED_NUM_CONFIGURATIONS\<rparr>"

definition PAD_ConfigurationDescriptor :: USB_Descriptor_Configuration where
  "PAD_ConfigurationDescriptor = \<lparr>
     Config = \<lparr>c_Size = 9, c_Type = DTYPE_Configuration, TotalConfigurationSize = 41, TotalInterfaces = 2,
       ConfigurationNumber = 1, ConfigurationStrIndex = ucast NO_DESCRIPTOR,
       ConfigAttributes = USB_CONFIG_ATTR_RESERVED OR USB_CONFIG_ATTR_SELFPOWERED,
       MaxPowerConsumption = USB_CONFIG_POWER_MA 500\<rparr>,
     BoutonsInterface = \<lparr>i_Size = 9, i_Type = DTYPE_Interface, InterfaceNumber = 0, AlternateSetting = 0,
       TotalEndpoints = 1, i_Class = USB_CSCP_VendorSpecificClass, i_SubClass = 0, i_Protocol = 0,
       InterfaceStrIndex = ucast NO_DESCRIPTOR\<rparr>,
     PAD_ReportINEndpoint = \<lparr>e_Size = 7, e_Type = DTYPE_Endpoint, EndpointAddress = PAD_IN_EPADDR,
       Attributes = EP_TYPE_INTERRUPT, EndpointSize = INTERRUPT_EPSIZE, PollingIntervalMS = 5\<rparr>,
     LEDInterface = \<lparr>i_Size = 9, i_Type = DTYPE_Interface, InterfaceNumber = 1, AlternateSetting = 0,
       TotalEndpoints = 1, i_Class = USB_CSCP_VendorSpecificClass, i_SubClass = 0, i_Protocol = 0,
       InterfaceStrIndex = ucast NO_DESCRIPTOR\<rparr>,
     PAD_ReportOUTEndpoint = \<lparr>e_Size = 7, e_Type = DTYPE_Endpoint, EndpointAddress = PAD_OUT_EPADDR,
       Attributes = EP_TYPE_INTERRUPT, EndpointSize = INTERRUPT_EPSIZE, PollingIntervalMS = 5\<rparr>\<rparr>"

text \<open>
  String descriptors: the size, the type and the characters of 16 bits; a string literal has its
  terminating zero behind the characters, which the size does not count.
\<close>

definition USB_STRING_DESCRIPTOR_ARRAY :: "u16 list \<Rightarrow> u8 list" where
  "USB_STRING_DESCRIPTOR_ARRAY cs = [of_nat (2 + 2 * length cs), DTYPE_String] @ concat (map bytes16 cs)"

definition USB_STRING_DESCRIPTOR :: "string \<Rightarrow> u8 list" where
  "USB_STRING_DESCRIPTOR str = [of_nat (2 + 2 * length str), DTYPE_String] @ concat (map (\<lambda>c. bytes16 (of_char c)) str) @ [0, 0]"

definition LanguageString :: "u8 list" where
  "LanguageString = USB_STRING_DESCRIPTOR_ARRAY [LANGUAGE_ID_ENG]"

definition ManufacturerString :: "u8 list" where
  "ManufacturerString = USB_STRING_DESCRIPTOR ''Polytech Lille''"

definition ProductString :: "u8 list" where
  "ProductString = USB_STRING_DESCRIPTOR ''LUFA PAD''"

text \<open>The null pointer is the empty memory; the size of a string is read from its header.\<close>

definition PAD_GetDescriptor :: "u16 \<Rightarrow> u16 \<Rightarrow> u16 \<times> u8 list" where
  "PAD_GetDescriptor val idx =
     (let DescriptorType = ucast (drop_bit 8 val) :: u8; DescriptorNumber = ucast (val AND 0xFF) :: u8
      in if DescriptorType = DTYPE_Device then (18, device_bytes PAD_DeviceDescriptor)
         else if DescriptorType = DTYPE_Configuration then (41, configuration_bytes PAD_ConfigurationDescriptor)
         else if DescriptorType = DTYPE_String
         then if DescriptorNumber = STRING_ID_Language then (ucast (hd LanguageString), LanguageString)
              else if DescriptorNumber = STRING_ID_Manufacturer then (ucast (hd ManufacturerString), ManufacturerString)
              else if DescriptorNumber = STRING_ID_Product then (ucast (hd ProductString), ProductString)
              else (NO_DESCRIPTOR, [])
         else (NO_DESCRIPTOR, []))"

section \<open>Sizes\<close>

lemma length_device_bytes [simp]: "length (device_bytes d) = 18"
  by (simp add: device_bytes_def)

lemma length_configuration_bytes [simp]: "length (configuration_bytes c) = 41"
  by (simp add: configuration_bytes_def header_bytes_def interface_bytes_def endpoint_bytes_def)

lemma string_lengths:
  "unat (ucast (hd LanguageString) :: u16) \<le> length LanguageString"
  "unat (ucast (hd ManufacturerString) :: u16) \<le> length ManufacturerString"
  "unat (ucast (hd ProductString) :: u16) \<le> length ProductString"
  by code_simp+

lemma PAD_GetDescriptor_sound: "PAD_GetDescriptor v i = (n, mem) \<Longrightarrow> unat n \<le> length mem"
  using string_lengths by (auto simp: PAD_GetDescriptor_def Let_def split: if_splits)

end
