(* ===== verification/Serial_AVR8.thy ===== *)
theory Serial_AVR8
  imports AVR_IO
begin

text \<open>
  The serial driver, \<open>src/AT16u2/LUFA/Drivers/Peripheral/AVR8/Serial_AVR8.h\<close> and \<open>Serial_AVR8.c\<close>. A
  buffer or a zero-terminated string is the list of its bytes; an access behind its end is \<open>None\<close>.
\<close>

section \<open>Baud rate\<close>

definition F_CPU :: u32 where "F_CPU = 16000000"

definition SERIAL_UBBRVAL :: "u32 \<Rightarrow> u32" where
  "SERIAL_UBBRVAL Baud = ((F_CPU div 16 + Baud div 2) div Baud) - 1"

definition SERIAL_2X_UBBRVAL :: "u32 \<Rightarrow> u32" where
  "SERIAL_2X_UBBRVAL Baud = ((F_CPU div 8 + Baud div 2) div Baud) - 1"

text \<open>The 16-bit register \<open>UBRR1\<close>: high byte first.\<close>

definition wr_UBRR1 :: "u16 \<Rightarrow> 'a mcu_scheme \<Rightarrow> 'a mcu_scheme" where
  "wr_UBRR1 v s = wr UBRR1L (ucast v) (wr UBRR1H (ucast (drop_bit 8 v)) s)"

section \<open>The driver\<close>

definition Serial_Init :: "u32 \<Rightarrow> bool \<Rightarrow> 'a mcu_scheme \<Rightarrow> 'a mcu_scheme option" where
  "Serial_Init BaudRate DoubleSpeed s = do {
     guard (BaudRate \<noteq> 0);
     let s = wr_UBRR1 (ucast (if DoubleSpeed then SERIAL_2X_UBBRVAL BaudRate else SERIAL_UBBRVAL BaudRate)) s;
     let s = wr UCSR1C (bv UCSZ11 OR bv UCSZ10) s;
     let s = wr UCSR1A (if DoubleSpeed then bv U2X1 else 0) s;
     let s = wr UCSR1B (bv TXEN1 OR bv RXEN1) s;
     let s = set_bits DDRD (bv 3) s;
     Some (set_bits PORTD (bv 2) s) }"

definition Serial_Disable :: "'a mcu_scheme \<Rightarrow> 'a mcu_scheme" where
  "Serial_Disable s =
     (let s = wr UCSR1B 0 s;
          s = wr UCSR1A 0 s;
          s = wr UCSR1C 0 s;
          s = wr_UBRR1 0 s;
          s = clr_bits DDRD (bv 3) s
      in clr_bits PORTD (bv 2) s)"

definition Serial_IsCharReceived :: "'a mcu_scheme \<Rightarrow> bool \<times> 'a mcu_scheme" where
  "Serial_IsCharReceived s = tst_bit_of UCSR1A RXC1 s"

definition Serial_IsSendReady :: "'a mcu_scheme \<Rightarrow> bool \<times> 'a mcu_scheme" where
  "Serial_IsSendReady s = tst_bit_of UCSR1A UDRE1 s"

definition Serial_IsSendComplete :: "'a mcu_scheme \<Rightarrow> bool \<times> 'a mcu_scheme" where
  "Serial_IsSendComplete s = tst_bit_of UCSR1A TXC1 s"

definition Serial_SendByte :: "u8 \<Rightarrow> 'a mcu_scheme \<Rightarrow> 'a mcu_scheme option" where
  "Serial_SendByte DataByte s = do { s \<leftarrow> wait_set UCSR1A UDRE1 s; Some (wr UDR1 DataByte s) }"

definition Serial_ReceiveByte :: "'a mcu_scheme \<Rightarrow> int \<times> 'a mcu_scheme" where
  "Serial_ReceiveByte s =
     (let (received, s) = Serial_IsCharReceived s
      in if \<not> received then (-1, s) else (let (v, s) = rd UDR1 s in (uint v, s)))"

section \<open>Strings and buffers\<close>

definition Serial_putchar :: "u8 \<Rightarrow> 'a mcu_scheme \<Rightarrow> (int \<times> 'a mcu_scheme) option" where
  "Serial_putchar DataByte s = do { s \<leftarrow> Serial_SendByte DataByte s; Some (0, s) }"

definition Serial_getchar :: "'a mcu_scheme \<Rightarrow> int \<times> 'a mcu_scheme" where
  "Serial_getchar s =
     (let (received, s) = Serial_IsCharReceived s
      in if \<not> received then (FDEV_EOF, s) else Serial_ReceiveByte s)"

definition Serial_getchar_Blocking :: "'a mcu_scheme \<Rightarrow> (int \<times> 'a mcu_scheme) option" where
  "Serial_getchar_Blocking s = do { s \<leftarrow> wait_set UCSR1A RXC1 s; Some (Serial_ReceiveByte s) }"

text \<open>A null pointer stands for the stream of the driver, which then becomes standard input and output.\<close>

definition serial_stream :: "file_ref option \<Rightarrow> 's stdio \<Rightarrow> file_ref \<times> 's stdio" where
  "serial_stream Stream io =
     (case Stream of None \<Rightarrow> (USARTSerialStream, io\<lparr>stdin := USARTSerialStream, stdout := USARTSerialStream\<rparr>) | Some r \<Rightarrow> (r, io))"

definition Serial_CreateStream :: "file_ref option \<Rightarrow> 'a mcu_scheme stdio \<Rightarrow> 'a mcu_scheme stdio" where
  "Serial_CreateStream Stream io = (let (r, io) = serial_stream Stream io
     in set_file r \<lparr>fdev_put = Serial_putchar, fdev_get = (\<lambda>s. Some (Serial_getchar s))\<rparr> io)"

definition Serial_CreateBlockingStream :: "file_ref option \<Rightarrow> 'a mcu_scheme stdio \<Rightarrow> 'a mcu_scheme stdio" where
  "Serial_CreateBlockingStream Stream io = (let (r, io) = serial_stream Stream io
     in set_file r \<lparr>fdev_put = Serial_putchar, fdev_get = Serial_getchar_Blocking\<rparr> io)"

text \<open>\<open>Serial_SendString\<close> and, with the string in flash memory, \<open>Serial_SendString_P\<close>\<close>

fun Serial_SendString :: "u8 list \<Rightarrow> 'a mcu_scheme \<Rightarrow> 'a mcu_scheme option" where
  "Serial_SendString [] s = None"
| "Serial_SendString (CurrByte # StringPtr) s =
     (if CurrByte \<noteq> 0 then do { s \<leftarrow> Serial_SendByte CurrByte s; Serial_SendString StringPtr s } else Some s)"

fun send_data :: "u8 list \<Rightarrow> nat \<Rightarrow> 'a mcu_scheme \<Rightarrow> 'a mcu_scheme option" where
  "send_data Buffer 0 s = Some s"
| "send_data [] (Suc n) s = None"
| "send_data (CurrByte # Buffer) (Suc n) s = do { s \<leftarrow> Serial_SendByte CurrByte s; send_data Buffer n s }"

definition Serial_SendData :: "u8 list \<Rightarrow> u16 \<Rightarrow> 'a mcu_scheme \<Rightarrow> 'a mcu_scheme option" where
  "Serial_SendData Buffer Length s = send_data Buffer (unat Length) s"

section \<open>What is sent\<close>

lemma Serial_SendByte_wrote:
  assumes "Serial_SendByte b s = Some s'"
  shows "wrote UDR1 s' = wrote UDR1 s @ [b] \<and> hw s' = hw s \<and> touches {UDR1} s s'"
proof -
  from assms obtain t where t: "wait_set UCSR1A UDRE1 s = Some t" "s' = wr UDR1 b t"
    by (auto simp: Serial_SendByte_def bind_eq_Some_conv)
  from wait_set_touches [OF t(1)] have "touches {UDR1} s t" "wrote UDR1 t = wrote UDR1 s" "hw t = hw s"
    by (auto dest: touches_wrote [of "{}"] touches_hw)
  with t(2) show ?thesis by (auto intro: touch)
qed

lemma Serial_SendByte_total: "raises (hw s) UCSR1A UDRE1 \<Longrightarrow> \<exists>s'. Serial_SendByte b s = Some s'"
  using wait_set_total by (fastforce simp: Serial_SendByte_def)

lemma send_data_wrote:
  assumes "raises (hw s) UCSR1A UDRE1" "n \<le> length bs"
  shows "\<exists>s'. send_data bs n s = Some s' \<and> wrote UDR1 s' = wrote UDR1 s @ take n bs \<and> touches {UDR1} s s'"
  using assms
proof (induction bs n s rule: send_data.induct)
  case (3 b bs n s)
  from Serial_SendByte_total [OF 3(2)] obtain t where t: "Serial_SendByte b s = Some t" ..
  note w = Serial_SendByte_wrote [OF t]
  from 3(1) [OF t] w 3(2,3) obtain u where "send_data bs n t = Some u" "wrote UDR1 u = wrote UDR1 t @ take n bs"
    "touches {UDR1} t u" by auto
  with t w show ?case by (auto intro: touches_trans)
qed auto

text \<open>
  \<open>Serial_SendString\<close> returns and sends exactly the bytes in front of the terminating
  zero, each once and in order, when the transmitter always becomes ready; no other register is
  written.
\<close>

lemma Serial_SendString_sends:
  assumes "raises (hw s) UCSR1A UDRE1" "0 \<in> set str"
  shows "\<exists>s'. Serial_SendString str s = Some s' \<and> wrote UDR1 s' = wrote UDR1 s @ takeWhile (\<lambda>c. c \<noteq> 0) str \<and>
     touches {UDR1} s s'"
  using assms
proof (induction str s rule: Serial_SendString.induct)
  case (2 b bs s)
  show ?case
  proof (cases "b = 0")
    case False
    from Serial_SendByte_total [OF 2(2)] obtain t where t: "Serial_SendByte b s = Some t" ..
    note w = Serial_SendByte_wrote [OF t]
    from 2(1) [OF False t] w 2(2,3) False obtain u where "Serial_SendString bs t = Some u"
      "wrote UDR1 u = wrote UDR1 t @ takeWhile (\<lambda>c. c \<noteq> 0) bs" "touches {UDR1} t u" by auto
    with t w False show ?thesis by (auto intro: touches_trans)
  qed simp
qed simp

text \<open>
  Text printed on standard output after \<open>Serial_CreateStream\<close> with a null pointer goes to the serial line, byte by
  byte, when the transmitter always becomes ready.
\<close>

primrec print_chars :: "'s FILE \<Rightarrow> u8 list \<Rightarrow> 's \<Rightarrow> 's option" where
  "print_chars f [] s = Some s"
| "print_chars f (c # cs) s = do { (_, s) \<leftarrow> fdev_put f c s; print_chars f cs s }"

lemma serial_stdout:
  assumes "raises (hw s) UCSR1A UDRE1" "io' = Serial_CreateStream None io \<or> io' = Serial_CreateBlockingStream None io"
  shows "\<exists>t. print_chars (files io' (stdout io')) cs s = Some t \<and> wrote UDR1 t = wrote UDR1 s @ cs"
  using assms(1)
proof (induction cs arbitrary: s)
  case (Cons c cs)
  have f: "fdev_put (files io' (stdout io')) = Serial_putchar"
    using assms(2) by (auto simp: Serial_CreateStream_def Serial_CreateBlockingStream_def serial_stream_def set_file_def)
  from Serial_SendByte_total [OF Cons.prems] obtain t where t: "Serial_SendByte c s = Some t" ..
  note w = Serial_SendByte_wrote [OF t]
  from Cons.IH [of t] w Cons.prems t f show ?case by (auto simp: Serial_putchar_def)
qed simp

end
