(* ===== verification/Pad.thy ===== *)
theory Pad
  imports Endpoint_Streams USB_Controller Pad_Descriptors Serial_AVR8
begin

text \<open>
  The firmware of the USB controller, \<open>src/AT16u2/PolytechLille/PAD/pad.c\<close>: bytes from the serial line go to
  the IN endpoint, bytes from the OUT endpoint go to the serial line.
\<close>

section \<open>State and handlers\<close>

record pad = dev +
  data_send :: u8
  state_send :: u8

abbreviation USART_BAUDRATE :: u32 where "USART_BAUDRATE \<equiv> 9600"
definition USART_DOUBLE_SPEED :: bool where "USART_DOUBLE_SPEED = False"

definition USART1_RX_vect :: "pad \<Rightarrow> pad" where
  "USART1_RX_vect s = (let (v, s) = rd UDR1 s in s\<lparr>data_send := v, state_send := 1\<rparr>)"

definition PAD_ConfigurationChanged :: "pad \<Rightarrow> pad option" where
  "PAD_ConfigurationChanged s = do {
     (_, s) \<leftarrow> Endpoint_ConfigureEndpoint PAD_IN_EPADDR EP_TYPE_INTERRUPT INTERRUPT_EPSIZE 1 s;
     (_, s) \<leftarrow> Endpoint_ConfigureEndpoint PAD_OUT_EPADDR EP_TYPE_INTERRUPT INTERRUPT_EPSIZE 1 s;
     Some (USB_Device_EnableSOFEvents s) }"

text \<open>The other events are the empty stubs of the library.\<close>

definition pad_application :: "(u8 \<Rightarrow> u8) \<Rightarrow> pad application" where
  "pad_application sig = (stub_application PAD_GetDescriptor sig)
     \<lparr>EVENT_USB_Device_ConfigurationChanged := PAD_ConfigurationChanged\<rparr>"

definition SendNextReport :: "(u8 \<Rightarrow> u8) \<Rightarrow> pad \<Rightarrow> pad option" where
  "SendNextReport sig s =
     (if state_send s \<noteq> 0
      then do {
        let s = Endpoint_SelectEndpoint PAD_IN_EPADDR s;
        let (allowed, s) = Endpoint_IsReadWriteAllowed s;
        s \<leftarrow> (if allowed
              then do {
                (_, _, _, s) \<leftarrow> Endpoint_Write_Stream_LE (pad_application sig) [data_send s] 1 None s;
                Some (Endpoint_ClearIN s) }
              else Some s);
        Some (s\<lparr>state_send := 0\<rparr>) }
      else Some s)"

definition ReceiveNextReport :: "pad \<Rightarrow> pad option" where
  "ReceiveNextReport s = do {
     let s = Endpoint_SelectEndpoint PAD_OUT_EPADDR s;
     let (received, s) = Endpoint_IsOUTReceived s;
     if received
     then do {
       let (allowed, s) = Endpoint_IsReadWriteAllowed s;
       s \<leftarrow> (if allowed
             then let (LEDReport, s) = Endpoint_Read_8 s in Serial_SendByte LEDReport s
             else Some s);
       Some (Endpoint_ClearOUT s) }
     else Some s }"

definition PAD_Task :: "(u8 \<Rightarrow> u8) \<Rightarrow> pad \<Rightarrow> pad option" where
  "PAD_Task sig s =
     (let (st, s) = rd GPIOR0 s
      in if st \<noteq> DEVICE_STATE_Configured then Some s
         else do { s \<leftarrow> SendNextReport sig s; ReceiveNextReport s })"

definition SetupHardware :: "pad \<Rightarrow> pad option" where
  "SetupHardware s = do {
     s \<leftarrow> Serial_Init USART_BAUDRATE USART_DOUBLE_SPEED s;
     let s = set_bits UCSR1B (bv RXCIE1) s;
     USB_Init s }"

text \<open>\<open>main\<close>: the set-up with \<open>sei\<close>, and one round of its endless loop\<close>

definition pad_setup :: "pad \<Rightarrow> pad option" where
  "pad_setup s = do { s \<leftarrow> SetupHardware s; Some (wr SREG_I 1 s) }"

definition pad_round :: "(u8 \<Rightarrow> u8) \<Rightarrow> pad \<Rightarrow> pad option" where
  "pad_round sig s = do { s \<leftarrow> USB_USBTask (pad_application sig) s; PAD_Task sig s }"

text \<open>Rounds of the main loop and interrupts between them\<close>

inductive pad_step :: "(u8 \<Rightarrow> u8) \<Rightarrow> pad \<Rightarrow> pad \<Rightarrow> bool" for sig where
  round: "pad_round sig s = Some s' \<Longrightarrow> pad_step sig s s'"
| receive: "pad_step sig s (USART1_RX_vect s)"
| usb: "USB_GEN_vect (pad_application sig) s = Some s' \<Longrightarrow> pad_step sig s s'"

inductive_cases pad_stepE: "pad_step sig s s'"

section \<open>The pad as an application of the stack\<close>

lemma pad_application_simps [simp]:
  "CALLBACK_USB_GetDescriptor (pad_application sig) = PAD_GetDescriptor"
  "EVENT_USB_Device_ControlRequest (pad_application sig) = USB_Event_Stub"
  "EVENT_USB_Device_ConfigurationChanged (pad_application sig) = PAD_ConfigurationChanged"
  "EVENT_USB_Device_Connect (pad_application sig) = USB_Event_Stub"
  "EVENT_USB_Device_Disconnect (pad_application sig) = USB_Event_Stub"
  "EVENT_USB_Device_Reset (pad_application sig) = USB_Event_Stub"
  "EVENT_USB_Device_StartOfFrame (pad_application sig) = USB_Event_Stub"
  "boot_signature_byte_get (pad_application sig) = sig"
  by (simp_all add: pad_application_def stub_application_def)

lemma PAD_ConfigurationChanged_touches:
  assumes "PAD_ConfigurationChanged s = Some t"
  shows "touches device_regs s t"
proof -
  from assms obtain a u b v where u: "Endpoint_ConfigureEndpoint PAD_IN_EPADDR EP_TYPE_INTERRUPT INTERRUPT_EPSIZE 1 s = Some (a, u)"
    and v: "Endpoint_ConfigureEndpoint PAD_OUT_EPADDR EP_TYPE_INTERRUPT INTERRUPT_EPSIZE 1 u = Some (b, v)"
    and t: "t = USB_Device_EnableSOFEvents v" by (auto simp: PAD_ConfigurationChanged_def bind_eq_Some_conv)
  have "touches configure_regs s v" by (rule touches_trans [OF Configure_touches [OF u] Configure_touches [OF v]])
  then have "touches device_regs s v"
    by (rule touches_mono) (auto simp: configure_regs_def device_regs_def request_regs_def)
  then show ?thesis unfolding t USB_Device_EnableSOFEvents_def USB_INT_Enable_def
    by (simp add: touch device_regs_def)
qed

interpretation padapp: usb_application "pad_application sig" for sig
proof
  show "sound_descriptors (pad_application sig)"
    using PAD_GetDescriptor_sound by (auto simp: sound_descriptors_def)
  show "control_kept s t" if "EVENT_USB_Device_ControlRequest (pad_application sig) s = Some t" for s t
    using that by (simp add: USB_Event_Stub_def)
  show "adds device_regs s t" if "EVENT_USB_Device_ConfigurationChanged (pad_application sig) s = Some t" for s t
    using that by (auto intro: touches_adds PAD_ConfigurationChanged_touches)
qed

text \<open>
  The device task of the pad writes registers of the USB device only, never the serial port, the
  port pins or the clock, and leaves selected the endpoint that was selected before.
\<close>

lemma pad_usb_task:
  assumes "USB_USBTask (pad_application sig) s = Some t"
  shows "adds device_regs s t \<and> (if fst (rd GPIOR0 s) = DEVICE_STATE_Unattached then t = snd (rd GPIOR0 s)
    else wrote UENUM t \<noteq> [] \<and> last (wrote UENUM t) = hw s (log (snd (rd GPIOR0 s))) UENUM AND ENDPOINT_EPNUM_MASK)"
  by (rule padapp.task_select [OF assms])

definition pad_at :: "(acc list \<Rightarrow> reg \<Rightarrow> u8) \<Rightarrow> pad" where
  "pad_at H = \<lparr>hw = H, log = [], USB_ControlRequest = \<lparr>bmRequestType = 0, bRequest = 0, wValue = 0, wIndex = 0, wLength = 0\<rparr>,
     USB_Device_ConfigurationNumber = 1, USB_Device_CurrentlySelfPowered = False, USB_Device_RemoteWakeupEnabled = False,
     USB_IsInitialized = True, data_send = 0, state_send = 0\<rparr>"

lemma pad_at_simps [simp]: "hw (pad_at H) = H" "log (pad_at H) = []"
  by (simp_all add: pad_at_def)

section \<open>From the serial line to the host\<close>

text \<open>The bank of the IN endpoint is free whenever the program looks.\<close>

definition bank_free :: "(acc list \<Rightarrow> reg \<Rightarrow> u8) \<Rightarrow> bool" where
  "bank_free H \<longleftrightarrow> (\<forall>l. tst (H l UEINTX) RWAL \<and> tst (H l UEINTX) TXINI \<and> tst (H l UECFG0X) EPDIR)"

lemma wait_free:
  assumes "bank_free (hw s)"
  shows "\<exists>t. Endpoint_WaitUntilReady s = Some (ENDPOINT_READYWAIT_NoError, t) \<and> puts [] s t"
proof -
  obtain p u where f: "USB_Device_GetFrameNumber s = (p, u)" by fastforce
  have "touches {} s (snd (USB_Device_GetFrameNumber s))" by (intro touch touches_refl)
  then have u: "hw u = hw s" using f by (auto dest: touches_hw)
  have "fst (wait_round (USB_STREAM_TIMEOUT_MS, p, u)) = Some ENDPOINT_READYWAIT_NoError"
    using assms u by (simp add: wait_round_def wait_steps Let_def split_beta bank_free_def)
  then have "\<exists>t. Endpoint_WaitUntilReady s = Some (ENDPOINT_READYWAIT_NoError, t)"
    unfolding Endpoint_WaitUntilReady_def f Let_def split
    by (subst poll_loop.simps) (auto simp: split_beta)
  then obtain t where t: "Endpoint_WaitUntilReady s = Some (ENDPOINT_READYWAIT_NoError, t)" ..
  from WaitUntilReady_seen [OF t] t puts_reads show ?thesis by blast
qed

lemma free_allowed: "bank_free (hw s) \<Longrightarrow> fst (Endpoint_IsReadWriteAllowed s)"
  by (simp add: bank_free_def Endpoint_IsReadWriteAllowed_def tst_fst)

lemma puts_tests: "puts [] s (snd (Endpoint_IsReadWriteAllowed s))" "puts [] s (snd (Endpoint_IsOUTReceived s))"
  by (intro puts_reads touch touches_refl)+

lemma write_one:
  assumes "bank_free (hw s)"
  shows "\<exists>t. Endpoint_Write_Stream_LE app [b] 1 None s = Some (ENDPOINT_RWSTREAM_NoError, None, [b], t) \<and> puts [(UEDATX, b)] s t"
proof -
  from wait_free [OF assms] obtain u where u: "Endpoint_WaitUntilReady s = Some (ENDPOINT_READYWAIT_NoError, u)" "puts [] s u" by blast
  let ?a = "Endpoint_IsReadWriteAllowed u"
  have a: "fst ?a" using free_allowed [of u] assms puts_hw [OF u(2)] by simp
  let ?t = "Endpoint_Write_8 b (snd ?a)"
  have "Endpoint_Write_Stream_LE app [b] 1 None s = Some (ENDPOINT_RWSTREAM_NoError, None, [b], ?t)"
    using u(1) a unfolding Endpoint_Write_Stream_LE_def stream_template_def
    by (simp add: buffer_offset_def, subst poll_loop.simps)
      (simp add: stream_round_def split_beta Let_def put_byte_def byte_at_def,
       subst poll_loop.simps, simp add: stream_round_def)
  moreover have "puts [(UEDATX, b)] s ?t"
    using puts_trans [OF puts_trans [OF u(2) puts_tests(1)] puts_wr [of UEDATX b]] by (simp add: Endpoint_Write_8_def)
  ultimately show ?thesis by blast
qed

lemma puts_select_in: "puts [(UENUM, 1)] s (Endpoint_SelectEndpoint PAD_IN_EPADDR s)"
proof -
  have "PAD_IN_EPADDR AND ENDPOINT_EPNUM_MASK = 1" by code_simp
  then show ?thesis using puts_wr [of UENUM 1 s] by (simp add: Endpoint_SelectEndpoint_def)
qed

lemma puts_select_out: "puts [(UENUM, 2)] s (Endpoint_SelectEndpoint PAD_OUT_EPADDR s)"
proof -
  have "PAD_OUT_EPADDR AND ENDPOINT_EPNUM_MASK = 2" by code_simp
  then show ?thesis using puts_wr [of UENUM 2 s] by (simp add: Endpoint_SelectEndpoint_def)
qed

lemma puts_pad:
  fixes s t :: pad
  assumes "puts ws s t"
  shows "data_send t = data_send s" "state_send t = state_send s"
  using assms by (cases s; cases t; simp add: puts_def)+

lemma writes_update [simp]: "writes_in (log (s\<lparr>state_send := x\<rparr>)) = writes_in (log s)"
  by simp

lemma SendNextReport_free:
  assumes "state_send s = 1" "bank_free (hw s)"
  shows "\<exists>s' v. SendNextReport sig s = Some s' \<and> state_send s' = 0 \<and>
      writes_in (log s') = writes_in (log s) @ [(UENUM, 1), (UEDATX, data_send s), (UEINTX, v AND NOT (bv TXINI OR bv FIFOCON))]"
proof -
  let ?u = "Endpoint_SelectEndpoint PAD_IN_EPADDR s"
  let ?a = "Endpoint_IsReadWriteAllowed ?u"
  have a: "puts [(UENUM, 1)] s (snd ?a)" using puts_trans [OF puts_select_in puts_tests(1)] by simp
  have "bank_free (hw ?u)" "bank_free (hw (snd ?a))" using assms(2) puts_hw [OF a] puts_hw [OF puts_select_in, of s] by simp_all
  with write_one [of "snd ?a" "pad_application sig" "data_send (snd ?a)"] obtain t where
    t: "Endpoint_Write_Stream_LE (pad_application sig) [data_send (snd ?a)] 1 None (snd ?a) =
      Some (ENDPOINT_RWSTREAM_NoError, None, [data_send (snd ?a)], t)" "puts [(UEDATX, data_send (snd ?a))] (snd ?a) t" by blast
  obtain v where "puts [(UEINTX, v AND NOT (bv TXINI OR bv FIFOCON))] t (Endpoint_ClearIN t)"
    unfolding Endpoint_ClearIN_def using puts_clr_bits by blast
  from puts_trans [OF puts_trans [OF a t(2)] this] puts_pad(1) [OF a]
  have "writes_in (log (Endpoint_ClearIN t)) = writes_in (log s) @ [(UENUM, 1), (UEDATX, data_send s), (UEINTX, v AND NOT (bv TXINI OR bv FIFOCON))]"
    by (simp add: puts_def)
  moreover have "SendNextReport sig s = Some ((Endpoint_ClearIN t)\<lparr>state_send := 0\<rparr>)"
    using t(1) assms(1) free_allowed [OF \<open>bank_free (hw ?u)\<close>] by (simp add: SendNextReport_def Let_def split_beta)
  ultimately show ?thesis by (intro exI [of _ "(Endpoint_ClearIN t)\<lparr>state_send := 0\<rparr>"] exI [of _ v]) simp
qed

text \<open>
  A byte received from the serial line is put into the IN endpoint exactly once and the bank is
  handed to the host, when the bank is free; when the bank is not free at the moment of the test, the
  byte is dropped: in both cases nothing is left to send.
\<close>

lemma SendNextReport_forwards:
  assumes "s = USART1_RX_vect s0"
  shows "data_send s = fst (rd UDR1 s0) \<and>
    (bank_free (hw s0) \<longrightarrow> (\<exists>s' v. SendNextReport sig s = Some s' \<and> state_send s' = 0 \<and>
      writes_in (log s') = writes_in (log s) @ [(UENUM, 1), (UEDATX, data_send s), (UEINTX, v AND NOT (bv TXINI OR bv FIFOCON))])) \<and>
    (\<not> fst (Endpoint_IsReadWriteAllowed (Endpoint_SelectEndpoint PAD_IN_EPADDR s)) \<longrightarrow>
      (\<exists>s'. SendNextReport sig s = Some s' \<and> state_send s' = 0 \<and> writes_in (log s') = writes_in (log s) @ [(UENUM, 1)]))"
proof (intro conjI impI)
  have s: "data_send s = fst (rd UDR1 s0)" "state_send s = 1" "hw s = hw s0"
    by (simp_all add: assms USART1_RX_vect_def split_beta)
  show "data_send s = fst (rd UDR1 s0)" by (rule s)
  let ?u = "Endpoint_SelectEndpoint PAD_IN_EPADDR s"
  let ?a = "Endpoint_IsReadWriteAllowed ?u"
  have a: "puts [(UENUM, 1)] s (snd ?a)" using puts_trans [OF puts_select_in puts_tests(1)] by simp
  show "\<exists>s' v. SendNextReport sig s = Some s' \<and> state_send s' = 0 \<and>
      writes_in (log s') = writes_in (log s) @ [(UENUM, 1), (UEDATX, data_send s), (UEINTX, v AND NOT (bv TXINI OR bv FIFOCON))]"
    if "bank_free (hw s0)"
    by (rule SendNextReport_free) (use that s in simp_all)
  show "\<exists>s'. SendNextReport sig s = Some s' \<and> state_send s' = 0 \<and> writes_in (log s') = writes_in (log s) @ [(UENUM, 1)]"
    if "\<not> fst ?a"
    using that s(2) a by (simp add: SendNextReport_def Let_def split_beta puts_def)
qed

section \<open>From the host to the serial line\<close>

lemma ReceiveNextReport_puts:
  assumes "u = Endpoint_SelectEndpoint PAD_OUT_EPADDR s" "raises (hw s) UCSR1A UDRE1"
  shows "\<exists>s'. ReceiveNextReport s = Some s' \<and> data_send s' = data_send s \<and> state_send s' = state_send s \<and>
    (if \<not> fst (Endpoint_IsOUTReceived u) then writes_in (log s') = writes_in (log s) @ [(UENUM, 2)]
     else let t = snd (Endpoint_IsOUTReceived u); x = snd (Endpoint_IsReadWriteAllowed t)
       in \<exists>v. writes_in (log s') = writes_in (log s) @ [(UENUM, 2)] @
         (if fst (Endpoint_IsReadWriteAllowed t) then [(UDR1, hw s (log x) UEDATX)] else []) @
         [(UEINTX, v AND NOT (bv RXOUTI OR bv FIFOCON))])"
proof -
  let ?t = "snd (Endpoint_IsOUTReceived u)"
  let ?x = "snd (Endpoint_IsReadWriteAllowed ?t)"
  have t: "puts [(UENUM, 2)] s ?t" using puts_trans [OF puts_select_out puts_tests(2)] by (simp add: assms(1))
  have x: "puts [(UENUM, 2)] s ?x" using puts_trans [OF t puts_tests(1)] by simp
  show ?thesis
  proof (cases "fst (Endpoint_IsOUTReceived u)")
    case False
    with t puts_pad [OF t] assms(1) show ?thesis by (simp add: ReceiveNextReport_def Let_def split_beta puts_def)
  next
    case rcv: True
    define w where "w = (if fst (Endpoint_IsReadWriteAllowed ?t) then [(UDR1, hw s (log ?x) UEDATX)] else [])"
    have "\<exists>y. (if fst (Endpoint_IsReadWriteAllowed ?t) then let (LEDReport, s) = Endpoint_Read_8 ?x in Serial_SendByte LEDReport s
        else Some ?x) = Some y \<and> puts w ?x y"
    proof (cases "fst (Endpoint_IsReadWriteAllowed ?t)")
      case True
      let ?r = "snd (rd UEDATX ?x)"
      from puts_hw [OF x] assms(2) obtain q where q: "wait_set UCSR1A UDRE1 ?r = Some q" using wait_set_total [of ?r] by auto
      from puts_trans [OF puts_trans [OF puts_reads [OF touches_rd] puts_reads [OF wait_set_touches [OF q]]] puts_wr [of UDR1 "fst (rd UEDATX ?x)"]]
      have "puts w ?x (wr UDR1 (fst (rd UEDATX ?x)) q)"
        using True puts_hw [OF x] by (simp add: w_def rd_def Let_def)
      with True q show ?thesis by (simp add: Endpoint_Read_8_def Serial_SendByte_def split_beta Let_def)
    next
      case False
      then show ?thesis by (simp add: w_def)
    qed
    then obtain y where y: "(if fst (Endpoint_IsReadWriteAllowed ?t) then let (LEDReport, s) = Endpoint_Read_8 ?x in Serial_SendByte LEDReport s
        else Some ?x) = Some y" "puts w ?x y" by blast
    obtain v where v: "puts [(UEINTX, v AND NOT (bv RXOUTI OR bv FIFOCON))] y (Endpoint_ClearOUT y)"
      unfolding Endpoint_ClearOUT_def using puts_clr_bits by blast
    note p = puts_trans [OF puts_trans [OF x y(2)] v]
    have "ReceiveNextReport s = Some (Endpoint_ClearOUT y)"
      using rcv y(1) unfolding assms(1)
      by (cases "fst (Endpoint_IsReadWriteAllowed (snd (Endpoint_IsOUTReceived (Endpoint_SelectEndpoint PAD_OUT_EPADDR s))))")
        (simp_all add: ReceiveNextReport_def Let_def split_beta)
    with rcv p puts_pad [OF p] show ?thesis by (auto simp: Let_def puts_def w_def)
  qed
qed

text \<open>
  When a packet has arrived at the OUT endpoint, its first byte is sent on the serial line, after
  the transmitter is ready, and the bank is released; without a packet only the endpoint is selected.
\<close>

lemma ReceiveNextReport_forwards:
  assumes "u = Endpoint_SelectEndpoint PAD_OUT_EPADDR s" "raises (hw s) UCSR1A UDRE1"
  shows "\<exists>s'. ReceiveNextReport s = Some s' \<and> data_send s' = data_send s \<and> state_send s' = state_send s \<and>
    (if \<not> fst (Endpoint_IsOUTReceived u) then writes_in (log s') = writes_in (log s) @ [(UENUM, 2)]
     else let t = snd (Endpoint_IsOUTReceived u); x = snd (Endpoint_IsReadWriteAllowed t)
       in \<exists>v. writes_in (log s') = writes_in (log s) @ [(UENUM, 2)] @
         (if fst (Endpoint_IsReadWriteAllowed t) then [(UDR1, hw s (log x) UEDATX)] else []) @
         [(UEINTX, v AND NOT (bv RXOUTI OR bv FIFOCON))])"
  by (rule ReceiveNextReport_puts [OF assms])

section \<open>Enumeration\<close>

definition pad_device :: "u8 list" where
  "pad_device = [18, 1, 0x10, 0x01, 0xFF, 0, 0, 8, 0xCD, 0xAB, 0x34, 0x12, 0x00, 0x02, 1, 2, 3, 1]"

definition pad_configuration :: "u8 list" where
  "pad_configuration = [9, 2, 41, 0, 2, 1, 0, 0xC0, 250,
     9, 4, 0, 0, 1, 0xFF, 0, 0, 0,  7, 5, 0x81, 3, 1, 0, 5,
     9, 4, 1, 0, 1, 0xFF, 0, 0, 0,  7, 5, 0x02, 3, 1, 0, 5]"

lemma pad_device_bytes: "device_bytes PAD_DeviceDescriptor = pad_device"
  by code_simp

lemma pad_configuration_bytes: "configuration_bytes PAD_ConfigurationDescriptor = pad_configuration"
  by code_simp

lemma PAD_Get_device: "PAD_GetDescriptor 0x100 i = (18, pad_device)"
  and PAD_Get_configuration: "PAD_GetDescriptor 0x200 i = (41, pad_configuration)"
  and PAD_Get_serial: "PAD_GetDescriptor 0x303 i = (NO_DESCRIPTOR, [])"
proof -
  have "(ucast (drop_bit 8 (0x100 :: u16)) :: u8) = 1" "(ucast (drop_bit 8 (0x200 :: u16)) :: u8) = 2"
    "(ucast (drop_bit 8 (0x303 :: u16)) :: u8) = 3" "(ucast (0x303 AND 0xFF :: u16) :: u8) = 3" by code_simp+
  then show "PAD_GetDescriptor 0x100 i = (18, pad_device)" "PAD_GetDescriptor 0x200 i = (41, pad_configuration)"
    "PAD_GetDescriptor 0x303 i = (NO_DESCRIPTOR, [])"
    by (simp_all add: PAD_GetDescriptor_def pad_device_bytes pad_configuration_bytes)
qed



end
