(* ===== verification/Pad_Run.thy ===== *)
theory Pad_Run
  imports Pad "HOL-Library.Sublist"
begin

text \<open>
  Runs of the pad: any number of rounds of the main loop of \<open>pad.c\<close> with the two interrupt handlers between
  them, for every behaviour of the hardware and the host. What leaves the serial port is compared with what
  was taken out of the endpoints.
\<close>

section \<open>The serial line carries bytes of the host only\<close>

definition serial_inv :: "'a mcu_scheme \<Rightarrow> bool" where
  "serial_inv s \<longleftrightarrow> subseq (wrote UDR1 s) (was_read UEDATX s)"

lemma serial_inv_adds:
  assumes "serial_inv s" "adds R s t" "UDR1 \<notin> R"
  shows "serial_inv t"
proof -
  from assms(2) obtain l where "log t = l @ log s" by (auto simp: adds_def)
  then have "was_read UEDATX t = was_read UEDATX s @ was_read_in UEDATX l" by (simp add: was_read_def was_read_in_append)
  moreover have "wrote UDR1 t = wrote UDR1 s" by (rule adds_wrote [OF assms(2,3)])
  ultimately show ?thesis using assms(1) by (simp add: serial_inv_def list_emb_prefix)
qed

lemma serial_inv_touches: "serial_inv s \<Longrightarrow> touches R s t \<Longrightarrow> UDR1 \<notin> R \<Longrightarrow> serial_inv t"
  by (rule serial_inv_adds [OF _ touches_adds])

lemma serial_inv_log [simp]: "serial_inv (s\<lparr>data_send := d\<rparr>) = serial_inv s"
  "serial_inv (s\<lparr>state_send := b\<rparr>) = serial_inv s"
  by (simp_all add: serial_inv_def wrote_def was_read_def)

text \<open>A byte is sent directly after it was read.\<close>

lemma serial_inv_send:
  assumes "serial_inv s" "Serial_SendByte (fst (rd UEDATX s)) (snd (rd UEDATX s)) = Some t"
  shows "serial_inv t"
proof -
  from assms(2) obtain u where u: "wait_set UCSR1A UDRE1 (snd (rd UEDATX s)) = Some u" "t = wr UDR1 (fst (rd UEDATX s)) u"
    by (auto simp: Serial_SendByte_def bind_eq_Some_conv)
  from wait_set_touches [OF u(1), of "{}"] obtain l where l: "log u = l @ log (snd (rd UEDATX s))"
    and w: "wrote UDR1 u = wrote UDR1 s" using touches_wrote [OF wait_set_touches [OF u(1), of "{}"], of UDR1] by (auto simp: touches_def)
  from l have "was_read UEDATX u = (was_read UEDATX s @ [fst (rd UEDATX s)]) @ was_read_in UEDATX l"
    by (simp add: was_read_def was_read_in_append rd_def Let_def)
  then have "was_read UEDATX t = (was_read UEDATX s @ [fst (rd UEDATX s)]) @ was_read_in UEDATX l" by (simp add: u(2) was_read_def)
  moreover have "wrote UDR1 t = wrote UDR1 s @ [fst (rd UEDATX s)]" by (simp add: u(2) w)
  moreover have "subseq (wrote UDR1 s @ [fst (rd UEDATX s)]) (was_read UEDATX s @ [fst (rd UEDATX s)])"
    using assms(1) by (intro list_emb_append_mono) (simp_all add: serial_inv_def)
  ultimately show ?thesis by (simp add: serial_inv_def list_emb_prefix del: append_assoc)
qed

section \<open>The operations keep the invariant\<close>

lemma UDR1_device: "UDR1 \<notin> device_regs" "UDR1 \<notin> init_regs" "UDR1 \<notin> insert UEDATX device_regs"
  by (auto simp: device_regs_def request_regs_def init_regs_def configure_regs_def)

lemma serial_inv_task: "serial_inv s \<Longrightarrow> USB_USBTask (pad_application sig) s = Some t \<Longrightarrow> serial_inv t"
  using padapp.task_select [of sig s t] UDR1_device(1) by (blast intro: serial_inv_adds)

lemma serial_inv_usb: "serial_inv s \<Longrightarrow> USB_GEN_vect (pad_application sig) s = Some t \<Longrightarrow> serial_inv t"
  by (rule serial_inv_adds [OF _ USB_GEN_adds UDR1_device(2)]) (auto simp: USB_Event_Stub_def)

lemma serial_inv_receive: "serial_inv s \<Longrightarrow> serial_inv (USART1_RX_vect s)"
  using serial_inv_touches [of s "{}" "snd (rd UDR1 s)"] by (simp add: USART1_RX_vect_def split_beta)

lemma serial_inv_stream:
  assumes "serial_inv s" "Endpoint_Write_Stream_LE (pad_application sig) b n bp s = Some (e, bp', b', t)"
  shows "serial_inv t"
  using assms(2) unfolding Endpoint_Write_Stream_LE_def
proof (rule stream_keeps [where I = serial_inv])
  show "serial_inv (Endpoint_ClearIN u)" if "serial_inv u" for u :: pad
    by (rule serial_inv_touches [OF that, of "{UEINTX}"]) (intro touch touches_refl, simp_all)
  show "serial_inv v" if "serial_inv u" "put_byte p (b, u) = Some (b', v)" for p b b' and u v :: pad
    using that(2) by (auto simp: put_byte_def Endpoint_Write_8_def bind_eq_Some_conv
      intro!: serial_inv_touches [OF that(1) touches_wr [of UEDATX "{UEDATX}"]])
qed (use assms(1) in \<open>auto intro: serial_inv_task serial_inv_touches\<close>)

lemma serial_inv_SendNextReport:
  assumes "serial_inv s" "SendNextReport sig s = Some t"
  shows "serial_inv t"
proof (cases "state_send s = 0")
  case True
  with assms show ?thesis by (simp add: SendNextReport_def)
next
  case False
  let ?a = "Endpoint_IsReadWriteAllowed (Endpoint_SelectEndpoint PAD_IN_EPADDR s)"
  have "touches {UENUM} s (snd ?a)" by (intro touch touches_refl) simp
  with assms(1) have a: "serial_inv (snd ?a)" by (auto intro: serial_inv_touches)
  have c: "serial_inv (Endpoint_ClearIN u)" if "serial_inv u" for u :: pad
    by (rule serial_inv_touches [OF that, of "{UEINTX}"]) (intro touch touches_refl, simp_all)
  from assms(2) False a c serial_inv_stream [of "snd ?a"] show ?thesis
    by (fastforce simp: SendNextReport_def Let_def split_beta bind_eq_Some_conv split: if_splits)
qed

lemma serial_inv_ReceiveNextReport:
  assumes "serial_inv s" "ReceiveNextReport s = Some t"
  shows "serial_inv t"
proof -
  let ?o = "Endpoint_IsOUTReceived (Endpoint_SelectEndpoint PAD_OUT_EPADDR s)"
  let ?a = "Endpoint_IsReadWriteAllowed (snd ?o)"
  have "touches {UENUM} s (snd ?o)" "touches {UENUM} s (snd ?a)" by (intro touch touches_refl; simp)+
  with assms(1) have a: "serial_inv (snd ?o)" "serial_inv (snd ?a)" by (auto intro: serial_inv_touches)
  have c: "serial_inv (Endpoint_ClearOUT u)" if "serial_inv u" for u :: pad
    by (rule serial_inv_touches [OF that, of "{UEINTX}"]) (intro touch touches_refl, simp_all)
  from assms(2) a c serial_inv_send [of "snd ?a"] show ?thesis
    by (fastforce simp: ReceiveNextReport_def Let_def split_beta bind_eq_Some_conv Endpoint_Read_8_def split: if_splits)
qed

lemma serial_inv_round:
  assumes "serial_inv s" "pad_round sig s = Some t"
  shows "serial_inv t"
proof -
  from assms(2) obtain u where u: "USB_USBTask (pad_application sig) s = Some u" "PAD_Task sig u = Some t"
    by (auto simp: pad_round_def bind_eq_Some_conv)
  have "serial_inv (snd (rd GPIOR0 u))"
    by (rule serial_inv_touches [OF serial_inv_task [OF assms(1) u(1)], of "{}"]) (intro touch touches_refl, simp)
  with u(2) show ?thesis
    by (auto simp: PAD_Task_def split_beta Let_def bind_eq_Some_conv split: if_splits
      intro: serial_inv_SendNextReport serial_inv_ReceiveNextReport)
qed

lemma serial_inv_step: "pad_step sig s t \<Longrightarrow> serial_inv s \<Longrightarrow> serial_inv t"
  by (erule pad_stepE) (auto intro: serial_inv_round serial_inv_usb serial_inv_receive)

section \<open>From the reset of the processor\<close>

lemma serial_inv_start: "log s = [] \<Longrightarrow> serial_inv s"
  by (simp add: serial_inv_def wrote_def)

lemma pad_setup_returns:
  assumes "raises (hw s) PLLCSR PLOCK" "serial_inv s"
  shows "\<exists>t. pad_setup s = Some t \<and> serial_inv t"
proof -
  let ?R = "{UBRR1H, UBRR1L, UCSR1A, UCSR1B, UCSR1C, DDRD, PORTD}"
  have "\<exists>u. Serial_Init USART_BAUDRATE USART_DOUBLE_SPEED s = Some u \<and> touches ?R s u"
    by (simp add: Serial_Init_def USART_DOUBLE_SPEED_def wr_UBRR1_def Let_def) (intro touch touches_refl; simp)
  then obtain u where u: "Serial_Init USART_BAUDRATE USART_DOUBLE_SPEED s = Some u" "touches ?R s u" by blast
  let ?v = "set_bits UCSR1B (bv RXCIE1) u"
  have v: "touches ?R s ?v" by (intro touch u(2)) simp
  with assms(1) have "raises (hw ?v) PLLCSR PLOCK" by (simp add: touches_hw)
  from USB_Init_attaches [OF this] obtain w where w: "USB_Init ?v = Some w" "adds init_regs ?v w" by blast
  have "serial_inv w" by (rule serial_inv_adds [OF serial_inv_touches [OF assms(2) v] w(2) UDR1_device(2)]) simp
  then have "serial_inv (wr SREG_I 1 w)" by (rule serial_inv_touches [OF _ touches_wr [of _ "{SREG_I}"]]) simp_all
  with u(1) w(1) show ?thesis by (simp add: pad_setup_def SetupHardware_def)
qed

lemma serial_inv_run: "(pad_step sig)\<^sup>*\<^sup>* s t \<Longrightarrow> serial_inv s \<Longrightarrow> serial_inv t"
  by (induction rule: rtranclp_induct) (auto intro: serial_inv_step)

text \<open>
  Property C7. When the PLL locks the set-up of the pad returns, and from then on, in every order of rounds of
  the main loop, serial interrupts and USB interrupts, and for every behaviour of the host and of the bus,
  the bytes sent on the serial line are bytes taken out of the endpoints, in the order in which they were
  taken out and each at most once.
\<close>

theorem pad_serial_order:
  assumes "raises (hw s0) PLLCSR PLOCK" "log s0 = []"
  shows "\<exists>s. pad_setup s0 = Some s \<and> (\<forall>t. (pad_step sig)\<^sup>*\<^sup>* s t \<longrightarrow> subseq (wrote UDR1 t) (was_read UEDATX t))"
  using pad_setup_returns [OF assms(1) serial_inv_start [OF assms(2)]] serial_inv_run unfolding serial_inv_def by blast

theorem pad_serial_order_witness:
  "\<exists>s t. pad_setup (pad_at (\<lambda>l r. 0xA5)) = Some s \<and> pad_step (\<lambda>_. 0) s t \<and> subseq (wrote UDR1 t) (was_read UEDATX t)"
proof -
  have "tst 0xA5 PLOCK" by code_simp
  then have "raises (hw (pad_at (\<lambda>l r. 0xA5))) PLLCSR PLOCK" by (simp add: raises_def)
  from pad_serial_order [OF this, of "\<lambda>_. 0"] obtain s where s: "pad_setup (pad_at (\<lambda>l r. 0xA5)) = Some s"
    "\<forall>t. (pad_step (\<lambda>_. 0))\<^sup>*\<^sup>* s t \<longrightarrow> subseq (wrote UDR1 t) (was_read UEDATX t)" by auto
  with pad_step.receive [of "\<lambda>_. 0" s] show ?thesis by blast
qed

end
