(* ===== verification/Ring_Buffer.thy ===== *)
theory Ring_Buffer
  imports AVR_IO
begin

text \<open>
  The ring buffer of LUFA (\<open>LUFA/Drivers/Misc/RingBuffer.h\<close>). The storage array is a list and the four
  pointers into it are offsets from its start; an access outside the array is \<open>None\<close>. The counters
  are 16 bits wide and wrap. Besides the operations as functions, the theory splits insertion and
  removal into the steps between which an interrupt can come, and lets a writer and a reader
  interleave.
\<close>

section \<open>The buffer and its operations\<close>

record RingBuffer =
  rb_Store :: "u8 list"
  rb_In :: nat
  rb_Out :: nat
  rb_Start :: nat
  rb_End :: nat
  rb_Size :: u16
  rb_Count :: u16

definition RingBuffer_InitBuffer :: "u8 list \<Rightarrow> u16 \<Rightarrow> 'a mcu_scheme \<Rightarrow> (RingBuffer \<times> 'a mcu_scheme) option" where
  "RingBuffer_InitBuffer DataPtr Size s = do {
     let (CurrentGlobalInt, s) = rd SREG_I s;
     let s = wr SREG_I 0 s;
     guard (unat Size \<le> length DataPtr);
     let Buffer = \<lparr>rb_Store = DataPtr, rb_In = 0, rb_Out = 0, rb_Start = 0, rb_End = unat Size, rb_Size = Size, rb_Count = 0\<rparr>;
     Some (Buffer, wr SREG_I CurrentGlobalInt s) }"

definition RingBuffer_GetCount :: "RingBuffer \<Rightarrow> 'a mcu_scheme \<Rightarrow> u16 \<times> 'a mcu_scheme" where
  "RingBuffer_GetCount Buffer s =
     (let (CurrentGlobalInt, s) = rd SREG_I s;
          s = wr SREG_I 0 s;
          Count = rb_Count Buffer
      in (Count, wr SREG_I CurrentGlobalInt s))"

definition RingBuffer_GetFreeCount :: "RingBuffer \<Rightarrow> 'a mcu_scheme \<Rightarrow> u16 \<times> 'a mcu_scheme" where
  "RingBuffer_GetFreeCount Buffer s = (let (Count, s) = RingBuffer_GetCount Buffer s in (rb_Size Buffer - Count, s))"

definition RingBuffer_IsEmpty :: "RingBuffer \<Rightarrow> 'a mcu_scheme \<Rightarrow> bool \<times> 'a mcu_scheme" where
  "RingBuffer_IsEmpty Buffer s = (let (Count, s) = RingBuffer_GetCount Buffer s in (Count = 0, s))"

definition RingBuffer_IsFull :: "RingBuffer \<Rightarrow> 'a mcu_scheme \<Rightarrow> bool \<times> 'a mcu_scheme" where
  "RingBuffer_IsFull Buffer s = (let (Count, s) = RingBuffer_GetCount Buffer s in (Count = rb_Size Buffer, s))"

text \<open>Insertion: store the byte, advance the pointer, count with interrupts off.\<close>

definition insert_store :: "u8 \<Rightarrow> RingBuffer \<Rightarrow> RingBuffer option" where
  "insert_store Data Buffer = do {
     guard (rb_In Buffer < length (rb_Store Buffer));
     Some (Buffer\<lparr>rb_Store := (rb_Store Buffer)[rb_In Buffer := Data]\<rparr>) }"

definition insert_advance :: "RingBuffer \<Rightarrow> RingBuffer" where
  "insert_advance Buffer =
     (let In = rb_In Buffer + 1 in Buffer\<lparr>rb_In := if In = rb_End Buffer then rb_Start Buffer else In\<rparr>)"

definition insert_count :: "RingBuffer \<Rightarrow> 'a mcu_scheme \<Rightarrow> RingBuffer \<times> 'a mcu_scheme" where
  "insert_count Buffer s =
     (let (CurrentGlobalInt, s) = rd SREG_I s;
          s = wr SREG_I 0 s;
          Buffer = Buffer\<lparr>rb_Count := rb_Count Buffer + 1\<rparr>
      in (Buffer, wr SREG_I CurrentGlobalInt s))"

definition RingBuffer_Insert :: "u8 \<Rightarrow> RingBuffer \<times> 'a mcu_scheme \<Rightarrow> (RingBuffer \<times> 'a mcu_scheme) option" where
  "RingBuffer_Insert Data = (\<lambda>(Buffer, s). do {
     Buffer \<leftarrow> insert_store Data Buffer;
     Some (insert_count (insert_advance Buffer) s) })"

text \<open>Removal: read the byte, advance the pointer, count with interrupts off.\<close>

definition remove_read :: "RingBuffer \<Rightarrow> u8 option" where
  "remove_read Buffer = do {
     guard (rb_Out Buffer < length (rb_Store Buffer));
     Some (rb_Store Buffer ! rb_Out Buffer) }"

definition remove_advance :: "RingBuffer \<Rightarrow> RingBuffer" where
  "remove_advance Buffer =
     (let Out = rb_Out Buffer + 1 in Buffer\<lparr>rb_Out := if Out = rb_End Buffer then rb_Start Buffer else Out\<rparr>)"

definition remove_count :: "RingBuffer \<Rightarrow> 'a mcu_scheme \<Rightarrow> RingBuffer \<times> 'a mcu_scheme" where
  "remove_count Buffer s =
     (let (CurrentGlobalInt, s) = rd SREG_I s;
          s = wr SREG_I 0 s;
          Buffer = Buffer\<lparr>rb_Count := rb_Count Buffer - 1\<rparr>
      in (Buffer, wr SREG_I CurrentGlobalInt s))"

definition RingBuffer_Remove :: "RingBuffer \<times> 'a mcu_scheme \<Rightarrow> (u8 \<times> RingBuffer \<times> 'a mcu_scheme) option" where
  "RingBuffer_Remove = (\<lambda>(Buffer, s). do {
     Data \<leftarrow> remove_read Buffer;
     Some (Data, remove_count (remove_advance Buffer) s) })"

definition RingBuffer_Peek :: "RingBuffer \<Rightarrow> u8 option" where
  "RingBuffer_Peek Buffer = remove_read Buffer"

section \<open>A queue of bounded size\<close>

text \<open>
  What a client relies on: as long as the test for space succeeds an insertion appends, and as long
  as there is something a removal takes the oldest element.
\<close>

locale bounded_queue =
  fixes ins :: "'e \<Rightarrow> 'q \<Rightarrow> 'q option"
    and rem :: "'q \<Rightarrow> ('e \<times> 'q) option"
    and cont :: "'q \<Rightarrow> 'e list"
    and ok :: "'q \<Rightarrow> bool"
    and cap :: "'q \<Rightarrow> nat"
  assumes ins_law: "ok q \<Longrightarrow> length (cont q) < cap q \<Longrightarrow>
      \<exists>q'. ins x q = Some q' \<and> ok q' \<and> cap q' = cap q \<and> cont q' = cont q @ [x]"
    and rem_law: "ok q \<Longrightarrow> cont q \<noteq> [] \<Longrightarrow>
      \<exists>q'. rem q = Some (hd (cont q), q') \<and> ok q' \<and> cap q' = cap q \<and> cont q' = tl (cont q)"
begin

primrec ins_all :: "'e list \<Rightarrow> 'q \<Rightarrow> 'q option" where
  "ins_all [] q = Some q"
| "ins_all (x # xs) q = do { q \<leftarrow> ins x q; ins_all xs q }"

primrec rem_some :: "nat \<Rightarrow> 'q \<Rightarrow> ('e list \<times> 'q) option" where
  "rem_some 0 q = Some ([], q)"
| "rem_some (Suc k) q = do { (x, q) \<leftarrow> rem q; (xs, q) \<leftarrow> rem_some k q; Some (x # xs, q) }"

lemma ins_all_appends:
  "ok q \<Longrightarrow> length (cont q) + length xs \<le> cap q \<Longrightarrow>
     \<exists>q'. ins_all xs q = Some q' \<and> ok q' \<and> cap q' = cap q \<and> cont q' = cont q @ xs"
proof (induction xs arbitrary: q)
  case (Cons x xs)
  then obtain q1 where "ins x q = Some q1" "ok q1" "cap q1 = cap q" "cont q1 = cont q @ [x]"
    using ins_law [of q x] by auto
  with Cons.IH [of q1] Cons.prems show ?case by simp
qed simp

lemma rem_some_takes:
  "ok q \<Longrightarrow> k \<le> length (cont q) \<Longrightarrow>
     \<exists>q'. rem_some k q = Some (take k (cont q), q') \<and> ok q' \<and> cap q' = cap q \<and> cont q' = drop k (cont q)"
proof (induction k arbitrary: q)
  case (Suc k)
  then have ne: "cont q \<noteq> []" by auto
  from rem_law [OF Suc.prems(1) ne] obtain q1
    where q1: "rem q = Some (hd (cont q), q1)" "ok q1" "cap q1 = cap q" "cont q1 = tl (cont q)" by blast
  moreover have "k \<le> length (cont q1)" using Suc.prems(2) q1(4) by simp
  ultimately obtain q' where
    "rem_some k q1 = Some (take k (tl (cont q)), q')" "ok q'" "cap q' = cap q" "cont q' = drop k (tl (cont q))"
    using Suc.IH [of q1] by auto
  with q1(1) ne show ?case by (cases "cont q") auto
qed simp

lemma through_queue:
  assumes "ok q" "length (cont q) + length xs \<le> cap q"
  shows "\<exists>q1 q2. ins_all xs q = Some q1 \<and>
    rem_some (length (cont q) + length xs) q1 = Some (cont q @ xs, q2) \<and> ok q2 \<and> cap q2 = cap q \<and> cont q2 = []"
proof -
  from ins_all_appends [OF assms] obtain q1
    where q1: "ins_all xs q = Some q1" "ok q1" "cap q1 = cap q" "cont q1 = cont q @ xs" by blast
  with rem_some_takes [of q1 "length (cont q1)"] show ?thesis by auto
qed

end

section \<open>The ring buffer is a queue\<close>

text \<open>The stored bytes, oldest first, and the shape every operation keeps.\<close>

definition rb_contents :: "RingBuffer \<Rightarrow> u8 list" where
  "rb_contents b = map (\<lambda>k. rb_Store b ! ((rb_Out b + k) mod unat (rb_Size b))) [0 ..< unat (rb_Count b)]"

definition rb_ok :: "RingBuffer \<Rightarrow> bool" where
  "rb_ok b \<longleftrightarrow> 0 < rb_Size b \<and> unat (rb_Size b) \<le> length (rb_Store b) \<and> rb_Start b = 0 \<and>
     rb_End b = unat (rb_Size b) \<and> rb_Count b \<le> rb_Size b \<and> rb_Out b < unat (rb_Size b) \<and>
     rb_In b = (rb_Out b + unat (rb_Count b)) mod unat (rb_Size b)"

lemma length_rb_contents [simp]: "length (rb_contents b) = unat (rb_Count b)"
  by (simp add: rb_contents_def)

lemma wrap_advance: "0 < (n :: nat) \<Longrightarrow> (if i mod n + 1 = n then 0 else i mod n + 1) = (i + 1) mod n"
  by (simp add: mod_Suc)

lemma mod_distinct: "(k :: nat) < i \<Longrightarrow> i < k + n \<Longrightarrow> k mod n \<noteq> i mod n"
  by (metis dvd_imp_le less_diff_conv2 less_imp_le mod_eq_dvd_iff_nat not_less zero_less_diff
      add.commute)

lemma count_fields [simp]:
  "fst (insert_count b s) = b\<lparr>rb_Count := rb_Count b + 1\<rparr>" "fst (remove_count b s) = b\<lparr>rb_Count := rb_Count b - 1\<rparr>"
  by (simp_all add: insert_count_def remove_count_def Let_def split_beta)

lemma insert_appends:
  assumes "rb_ok b" "rb_Count b \<noteq> rb_Size b"
  shows "\<exists>b' s'. RingBuffer_Insert v (b, s) = Some (b', s') \<and> rb_ok b' \<and> rb_Size b' = rb_Size b \<and>
    rb_contents b' = rb_contents b @ [v]"
proof -
  define n where "n = unat (rb_Size b)"
  define b' where "b' = (insert_advance (b\<lparr>rb_Store := (rb_Store b)[rb_In b := v]\<rparr>))\<lparr>rb_Count := rb_Count b + 1\<rparr>"
  from assms have lt: "rb_Count b < rb_Size b" by (simp add: rb_ok_def order.strict_iff_order)
  note up = unat_plus_one [OF lt]
  have c: "unat (rb_Count b) < n" using lt by (simp add: n_def word_less_nat_alt)
  have i: "rb_In b = (rb_Out b + unat (rb_Count b)) mod n" "0 < n" "n \<le> length (rb_Store b)" "rb_Out b < n"
    using assms(1) c by (auto simp: rb_ok_def n_def)
  then have "rb_In b < n" by simp
  then have ins: "RingBuffer_Insert v (b, s) = Some (b', snd (insert_count (insert_advance (b\<lparr>rb_Store := (rb_Store b)[rb_In b := v]\<rparr>)) s))"
    using i(3) by (simp add: RingBuffer_Insert_def insert_store_def b'_def prod_eq_iff insert_advance_def Let_def)
  have ok': "rb_ok b'"
    using assms(1) up c lt wrap_advance [OF i(2), of "rb_Out b + unat (rb_Count b)"] i(1)
    by (auto simp: rb_ok_def b'_def insert_advance_def Let_def n_def word_le_nat_alt word_less_nat_alt add.assoc)
  have old: "rb_Store b' ! ((rb_Out b + k) mod n) = rb_Store b ! ((rb_Out b + k) mod n)" if "k < unat (rb_Count b)" for k
    using mod_distinct [of "rb_Out b + k" "rb_Out b + unat (rb_Count b)" n] that c i(1)
    by (simp add: b'_def insert_advance_def Let_def)
  have new: "rb_Store b' ! ((rb_Out b + unat (rb_Count b)) mod n) = v"
    using i(1,3) \<open>rb_In b < n\<close> by (simp add: b'_def insert_advance_def Let_def)
  have f: "rb_Out b' = rb_Out b" "rb_Size b' = rb_Size b" "unat (rb_Count b') = unat (rb_Count b) + 1"
    using up by (simp_all add: b'_def insert_advance_def Let_def)
  have "rb_contents b' = rb_contents b @ [v]"
    using old new by (simp add: rb_contents_def f flip: n_def)
  with ins ok' f(2) show ?thesis by blast
qed

lemma remove_takes:
  assumes "rb_ok b" "rb_Count b \<noteq> 0"
  shows "\<exists>b' s'. RingBuffer_Remove (b, s) = Some (hd (rb_contents b), b', s') \<and> rb_ok b' \<and> rb_Size b' = rb_Size b \<and>
    rb_contents b' = tl (rb_contents b)"
proof -
  define n where "n = unat (rb_Size b)"
  define b' where "b' = (remove_advance b)\<lparr>rb_Count := rb_Count b - 1\<rparr>"
  obtain m where m: "unat (rb_Count b) = Suc m" using assms(2) by (cases "unat (rb_Count b)") (auto simp: unat_eq_0)
  have down: "unat (rb_Count b - 1) = m" using unat_sub_one [OF assms(2)] m by simp
  have i: "rb_Out b < n" "0 < n" "n \<le> length (rb_Store b)" "Suc m \<le> n"
    using assms(1) m by (auto simp: rb_ok_def n_def word_le_nat_alt)
  have hd: "hd (rb_contents b) = rb_Store b ! rb_Out b"
    using i(1) by (simp add: rb_contents_def m upt_rec [of 0] flip: n_def del: upt_Suc)
  have rem: "RingBuffer_Remove (b, s) = Some (hd (rb_contents b), b', snd (remove_count (remove_advance b) s))"
    using i by (simp add: RingBuffer_Remove_def remove_read_def hd b'_def prod_eq_iff remove_advance_def Let_def)
  have out: "rb_Out b' = (rb_Out b + 1) mod n"
    using wrap_advance [OF i(2), of "rb_Out b"] i(1) assms(1) by (simp add: b'_def remove_advance_def Let_def rb_ok_def n_def)
  have f: "rb_Store b' = rb_Store b" "rb_Size b' = rb_Size b" "rb_In b' = rb_In b" "rb_Count b' = rb_Count b - 1"
    "rb_Start b' = rb_Start b" "rb_End b' = rb_End b"
    by (simp_all add: b'_def remove_advance_def Let_def)
  have ok': "rb_ok b'"
    using assms(1) down m i(2,4)
    by (auto simp: rb_ok_def f out n_def word_le_nat_alt mod_simps)
  have "rb_contents b' = tl (rb_contents b)"
    by (rule nth_equalityI) (auto simp: rb_contents_def f down m out nth_tl mod_simps simp del: upt_Suc simp flip: n_def)
  with rem ok' f(2) show ?thesis by blast
qed

interpretation ring: bounded_queue RingBuffer_Insert RingBuffer_Remove
  "\<lambda>(b, s). rb_contents b" "\<lambda>(b, s). rb_ok b" "\<lambda>(b, s). unat (rb_Size b)"
proof
  fix q :: "RingBuffer \<times> 'a mcu_scheme" and x
  obtain b s where q: "q = (b, s)" by (cases q)
  show "\<exists>q'. RingBuffer_Insert x q = Some q' \<and> (case q' of (b, s) \<Rightarrow> rb_ok b) \<and>
      (case q' of (b, s) \<Rightarrow> unat (rb_Size b)) = (case q of (b, s) \<Rightarrow> unat (rb_Size b)) \<and>
      (case q' of (b, s) \<Rightarrow> rb_contents b) = (case q of (b, s) \<Rightarrow> rb_contents b) @ [x]"
    if "case q of (b, s) \<Rightarrow> rb_ok b" "length (case q of (b, s) \<Rightarrow> rb_contents b) < (case q of (b, s) \<Rightarrow> unat (rb_Size b))"
  proof -
    from that have "rb_Count b \<noteq> rb_Size b" by (auto simp: q)
    with that insert_appends [of b x s] obtain b' s' where "RingBuffer_Insert x (b, s) = Some (b', s')" "rb_ok b'"
      "rb_Size b' = rb_Size b" "rb_contents b' = rb_contents b @ [x]" by (auto simp: q)
    then show ?thesis by (simp add: q)
  qed
  show "\<exists>q'. RingBuffer_Remove q = Some (hd (case q of (b, s) \<Rightarrow> rb_contents b), q') \<and>
      (case q' of (b, s) \<Rightarrow> rb_ok b) \<and> (case q' of (b, s) \<Rightarrow> unat (rb_Size b)) = (case q of (b, s) \<Rightarrow> unat (rb_Size b)) \<and>
      (case q' of (b, s) \<Rightarrow> rb_contents b) = tl (case q of (b, s) \<Rightarrow> rb_contents b)"
    if "case q of (b, s) \<Rightarrow> rb_ok b" "(case q of (b, s) \<Rightarrow> rb_contents b) \<noteq> []"
  proof -
    from that have "rb_Count b \<noteq> 0" by (auto simp: q rb_contents_def)
    with that remove_takes [of b s] obtain b' s' where "RingBuffer_Remove (b, s) = Some (hd (rb_contents b), b', s')" "rb_ok b'"
      "rb_Size b' = rb_Size b" "rb_contents b' = tl (rb_contents b)" by (auto simp: q)
    then show ?thesis by (simp add: q)
  qed
qed

lemma init_ok:
  assumes "0 < Size" "unat Size \<le> length DataPtr"
  shows "\<exists>b s'. RingBuffer_InitBuffer DataPtr Size s = Some (b, s') \<and> rb_ok b \<and> rb_Size b = Size \<and> rb_contents b = []"
  using assms by (auto simp: RingBuffer_InitBuffer_def split_beta rb_ok_def rb_contents_def word_less_nat_alt)

section \<open>A writer and a reader that interrupt each other\<close>

text \<open>
  The documentation allows one thread to insert and another one, for example an interrupt handler, to
  remove. Each thread tests the count first; then the three steps of its operation follow, and a step
  of the other thread can come between any two of them. \<open>fed\<close> and \<open>taken\<close> record the bytes stored and
  the bytes read.
\<close>

datatype writer = Writer_Idle | Writer_Tested | Writer_Stored | Writer_Advanced
datatype reader = Reader_Idle | Reader_Tested | Reader_Read | Reader_Advanced

record 'a pipe =
  pipe_buf :: RingBuffer
  pipe_mcu :: "'a mcu_scheme"
  pipe_writer :: writer
  pipe_reader :: reader
  fed :: "u8 list"
  taken :: "u8 list"

inductive pipe_step :: "'a pipe \<Rightarrow> 'a pipe \<Rightarrow> bool" where
  writer_test: "pipe_writer p = Writer_Idle \<Longrightarrow> RingBuffer_IsFull (pipe_buf p) (pipe_mcu p) = (full, s) \<Longrightarrow>
     pipe_step p (p\<lparr>pipe_mcu := s, pipe_writer := if full then Writer_Idle else Writer_Tested\<rparr>)"
| writer_store: "pipe_writer p = Writer_Tested \<Longrightarrow> insert_store v (pipe_buf p) = Some b \<Longrightarrow>
     pipe_step p (p\<lparr>pipe_buf := b, pipe_writer := Writer_Stored, fed := fed p @ [v]\<rparr>)"
| writer_advance: "pipe_writer p = Writer_Stored \<Longrightarrow>
     pipe_step p (p\<lparr>pipe_buf := insert_advance (pipe_buf p), pipe_writer := Writer_Advanced\<rparr>)"
| writer_count: "pipe_writer p = Writer_Advanced \<Longrightarrow> insert_count (pipe_buf p) (pipe_mcu p) = (b, s) \<Longrightarrow>
     pipe_step p (p\<lparr>pipe_buf := b, pipe_mcu := s, pipe_writer := Writer_Idle\<rparr>)"
| reader_test: "pipe_reader p = Reader_Idle \<Longrightarrow> RingBuffer_IsEmpty (pipe_buf p) (pipe_mcu p) = (none, s) \<Longrightarrow>
     pipe_step p (p\<lparr>pipe_mcu := s, pipe_reader := if none then Reader_Idle else Reader_Tested\<rparr>)"
| reader_read: "pipe_reader p = Reader_Tested \<Longrightarrow> remove_read (pipe_buf p) = Some v \<Longrightarrow>
     pipe_step p (p\<lparr>pipe_reader := Reader_Read, taken := taken p @ [v]\<rparr>)"
| reader_advance: "pipe_reader p = Reader_Read \<Longrightarrow>
     pipe_step p (p\<lparr>pipe_buf := remove_advance (pipe_buf p), pipe_reader := Reader_Advanced\<rparr>)"
| reader_count: "pipe_reader p = Reader_Advanced \<Longrightarrow> remove_count (pipe_buf p) (pipe_mcu p) = (b, s) \<Longrightarrow>
     pipe_step p (p\<lparr>pipe_buf := b, pipe_mcu := s, pipe_reader := Reader_Idle\<rparr>)"

inductive_cases pipe_stepE: "pipe_step p q"

definition pipe_start :: "RingBuffer \<Rightarrow> 'a mcu_scheme \<Rightarrow> 'a pipe" where
  "pipe_start b s = \<lparr>pipe_buf = b, pipe_mcu = s, pipe_writer = Writer_Idle, pipe_reader = Reader_Idle, fed = [], taken = []\<rparr>"

text \<open>
  How far the pointers and the count lag behind the bytes stored and read, and the invariant: the
  pointers are the numbers of bytes modulo the size, and the bytes not yet read are in their places.
\<close>

definition w_moved :: "'a pipe \<Rightarrow> nat" where
  "w_moved p = length (fed p) - (if pipe_writer p = Writer_Stored then 1 else 0)"

definition w_counted :: "'a pipe \<Rightarrow> nat" where
  "w_counted p = length (fed p) - (if pipe_writer p \<in> {Writer_Stored, Writer_Advanced} then 1 else 0)"

definition r_moved :: "'a pipe \<Rightarrow> nat" where
  "r_moved p = length (taken p) - (if pipe_reader p = Reader_Read then 1 else 0)"

definition r_counted :: "'a pipe \<Rightarrow> nat" where
  "r_counted p = length (taken p) - (if pipe_reader p \<in> {Reader_Read, Reader_Advanced} then 1 else 0)"

definition pipe_shape :: "'a pipe \<Rightarrow> bool" where
  "pipe_shape p \<longleftrightarrow> (let b = pipe_buf p; n = unat (rb_Size b) in
     0 < n \<and> n \<le> length (rb_Store b) \<and> rb_Start b = 0 \<and> rb_End b = n \<and>
     rb_In b = w_moved p mod n \<and> rb_Out b = r_moved p mod n \<and>
     unat (rb_Count b) + r_counted p = w_counted p)"

definition pipe_order :: "'a pipe \<Rightarrow> bool" where
  "pipe_order p \<longleftrightarrow> (let n = unat (rb_Size (pipe_buf p)) in
     (pipe_writer p \<in> {Writer_Stored, Writer_Advanced} \<longrightarrow> fed p \<noteq> []) \<and>
     (pipe_reader p \<in> {Reader_Read, Reader_Advanced} \<longrightarrow> taken p \<noteq> []) \<and>
     length (taken p) + (if pipe_reader p = Reader_Tested then 1 else 0) \<le> w_counted p \<and>
     length (fed p) + (if pipe_writer p = Writer_Tested then 1 else 0) \<le> r_counted p + n)"

definition pipe_data :: "'a pipe \<Rightarrow> bool" where
  "pipe_data p \<longleftrightarrow> taken p = take (length (taken p)) (fed p) \<and>
     (\<forall>k. length (taken p) \<le> k \<longrightarrow> k < length (fed p) \<longrightarrow>
        rb_Store (pipe_buf p) ! (k mod unat (rb_Size (pipe_buf p))) = fed p ! k)"

lemmas pipe_counts = w_moved_def w_counted_def r_moved_def r_counted_def

lemma tests_only_read:
  "fst (RingBuffer_IsFull b s) = (rb_Count b = rb_Size b)" "fst (RingBuffer_IsEmpty b s) = (rb_Count b = 0)"
  by (simp_all add: RingBuffer_IsFull_def RingBuffer_IsEmpty_def RingBuffer_GetCount_def Let_def split_beta)

lemma pipe_shape_step:
  assumes "pipe_step p q" "pipe_shape p" "pipe_order p"
  shows "pipe_shape q \<and> rb_Size (pipe_buf q) = rb_Size (pipe_buf p)"
  using assms(1)
proof cases
  case (writer_count b s)
  define c where "c = rb_Count (pipe_buf p)"
  have b: "b = (pipe_buf p)\<lparr>rb_Count := c + 1\<rparr>" using writer_count(3) count_fields(1) [of "pipe_buf p" "pipe_mcu p"] by (simp add: c_def)
  have "c < rb_Size (pipe_buf p)"
    using assms(2,3) writer_count(2) by (auto simp: pipe_shape_def pipe_order_def pipe_counts Let_def c_def word_less_nat_alt)
  then have "unat (c + 1) = unat c + 1" by (rule unat_plus_one)
  with assms(2,3) writer_count(1,2) b show ?thesis
    by (auto simp: pipe_shape_def pipe_order_def pipe_counts Let_def c_def)
next
  case (reader_count b s)
  define c where "c = rb_Count (pipe_buf p)"
  have b: "b = (pipe_buf p)\<lparr>rb_Count := c - 1\<rparr>" using reader_count(3) count_fields(2) [of "pipe_buf p" "pipe_mcu p"] by (simp add: c_def)
  from assms(3) reader_count(2) obtain m where m: "length (taken p) = Suc m"
    by (cases "taken p") (auto simp: pipe_order_def Let_def)
  have "0 < unat c"
    using assms(2,3) reader_count(2) m by (auto simp: pipe_shape_def pipe_order_def pipe_counts Let_def c_def split: if_splits)
  then have "unat (c - 1) = unat c - 1" by (intro unat_sub_one) auto
  with assms(2,3) reader_count(1,2) b m \<open>0 < unat c\<close> show ?thesis
    by (auto simp: pipe_shape_def pipe_order_def pipe_counts Let_def c_def)
next
  case writer_advance
  have "0 < unat (rb_Size (pipe_buf p))" using assms(2) by (simp add: pipe_shape_def Let_def)
  from wrap_advance [OF this, of "length (fed p) - 1"] assms(2,3) writer_advance show ?thesis
    by (auto simp: pipe_shape_def pipe_order_def pipe_counts Let_def insert_advance_def)
next
  case reader_advance
  have "0 < unat (rb_Size (pipe_buf p))" using assms(2) by (simp add: pipe_shape_def Let_def)
  from wrap_advance [OF this, of "length (taken p) - 1"] assms(2,3) reader_advance show ?thesis
    by (auto simp: pipe_shape_def pipe_order_def pipe_counts Let_def remove_advance_def)
qed (use assms(2,3) in \<open>auto simp: pipe_shape_def pipe_order_def pipe_counts Let_def insert_store_def bind_eq_Some_conv\<close>)

lemma pipe_order_step:
  assumes "pipe_step p q" "pipe_shape p" "pipe_order p"
  shows "pipe_order q"
  using assms(1)
proof cases
  case (writer_test full s)
  then have "full = (rb_Count (pipe_buf p) = rb_Size (pipe_buf p))" using tests_only_read(1) [of "pipe_buf p" "pipe_mcu p"] by simp
  with assms(2,3) writer_test show ?thesis
    by (auto simp: pipe_shape_def pipe_order_def pipe_counts Let_def word_unat_eq_iff split: if_splits)
next
  case (reader_test none s)
  then have "none = (rb_Count (pipe_buf p) = 0)" using tests_only_read(2) [of "pipe_buf p" "pipe_mcu p"] by simp
  with assms(2,3) reader_test show ?thesis
    by (auto simp: pipe_shape_def pipe_order_def pipe_counts Let_def word_unat_eq_iff split: if_splits)
next
  case (writer_count b s)
  then have "rb_Size b = rb_Size (pipe_buf p)" using count_fields(1) [of "pipe_buf p" "pipe_mcu p"] by simp
  with assms(2,3) writer_count show ?thesis by (auto simp: pipe_order_def pipe_counts Let_def)
next
  case (reader_count b s)
  then have "rb_Size b = rb_Size (pipe_buf p)" using count_fields(2) [of "pipe_buf p" "pipe_mcu p"] by simp
  with assms(2,3) reader_count show ?thesis by (auto simp: pipe_order_def pipe_counts Let_def)
qed (use assms(2,3) in \<open>auto simp: pipe_order_def pipe_counts Let_def insert_store_def insert_advance_def
    remove_advance_def bind_eq_Some_conv split: if_splits\<close>)

lemma pipe_data_step:
  assumes "pipe_step p q" "pipe_shape p" "pipe_order p" "pipe_data p"
  shows "pipe_data q"
  using assms(1)
proof cases
  case (writer_store v b)
  define n where "n = unat (rb_Size (pipe_buf p))"
  have b: "b = (pipe_buf p)\<lparr>rb_Store := (rb_Store (pipe_buf p))[length (fed p) mod n := v]\<rparr>"
    and len: "length (fed p) mod n < length (rb_Store (pipe_buf p))"
    using writer_store(2,3) assms(2) by (auto simp: insert_store_def bind_eq_Some_conv pipe_shape_def pipe_counts Let_def n_def)
  have room: "length (fed p) < length (taken p) + n" "length (taken p) \<le> length (fed p)"
    using assms(3) writer_store(2) by (auto simp: pipe_order_def pipe_counts Let_def n_def)
  then have "k mod n \<noteq> length (fed p) mod n" if "length (taken p) \<le> k" "k < length (fed p)" for k
    using mod_distinct [of k "length (fed p)" n] that by linarith
  with assms(4) have "(rb_Store (pipe_buf p))[length (fed p) mod n := v] ! (k mod n) = fed p ! k"
    if "length (taken p) \<le> k" "k < length (fed p)" for k
    using that by (simp add: pipe_data_def flip: n_def) (metis nth_list_update_neq)
  with assms(4) len room(2) show ?thesis
    by (auto simp: writer_store(1) b pipe_data_def nth_append less_Suc_eq simp flip: n_def)
next
  case (reader_read v)
  have "length (taken p) < length (fed p)"
    using assms(3) reader_read(2) by (auto simp: pipe_order_def pipe_counts Let_def split: if_splits)
  moreover from this have "v = fed p ! length (taken p)"
    using assms(2,4) reader_read(2,3) by (auto simp: remove_read_def bind_eq_Some_conv pipe_shape_def pipe_data_def pipe_counts Let_def)
  ultimately show ?thesis using assms(4) by (auto simp: reader_read(1) pipe_data_def take_Suc_conv_app_nth)
next
  case (writer_count b s)
  then show ?thesis using assms(4) count_fields(1) [of "pipe_buf p" "pipe_mcu p"] by (auto simp: pipe_data_def)
next
  case (reader_count b s)
  then show ?thesis using assms(4) count_fields(2) [of "pipe_buf p" "pipe_mcu p"] by (auto simp: pipe_data_def)
qed (use assms(4) in \<open>auto simp: pipe_data_def insert_advance_def remove_advance_def Let_def\<close>)

lemma pipe_invariant:
  assumes "RingBuffer_InitBuffer DataPtr Size s = Some (b, s')" "0 < Size" "pipe_step\<^sup>*\<^sup>* (pipe_start b s') p"
  shows "pipe_shape p \<and> pipe_order p \<and> pipe_data p \<and> rb_Size (pipe_buf p) = Size"
  using assms(3)
proof (induction rule: rtranclp_induct)
  case base
  from assms(1,2) show ?case
    by (auto simp: RingBuffer_InitBuffer_def split_beta bind_eq_Some_conv pipe_start_def pipe_shape_def pipe_order_def
        pipe_data_def pipe_counts Let_def word_less_nat_alt)
next
  case (step p q)
  then show ?case using pipe_shape_step pipe_order_step pipe_data_step by metis
qed

lemma quiet_contents:
  assumes "pipe_shape p" "pipe_order p" "pipe_data p" "pipe_writer p = Writer_Idle" "pipe_reader p = Reader_Idle"
  shows "rb_contents (pipe_buf p) = drop (length (taken p)) (fed p)"
proof (rule nth_equalityI)
  have c: "unat (rb_Count (pipe_buf p)) = length (fed p) - length (taken p)"
    using assms by (auto simp: pipe_shape_def pipe_counts Let_def)
  then show "length (rb_contents (pipe_buf p)) = length (drop (length (taken p)) (fed p))" by simp
  fix k assume "k < length (rb_contents (pipe_buf p))"
  with c assms show "rb_contents (pipe_buf p) ! k = drop (length (taken p)) (fed p) ! k"
    by (auto simp: rb_contents_def pipe_shape_def pipe_data_def pipe_counts Let_def mod_simps)
qed

text \<open>
  Property C37. One thread that inserts after testing for space and another one that removes after testing for
  content may interrupt each other between any two steps: the bytes read are the bytes stored, in
  order and each once, at most \<open>Size\<close> of them are under way, neither thread ever leaves the storage array,
  and when both are at rest the buffer holds exactly the bytes not yet read.
\<close>

theorem ring_interleaved:
  assumes "RingBuffer_InitBuffer DataPtr Size s = Some (b, s')" "0 < Size" "pipe_step\<^sup>*\<^sup>* (pipe_start b s') p"
  shows "(\<exists>rest. fed p = taken p @ rest \<and> length rest \<le> unat Size) \<and>
    (pipe_writer p = Writer_Tested \<longrightarrow> insert_store v (pipe_buf p) \<noteq> None) \<and>
    (pipe_reader p = Reader_Tested \<longrightarrow> remove_read (pipe_buf p) = Some (fed p ! length (taken p))) \<and>
    (pipe_writer p = Writer_Idle \<and> pipe_reader p = Reader_Idle \<longrightarrow>
       rb_contents (pipe_buf p) = drop (length (taken p)) (fed p))"
proof -
  from pipe_invariant [OF assms] have i: "pipe_shape p" "pipe_order p" "pipe_data p" "rb_Size (pipe_buf p) = Size" by auto
  have "fed p = taken p @ drop (length (taken p)) (fed p)" using i(3) by (metis append_take_drop_id pipe_data_def)
  moreover have "length (fed p) - length (taken p) \<le> unat Size"
    using i(2,4) by (auto simp: pipe_order_def pipe_counts Let_def split: if_splits)
  moreover have "insert_store v (pipe_buf p) \<noteq> None" if "pipe_writer p = Writer_Tested"
    using i(1) that mod_less_divisor [of "unat Size" "length (fed p)"]
    by (auto simp: pipe_shape_def pipe_counts Let_def insert_store_def i(4) guard_def
        intro: less_le_trans [OF mod_less_divisor])
  moreover have "remove_read (pipe_buf p) = Some (fed p ! length (taken p))" if "pipe_reader p = Reader_Tested"
  proof -
    have "length (taken p) < length (fed p)" using i(2) that by (auto simp: pipe_order_def pipe_counts Let_def split: if_splits)
    then show ?thesis using i that
      by (auto simp: pipe_shape_def pipe_data_def pipe_counts Let_def remove_read_def guard_def
          dest: less_le_trans [OF mod_less_divisor])
  qed
  ultimately show ?thesis using quiet_contents [OF i(1-3)] by (metis length_drop)
qed

definition demo_mcu :: mcu where
  "demo_mcu = \<lparr>hw = (\<lambda>_ _. 128), log = []\<rparr>"

definition demo_ring :: RingBuffer where
  "demo_ring = \<lparr>rb_Store = [0, 0], rb_In = 0, rb_Out = 0, rb_Start = 0, rb_End = 2, rb_Size = 2, rb_Count = 0\<rparr>"

definition demo_sreg :: "mcu \<Rightarrow> mcu" where
  "demo_sreg s = wr SREG_I 128 (wr SREG_I 0 (snd (rd SREG_I s)))"

lemma demo_run:
  "pipe_step\<^sup>*\<^sup>* (pipe_start demo_ring s)
     \<lparr>pipe_buf = demo_ring\<lparr>rb_Store := [7, 0], rb_In := 1, rb_Count := 1\<rparr>, pipe_mcu = snd (insert_count demo_ring (snd (RingBuffer_IsFull demo_ring s))),
      pipe_writer = Writer_Idle, pipe_reader = Reader_Idle, fed = [7], taken = []\<rparr>"
proof -
  let ?p0 = "pipe_start demo_ring s"
  let ?p1 = "?p0\<lparr>pipe_mcu := snd (RingBuffer_IsFull demo_ring s), pipe_writer := Writer_Tested\<rparr>"
  let ?p2 = "?p1\<lparr>pipe_buf := demo_ring\<lparr>rb_Store := [7, 0]\<rparr>, pipe_writer := Writer_Stored, fed := fed ?p1 @ [7]\<rparr>"
  let ?p3 = "?p2\<lparr>pipe_buf := insert_advance (pipe_buf ?p2), pipe_writer := Writer_Advanced\<rparr>"
  have 1: "pipe_step ?p0 ?p1"
    using pipe_step.writer_test [of ?p0 False "snd (RingBuffer_IsFull demo_ring s)"] tests_only_read(1) [of demo_ring s]
    by (simp add: pipe_start_def prod_eq_iff) (simp add: demo_ring_def)
  have 2: "pipe_step ?p1 ?p2"
    by (rule pipe_step.writer_store) (simp_all add: pipe_start_def insert_store_def demo_ring_def)
  have 3: "pipe_step ?p2 ?p3" by (rule pipe_step.writer_advance) simp
  have 4: "pipe_step ?p3 (?p3\<lparr>pipe_buf := fst (insert_count (pipe_buf ?p3) (pipe_mcu ?p3)),
      pipe_mcu := snd (insert_count (pipe_buf ?p3) (pipe_mcu ?p3)), pipe_writer := Writer_Idle\<rparr>)"
    by (rule pipe_step.writer_count) (simp_all del: count_fields)
  have "pipe_step\<^sup>*\<^sup>* ?p0 (?p3\<lparr>pipe_buf := fst (insert_count (pipe_buf ?p3) (pipe_mcu ?p3)),
      pipe_mcu := snd (insert_count (pipe_buf ?p3) (pipe_mcu ?p3)), pipe_writer := Writer_Idle\<rparr>)"
    using 1 2 3 4 by (meson converse_rtranclp_into_rtranclp r_into_rtranclp)
  then show ?thesis by (simp add: pipe_start_def insert_advance_def demo_ring_def Let_def insert_count_def split_beta)
qed

theorem ring_interleaved_witness:
  "\<exists>p. pipe_step\<^sup>*\<^sup>* (pipe_start demo_ring (demo_sreg demo_mcu)) p \<and> fed p = [7] \<and> rb_contents (pipe_buf p) = [7]"
proof -
  have i: "RingBuffer_InitBuffer [0, 0] 2 demo_mcu = Some (demo_ring, demo_sreg demo_mcu)"
    by (simp add: RingBuffer_InitBuffer_def demo_ring_def demo_mcu_def demo_sreg_def rd_def Let_def)
  show ?thesis using ring_interleaved [OF i _ demo_run, of 0] demo_run [of "demo_sreg demo_mcu"] by auto
qed

text \<open>
  A fresh ring buffer gives back what was put into it: any bytes that fit are accepted, and as many
  removals return them in order; all operations return.
\<close>

lemma ring_roundtrip:
  assumes "0 < Size" "unat Size \<le> length DataPtr" "length xs \<le> unat Size"
  shows "\<exists>b s' q q'. RingBuffer_InitBuffer DataPtr Size s = Some (b, s') \<and> ring.ins_all xs (b, s') = Some q \<and>
    ring.rem_some (length xs) q = Some (xs, q') \<and> rb_contents (fst q') = []"
proof -
  from init_ok [OF assms(1,2)] obtain b s' where b: "RingBuffer_InitBuffer DataPtr Size s = Some (b, s')" "rb_ok b"
    "rb_Size b = Size" "rb_contents b = []" by blast
  with ring.through_queue [of "(b, s')" xs] assms(3) show ?thesis by (auto simp: split_beta)
qed

end
