(* ===== verification/Config_Descriptors.thy ===== *)
theory Config_Descriptors
  imports Pad_Descriptors
begin

text \<open>
  Searching a configuration descriptor (\<open>LUFA/Drivers/USB/Core/ConfigDescriptors.c\<close> and \<open>.h\<close>). The
  memory that holds the descriptors is a list of bytes, \<open>*CurrConfigLoc\<close> an offset into it and
  \<open>*BytesRem\<close> a 16-bit word. A read behind the end of the memory is \<open>None\<close>; so is a loop that does
  not end, as on a descriptor of size zero.
\<close>

section \<open>The searches\<close>

definition DESCRIPTOR_SIZE :: "u8 list \<Rightarrow> nat \<Rightarrow> u8 option" where
  "DESCRIPTOR_SIZE mem p = do { guard (p < length mem); Some (mem ! p) }"

definition DESCRIPTOR_TYPE :: "u8 list \<Rightarrow> nat \<Rightarrow> u8 option" where
  "DESCRIPTOR_TYPE mem p = do { guard (p + 1 < length mem); Some (mem ! (p + 1)) }"

definition USB_GetNextDescriptor :: "u8 list \<Rightarrow> u16 \<times> nat \<Rightarrow> (u16 \<times> nat) option" where
  "USB_GetNextDescriptor mem = (\<lambda>(BytesRem, CurrConfigLoc). do {
     size \<leftarrow> DESCRIPTOR_SIZE mem CurrConfigLoc;
     let CurrDescriptorSize = (ucast size :: u16);
     let CurrDescriptorSize = (if BytesRem < CurrDescriptorSize then BytesRem else CurrDescriptorSize);
     Some (BytesRem - CurrDescriptorSize, CurrConfigLoc + unat CurrDescriptorSize) })"

text \<open>The loop ends with \<open>Some ()\<close>; the two locations are the state.\<close>

definition type_round :: "u8 list \<Rightarrow> u8 \<Rightarrow> u16 \<times> nat \<Rightarrow> (unit option \<times> u16 \<times> nat) option" where
  "type_round mem Type = (\<lambda>(BytesRem, CurrConfigLoc).
     if BytesRem = 0 then Some (Some (), BytesRem, CurrConfigLoc)
     else do {
       (BytesRem, CurrConfigLoc) \<leftarrow> USB_GetNextDescriptor mem (BytesRem, CurrConfigLoc);
       t \<leftarrow> DESCRIPTOR_TYPE mem CurrConfigLoc;
       Some (if t = Type then Some () else None, BytesRem, CurrConfigLoc) })"

definition USB_GetNextDescriptorOfType :: "u8 list \<Rightarrow> u8 \<Rightarrow> u16 \<times> nat \<Rightarrow> (u16 \<times> nat) option" where
  "USB_GetNextDescriptorOfType mem Type loc = map_option snd (poll_loop (type_round mem Type) loc)"

definition before_round :: "u8 list \<Rightarrow> u8 \<Rightarrow> u8 \<Rightarrow> u16 \<times> nat \<Rightarrow> (unit option \<times> u16 \<times> nat) option" where
  "before_round mem Type BeforeType = (\<lambda>(BytesRem, CurrConfigLoc).
     if BytesRem = 0 then Some (Some (), BytesRem, CurrConfigLoc)
     else do {
       (BytesRem, CurrConfigLoc) \<leftarrow> USB_GetNextDescriptor mem (BytesRem, CurrConfigLoc);
       t \<leftarrow> DESCRIPTOR_TYPE mem CurrConfigLoc;
       if t = Type then Some (Some (), BytesRem, CurrConfigLoc)
       else do {
         t \<leftarrow> DESCRIPTOR_TYPE mem CurrConfigLoc;
         Some (if t = BeforeType then (Some (), 0, CurrConfigLoc) else (None, BytesRem, CurrConfigLoc)) } })"

definition USB_GetNextDescriptorOfTypeBefore :: "u8 list \<Rightarrow> u8 \<Rightarrow> u8 \<Rightarrow> u16 \<times> nat \<Rightarrow> (u16 \<times> nat) option" where
  "USB_GetNextDescriptorOfTypeBefore mem Type BeforeType loc =
     map_option snd (poll_loop (before_round mem Type BeforeType) loc)"

definition USB_GetNextDescriptorOfTypeAfter :: "u8 list \<Rightarrow> u8 \<Rightarrow> u8 \<Rightarrow> u16 \<times> nat \<Rightarrow> (u16 \<times> nat) option" where
  "USB_GetNextDescriptorOfTypeAfter mem Type AfterType loc = do {
     (BytesRem, CurrConfigLoc) \<leftarrow> USB_GetNextDescriptorOfType mem AfterType loc;
     if BytesRem \<noteq> 0 then USB_GetNextDescriptorOfType mem Type (BytesRem, CurrConfigLoc)
     else Some (BytesRem, CurrConfigLoc) }"

text \<open>
  The search with a comparator: the routine of the application is a parameter, a function of the
  location that may itself not return.
\<close>

abbreviation DESCRIPTOR_SEARCH_Found :: u8 where "DESCRIPTOR_SEARCH_Found \<equiv> 0"
abbreviation DESCRIPTOR_SEARCH_Fail :: u8 where "DESCRIPTOR_SEARCH_Fail \<equiv> 1"
abbreviation DESCRIPTOR_SEARCH_NotFound :: u8 where "DESCRIPTOR_SEARCH_NotFound \<equiv> 2"
abbreviation DESCRIPTOR_SEARCH_COMP_EndOfDescriptor :: u8 where "DESCRIPTOR_SEARCH_COMP_EndOfDescriptor \<equiv> 2"

definition comp_round :: "u8 list \<Rightarrow> (nat \<Rightarrow> u8 option) \<Rightarrow> u16 \<times> nat \<Rightarrow> (u8 option \<times> u16 \<times> nat) option" where
  "comp_round mem ComparatorRoutine = (\<lambda>(BytesRem, CurrConfigLoc).
     if BytesRem = 0 then Some (Some DESCRIPTOR_SEARCH_COMP_EndOfDescriptor, BytesRem, CurrConfigLoc)
     else do {
       let PrevDescLoc = CurrConfigLoc;
       let PrevBytesRem = BytesRem;
       (BytesRem, CurrConfigLoc) \<leftarrow> USB_GetNextDescriptor mem (BytesRem, CurrConfigLoc);
       ErrorCode \<leftarrow> ComparatorRoutine CurrConfigLoc;
       Some (if ErrorCode \<noteq> DESCRIPTOR_SEARCH_NotFound
             then if ErrorCode = DESCRIPTOR_SEARCH_Fail then (Some ErrorCode, PrevBytesRem, PrevDescLoc)
                  else (Some ErrorCode, BytesRem, CurrConfigLoc)
             else (None, BytesRem, CurrConfigLoc)) })"

definition USB_GetNextDescriptorComp :: "u8 list \<Rightarrow> (nat \<Rightarrow> u8 option) \<Rightarrow> u16 \<times> nat \<Rightarrow> (u8 \<times> u16 \<times> nat) option" where
  "USB_GetNextDescriptorComp mem ComparatorRoutine = poll_loop (comp_round mem ComparatorRoutine)"

section \<open>Well-formed descriptors\<close>

text \<open>
  A descriptor starts with its size and its type. The searches are correct on a sequence of such
  descriptors that is followed by at least two readable bytes: after the last descriptor the
  routines look at the type of the bytes behind it.
\<close>

definition descriptor :: "u8 list \<Rightarrow> bool" where
  "descriptor d \<longleftrightarrow> 2 \<le> length d \<and> unat (d ! 0) = length d"

definition rest_len :: "u8 list list \<Rightarrow> u16" where
  "rest_len ds = of_nat (length (concat ds))"

definition fits :: "u8 list list \<Rightarrow> bool" where
  "fits ds \<longleftrightarrow> (\<forall>d \<in> set ds. descriptor d) \<and> length (concat ds) < 2 ^ 16"

lemma fits_Cons: "fits (d # ds) \<Longrightarrow> descriptor d \<and> fits ds"
  by (auto simp: fits_def)

lemma unat_rest_len: "fits ds \<Longrightarrow> unat (rest_len ds) = length (concat ds)"
  by (simp add: fits_def rest_len_def unsigned_of_nat take_bit_nat_eq_self)

lemma rest_len_0: "fits (d # ds) \<Longrightarrow> rest_len (d # ds) \<noteq> 0"
  using unat_rest_len [of "d # ds"] by (auto simp: fits_def descriptor_def)

lemma rest_len_Nil [simp]: "rest_len [] = 0"
  by (simp add: rest_len_def)

lemma next_descriptor:
  assumes "fits (d # ds)" "mem = pre @ concat (d # ds) @ slack"
  shows "USB_GetNextDescriptor mem (rest_len (d # ds), length pre) = Some (rest_len ds, length (pre @ d))"
proof -
  from fits_Cons [OF assms(1)] have d: "descriptor d" "fits ds" by auto
  then have sz: "DESCRIPTOR_SIZE mem (length pre) = Some (d ! 0)"
    by (cases d) (auto simp: DESCRIPTOR_SIZE_def descriptor_def assms(2) nth_append)
  have u: "unat (ucast (d ! 0) :: u16) = length d" using d(1) unat_ucast_16 [of "d ! 0"] by (simp add: descriptor_def)
  have le: "\<not> rest_len (d # ds) < (ucast (d ! 0) :: u16)"
    using u unat_rest_len [OF assms(1)] by (simp add: word_less_nat_alt)
  have "rest_len (d # ds) - ucast (d ! 0) = rest_len ds"
    using u unat_rest_len [OF assms(1)] unat_rest_len [OF d(2)] le
    by (simp add: word_unat_eq_iff unat_sub word_le_nat_alt not_less)
  with sz u le show ?thesis by (simp add: USB_GetNextDescriptor_def)
qed

lemma next_type:
  assumes "fits (d # ds)" "mem = pre @ concat (d # ds) @ slack"
  shows "DESCRIPTOR_TYPE mem (length pre) = Some (d ! 1)"
proof -
  have "descriptor d" using fits_Cons [OF assms(1)] by simp
  then show ?thesis by (auto simp: DESCRIPTOR_TYPE_def descriptor_def assms(2) nth_append)
qed

lemma slack_type: "2 \<le> length slack \<Longrightarrow> DESCRIPTOR_TYPE (pre @ slack) (length pre) = Some (slack ! 1)"
  by (auto simp: DESCRIPTOR_TYPE_def nth_append)

text \<open>
  Both loops are one search: \<open>f\<close> says for a type whether the search goes on (\<open>None\<close>) or ends, keeping
  the bytes that remain or setting them to zero.
\<close>

definition seek_round :: "u8 list \<Rightarrow> (u8 \<Rightarrow> bool option) \<Rightarrow> u16 \<times> nat \<Rightarrow> (unit option \<times> u16 \<times> nat) option" where
  "seek_round mem f = (\<lambda>(R, p).
     if R = 0 then Some (Some (), R, p)
     else do {
       (R, p) \<leftarrow> USB_GetNextDescriptor mem (R, p);
       t \<leftarrow> DESCRIPTOR_TYPE mem p;
       Some (case f t of None \<Rightarrow> (None, R, p) | Some keep \<Rightarrow> (Some (), if keep then R else 0, p)) })"

definition found_at :: "(u8 \<Rightarrow> bool option) \<Rightarrow> u8 list list \<Rightarrow> nat \<Rightarrow> u16 \<times> nat" where
  "found_at f ds e = (let r = dropWhile (\<lambda>d. f (d ! 1) = None) ds
     in (if r \<noteq> [] \<and> f (hd r ! 1) = Some True then rest_len r else 0, e - length (concat r)))"

lemma type_round_seek: "type_round mem Type = seek_round mem (\<lambda>t. if t = Type then Some True else None)"
  by (rule ext) (auto simp: type_round_def seek_round_def split: bind_splits)

lemma before_round_seek:
  "before_round mem Type BeforeType = seek_round mem (\<lambda>t. if t = Type then Some True else if t = BeforeType then Some False else None)"
  by (rule ext) (auto simp: before_round_def seek_round_def split: bind_splits)

lemma seek_loop:
  assumes "fits (d # ds)" "2 \<le> length slack"
  shows "poll_loop (seek_round (pre @ concat (d # ds) @ slack) f) (rest_len (d # ds), length pre) =
    Some ((), found_at f ds (length (pre @ concat (d # ds))))"
  using assms(1)
proof (induction ds arbitrary: pre d)
  case Nil
  let ?mem = "pre @ concat [d] @ slack" and ?loc = "(rest_len [d], length pre)"
  have "DESCRIPTOR_TYPE ?mem (length (pre @ d)) = Some (slack ! 1)" using slack_type [OF assms(2), of "pre @ d"] by simp
  with next_descriptor [OF Nil refl, of pre slack] rest_len_0 [OF Nil]
  have "seek_round ?mem f ?loc = Some (if f (slack ! 1) = None then None else Some (), 0, length (pre @ d))"
    by (simp add: seek_round_def split: option.splits)
  moreover have "seek_round ?mem f (0, length (pre @ d)) = Some (Some (), 0, length (pre @ d))"
    by (simp add: seek_round_def)
  ultimately have "poll_loop (seek_round ?mem f) ?loc = Some ((), 0, length (pre @ d))"
    by (cases "f (slack ! 1)") (auto intro: poll_stop simp: poll_again poll_stop)
  then show ?case by (simp add: found_at_def)
next
  case (Cons e ds)
  let ?mem = "pre @ concat (d # e # ds) @ slack" and ?loc = "(rest_len (d # e # ds), length pre)"
  have f: "fits (e # ds)" using fits_Cons [OF Cons.prems] by simp
  have "DESCRIPTOR_TYPE ?mem (length (pre @ d)) = Some (e ! 1)" using next_type [OF f, of ?mem "pre @ d" slack] by simp
  with next_descriptor [OF Cons.prems refl, of pre slack] rest_len_0 [OF Cons.prems]
  have r: "seek_round ?mem f ?loc = Some (case f (e ! 1) of None \<Rightarrow> (None, rest_len (e # ds), length (pre @ d))
      | Some keep \<Rightarrow> (Some (), if keep then rest_len (e # ds) else 0, length (pre @ d)))"
    by (simp add: seek_round_def split: option.splits)
  show ?case
  proof (cases "f (e ! 1)")
    case None
    with poll_again [of "seek_round ?mem f" ?loc] r have "poll_loop (seek_round ?mem f) ?loc =
        poll_loop (seek_round ?mem f) (rest_len (e # ds), length (pre @ d))" by simp
    with None Cons.IH [OF f, of "pre @ d"] show ?thesis by (simp add: found_at_def)
  next
    case (Some keep)
    with poll_stop [of "seek_round ?mem f" ?loc] r
    have "poll_loop (seek_round ?mem f) ?loc = Some ((), if keep then rest_len (e # ds) else 0, length (pre @ d))" by simp
    with Some show ?thesis by (simp add: found_at_def)
  qed
qed

text \<open>The position of a list of descriptors at the end of the configuration.\<close>

definition found :: "u8 list list \<Rightarrow> nat \<Rightarrow> u16 \<times> nat" where
  "found r e = (rest_len r, e - length (concat r))"

lemma fits_dropWhile: "fits ds \<Longrightarrow> fits (dropWhile P ds)"
proof -
  assume f: "fits ds"
  have "length (concat ds) = length (concat (takeWhile P ds)) + length (concat (dropWhile P ds))"
    by (metis concat_append length_append takeWhile_dropWhile_id)
  with f show ?thesis by (auto simp: fits_def dest: set_dropWhileD)
qed

lemma of_type_found:
  assumes "fits (d # ds)" "2 \<le> length slack" "mem = pre @ concat (d # ds) @ slack"
  shows "USB_GetNextDescriptorOfType mem Type (rest_len (d # ds), length pre) =
    Some (found (dropWhile (\<lambda>d. d ! 1 \<noteq> Type) ds) (length (pre @ concat (d # ds))))"
proof -
  let ?f = "\<lambda>t. if t = Type then Some True else None"
  have "found_at ?f ds e = found (dropWhile (\<lambda>d. d ! 1 \<noteq> Type) ds) e" for e
    using hd_dropWhile [of "\<lambda>d. d ! 1 \<noteq> Type" ds]
    by (cases "dropWhile (\<lambda>d. d ! 1 \<noteq> Type) ds = []") (auto simp: found_at_def found_def Let_def simp del: dropWhile_eq_Nil_conv)
  then show ?thesis
    unfolding USB_GetNextDescriptorOfType_def type_round_seek assms(3) seek_loop [OF assms(1,2)] by simp
qed

lemma before_found:
  assumes "fits (d # ds)" "2 \<le> length slack" "mem = pre @ concat (d # ds) @ slack"
  shows "USB_GetNextDescriptorOfTypeBefore mem Type BeforeType (rest_len (d # ds), length pre) =
    (let r = dropWhile (\<lambda>d. d ! 1 \<noteq> Type \<and> d ! 1 \<noteq> BeforeType) ds; e = length (pre @ concat (d # ds))
     in Some (if r \<noteq> [] \<and> hd r ! 1 \<noteq> Type then (0, snd (found r e)) else found r e))"
proof -
  let ?f = "\<lambda>t. if t = Type then Some True else if t = BeforeType then Some False else None"
  let ?r = "dropWhile (\<lambda>d. d ! 1 \<noteq> Type \<and> d ! 1 \<noteq> BeforeType) ds"
  have "(\<lambda>d. ?f (d ! 1) = None) = (\<lambda>d. d ! 1 \<noteq> Type \<and> d ! 1 \<noteq> BeforeType)" by (auto simp: fun_eq_iff)
  then have "found_at ?f ds e = (if ?r \<noteq> [] \<and> hd ?r ! 1 \<noteq> Type then (0, snd (found ?r e)) else found ?r e)" for e
    using hd_dropWhile [of "\<lambda>d. d ! 1 \<noteq> Type \<and> d ! 1 \<noteq> BeforeType" ds]
    by (cases "?r = []") (auto simp: found_at_def found_def Let_def simp del: dropWhile_eq_Nil_conv)
  then show ?thesis
    unfolding USB_GetNextDescriptorOfTypeBefore_def before_round_seek assms(3) seek_loop [OF assms(1,2)]
    by (simp del: dropWhile_eq_Nil_conv)
qed

lemma split_found:
  assumes "dropWhile P ds = e # es"
  shows "pre @ concat (d # ds) @ slack = (pre @ d @ concat (takeWhile P ds)) @ concat (e # es) @ slack"
    and "length (pre @ concat (d # ds)) - length (concat (e # es)) = length (pre @ d @ concat (takeWhile P ds))"
proof -
  have "concat ds = concat (takeWhile P ds) @ concat (e # es)"
    using assms by (metis concat_append takeWhile_dropWhile_id)
  then show "pre @ concat (d # ds) @ slack = (pre @ d @ concat (takeWhile P ds)) @ concat (e # es) @ slack"
    "length (pre @ concat (d # ds)) - length (concat (e # es)) = length (pre @ d @ concat (takeWhile P ds))" by simp_all
qed

lemma after_found:
  assumes "fits (d # ds)" "2 \<le> length slack" "mem = pre @ concat (d # ds) @ slack"
  shows "USB_GetNextDescriptorOfTypeAfter mem Type AfterType (rest_len (d # ds), length pre) =
    (let r = dropWhile (\<lambda>d. d ! 1 \<noteq> AfterType) ds; e = length (pre @ concat (d # ds))
     in Some (found (dropWhile (\<lambda>d. d ! 1 \<noteq> Type) (tl r)) e))"
proof (cases "dropWhile (\<lambda>d. d ! 1 \<noteq> AfterType) ds")
  case Nil
  with of_type_found [OF assms, of AfterType] show ?thesis
    by (simp add: USB_GetNextDescriptorOfTypeAfter_def found_def del: dropWhile_eq_Nil_conv)
next
  case (Cons a as)
  have f: "fits (a # as)" using fits_dropWhile [of ds] fits_Cons [OF assms(1)] Cons by metis
  note sp = split_found [OF Cons, of pre d]
  have "mem = (pre @ d @ concat (takeWhile (\<lambda>d. d ! 1 \<noteq> AfterType) ds)) @ concat (a # as) @ slack"
    unfolding assms(3) by (rule sp(1))
  from of_type_found [OF f assms(2) this, of Type]
  have "USB_GetNextDescriptorOfType mem Type (found (a # as) (length (pre @ concat (d # ds)))) =
      Some (found (dropWhile (\<lambda>d. d ! 1 \<noteq> Type) as) (length (pre @ concat (d # ds))))"
    unfolding found_def sp(2) using sp(1) [of "[]"] by (metis append_Nil2)
  moreover have "fst (found (a # as) e) \<noteq> 0" for e using rest_len_0 [OF f] by (simp add: found_def)
  ultimately show ?thesis using of_type_found [OF assms, of AfterType] Cons
    by (simp add: USB_GetNextDescriptorOfTypeAfter_def split_beta)
qed

lemma comp_result:
  assumes "USB_GetNextDescriptorComp mem cmp loc = Some (c, R, p)"
  shows "c = DESCRIPTOR_SEARCH_COMP_EndOfDescriptor \<and> R = 0 \<or>
    c = DESCRIPTOR_SEARCH_Fail \<and> (\<exists>R' p'. USB_GetNextDescriptor mem (R, p) = Some (R', p') \<and> cmp p' = Some c) \<or>
    cmp p = Some c"
proof -
  let ?Q = "\<lambda>c (R, p). c = DESCRIPTOR_SEARCH_COMP_EndOfDescriptor \<and> R = 0 \<or>
    c = DESCRIPTOR_SEARCH_Fail \<and> (\<exists>R' p'. USB_GetNextDescriptor mem (R, p) = Some (R', p') \<and> cmp p' = Some c) \<or>
    cmp p = Some c"
  have "?Q c (R, p)"
    by (rule poll_loop_rule [of "comp_round mem cmp" loc c "(R, p)" "\<lambda>_. True" ?Q])
      (use assms in \<open>auto simp: USB_GetNextDescriptorComp_def comp_round_def bind_eq_Some_conv split: if_splits\<close>)
  then show ?thesis by simp
qed

lemma search_overruns:
  assumes "fits (d # ds)" "\<forall>d \<in> set ds. d ! 1 \<noteq> Type"
  shows "USB_GetNextDescriptorOfType (pre @ concat (d # ds)) Type (rest_len (d # ds), length pre) = None"
  using assms
proof (induction ds arbitrary: pre d)
  case Nil
  let ?mem = "pre @ concat [d]" and ?loc = "(rest_len [d], length pre)"
  have "DESCRIPTOR_TYPE ?mem (length (pre @ d)) = None" by (simp add: DESCRIPTOR_TYPE_def)
  with next_descriptor [OF Nil(1), of ?mem pre "[]"] rest_len_0 [OF Nil(1)] have "type_round ?mem Type ?loc = None"
    by (simp add: type_round_def)
  then show ?case unfolding USB_GetNextDescriptorOfType_def by (subst poll_loop.simps) simp
next
  case (Cons e ds)
  let ?mem = "pre @ concat (d # e # ds)" and ?loc = "(rest_len (d # e # ds), length pre)"
  have f: "fits (e # ds)" using fits_Cons [OF Cons.prems(1)] by simp
  have "DESCRIPTOR_TYPE ?mem (length (pre @ d)) = Some (e ! 1)" using next_type [OF f, of ?mem "pre @ d" "[]"] by simp
  with next_descriptor [OF Cons.prems(1), of ?mem pre "[]"] rest_len_0 [OF Cons.prems(1)] Cons.prems(2)
  have "type_round ?mem Type ?loc = Some (None, rest_len (e # ds), length (pre @ d))" by (simp add: type_round_def)
  from poll_again [of "type_round ?mem Type", OF this] Cons.IH [OF f, of "pre @ d"] Cons.prems(2)
  show ?case by (simp add: USB_GetNextDescriptorOfType_def)
qed


definition pad_descriptors :: "u8 list list" where
  "pad_descriptors = [[9, 4, 0, 0, 1, 0xFF, 0, 0, 0], [7, 5, 0x81, 3, 1, 0, 5],
     [9, 4, 1, 0, 1, 0xFF, 0, 0, 0], [7, 5, 0x02, 3, 1, 0, 5]]"


end
