(* ===== verification/HID_Parser.thy ===== *)
theory HID_Parser
  imports Prelude
begin

text \<open>
  The parser of HID report descriptors and the access to report items
  (\<open>LUFA/Drivers/USB/Class/Common/HIDParser.c\<close> and \<open>.h\<close>). The report is a list of bytes and the
  pointer into it an offset; the fixed arrays are lists and pointers to their elements indices, and
  any access outside an array is \<open>None\<close>. The state table is the stack of its used entries, the current
  one first, and the usage list is its used part. The values of a fresh report item are not
  initialised in C; they are \<open>None\<close> here. The filter routine of the application is a parameter.
\<close>

section \<open>Constants and data\<close>

abbreviation HID_STATETABLE_STACK_DEPTH :: nat where "HID_STATETABLE_STACK_DEPTH \<equiv> 2"
abbreviation HID_USAGE_STACK_DEPTH :: nat where "HID_USAGE_STACK_DEPTH \<equiv> 8"
abbreviation HID_MAX_COLLECTIONS :: nat where "HID_MAX_COLLECTIONS \<equiv> 10"
abbreviation HID_MAX_REPORTITEMS :: nat where "HID_MAX_REPORTITEMS \<equiv> 20"
abbreviation HID_MAX_REPORT_IDS :: nat where "HID_MAX_REPORT_IDS \<equiv> 10"

datatype hid_parse =
    HID_PARSE_Successful
  | HID_PARSE_HIDStackOverflow
  | HID_PARSE_HIDStackUnderflow
  | HID_PARSE_InsufficientReportItems
  | HID_PARSE_UnexpectedEndCollection
  | HID_PARSE_InsufficientCollectionPaths
  | HID_PARSE_UsageListOverflow
  | HID_PARSE_InsufficientReportIDItems
  | HID_PARSE_NoUnfilteredReportItems

record HID_MinMax =
  mm_Minimum :: u32
  mm_Maximum :: u32

record HID_Unit =
  un_Type :: u32
  un_Exponent :: u8

record HID_Usage =
  us_Page :: u16
  us_Usage :: u16

record HID_CollectionPath =
  cp_Type :: u8
  cp_Usage :: HID_Usage
  cp_Parent :: "nat option"

record HID_ReportItem_Attributes =
  at_BitSize :: u8
  at_Usage :: HID_Usage
  at_Unit :: HID_Unit
  at_Logical :: HID_MinMax
  at_Physical :: HID_MinMax

record HID_ReportItem =
  it_BitOffset :: u16
  it_ItemType :: u8
  it_ItemFlags :: u16
  it_ReportID :: u8
  it_CollectionPath :: "nat option"
  it_Attributes :: HID_ReportItem_Attributes
  it_Value :: "u32 option"
  it_PreviousValue :: "u32 option"

record HID_ReportSizeInfo =
  rs_ReportID :: u8
  rs_SizeBits :: "u16 list"

record HID_ReportInfo =
  TotalReportItems :: u8
  ReportItems :: "HID_ReportItem list"
  CollectionPaths :: "HID_CollectionPath list"
  TotalDeviceReports :: u8
  ReportIDSizes :: "HID_ReportSizeInfo list"
  LargestReportSizeBits :: u16
  UsingReportIDs :: bool

record HID_StateTable =
  st_Attributes :: HID_ReportItem_Attributes
  st_ReportCount :: u8
  st_ReportID :: u8

text \<open>The sizes of two structures on the AVR, where nothing is aligned and a pointer has two bytes.\<close>

definition sizeof_Attributes :: nat where "sizeof_Attributes = 1 + (2 + 2) + (4 + 1) + (4 + 4) + (4 + 4)"
definition sizeof_ReportItem :: nat where "sizeof_ReportItem = 2 + 1 + 2 + 1 + 2 + sizeof_Attributes + 4 + 4"
definition sizeof_StateTable :: nat where "sizeof_StateTable = sizeof_Attributes + 1 + 1"

text \<open>The variables of \<open>USB_ProcessHIDReport\<close> besides the position in the report.\<close>

record HID_parser =
  pr_Info :: HID_ReportInfo
  pr_States :: "HID_StateTable list"
  pr_Path :: "nat option"
  pr_ReportID :: nat
  pr_Usages :: "u16 list"
  pr_MinMax :: HID_MinMax

text \<open>Zeroed structures, as \<open>memset\<close> leaves them.\<close>

definition zero_attributes :: HID_ReportItem_Attributes where
  "zero_attributes = \<lparr>at_BitSize = 0, at_Usage = \<lparr>us_Page = 0, us_Usage = 0\<rparr>, at_Unit = \<lparr>un_Type = 0, un_Exponent = 0\<rparr>,
     at_Logical = \<lparr>mm_Minimum = 0, mm_Maximum = 0\<rparr>, at_Physical = \<lparr>mm_Minimum = 0, mm_Maximum = 0\<rparr>\<rparr>"

definition zero_item :: HID_ReportItem where
  "zero_item = \<lparr>it_BitOffset = 0, it_ItemType = 0, it_ItemFlags = 0, it_ReportID = 0, it_CollectionPath = None,
     it_Attributes = zero_attributes, it_Value = Some 0, it_PreviousValue = Some 0\<rparr>"

definition zero_path :: HID_CollectionPath where
  "zero_path = \<lparr>cp_Type = 0, cp_Usage = \<lparr>us_Page = 0, us_Usage = 0\<rparr>, cp_Parent = None\<rparr>"

definition zero_size :: HID_ReportSizeInfo where
  "zero_size = \<lparr>rs_ReportID = 0, rs_SizeBits = [0, 0, 0]\<rparr>"

definition zero_state :: HID_StateTable where
  "zero_state = \<lparr>st_Attributes = zero_attributes, st_ReportCount = 0, st_ReportID = 0\<rparr>"

definition parser_start :: HID_parser where
  "parser_start = \<lparr>pr_Info = \<lparr>TotalReportItems = 0, ReportItems = replicate HID_MAX_REPORTITEMS zero_item,
       CollectionPaths = replicate HID_MAX_COLLECTIONS zero_path, TotalDeviceReports = 1,
       ReportIDSizes = replicate HID_MAX_REPORT_IDS zero_size, LargestReportSizeBits = 0, UsingReportIDs = False\<rparr>,
     pr_States = [zero_state], pr_Path = None, pr_ReportID = 0, pr_Usages = [], pr_MinMax = \<lparr>mm_Minimum = 0, mm_Maximum = 0\<rparr>\<rparr>"

section \<open>Arrays\<close>

definition aget :: "'a list \<Rightarrow> nat \<Rightarrow> 'a option" where
  "aget xs i = (if i < length xs then Some (xs ! i) else None)"

definition aset :: "'a list \<Rightarrow> nat \<Rightarrow> 'a \<Rightarrow> 'a list option" where
  "aset xs i v = (if i < length xs then Some (xs[i := v]) else None)"

section \<open>Items\<close>

definition HID_RI_DATA_SIZE_MASK :: u8 where "HID_RI_DATA_SIZE_MASK = 0x03"
definition HID_RI_TYPE_MASK :: u8 where "HID_RI_TYPE_MASK = 0x0C"
definition HID_RI_TAG_MASK :: u8 where "HID_RI_TAG_MASK = 0xF0"
abbreviation HID_RI_TYPE_MAIN :: u8 where "HID_RI_TYPE_MAIN \<equiv> 0x00"
abbreviation HID_RI_TYPE_GLOBAL :: u8 where "HID_RI_TYPE_GLOBAL \<equiv> 0x04"
abbreviation HID_RI_TYPE_LOCAL :: u8 where "HID_RI_TYPE_LOCAL \<equiv> 0x08"
abbreviation HID_IOF_CONSTANT :: u32 where "HID_IOF_CONSTANT \<equiv> 1"

abbreviation HID_RI_INPUT :: u8 where "HID_RI_INPUT \<equiv> HID_RI_TYPE_MAIN OR 0x80"
abbreviation HID_RI_OUTPUT :: u8 where "HID_RI_OUTPUT \<equiv> HID_RI_TYPE_MAIN OR 0x90"
abbreviation HID_RI_COLLECTION :: u8 where "HID_RI_COLLECTION \<equiv> HID_RI_TYPE_MAIN OR 0xA0"
abbreviation HID_RI_FEATURE :: u8 where "HID_RI_FEATURE \<equiv> HID_RI_TYPE_MAIN OR 0xB0"
abbreviation HID_RI_END_COLLECTION :: u8 where "HID_RI_END_COLLECTION \<equiv> HID_RI_TYPE_MAIN OR 0xC0"
abbreviation HID_RI_USAGE_PAGE :: u8 where "HID_RI_USAGE_PAGE \<equiv> HID_RI_TYPE_GLOBAL OR 0x00"
abbreviation HID_RI_LOGICAL_MINIMUM :: u8 where "HID_RI_LOGICAL_MINIMUM \<equiv> HID_RI_TYPE_GLOBAL OR 0x10"
abbreviation HID_RI_LOGICAL_MAXIMUM :: u8 where "HID_RI_LOGICAL_MAXIMUM \<equiv> HID_RI_TYPE_GLOBAL OR 0x20"
abbreviation HID_RI_PHYSICAL_MINIMUM :: u8 where "HID_RI_PHYSICAL_MINIMUM \<equiv> HID_RI_TYPE_GLOBAL OR 0x30"
abbreviation HID_RI_PHYSICAL_MAXIMUM :: u8 where "HID_RI_PHYSICAL_MAXIMUM \<equiv> HID_RI_TYPE_GLOBAL OR 0x40"
abbreviation HID_RI_UNIT_EXPONENT :: u8 where "HID_RI_UNIT_EXPONENT \<equiv> HID_RI_TYPE_GLOBAL OR 0x50"
abbreviation HID_RI_UNIT :: u8 where "HID_RI_UNIT \<equiv> HID_RI_TYPE_GLOBAL OR 0x60"
abbreviation HID_RI_REPORT_SIZE :: u8 where "HID_RI_REPORT_SIZE \<equiv> HID_RI_TYPE_GLOBAL OR 0x70"
abbreviation HID_RI_REPORT_ID :: u8 where "HID_RI_REPORT_ID \<equiv> HID_RI_TYPE_GLOBAL OR 0x80"
abbreviation HID_RI_REPORT_COUNT :: u8 where "HID_RI_REPORT_COUNT \<equiv> HID_RI_TYPE_GLOBAL OR 0x90"
abbreviation HID_RI_PUSH :: u8 where "HID_RI_PUSH \<equiv> HID_RI_TYPE_GLOBAL OR 0xA0"
abbreviation HID_RI_POP :: u8 where "HID_RI_POP \<equiv> HID_RI_TYPE_GLOBAL OR 0xB0"
abbreviation HID_RI_USAGE :: u8 where "HID_RI_USAGE \<equiv> HID_RI_TYPE_LOCAL OR 0x00"
abbreviation HID_RI_USAGE_MINIMUM :: u8 where "HID_RI_USAGE_MINIMUM \<equiv> HID_RI_TYPE_LOCAL OR 0x10"
abbreviation HID_RI_USAGE_MAXIMUM :: u8 where "HID_RI_USAGE_MAXIMUM \<equiv> HID_RI_TYPE_LOCAL OR 0x20"

definition item_data :: "u8 list \<Rightarrow> u8 \<Rightarrow> nat \<times> u16 \<Rightarrow> (u32 \<times> nat \<times> u16) option" where
  "item_data mem HIDReportItem = (\<lambda>(ReportData, ReportSize).
     let bits = HIDReportItem AND HID_RI_DATA_SIZE_MASK
     in if bits = 3 then do {
          b3 \<leftarrow> aget mem (ReportData + 3);
          b2 \<leftarrow> aget mem (ReportData + 2);
          b1 \<leftarrow> aget mem (ReportData + 1);
          b0 \<leftarrow> aget mem ReportData;
          Some (word32 b0 b1 b2 b3, ReportData + 4, ReportSize - 4) }
        else if bits = 2 then do {
          b1 \<leftarrow> aget mem (ReportData + 1);
          b0 \<leftarrow> aget mem ReportData;
          Some (ucast (word16 b0 b1), ReportData + 2, ReportSize - 2) }
        else if bits = 1 then do {
          b0 \<leftarrow> aget mem ReportData;
          Some (ucast b0, ReportData + 1, ReportSize - 1) }
        else Some (0, ReportData, ReportSize))"

text \<open>
  A case of the switch changes the variables and either ends the function with a code or goes on
  (\<open>None\<close> in the first component).
\<close>

type_synonym parse_step = "HID_parser \<Rightarrow> (hid_parse option \<times> HID_parser) option"

definition go_on :: "HID_parser \<Rightarrow> (hid_parse option \<times> HID_parser) option" where
  "go_on s = Some (None, s)"

definition fail_with :: "hid_parse \<Rightarrow> HID_parser \<Rightarrow> (hid_parse option \<times> HID_parser) option" where
  "fail_with e s = Some (Some e, s)"

definition current_state :: "HID_parser \<Rightarrow> HID_StateTable option" where
  "current_state s = aget (pr_States s) 0"

definition on_state :: "(HID_StateTable \<Rightarrow> HID_StateTable) \<Rightarrow> parse_step" where
  "on_state f s = do { t \<leftarrow> current_state s; go_on (s\<lparr>pr_States := f t # tl (pr_States s)\<rparr>) }"

definition on_attributes :: "(HID_ReportItem_Attributes \<Rightarrow> HID_ReportItem_Attributes) \<Rightarrow> parse_step" where
  "on_attributes f = on_state (\<lambda>t. t\<lparr>st_Attributes := f (st_Attributes t)\<rparr>)"

text \<open>
  \<open>memcpy\<close> copies the size of a report item, so the source and the destination, two neighbouring
  entries of the table, overlap unless an entry is at least as large.
\<close>

definition item_push :: parse_step where
  "item_push s =
     (if length (pr_States s) = HID_STATETABLE_STACK_DEPTH then fail_with HID_PARSE_HIDStackOverflow s
      else do {
        guard (sizeof_ReportItem \<le> sizeof_StateTable);
        t \<leftarrow> current_state s;
        go_on (s\<lparr>pr_States := t # pr_States s\<rparr>) })"

definition item_pop :: parse_step where
  "item_pop s =
     (if length (pr_States s) = 1 then fail_with HID_PARSE_HIDStackUnderflow s
      else go_on (s\<lparr>pr_States := tl (pr_States s)\<rparr>))"

definition item_usage_page :: "u8 \<Rightarrow> u32 \<Rightarrow> parse_step" where
  "item_usage_page HIDReportItem ReportItemData = on_attributes (\<lambda>a.
     let a = (if HIDReportItem AND HID_RI_DATA_SIZE_MASK = 3
              then a\<lparr>at_Usage := (at_Usage a)\<lparr>us_Page := ucast (drop_bit 16 ReportItemData)\<rparr>\<rparr> else a)
     in a\<lparr>at_Usage := (at_Usage a)\<lparr>us_Page := ucast ReportItemData\<rparr>\<rparr>)"

fun find_report_id :: "HID_ReportSizeInfo list \<Rightarrow> u8 \<Rightarrow> nat \<Rightarrow> nat \<Rightarrow> nat option option" where
  "find_report_id sizes rid i 0 = Some None"
| "find_report_id sizes rid i (Suc k) = do {
     z \<leftarrow> aget sizes i;
     if rs_ReportID z = rid then Some (Some i) else find_report_id sizes rid (i + 1) k }"

definition select_report_id :: "u8 \<Rightarrow> parse_step" where
  "select_report_id rid s = do {
     known \<leftarrow> find_report_id (ReportIDSizes (pr_Info s)) rid 0 (unat (TotalDeviceReports (pr_Info s)));
     case known of
       Some i \<Rightarrow> go_on (s\<lparr>pr_ReportID := i\<rparr>)
     | None \<Rightarrow>
         if unat (TotalDeviceReports (pr_Info s)) = HID_MAX_REPORT_IDS
         then fail_with HID_PARSE_InsufficientReportIDItems s
         else do {
           let i = unat (TotalDeviceReports (pr_Info s));
           sizes \<leftarrow> aset (ReportIDSizes (pr_Info s)) i zero_size;
           go_on (s\<lparr>pr_ReportID := i, pr_Info := (pr_Info s)\<lparr>TotalDeviceReports := TotalDeviceReports (pr_Info s) + 1,
             ReportIDSizes := sizes\<rparr>\<rparr>) } }"

definition mark_report_id :: "u8 \<Rightarrow> parse_step" where
  "mark_report_id rid s = do {
     let s = s\<lparr>pr_Info := (pr_Info s)\<lparr>UsingReportIDs := True\<rparr>\<rparr>;
     z \<leftarrow> aget (ReportIDSizes (pr_Info s)) (pr_ReportID s);
     sizes \<leftarrow> aset (ReportIDSizes (pr_Info s)) (pr_ReportID s) (z\<lparr>rs_ReportID := rid\<rparr>);
     go_on (s\<lparr>pr_Info := (pr_Info s)\<lparr>ReportIDSizes := sizes\<rparr>\<rparr>) }"

definition item_report_id :: "u32 \<Rightarrow> parse_step" where
  "item_report_id ReportItemData s = do {
     let rid = ucast ReportItemData;
     (_, s) \<leftarrow> on_state (\<lambda>t. t\<lparr>st_ReportID := rid\<rparr>) s;
     (r, s) \<leftarrow> (if UsingReportIDs (pr_Info s) then select_report_id rid s else go_on s);
     case r of Some e \<Rightarrow> Some (r, s) | None \<Rightarrow> mark_report_id rid s }"

definition item_usage :: "u32 \<Rightarrow> parse_step" where
  "item_usage ReportItemData s =
     (if length (pr_Usages s) = HID_USAGE_STACK_DEPTH then fail_with HID_PARSE_UsageListOverflow s
      else go_on (s\<lparr>pr_Usages := pr_Usages s @ [ucast ReportItemData]\<rparr>))"

text \<open>The next usage: from the list, else from the range; otherwise the old usage stays.\<close>

definition next_usage :: "HID_Usage \<Rightarrow> HID_parser \<Rightarrow> HID_Usage \<times> HID_parser" where
  "next_usage u s =
     (case pr_Usages s of
        v # vs \<Rightarrow> (u\<lparr>us_Usage := v\<rparr>, s\<lparr>pr_Usages := vs\<rparr>)
      | [] \<Rightarrow> if mm_Minimum (pr_MinMax s) \<le> mm_Maximum (pr_MinMax s)
              then (u\<lparr>us_Usage := ucast (mm_Minimum (pr_MinMax s))\<rparr>,
                    s\<lparr>pr_MinMax := (pr_MinMax s)\<lparr>mm_Minimum := mm_Minimum (pr_MinMax s) + 1\<rparr>\<rparr>)
              else (u, s))"

text \<open>The loop that looks for an unused collection path, from the second place on.\<close>

function free_path :: "HID_CollectionPath list \<Rightarrow> nat \<Rightarrow> (hid_parse + nat) option" where
  "free_path paths i = do {
     c \<leftarrow> aget paths i;
     if cp_Parent c = None then Some (Inr i)
     else if i = HID_MAX_COLLECTIONS - 1 then Some (Inl HID_PARSE_InsufficientCollectionPaths)
     else free_path paths (i + 1) }"
  by auto
termination
  by (relation "measure (\<lambda>(paths, i). length paths - i)") (auto simp: aget_def split: if_splits)

declare free_path.simps [simp del]

definition item_collection :: "u32 \<Rightarrow> parse_step" where
  "item_collection ReportItemData s = do {
     place \<leftarrow> (case pr_Path s of None \<Rightarrow> Some (Inr 0) | Some _ \<Rightarrow> free_path (CollectionPaths (pr_Info s)) 1);
     case place of
       Inl e \<Rightarrow> fail_with e s
     | Inr i \<Rightarrow> do {
         t \<leftarrow> current_state s;
         c \<leftarrow> aget (CollectionPaths (pr_Info s)) i;
         let c = (case pr_Path s of None \<Rightarrow> c | Some p \<Rightarrow> c\<lparr>cp_Parent := Some p\<rparr>);
         let c = c\<lparr>cp_Type := ucast ReportItemData, cp_Usage := (cp_Usage c)\<lparr>us_Page := us_Page (at_Usage (st_Attributes t))\<rparr>\<rparr>;
         let (u, s) = next_usage (cp_Usage c) s;
         paths \<leftarrow> aset (CollectionPaths (pr_Info s)) i (c\<lparr>cp_Usage := u\<rparr>);
         go_on (s\<lparr>pr_Path := Some i, pr_Info := (pr_Info s)\<lparr>CollectionPaths := paths\<rparr>\<rparr>) } }"

definition item_end_collection :: parse_step where
  "item_end_collection s =
     (case pr_Path s of
        None \<Rightarrow> fail_with HID_PARSE_UnexpectedEndCollection s
      | Some i \<Rightarrow> do { c \<leftarrow> aget (CollectionPaths (pr_Info s)) i; go_on (s\<lparr>pr_Path := cp_Parent c\<rparr>) })"

definition item_type :: "u8 \<Rightarrow> nat" where
  "item_type ItemTypeTag = (if ItemTypeTag = HID_RI_INPUT then 0 else if ItemTypeTag = HID_RI_OUTPUT then 1 else 2)"

text \<open>One round of the loop over the reported items of an input, output or feature.\<close>

definition report_item :: "(HID_ReportItem \<Rightarrow> bool) \<Rightarrow> u8 \<Rightarrow> u32 \<Rightarrow> parse_step" where
  "report_item Filter HIDReportItem ReportItemData s = do {
     t \<leftarrow> current_state s;
     let (u, s) = next_usage (at_Usage (st_Attributes t)) s;
     let ItemType = item_type (HIDReportItem AND (HID_RI_TYPE_MASK OR HID_RI_TAG_MASK));
     z \<leftarrow> aget (ReportIDSizes (pr_Info s)) (pr_ReportID s);
     BitOffset \<leftarrow> aget (rs_SizeBits z) ItemType;
     let NewReportItem = \<lparr>it_BitOffset = BitOffset, it_ItemType = of_nat ItemType, it_ItemFlags = ucast ReportItemData,
       it_ReportID = st_ReportID t, it_CollectionPath = pr_Path s, it_Attributes = (st_Attributes t)\<lparr>at_Usage := u\<rparr>,
       it_Value = None, it_PreviousValue = None\<rparr>;
     let bits = BitOffset + ucast (at_BitSize (st_Attributes t));
     z' \<leftarrow> aset (rs_SizeBits z) ItemType bits;
     sizes \<leftarrow> aset (ReportIDSizes (pr_Info s)) (pr_ReportID s) (z\<lparr>rs_SizeBits := z'\<rparr>);
     let s = s\<lparr>pr_Info := (pr_Info s)\<lparr>ReportIDSizes := sizes,
       LargestReportSizeBits := max (LargestReportSizeBits (pr_Info s)) bits\<rparr>\<rparr>;
     if unat (TotalReportItems (pr_Info s)) = HID_MAX_REPORTITEMS then fail_with HID_PARSE_InsufficientReportItems s
     else do {
       items \<leftarrow> aset (ReportItems (pr_Info s)) (unat (TotalReportItems (pr_Info s))) NewReportItem;
       let s = s\<lparr>pr_Info := (pr_Info s)\<lparr>ReportItems := items\<rparr>\<rparr>;
       go_on (if ReportItemData AND HID_IOF_CONSTANT = 0 \<and> Filter NewReportItem
              then s\<lparr>pr_Info := (pr_Info s)\<lparr>TotalReportItems := TotalReportItems (pr_Info s) + 1\<rparr>\<rparr> else s) } }"

primrec report_items :: "(HID_ReportItem \<Rightarrow> bool) \<Rightarrow> u8 \<Rightarrow> u32 \<Rightarrow> nat \<Rightarrow> parse_step" where
  "report_items Filter HIDReportItem ReportItemData 0 s = go_on s"
| "report_items Filter HIDReportItem ReportItemData (Suc k) s = do {
     (r, s) \<leftarrow> report_item Filter HIDReportItem ReportItemData s;
     case r of Some e \<Rightarrow> Some (r, s) | None \<Rightarrow> report_items Filter HIDReportItem ReportItemData k s }"

definition item_switch :: "(HID_ReportItem \<Rightarrow> bool) \<Rightarrow> u8 \<Rightarrow> u32 \<Rightarrow> parse_step" where
  "item_switch Filter HIDReportItem ReportItemData s =
     (let tag = HIDReportItem AND (HID_RI_TYPE_MASK OR HID_RI_TAG_MASK); d = ReportItemData
      in if tag = HID_RI_PUSH then item_push s
         else if tag = HID_RI_POP then item_pop s
         else if tag = HID_RI_USAGE_PAGE then item_usage_page HIDReportItem d s
         else if tag = HID_RI_LOGICAL_MINIMUM then on_attributes (\<lambda>a. a\<lparr>at_Logical := (at_Logical a)\<lparr>mm_Minimum := d\<rparr>\<rparr>) s
         else if tag = HID_RI_LOGICAL_MAXIMUM then on_attributes (\<lambda>a. a\<lparr>at_Logical := (at_Logical a)\<lparr>mm_Maximum := d\<rparr>\<rparr>) s
         else if tag = HID_RI_PHYSICAL_MINIMUM then on_attributes (\<lambda>a. a\<lparr>at_Physical := (at_Physical a)\<lparr>mm_Minimum := d\<rparr>\<rparr>) s
         else if tag = HID_RI_PHYSICAL_MAXIMUM then on_attributes (\<lambda>a. a\<lparr>at_Physical := (at_Physical a)\<lparr>mm_Maximum := d\<rparr>\<rparr>) s
         else if tag = HID_RI_UNIT_EXPONENT then on_attributes (\<lambda>a. a\<lparr>at_Unit := (at_Unit a)\<lparr>un_Exponent := ucast d\<rparr>\<rparr>) s
         else if tag = HID_RI_UNIT then on_attributes (\<lambda>a. a\<lparr>at_Unit := (at_Unit a)\<lparr>un_Type := d\<rparr>\<rparr>) s
         else if tag = HID_RI_REPORT_SIZE then on_attributes (\<lambda>a. a\<lparr>at_BitSize := ucast d\<rparr>) s
         else if tag = HID_RI_REPORT_COUNT then on_state (\<lambda>t. t\<lparr>st_ReportCount := ucast d\<rparr>) s
         else if tag = HID_RI_REPORT_ID then item_report_id d s
         else if tag = HID_RI_USAGE then item_usage d s
         else if tag = HID_RI_USAGE_MINIMUM then go_on (s\<lparr>pr_MinMax := (pr_MinMax s)\<lparr>mm_Minimum := d\<rparr>\<rparr>)
         else if tag = HID_RI_USAGE_MAXIMUM then go_on (s\<lparr>pr_MinMax := (pr_MinMax s)\<lparr>mm_Maximum := d\<rparr>\<rparr>)
         else if tag = HID_RI_COLLECTION then item_collection d s
         else if tag = HID_RI_END_COLLECTION then item_end_collection s
         else if tag = HID_RI_INPUT \<or> tag = HID_RI_OUTPUT \<or> tag = HID_RI_FEATURE
         then do { t \<leftarrow> current_state s; report_items Filter HIDReportItem d (unat (st_ReportCount t)) s }
         else go_on s)"

definition end_of_item :: "u8 \<Rightarrow> HID_parser \<Rightarrow> HID_parser" where
  "end_of_item HIDReportItem s =
     (if HIDReportItem AND HID_RI_TYPE_MASK = HID_RI_TYPE_MAIN
      then s\<lparr>pr_MinMax := \<lparr>mm_Minimum = 0, mm_Maximum = 0\<rparr>, pr_Usages := []\<rparr> else s)"

definition parse_round :: "u8 list \<Rightarrow> (HID_ReportItem \<Rightarrow> bool) \<Rightarrow> nat \<times> u16 \<times> HID_parser \<Rightarrow>
    (hid_parse option \<times> nat \<times> u16 \<times> HID_parser) option" where
  "parse_round mem Filter = (\<lambda>(ReportData, ReportSize, s).
     if ReportSize = 0
     then Some (Some (if TotalReportItems (pr_Info s) = 0 then HID_PARSE_NoUnfilteredReportItems else HID_PARSE_Successful),
                ReportData, ReportSize, s)
     else do {
       HIDReportItem \<leftarrow> aget mem ReportData;
       (ReportItemData, ReportData, ReportSize) \<leftarrow> item_data mem HIDReportItem (ReportData + 1, ReportSize - 1);
       (r, s) \<leftarrow> item_switch Filter HIDReportItem ReportItemData s;
       Some (r, ReportData, ReportSize, if r = None then end_of_item HIDReportItem s else s) })"

definition USB_ProcessHIDReport :: "u8 list \<Rightarrow> u16 \<Rightarrow> (HID_ReportItem \<Rightarrow> bool) \<Rightarrow> (hid_parse \<times> HID_ReportInfo) option" where
  "USB_ProcessHIDReport mem ReportSize Filter =
     map_option (\<lambda>(r, _, _, s). (r, pr_Info s)) (poll_loop (parse_round mem Filter) (0, ReportSize, parser_start))"

section \<open>Reading and writing report items\<close>

primrec get_bits :: "u8 list \<Rightarrow> nat \<Rightarrow> u16 \<Rightarrow> u32 \<Rightarrow> u32 \<Rightarrow> u32 option" where
  "get_bits ReportData 0 CurrentBit BitMask v = Some v"
| "get_bits ReportData (Suc DataBitsRem) CurrentBit BitMask v = do {
     b \<leftarrow> aget ReportData (unat (CurrentBit div 8));
     get_bits ReportData DataBitsRem (CurrentBit + 1) (push_bit 1 BitMask)
       (if b AND bv (unat (CurrentBit mod 8)) \<noteq> 0 then v OR BitMask else v) }"

text \<open>The item pointer may be \<open>NULL\<close>; the result is the value returned and the item.\<close>

definition USB_GetHIDReportItemInfo :: "u8 list \<Rightarrow> HID_ReportItem option \<Rightarrow> (bool \<times> HID_ReportItem option) option" where
  "USB_GetHIDReportItemInfo ReportData ReportItem =
     (case ReportItem of None \<Rightarrow> Some (False, None)
      | Some it \<Rightarrow> do {
          (found, ReportData) \<leftarrow> (if it_ReportID it \<noteq> 0
            then do { b \<leftarrow> aget ReportData 0; Some (it_ReportID it = b, drop 1 ReportData) }
            else Some (True, ReportData));
          if \<not> found then Some (False, ReportItem)
          else do {
            v \<leftarrow> get_bits ReportData (unat (at_BitSize (it_Attributes it))) (it_BitOffset it) 1 0;
            Some (True, Some (it\<lparr>it_PreviousValue := it_Value it, it_Value := Some v\<rparr>)) } })"

primrec set_report_bits :: "u8 list \<Rightarrow> nat \<Rightarrow> u16 \<Rightarrow> u32 \<Rightarrow> u32 \<Rightarrow> u8 list option" where
  "set_report_bits ReportData 0 CurrentBit BitMask v = Some ReportData"
| "set_report_bits ReportData (Suc DataBitsRem) CurrentBit BitMask v = do {
     ReportData \<leftarrow> (if v AND BitMask \<noteq> 0
       then do {
         b \<leftarrow> aget ReportData (unat (CurrentBit div 8));
         aset ReportData (unat (CurrentBit div 8)) (b OR bv (unat (CurrentBit mod 8))) }
       else Some ReportData);
     set_report_bits ReportData DataBitsRem (CurrentBit + 1) (push_bit 1 BitMask) v }"

text \<open>The value must have been set before: reading an indeterminate value is \<open>None\<close>.\<close>

definition USB_SetHIDReportItemInfo :: "u8 list \<Rightarrow> HID_ReportItem option \<Rightarrow> (u8 list \<times> HID_ReportItem option) option" where
  "USB_SetHIDReportItemInfo ReportData ReportItem =
     (case ReportItem of None \<Rightarrow> Some (ReportData, None)
      | Some it \<Rightarrow> do {
          (hd, body) \<leftarrow> (if it_ReportID it \<noteq> 0
            then do { r \<leftarrow> aset ReportData 0 (it_ReportID it); Some (take 1 r, drop 1 r) }
            else Some ([], ReportData));
          v \<leftarrow> it_Value it;
          body \<leftarrow> set_report_bits body (unat (at_BitSize (it_Attributes it))) (it_BitOffset it) 1 v;
          Some (hd @ body, Some (it\<lparr>it_PreviousValue := Some v\<rparr>)) })"

primrec report_size :: "HID_ReportInfo \<Rightarrow> u8 \<Rightarrow> nat \<Rightarrow> nat list \<Rightarrow> u16 option" where
  "report_size ParserData ReportID ReportType [] = Some 0"
| "report_size ParserData ReportID ReportType (i # is) = do {
     z \<leftarrow> aget (ReportIDSizes ParserData) i;
     ReportSizeBits \<leftarrow> aget (rs_SizeBits z) ReportType;
     if rs_ReportID z = ReportID then Some (ReportSizeBits div 8 + (if ReportSizeBits mod 8 \<noteq> 0 then 1 else 0))
     else report_size ParserData ReportID ReportType is }"

definition USB_GetHIDReportSize :: "HID_ReportInfo \<Rightarrow> u8 \<Rightarrow> u8 \<Rightarrow> u16 option" where
  "USB_GetHIDReportSize ParserData ReportID ReportType =
     report_size ParserData ReportID (unat ReportType) [0 ..< HID_MAX_REPORT_IDS]"

section \<open>Safety of the parser\<close>

definition path_ok :: "HID_CollectionPath \<Rightarrow> bool" where
  "path_ok c \<longleftrightarrow> (case cp_Parent c of None \<Rightarrow> True | Some p \<Rightarrow> p < HID_MAX_COLLECTIONS)"

definition info_ok :: "HID_ReportInfo \<Rightarrow> bool" where
  "info_ok i \<longleftrightarrow> length (ReportItems i) = HID_MAX_REPORTITEMS \<and> length (CollectionPaths i) = HID_MAX_COLLECTIONS \<and>
     length (ReportIDSizes i) = HID_MAX_REPORT_IDS \<and> (\<forall>z \<in> set (ReportIDSizes i). length (rs_SizeBits z) = 3) \<and>
     unat (TotalReportItems i) \<le> HID_MAX_REPORTITEMS \<and> unat (TotalDeviceReports i) \<le> HID_MAX_REPORT_IDS \<and>
     (\<forall>c \<in> set (CollectionPaths i). path_ok c)"

definition parser_ok :: "HID_parser \<Rightarrow> bool" where
  "parser_ok s \<longleftrightarrow> info_ok (pr_Info s) \<and> pr_States s \<noteq> [] \<and> pr_ReportID s < HID_MAX_REPORT_IDS \<and>
     (\<forall>p. pr_Path s = Some p \<longrightarrow> p < HID_MAX_COLLECTIONS)"

definition keeps_ok :: "parse_step \<Rightarrow> bool" where
  "keeps_ok f \<longleftrightarrow> (\<forall>s. parser_ok s \<longrightarrow> (\<exists>r s'. f s = Some (r, s') \<and> parser_ok s'))"

lemma keeps_okI: "(\<And>s. parser_ok s \<Longrightarrow> \<exists>r s'. f s = Some (r, s') \<and> parser_ok s') \<Longrightarrow> keeps_ok f"
  by (simp add: keeps_ok_def)

lemma keeps_okD: "keeps_ok f \<Longrightarrow> parser_ok s \<Longrightarrow> \<exists>r s'. f s = Some (r, s') \<and> parser_ok s'"
  by (simp add: keeps_ok_def)

lemma aget_Some [simp]: "i < length xs \<Longrightarrow> aget xs i = Some (xs ! i)"
  by (simp add: aget_def)

lemma aset_Some [simp]: "i < length xs \<Longrightarrow> aset xs i v = Some (xs[i := v])"
  by (simp add: aset_def)

lemma set_list_update_ball: "\<forall>x \<in> set xs. P x \<Longrightarrow> P v \<Longrightarrow> \<forall>x \<in> set (xs[i := v]). P x"
  using set_update_subset_insert [of xs i v] by blast

lemma current_state_ok: "parser_ok s \<Longrightarrow> current_state s = Some (hd (pr_States s))"
  by (cases "pr_States s") (simp_all add: current_state_def parser_ok_def)

lemma on_state_ok: "keeps_ok (on_state f)"
  by (rule keeps_okI) (auto simp: on_state_def current_state_ok go_on_def parser_ok_def)

lemma on_attributes_ok: "keeps_ok (on_attributes f)"
  by (simp add: on_attributes_def on_state_ok)

lemma item_pop_ok: "keeps_ok item_pop"
proof (rule keeps_okI)
  fix s assume s: "parser_ok s"
  then have "tl (pr_States s) \<noteq> []" if "length (pr_States s) \<noteq> 1"
    using that by (cases "pr_States s") (auto simp: parser_ok_def)
  with s show "\<exists>r s'. item_pop s = Some (r, s') \<and> parser_ok s'"
    by (auto simp: item_pop_def fail_with_def go_on_def parser_ok_def)
qed

lemma item_usage_ok: "keeps_ok (item_usage d)"
  by (rule keeps_okI) (auto simp: item_usage_def fail_with_def go_on_def parser_ok_def)

lemma range_ok: "keeps_ok (\<lambda>s. go_on (s\<lparr>pr_MinMax := f s\<rparr>))"
  by (rule keeps_okI) (auto simp: go_on_def parser_ok_def)

lemma find_report_id_ok:
  "i + k \<le> length sizes \<Longrightarrow> \<exists>r. find_report_id sizes rid i k = Some r \<and> (\<forall>j. r = Some j \<longrightarrow> j < i + k)"
proof (induction k arbitrary: i)
  case (Suc k)
  then show ?case using Suc.IH [of "i + 1"] by (auto simp: aget_def)
qed simp

lemma info_ok_sizes:
  "info_ok i \<Longrightarrow> length (rs_SizeBits z) = 3 \<Longrightarrow> info_ok (i\<lparr>ReportIDSizes := (ReportIDSizes i)[j := z]\<rparr>)"
  unfolding info_ok_def using set_list_update_ball [of "ReportIDSizes i" "\<lambda>z. length (rs_SizeBits z) = 3" z j] by simp

lemma sizes_ok:
  assumes "parser_ok s"
  shows "pr_ReportID s < length (ReportIDSizes (pr_Info s))"
    and "length (rs_SizeBits (ReportIDSizes (pr_Info s) ! pr_ReportID s)) = 3"
  using assms by (auto simp: parser_ok_def info_ok_def)

lemma mark_report_id_ok: "keeps_ok (mark_report_id rid)"
proof (rule keeps_okI)
  fix s assume s: "parser_ok s"
  note z = sizes_ok [OF s]
  have "info_ok ((pr_Info s)\<lparr>UsingReportIDs := True\<rparr>)" using s by (simp add: parser_ok_def info_ok_def)
  from info_ok_sizes [OF this, of "(ReportIDSizes (pr_Info s) ! pr_ReportID s)\<lparr>rs_ReportID := rid\<rparr>" "pr_ReportID s"] z s
  show "\<exists>r s'. mark_report_id rid s = Some (r, s') \<and> parser_ok s'"
    by (simp add: mark_report_id_def go_on_def parser_ok_def)
qed

lemma select_report_id_ok: "keeps_ok (select_report_id rid)"
proof (rule keeps_okI)
  fix s assume s: "parser_ok s"
  let ?n = "unat (TotalDeviceReports (pr_Info s))" and ?zs = "ReportIDSizes (pr_Info s)"
  have l: "?n \<le> length ?zs" "length ?zs = HID_MAX_REPORT_IDS" using s by (auto simp: parser_ok_def info_ok_def)
  then obtain r where r: "find_report_id ?zs rid 0 ?n = Some r" "\<And>j. r = Some j \<Longrightarrow> j < ?n"
    using find_report_id_ok [of 0 ?n ?zs rid] by auto
  show "\<exists>r s'. select_report_id rid s = Some (r, s') \<and> parser_ok s'"
  proof (cases r)
    case None
    have "TotalDeviceReports (pr_Info s) < 255" if "?n \<noteq> HID_MAX_REPORT_IDS"
      using l that by (simp add: word_less_nat_alt)
    then have up: "unat (TotalDeviceReports (pr_Info s) + 1) = ?n + 1" if "?n \<noteq> HID_MAX_REPORT_IDS"
      using that unat_plus_one by blast
    have "info_ok ((pr_Info s)\<lparr>ReportIDSizes := ?zs[?n := zero_size]\<rparr>)"
      using s by (intro info_ok_sizes) (auto simp: parser_ok_def zero_size_def)
    with None r(1) l up s show ?thesis
      by (auto simp: select_report_id_def fail_with_def go_on_def parser_ok_def info_ok_def Let_def)
  next
    case (Some j)
    with r l s show ?thesis by (auto simp: select_report_id_def go_on_def parser_ok_def)
  qed
qed

lemma item_report_id_ok: "keeps_ok (item_report_id d)"
proof (rule keeps_okI)
  fix s assume s: "parser_ok s"
  let ?rid = "ucast d"
  obtain r1 s1 where 1: "on_state (\<lambda>t. t\<lparr>st_ReportID := ?rid\<rparr>) s = Some (r1, s1)" "parser_ok s1"
    using keeps_okD [OF on_state_ok s] by blast
  obtain r2 s2 where 2: "(if UsingReportIDs (pr_Info s1) then select_report_id ?rid s1 else go_on s1) = Some (r2, s2)" "parser_ok s2"
    using keeps_okD [OF select_report_id_ok 1(2), of ?rid] 1(2) by (cases "UsingReportIDs (pr_Info s1)") (auto simp: go_on_def)
  show "\<exists>r s'. item_report_id d s = Some (r, s') \<and> parser_ok s'"
    using 1(1) 2 keeps_okD [OF mark_report_id_ok 2(2), of ?rid] by (cases r2) (auto simp: item_report_id_def Let_def)
qed

lemma next_usage_ok: "parser_ok s \<Longrightarrow> parser_ok (snd (next_usage u s)) \<and> pr_Info (snd (next_usage u s)) = pr_Info s \<and>
    pr_Path (snd (next_usage u s)) = pr_Path s"
  by (auto simp: next_usage_def parser_ok_def split: list.splits)

lemma free_path_ok:
  "i < HID_MAX_COLLECTIONS \<Longrightarrow> length paths = HID_MAX_COLLECTIONS \<Longrightarrow>
     \<exists>r. free_path paths i = Some r \<and> (\<forall>j. r = Inr j \<longrightarrow> j < HID_MAX_COLLECTIONS)"
proof (induction paths i rule: free_path.induct)
  case (1 paths i)
  then have a: "aget paths i = Some (paths ! i)" by simp
  show ?case
  proof (cases "cp_Parent (paths ! i) = None \<or> i = HID_MAX_COLLECTIONS - 1")
    case True
    with a 1(2) have "free_path paths i = Some (if cp_Parent (paths ! i) = None then Inr i else Inl HID_PARSE_InsufficientCollectionPaths)"
      by (subst free_path.simps) auto
    with 1(2) show ?thesis by auto
  next
    case False
    moreover from False 1(2) have "i + 1 < HID_MAX_COLLECTIONS" by auto
    ultimately have "\<exists>r. free_path paths (i + 1) = Some r \<and> (\<forall>j. r = Inr j \<longrightarrow> j < HID_MAX_COLLECTIONS)"
      using 1(1) [OF a] 1(3) by blast
    moreover have "free_path paths i = free_path paths (i + 1)" using False a by (subst free_path.simps) auto
    ultimately show ?thesis by simp
  qed
qed

lemma info_ok_paths:
  "info_ok i \<Longrightarrow> path_ok c \<Longrightarrow> info_ok (i\<lparr>CollectionPaths := (CollectionPaths i)[j := c]\<rparr>)"
  unfolding info_ok_def using set_list_update_ball [of "CollectionPaths i" path_ok c j] by simp

lemma item_end_collection_ok: "keeps_ok item_end_collection"
proof (rule keeps_okI)
  fix s assume s: "parser_ok s"
  show "\<exists>r s'. item_end_collection s = Some (r, s') \<and> parser_ok s'"
  proof (cases "pr_Path s")
    case None
    with s show ?thesis by (simp add: item_end_collection_def fail_with_def)
  next
    case (Some p)
    with s have p: "p < length (CollectionPaths (pr_Info s))" by (simp add: parser_ok_def info_ok_def)
    then have "path_ok (CollectionPaths (pr_Info s) ! p)" using s by (simp add: parser_ok_def info_ok_def)
    with Some p s show ?thesis
      by (auto simp: item_end_collection_def go_on_def parser_ok_def path_ok_def split: option.splits)
  qed
qed

lemma item_collection_place:
  assumes "parser_ok s" "i < HID_MAX_COLLECTIONS"
    and "(case pr_Path s of None \<Rightarrow> Some (Inr 0) | Some _ \<Rightarrow> free_path (CollectionPaths (pr_Info s)) 1) = Some (Inr i)"
  shows "\<exists>s'. item_collection d s = Some (None, s') \<and> parser_ok s'"
proof -
  let ?i = "pr_Info s"
  define c where "c = (case pr_Path s of None \<Rightarrow> CollectionPaths ?i ! i | Some p \<Rightarrow> (CollectionPaths ?i ! i)\<lparr>cp_Parent := Some p\<rparr>)"
  define c' where "c' = c\<lparr>cp_Type := ucast d, cp_Usage := (cp_Usage c)\<lparr>us_Page := us_Page (at_Usage (st_Attributes (hd (pr_States s))))\<rparr>\<rparr>"
  define u where "u = fst (next_usage (cp_Usage c') s)"
  define s1 where "s1 = snd (next_usage (cp_Usage c') s)"
  have s1: "parser_ok s1" "pr_Info s1 = ?i" using next_usage_ok [OF assms(1)] by (simp_all add: s1_def)
  have l: "i < length (CollectionPaths ?i)" using assms(1,2) by (simp add: parser_ok_def info_ok_def)
  then have "path_ok c" using assms(1)
    by (auto simp: c_def path_ok_def parser_ok_def info_ok_def split: option.splits)
  then have "path_ok (c'\<lparr>cp_Usage := u\<rparr>)" by (simp add: path_ok_def c'_def)
  with s1(1) have ok: "info_ok (?i\<lparr>CollectionPaths := (CollectionPaths ?i)[i := c'\<lparr>cp_Usage := u\<rparr>]\<rparr>)"
    using s1(2) by (intro info_ok_paths) (auto simp: parser_ok_def)
  have "item_collection d s = Some (None, s1\<lparr>pr_Path := Some i, pr_Info := ?i\<lparr>CollectionPaths := (CollectionPaths ?i)[i := c'\<lparr>cp_Usage := u\<rparr>]\<rparr>\<rparr>)"
    unfolding item_collection_def assms(3) using l current_state_ok [OF assms(1)] s1(2)
    by (simp add: go_on_def split_beta s1_def u_def c'_def flip: c_def)
  with ok s1 assms(2) show ?thesis by (simp add: parser_ok_def)
qed

lemma item_collection_ok: "keeps_ok (item_collection d)"
proof (rule keeps_okI)
  fix s assume s: "parser_ok s"
  let ?place = "case pr_Path s of None \<Rightarrow> Some (Inr 0) | Some _ \<Rightarrow> free_path (CollectionPaths (pr_Info s)) 1"
  obtain r where r: "?place = Some r" "\<And>j. r = Inr j \<Longrightarrow> j < HID_MAX_COLLECTIONS"
    using free_path_ok [of 1 "CollectionPaths (pr_Info s)"] s
    by (cases "pr_Path s") (auto simp: parser_ok_def info_ok_def)
  show "\<exists>r s'. item_collection d s = Some (r, s') \<and> parser_ok s'"
  proof (cases r)
    case (Inl e)
    with r s show ?thesis by (simp add: item_collection_def fail_with_def)
  next
    case (Inr i)
    with r item_collection_place [OF s, of i] show ?thesis by blast
  qed
qed

lemma info_ok_item:
  assumes "info_ok i" "unat (TotalReportItems i) < HID_MAX_REPORTITEMS"
  shows "info_ok (i\<lparr>ReportItems := (ReportItems i)[j := x]\<rparr>)"
    and "info_ok (i\<lparr>ReportItems := (ReportItems i)[j := x], TotalReportItems := TotalReportItems i + 1\<rparr>)"
proof -
  have "TotalReportItems i < 255" using assms(2) by (simp add: word_less_nat_alt)
  from unat_plus_one [OF this] assms
  show "info_ok (i\<lparr>ReportItems := (ReportItems i)[j := x]\<rparr>)"
    "info_ok (i\<lparr>ReportItems := (ReportItems i)[j := x], TotalReportItems := TotalReportItems i + 1\<rparr>)"
    by (simp_all add: info_ok_def)
qed

lemma item_type_3: "item_type tag < 3"
  by (simp add: item_type_def)

lemma report_item_ok: "keeps_ok (report_item Filter b d)"
proof (rule keeps_okI)
  fix s assume s: "parser_ok s"
  define t where "t = hd (pr_States s)"
  define s1 where "s1 = snd (next_usage (at_Usage (st_Attributes t)) s)"
  define u where "u = fst (next_usage (at_Usage (st_Attributes t)) s)"
  have s1: "parser_ok s1" "pr_Info s1 = pr_Info s" using next_usage_ok [OF s] by (simp_all add: s1_def)
  define k where "k = item_type (b AND (HID_RI_TYPE_MASK OR HID_RI_TAG_MASK))"
  define z where "z = ReportIDSizes (pr_Info s1) ! pr_ReportID s1"
  note z = sizes_ok [OF s1(1), folded z_def]
  have k: "k < length (rs_SizeBits z)" using item_type_3 z(2) by (simp add: k_def)
  define bits where "bits = rs_SizeBits z ! k + ucast (at_BitSize (st_Attributes t))"
  define i2 where "i2 = (pr_Info s1)\<lparr>ReportIDSizes := (ReportIDSizes (pr_Info s1))[pr_ReportID s1 := z\<lparr>rs_SizeBits := (rs_SizeBits z)[k := bits]\<rparr>],
       LargestReportSizeBits := max (LargestReportSizeBits (pr_Info s1)) bits\<rparr>"
  have "info_ok ((pr_Info s1)\<lparr>ReportIDSizes := (ReportIDSizes (pr_Info s1))[pr_ReportID s1 := z\<lparr>rs_SizeBits := (rs_SizeBits z)[k := bits]\<rparr>]\<rparr>)"
    using s1(1) z(2) by (intro info_ok_sizes) (simp_all add: parser_ok_def)
  then have i2: "info_ok i2" by (simp add: i2_def info_ok_def)
  define x where "x = \<lparr>it_BitOffset = rs_SizeBits z ! k, it_ItemType = of_nat k, it_ItemFlags = ucast d,
       it_ReportID = st_ReportID t, it_CollectionPath = pr_Path s1, it_Attributes = (st_Attributes t)\<lparr>at_Usage := u\<rparr>,
       it_Value = None, it_PreviousValue = None\<rparr>"
  define n where "n = unat (TotalReportItems i2)"
  have n: "n < length (ReportItems i2)" if "n \<noteq> HID_MAX_REPORTITEMS" using that i2 by (auto simp: n_def info_ok_def)
  have step: "report_item Filter b d s =
      (if n = HID_MAX_REPORTITEMS then fail_with HID_PARSE_InsufficientReportItems (s1\<lparr>pr_Info := i2\<rparr>)
       else do {
         items \<leftarrow> aset (ReportItems i2) n x;
         go_on (if d AND HID_IOF_CONSTANT = 0 \<and> Filter x
           then s1\<lparr>pr_Info := i2\<lparr>ReportItems := items, TotalReportItems := TotalReportItems i2 + 1\<rparr>\<rparr>
           else s1\<lparr>pr_Info := i2\<lparr>ReportItems := items\<rparr>\<rparr>) })"
    unfolding report_item_def current_state_ok [OF s]
    using z k by (simp add: Let_def split_beta n_def x_def i2_def bits_def cong: if_cong flip: t_def s1_def u_def k_def z_def)
  show "\<exists>r s'. report_item Filter b d s = Some (r, s') \<and> parser_ok s'"
  proof (cases "n = HID_MAX_REPORTITEMS")
    case True
    with step i2 s1(1) show ?thesis by (simp add: fail_with_def parser_ok_def)
  next
    case False
    with i2 have "unat (TotalReportItems i2) < HID_MAX_REPORTITEMS" by (auto simp: n_def info_ok_def)
    from info_ok_item [OF i2 this, of n x] step False n s1(1) show ?thesis by (simp add: go_on_def parser_ok_def)
  qed
qed

lemma report_items_ok: "keeps_ok (report_items Filter b d k)"
proof (induction k)
  case 0
  then show ?case by (simp add: keeps_ok_def go_on_def)
next
  case (Suc k)
  show ?case
  proof (rule keeps_okI)
    fix s assume "parser_ok s"
    from keeps_okD [OF report_item_ok this] obtain r s1 where 1: "report_item Filter b d s = Some (r, s1)" "parser_ok s1" by blast
    with keeps_okD [OF Suc 1(2)] show "\<exists>r s'. report_items Filter b d (Suc k) s = Some (r, s') \<and> parser_ok s'"
      by (cases r) auto
  qed
qed

definition returns_ok :: "(hid_parse option \<times> HID_parser) option \<Rightarrow> bool" where
  "returns_ok m \<longleftrightarrow> (\<exists>r s'. m = Some (r, s') \<and> parser_ok s')"

lemma keeps_returns: "keeps_ok f \<Longrightarrow> parser_ok s \<Longrightarrow> returns_ok (f s)"
  by (simp add: keeps_ok_def returns_ok_def)

lemma returns_ok_if: "(b \<Longrightarrow> returns_ok m) \<Longrightarrow> (\<not> b \<Longrightarrow> returns_ok n) \<Longrightarrow> returns_ok (if b then m else n)"
  by simp

lemma item_switch_ok:
  assumes s: "parser_ok s" and "b AND (HID_RI_TYPE_MASK OR HID_RI_TAG_MASK) \<noteq> HID_RI_PUSH"
  shows "returns_ok (item_switch Filter b d s)"
proof -
  note c = current_state_ok [OF s]
  note k = item_pop_ok on_state_ok on_attributes_ok item_report_id_ok item_usage_ok item_collection_ok item_end_collection_ok range_ok
  note r = k [THEN keeps_returns, OF s]
  have "returns_ok (item_usage_page b d s)" unfolding item_usage_page_def by (rule r(3))
  moreover have "returns_ok (go_on s)" using s by (simp add: go_on_def returns_ok_def)
  moreover have "returns_ok (do { t \<leftarrow> current_state s; report_items Filter b d (unat (st_ReportCount t)) s })"
    using keeps_returns [OF report_items_ok s] by (simp add: c)
  moreover have "returns_ok (item_push s)" if "b AND (HID_RI_TYPE_MASK OR HID_RI_TAG_MASK) = HID_RI_PUSH" using that assms(2) by simp
  ultimately show ?thesis unfolding item_switch_def Let_def by (intro returns_ok_if r) assumption+
qed

text \<open>The cases of the switch never end the function with success.\<close>

definition errs :: "parse_step \<Rightarrow> bool" where
  "errs f \<longleftrightarrow> (\<forall>s s'. f s \<noteq> Some (Some HID_PARSE_Successful, s'))"

lemma errs_go_on: "errs go_on" "errs (\<lambda>s. go_on (f s))"
  by (simp_all add: errs_def go_on_def)

lemma errs_on: "errs (on_state f)" "errs (on_attributes g)" "errs (item_usage_page b d)"
  by (simp_all add: errs_def on_attributes_def item_usage_page_def on_state_def go_on_def bind_eq_Some_conv)

lemma errs_items: "errs item_push" "errs item_pop" "errs (item_usage d)" "errs item_end_collection"
  by (auto simp: errs_def item_push_def item_pop_def item_usage_def item_end_collection_def go_on_def fail_with_def
      bind_eq_Some_conv split: option.splits)

lemma errs_report_id: "errs (item_report_id d)"
  by (auto simp: errs_def item_report_id_def select_report_id_def mark_report_id_def go_on_def fail_with_def Let_def
      bind_eq_Some_conv split: option.splits if_splits)

lemma free_path_code: "free_path paths i = Some (Inl e) \<Longrightarrow> e = HID_PARSE_InsufficientCollectionPaths"
proof (induction paths i rule: free_path.induct)
  case (1 paths i)
  from 1(2) show ?case
    by (subst (asm) free_path.simps) (auto simp: bind_eq_Some_conv split: if_splits dest: 1(1))
qed

lemma errs_collection: "errs (item_collection d)"
  by (auto simp: errs_def item_collection_def go_on_def fail_with_def bind_eq_Some_conv Let_def split_beta
      split: option.splits sum.splits dest: free_path_code)

lemma errs_report_items: "errs (report_items Filter b d k)"
proof (induction k)
  case 0
  then show ?case by (simp add: errs_def go_on_def)
next
  case (Suc k)
  have "errs (report_item Filter b d)"
    by (auto simp: errs_def report_item_def go_on_def fail_with_def bind_eq_Some_conv Let_def split_beta split: if_splits)
  with Suc show ?case by (auto simp: errs_def bind_eq_Some_conv split: option.splits)
qed

lemma item_switch_errs: "item_switch Filter b d s \<noteq> Some (Some HID_PARSE_Successful, s')"
proof -
  note e = errs_go_on errs_on errs_items errs_report_id errs_collection errs_report_items
  note n = e [unfolded errs_def, THEN spec, THEN spec]
  have "do { t \<leftarrow> current_state s; report_items Filter b d (unat (st_ReportCount t)) s } \<noteq> Some (Some HID_PARSE_Successful, s')"
    using n by (auto simp: bind_eq_Some_conv)
  then show ?thesis unfolding item_switch_def Let_def using n by (simp split: if_split)
qed

text \<open>
  A complete report: every item has its data bytes, and none is a push. The data length is coded in
  the lowest two bits, with 3 for four bytes.
\<close>

definition data_len :: "u8 \<Rightarrow> nat" where
  "data_len b = (let k = b AND HID_RI_DATA_SIZE_MASK in if k = 3 then 4 else if k = 2 then 2 else if k = 1 then 1 else 0)"

fun complete :: "u8 list \<Rightarrow> bool" where
  "complete [] = True"
| "complete (b # r) = (b AND (HID_RI_TYPE_MASK OR HID_RI_TAG_MASK) \<noteq> HID_RI_PUSH \<and>
     data_len b \<le> length r \<and> complete (drop (data_len b) r))"

lemma item_data_ok:
  "p + data_len b \<le> length mem \<Longrightarrow> \<exists>d. item_data mem b (p, n) = Some (d, p + data_len b, n - of_nat (data_len b))"
  by (auto simp: item_data_def data_len_def Let_def)

definition parse_inv :: "u8 list \<Rightarrow> nat \<times> u16 \<times> HID_parser \<Rightarrow> bool" where
  "parse_inv mem = (\<lambda>(p, n, s). p + unat n = length mem \<and> complete (drop p mem) \<and> parser_ok s)"

lemma parse_round_inv:
  assumes "parse_inv mem (p, n, s)" "n \<noteq> 0"
  shows "\<exists>r p' n' s'. parse_round mem Filter (p, n, s) = Some (r, p', n', s') \<and> parse_inv mem (p', n', s') \<and> unat n' < unat n"
proof -
  have i: "p + unat n = length mem" "complete (drop p mem)" "parser_ok s" using assms(1) by (auto simp: parse_inv_def)
  obtain m where m: "unat n = Suc m" using assms(2) by (cases "unat n") (auto simp: unat_eq_0)
  then have p: "p < length mem" using i(1) by simp
  define b where "b = mem ! p"
  have c: "b AND (HID_RI_TYPE_MASK OR HID_RI_TAG_MASK) \<noteq> HID_RI_PUSH" "data_len b \<le> m" "complete (drop (p + 1 + data_len b) mem)"
  proof -
    have "drop p mem = b # drop (p + 1) mem" using Cons_nth_drop_Suc [OF p] by (simp add: b_def)
    then have "complete (b # drop (p + 1) mem)" using i(2) by simp
    then show "b AND (HID_RI_TYPE_MASK OR HID_RI_TAG_MASK) \<noteq> HID_RI_PUSH" "data_len b \<le> m" "complete (drop (p + 1 + data_len b) mem)"
      using i(1) m by (auto simp: add.commute)
  qed
  then obtain d where d: "item_data mem b (p + 1, n - 1) = Some (d, p + 1 + data_len b, n - 1 - of_nat (data_len b))"
    using item_data_ok [of "p + 1" b mem "n - 1"] i(1) m by auto
  have n1: "unat (n - 1) = m" using unat_sub_one [OF assms(2)] m by simp
  have len: "data_len b < 2 ^ 16" by (simp add: data_len_def Let_def)
  then have dl: "unat (of_nat (data_len b) :: u16) = data_len b" by (simp add: unsigned_of_nat take_bit_nat_eq_self)
  then have n2: "unat (n - 1 - of_nat (data_len b)) = m - data_len b"
    using n1 c(2) by (simp add: unat_sub word_le_nat_alt)
  obtain r s' where r: "item_switch Filter b d s = Some (r, s')" "parser_ok s'"
    using item_switch_ok [OF i(3) c(1), of Filter d] unfolding returns_ok_def by blast
  then have "parser_ok (if r = None then end_of_item b s' else s')" by (simp add: end_of_item_def parser_ok_def)
  moreover have "parse_round mem Filter (p, n, s) = Some (r, p + 1 + data_len b, n - 1 - of_nat (data_len b),
      if r = None then end_of_item b s' else s')"
    using assms(2) p d r by (simp add: parse_round_def flip: b_def)
  ultimately show ?thesis using c n2 i(1) m by (auto simp: parse_inv_def)
qed

lemma parse_round_next:
  assumes "parse_inv mem st" "parse_round mem Filter st = Some (None, t)"
  shows "parse_inv mem t"
proof -
  obtain p n s where st: "st = (p, n, s)" by (cases st)
  then have "n \<noteq> 0" using assms(2) by (auto simp: parse_round_def)
  from parse_round_inv [OF assms(1) [unfolded st] this, of Filter] assms(2) show ?thesis by (auto simp: st)
qed

lemma parse_round_end:
  assumes "parse_inv mem st" "parse_round mem Filter st = Some (Some x, t)"
  shows "case t of (p, n, s) \<Rightarrow> parser_ok s \<and> (x = HID_PARSE_Successful \<longrightarrow> TotalReportItems (pr_Info s) \<noteq> 0)"
proof -
  obtain p n s where st: "st = (p, n, s)" by (cases st)
  show ?thesis
  proof (cases "n = 0")
    case True
    with assms show ?thesis by (auto simp: st parse_round_def parse_inv_def)
  next
    case False
    from parse_round_inv [OF assms(1) [unfolded st] this, of Filter] assms(2)
    have "case t of (p, n, s) \<Rightarrow> parser_ok s" by (auto simp: st parse_inv_def)
    moreover have "x \<noteq> HID_PARSE_Successful"
      using assms(2) False item_switch_errs by (auto simp: st parse_round_def bind_eq_Some_conv)
    ultimately show ?thesis by (auto split: prod.splits)
  qed
qed

lemma parser_start_ok: "parser_ok parser_start"
  by (auto simp: parser_ok_def info_ok_def parser_start_def zero_size_def zero_path_def path_ok_def)


definition demo_report :: "u8 list" where
  "demo_report = [0x05, 0x09, 0xA1, 0x01, 0x19, 0x01, 0x29, 0x05, 0x15, 0x00, 0x25, 0x01, 0x75, 0x01, 0x95, 0x05, 0x81, 0x02, 0xC0]"


lemma demo_report_parsed:
  "map_option (\<lambda>(c, i). (c, TotalReportItems i, LargestReportSizeBits i, map it_BitOffset (take 5 (ReportItems i)),
       map (us_Usage \<circ> at_Usage \<circ> it_Attributes) (take 5 (ReportItems i))))
     (USB_ProcessHIDReport demo_report 19 (\<lambda>_. True)) = Some (HID_PARSE_Successful, 5, 5, [0, 1, 2, 3, 4], [1, 2, 3, 4, 5])"
  by code_simp

lemma push_undefined:
  "parser_ok s \<Longrightarrow> length (pr_States s) < HID_STATETABLE_STACK_DEPTH \<Longrightarrow> item_push s = None"
  by (simp add: item_push_def sizeof_ReportItem_def sizeof_StateTable_def)

section \<open>Reading back what was written\<close>

text \<open>Bit \<open>j\<close> of a report.\<close>

definition rbit :: "u8 list \<Rightarrow> nat \<Rightarrow> bool" where
  "rbit R j = bit (R ! (j div 8)) (j mod 8)"

lemma and_bv: "(b AND bv n \<noteq> 0) = bit (b :: 'a::len word) n"
proof -
  have "b AND bv n = of_bool (bit b n) * bv n"
    by (rule bit_word_eqI) (auto simp: bit_and_iff bit_bv dest: bit_imp_le_length)
  moreover have "bit b n \<Longrightarrow> bit (bv n :: 'a word) n" using bit_imp_le_length by (simp add: bit_bv)
  ultimately show ?thesis by (cases "bit b n") auto
qed

lemma shift_bv: "push_bit (Suc 0) (bv m) = bv (Suc m)"
  by (simp add: bv_def)

lemma bit_pos:
  "unat ((c :: u16) div 8) = unat c div 8" "unat (c mod 8) = unat c mod 8"
  by (simp_all add: unat_div unat_mod)

lemma next_bit: "unat (c :: u16) + Suc k < 2 ^ 16 \<Longrightarrow> unat (c + 1) = unat c + 1"
  by (simp add: unat_word_ariths)

lemma get_bits_spec:
  "unat c + k \<le> 8 * length R \<Longrightarrow> unat c + k < 2 ^ 16 \<Longrightarrow>
     \<exists>w. get_bits R k c (bv m) v = Some w \<and>
       (\<forall>i < 32. bit w i = (bit v i \<or> m \<le> i \<and> i < m + k \<and> rbit R (unat c + (i - m))))"
proof (induction k arbitrary: c m v)
  case (Suc k)
  let ?v = "if R ! (unat c div 8) AND bv (unat c mod 8) \<noteq> 0 then v OR bv m else v"
  have l: "unat c div 8 < length R" using Suc.prems(1) by simp
  have n: "unat (c + 1) = unat c + 1" using next_bit Suc.prems(2) by blast
  obtain w where w: "get_bits R k (c + 1) (bv (Suc m)) ?v = Some w"
    "\<And>i. i < 32 \<Longrightarrow> bit w i = (bit ?v i \<or> Suc m \<le> i \<and> i < Suc m + k \<and> rbit R (unat (c + 1) + (i - Suc m)))"
    using Suc.IH [of "c + 1" "Suc m" ?v] Suc.prems n by auto
  have "get_bits R (Suc k) c (bv m) v = Some w" using w(1) l by (simp add: bit_pos shift_bv del: push_bit_Suc)
  moreover have "bit w i = (bit v i \<or> m \<le> i \<and> i < m + Suc k \<and> rbit R (unat c + (i - m)))" if "i < 32" for i
  proof -
    have "bit ?v i = (bit v i \<or> i = m \<and> rbit R (unat c))"
      using that by (auto simp: and_bv rbit_def bit_or_iff bit_bv)
    moreover have "unat c + 1 + (i - Suc m) = unat c + (i - m)" if "Suc m \<le> i" using that by simp
    moreover have "m \<le> i \<and> i < m + Suc k \<longleftrightarrow> i = m \<or> Suc m \<le> i \<and> i < Suc m + k" by auto
    ultimately show ?thesis unfolding w(2) [OF that] n by auto
  qed
  ultimately show ?case by blast
qed auto

lemma rbit_update:
  assumes "p < 8 * length R" "j < 8 * length R"
  shows "rbit (R[p div 8 := R ! (p div 8) OR bv (p mod 8)]) j = (rbit R j \<or> j = p)"
proof -
  have d: "p div 8 < length R" using assms by simp
  show ?thesis
  proof (cases "j div 8 = p div 8")
    case True
    then have "(j mod 8 = p mod 8) = (j = p)" by (metis div_mult_mod_eq)
    with True d show ?thesis by (simp add: rbit_def bit_or_iff bit_bv)
  next
    case False
    then have "j \<noteq> p" by auto
    with False show ?thesis by (simp add: rbit_def)
  qed
qed

lemma set_report_bits_spec:
  "unat c + k \<le> 8 * length R \<Longrightarrow> unat c + k < 2 ^ 16 \<Longrightarrow>
     \<exists>R'. set_report_bits R k c (bv m) v = Some R' \<and> length R' = length R \<and>
       (\<forall>j < 8 * length R. rbit R' j = (rbit R j \<or> unat c \<le> j \<and> j < unat c + k \<and> bit v (m + (j - unat c))))"
proof (induction k arbitrary: c m R)
  case (Suc k)
  let ?p = "unat c"
  define R1 where "R1 = (if bit v m then R[?p div 8 := R ! (?p div 8) OR bv (?p mod 8)] else R)"
  have l: "?p div 8 < length R" "?p < 8 * length R" using Suc.prems(1) by simp_all
  have n: "unat (c + 1) = ?p + 1" using next_bit Suc.prems(2) by blast
  have len: "length R1 = length R" by (simp add: R1_def)
  obtain R' where R': "set_report_bits R1 k (c + 1) (bv (Suc m)) v = Some R'" "length R' = length R1"
    "\<And>j. j < 8 * length R1 \<Longrightarrow> rbit R' j = (rbit R1 j \<or> unat (c + 1) \<le> j \<and> j < unat (c + 1) + k \<and> bit v (Suc m + (j - unat (c + 1))))"
    using Suc.IH [of "c + 1" R1 "Suc m"] Suc.prems n len by auto
  have "set_report_bits R (Suc k) c (bv m) v = Some R'"
    using R'(1) l(1) by (simp add: bit_pos and_bv shift_bv R1_def del: push_bit_Suc split: if_splits)
  moreover have "rbit R' j = (rbit R j \<or> ?p \<le> j \<and> j < ?p + Suc k \<and> bit v (m + (j - ?p)))" if "j < 8 * length R" for j
  proof -
    have "rbit R1 j = (rbit R j \<or> j = ?p \<and> bit v m)" using rbit_update [OF l(2) that] by (simp add: R1_def)
    moreover have "Suc m + (j - (?p + 1)) = m + (j - ?p)" if "?p + 1 \<le> j" using that by simp
    moreover have "?p \<le> j \<and> j < ?p + Suc k \<longleftrightarrow> j = ?p \<or> ?p + 1 \<le> j \<and> j < ?p + 1 + k" by auto
    ultimately show ?thesis using R'(3) [of j] that len unfolding n by auto
  qed
  ultimately show ?case using R'(2) len by auto
qed auto

text \<open>The part of a report behind the report number, if the item has one.\<close>

definition report_body :: "HID_ReportItem \<Rightarrow> u8 list \<Rightarrow> u8 list" where
  "report_body it R = (if it_ReportID it = 0 then R else tl R)"

lemma set_item:
  assumes "it_Value it = Some v" "it_ReportID it \<noteq> 0 \<longrightarrow> R \<noteq> []"
    and "set_report_bits (report_body it R) (unat (at_BitSize (it_Attributes it))) (it_BitOffset it) 1 v = Some B"
  shows "USB_SetHIDReportItemInfo R (Some it) =
    Some (if it_ReportID it = 0 then B else it_ReportID it # B, Some (it\<lparr>it_PreviousValue := Some v\<rparr>))"
  using assms by (cases R) (auto simp: USB_SetHIDReportItemInfo_def report_body_def)

lemma get_item:
  assumes "get_bits B (unat (at_BitSize (it_Attributes it))) (it_BitOffset it) 1 0 = Some w"
    and "R = (if it_ReportID it = 0 then B else it_ReportID it # B)"
  shows "USB_GetHIDReportItemInfo R (Some it) = Some (True, Some (it\<lparr>it_PreviousValue := it_Value it, it_Value := Some w\<rparr>))"
  using assms by (simp add: USB_GetHIDReportItemInfo_def)

text \<open>
  Property C40. A value stored into a report with cleared bits by \<open>USB_SetHIDReportItemInfo\<close> is read back by
  \<open>USB_GetHIDReportItemInfo\<close>, cut to the size of the item; all other bits of the report keep their value,
  the report number is in front when the item has one, and both calls stay inside the report.
\<close>

theorem hid_item_roundtrip:
  assumes "it_Value it = Some v" "it_ReportID it \<noteq> 0 \<longrightarrow> R \<noteq> []"
    and "k = unat (at_BitSize (it_Attributes it))" "p = unat (it_BitOffset it)" "body = report_body it R"
    and "p + k \<le> 8 * length body" "p + k < 2 ^ 16" "\<forall>j. p \<le> j \<and> j < p + k \<longrightarrow> \<not> rbit body j"
  shows "\<exists>R' it'. USB_SetHIDReportItemInfo R (Some it) = Some (R', Some it') \<and>
    USB_GetHIDReportItemInfo R' (Some it') = Some (True, Some (it\<lparr>it_PreviousValue := Some v, it_Value := Some (take_bit k v)\<rparr>)) \<and>
    length R' = length R \<and> (\<forall>j < 8 * length body. j < p \<or> p + k \<le> j \<longrightarrow> rbit (report_body it R') j = rbit body j)"
proof -
  have one: "(1 :: u32) = bv 0" by (simp add: bv_def)
  from set_report_bits_spec [of "it_BitOffset it" k body 0 v] assms(4,6,7) obtain B where
    B: "set_report_bits body k (it_BitOffset it) 1 v = Some B" "length B = length body"
    "\<And>j. j < 8 * length body \<Longrightarrow> rbit B j = (rbit body j \<or> p \<le> j \<and> j < p + k \<and> bit v (j - p))"
    unfolding one by auto
  define it' where "it' = it\<lparr>it_PreviousValue := Some v\<rparr>"
  define R' where "R' = (if it_ReportID it = 0 then B else it_ReportID it # B)"
  have set: "USB_SetHIDReportItemInfo R (Some it) = Some (R', Some it')"
    using set_item [OF assms(1,2)] B(1) unfolding assms(3,5) R'_def it'_def by blast
  from get_bits_spec [of "it_BitOffset it" k B 0 0] assms(4,6,7) B(2) obtain w where
    w: "get_bits B k (it_BitOffset it) 1 0 = Some w" "\<And>i. i < 32 \<Longrightarrow> bit w i = (i < k \<and> rbit B (p + i))"
    unfolding one by auto
  have "w = take_bit k v"
  proof (rule bit_word_eqI)
    fix i assume "i < LENGTH(32)"
    with w(2) [of i] B(3) [of "p + i"] assms(6,8) show "bit w i = bit (take_bit k v) i" by (auto simp: bit_take_bit_iff)
  qed
  moreover have "get_bits B (unat (at_BitSize (it_Attributes it'))) (it_BitOffset it') 1 0 = Some w"
    using w(1) by (simp add: it'_def assms(3))
  moreover have "R' = (if it_ReportID it' = 0 then B else it_ReportID it' # B)" by (simp add: it'_def R'_def)
  ultimately have get: "USB_GetHIDReportItemInfo R' (Some it') =
      Some (True, Some (it\<lparr>it_PreviousValue := Some v, it_Value := Some (take_bit k v)\<rparr>))"
    using get_item [of B it' w R'] by (simp add: it'_def assms(1))
  have "report_body it R' = B" "length R' = length R"
    using assms(2) B(2) by (auto simp: report_body_def R'_def assms(5))
  with set get B(3) show ?thesis by auto
qed

definition demo_item :: HID_ReportItem where
  "demo_item = zero_item\<lparr>it_BitOffset := 6, it_ReportID := 3, it_Attributes := zero_attributes\<lparr>at_BitSize := 4\<rparr>, it_Value := Some 0x1D\<rparr>"

theorem hid_item_roundtrip_witness:
  "\<exists>R' it'. USB_SetHIDReportItemInfo [0, 1, 0x80] (Some demo_item) = Some (R', Some it') \<and>
    USB_GetHIDReportItemInfo R' (Some it') =
      Some (True, Some (demo_item\<lparr>it_PreviousValue := Some 0x1D, it_Value := Some (take_bit 4 0x1D)\<rparr>))"
proof -
  have 1: "it_Value demo_item = Some 0x1D" "it_ReportID demo_item \<noteq> 0 \<longrightarrow> [0, 1, 0x80 :: u8] \<noteq> []"
    "4 = unat (at_BitSize (it_Attributes demo_item))" "6 = unat (it_BitOffset demo_item)"
    "[1, 0x80] = report_body demo_item [0, 1, 0x80]" "6 + 4 \<le> 8 * length [1, 0x80 :: u8]" "6 + 4 < (2 ^ 16 :: nat)"
    by (simp_all add: demo_item_def report_body_def)
  have "\<not> rbit [1, 0x80] j" if "6 \<le> j" "j < 6 + 4" for j
  proof -
    from that consider "j = 6" | "j = 7" | "j = 8" | "j = 9" by linarith
    then show ?thesis by cases (simp_all add: rbit_def)
  qed
  then have "\<forall>j. 6 \<le> j \<and> j < 6 + 4 \<longrightarrow> \<not> rbit [1, 0x80] j" by blast
  from hid_item_roundtrip [OF 1 this] show ?thesis by blast
qed

end
