(* ===== verification/Class_Common.thy ===== *)
theory Class_Common
  imports Endpoint_Streams
begin

text \<open>
  What the class drivers under \<open>src/AT16u2/LUFA/Drivers/USB/Class\<close> share: request types, the routines of the C
  library they use on memory, and frame lemmas.
\<close>

section \<open>Constants\<close>

definition EP_TYPE_BULK :: u8 where "EP_TYPE_BULK = 2"

text \<open>\<open>REQDIR_... | REQTYPE_CLASS | REQREC_INTERFACE\<close>\<close>

definition class_in :: u8 where "class_in = REQDIR_DEVICETOHOST OR REQTYPE_CLASS OR REQREC_INTERFACE"
definition class_out :: u8 where "class_out = REQDIR_HOSTTODEVICE OR REQTYPE_CLASS OR REQREC_INTERFACE"

lemma class_in_out [simp]: "class_in \<noteq> class_out" "class_out \<noteq> class_in"
  by (simp_all add: class_in_def class_out_def)

section \<open>Memory\<close>

text \<open>\<open>strlen\<close> of the memory behind the pointer; without a terminating zero it reads outside.\<close>

definition strlen :: "u8 list \<Rightarrow> u16 option" where
  "strlen str = (if 0 \<in> set str then Some (of_nat (length (takeWhile (\<lambda>c. c \<noteq> 0) str))) else None)"

text \<open>\<open>memcpy\<close> and the result \<open>memcmp(...) != 0\<close> on the first \<open>n\<close> bytes; outside of the memory they are \<open>None\<close>.\<close>

definition memcpy :: "u8 list \<Rightarrow> u8 list \<Rightarrow> nat \<Rightarrow> u8 list option" where
  "memcpy dst src n = (if n \<le> length dst \<and> n \<le> length src then Some (take n src @ drop n dst) else None)"

definition memcmp_differs :: "u8 list \<Rightarrow> u8 list \<Rightarrow> nat \<Rightarrow> bool option" where
  "memcmp_differs a b n = (if n \<le> length a \<and> n \<le> length b then Some (take n a \<noteq> take n b) else None)"

text \<open>The bytes of a request header as the host sees them\<close>

definition request_bytes :: "USB_Request_Header \<Rightarrow> u8 list" where
  "request_bytes q = [bmRequestType q, bRequest q] @ bytes16 (wValue q) @ bytes16 (wIndex q) @ bytes16 (wLength q)"

text \<open>
  \<open>Endpoint_Read_Stream_LE\<close> and \<open>Endpoint_Write_Stream_LE\<close> on a buffer that is a part of the state, which the
  device task may change while the stream runs.
\<close>

definition get_byte_in :: "('s mcu_scheme \<Rightarrow> u8 list) \<Rightarrow> (u8 list \<Rightarrow> 's mcu_scheme \<Rightarrow> 's mcu_scheme) \<Rightarrow> int \<Rightarrow>
    unit \<times> 's mcu_scheme \<Rightarrow> (unit \<times> 's mcu_scheme) option" where
  "get_byte_in buf set_buf pos = (\<lambda>(_, s). let (v, s) = Endpoint_Read_8 s
     in do { b \<leftarrow> set_byte (buf s) pos v; Some ((), set_buf b s) })"

definition put_byte_in :: "('s mcu_scheme \<Rightarrow> u8 list) \<Rightarrow> int \<Rightarrow> unit \<times> 's mcu_scheme \<Rightarrow> (unit \<times> 's mcu_scheme) option" where
  "put_byte_in buf pos = (\<lambda>(_, s). do { v \<leftarrow> byte_at (buf s) pos; Some ((), Endpoint_Write_8 v s) })"

definition Read_Stream_in :: "'a dev_scheme application \<Rightarrow> ('a dev_scheme \<Rightarrow> u8 list) \<Rightarrow> (u8 list \<Rightarrow> 'a dev_scheme \<Rightarrow> 'a dev_scheme) \<Rightarrow>
    u16 \<Rightarrow> u16 option \<Rightarrow> 'a dev_scheme \<Rightarrow> (rwstream \<times> u16 option \<times> unit \<times> 'a dev_scheme) option" where
  "Read_Stream_in app buf set_buf = stream_template LE Endpoint_ClearOUT (USB_USBTask app) (get_byte_in buf set_buf) ()"

definition Write_Stream_in :: "'a dev_scheme application \<Rightarrow> ('a dev_scheme \<Rightarrow> u8 list) \<Rightarrow>
    u16 \<Rightarrow> u16 option \<Rightarrow> 'a dev_scheme \<Rightarrow> (rwstream \<times> u16 option \<times> unit \<times> 'a dev_scheme) option" where
  "Write_Stream_in app buf = stream_template LE Endpoint_ClearIN (USB_USBTask app) (put_byte_in buf) ()"

section \<open>Frames\<close>

lemma status_wait_reads:
  assumes "status_wait arrived s = Some (ok, t)" "\<And>s. was_read r (snd (arrived s)) = was_read r s" "r \<noteq> GPIOR0"
  shows "was_read r t = was_read r s"
proof -
  have "(\<lambda>_ u. was_read r u = was_read r s) ok t"
    by (rule poll_loop_rule [OF assms(1) [unfolded status_wait_def], where I = "\<lambda>u. was_read r u = was_read r s"])
      (use assms(2,3) in \<open>auto simp: Let_def split_beta split: if_splits\<close>)
  then show ?thesis .
qed

lemma ClearStatusStage_reads:
  assumes "Endpoint_ClearStatusStage s = Some t" "r \<noteq> GPIOR0" "r \<noteq> UEINTX"
  shows "was_read r t = was_read r s"
  using assms unfolding Endpoint_ClearStatusStage_def
  by (auto simp: bind_eq_Some_conv Endpoint_ClearOUT_def Endpoint_ClearIN_def split: if_splits
    dest!: status_wait_reads [where r = r] simp: Endpoint_IsOUTReceived_def Endpoint_IsINReady_def)

section \<open>A host that answers\<close>

text \<open>Hardware on which the control endpoint is ready in both directions whenever the program looks.\<close>

definition always_ready :: "(acc list \<Rightarrow> reg \<Rightarrow> u8) \<Rightarrow> bool" where
  "always_ready H \<longleftrightarrow> (\<forall>l. tst (H l UEINTX) RXOUTI \<and> tst (H l UEINTX) TXINI)"

lemma ready_wait:
  assumes "always_ready (hw s)"
  shows "status_wait Endpoint_IsOUTReceived s = Some (True, snd (Endpoint_IsOUTReceived s))"
    "status_wait Endpoint_IsINReady s = Some (True, snd (Endpoint_IsINReady s))"
    "wait_set UEINTX TXINI s = Some (snd (rd UEINTX s))"
  using assms status_wait_ready [of Endpoint_IsOUTReceived s] status_wait_ready [of Endpoint_IsINReady s]
  by (simp_all add: always_ready_def Endpoint_IsOUTReceived_def Endpoint_IsINReady_def tst_fst wait_set_step)

lemma ready_status:
  assumes "always_ready (hw s)"
  shows "\<exists>t. Endpoint_ClearStatusStage s = Some t \<and> (\<exists>v l. log t = Wr UEINTX v # l)"
  using assms by (auto simp: Endpoint_ClearStatusStage_def ready_wait Endpoint_ClearOUT_def Endpoint_ClearIN_def clr_bits_def split_beta Let_def)

lemma always_ready_const: "tst c RXOUTI \<Longrightarrow> tst c TXINI \<Longrightarrow> always_ready (\<lambda>l r. c)"
  by (simp add: always_ready_def)

section \<open>Streams on endpoints that are ready\<close>

lemma write_ready:
  fixes s :: "'a dev_scheme"
  assumes "banks_ready (hw s)" "unat Length \<le> length Buffer"
  shows "\<exists>t. Endpoint_Write_Stream_LE app Buffer Length None s = Some (ENDPOINT_RWSTREAM_NoError, None, Buffer, t) \<and>
    puts (map (Pair UEDATX) (take (unat Length) Buffer)) s t"
proof -
  let ?I = "\<lambda>k b t. b = Buffer \<and> puts (map (Pair UEDATX) (take k Buffer)) s t"
  have "\<exists>b' t. stream_template LE Endpoint_ClearIN (USB_USBTask app) put_byte Buffer Length None s =
      Some (ENDPOINT_RWSTREAM_NoError, None, b', t) \<and> ?I (unat Length) b' t"
  proof (rule stream_ready [where I = ?I and H = "hw s"])
    show "\<exists>b' t. put_byte (walk LE Length k) (b, u) = Some (b', t) \<and> ?I (Suc k) b' t"
      if "k < unat Length" "?I k b u" for k b and u :: "'a dev_scheme"
    proof -
      have "put_byte (walk LE Length k) (b, u) = Some (b, wr UEDATX (Buffer ! k) u)"
        using that assms(2) by (simp add: put_byte_def byte_at_def walk_def Endpoint_Write_8_def)
      moreover have "?I (Suc k) b (wr UEDATX (Buffer ! k) u)"
        using that puts_trans [OF _ puts_wr [of UEDATX "Buffer ! k" u]] assms(2) by (simp add: take_Suc_conv_app_nth)
      ultimately show ?thesis by blast
    qed
    show "?I k b t" if "?I k b u" "glances u t" for k b and u t :: "'a dev_scheme"
      using that puts_trans [OF _ puts_reads, of _ s u t] by (simp add: glances_def)
  qed (use assms in \<open>auto dest: puts_hw\<close>)
  then show ?thesis by (auto simp: Endpoint_Write_Stream_LE_def)
qed

lemma read_ready:
  fixes s :: "'a dev_scheme"
  assumes "banks_ready (hw s)" "unat Length \<le> length Buffer"
  shows "\<exists>bs t. Endpoint_Read_Stream_LE app Buffer Length None s = Some (ENDPOINT_RWSTREAM_NoError, None, bs @ drop (unat Length) Buffer, t) \<and>
    length bs = unat Length \<and> was_read UEDATX t = was_read UEDATX s @ bs \<and> touches {} s t"
proof -
  let ?I = "\<lambda>k b t. touches {} s t \<and> (\<exists>bs. length bs = k \<and> was_read UEDATX t = was_read UEDATX s @ bs \<and> b = bs @ drop k Buffer)"
  have "\<exists>b' t. stream_template LE Endpoint_ClearOUT (USB_USBTask app) get_byte Buffer Length None s =
      Some (ENDPOINT_RWSTREAM_NoError, None, b', t) \<and> ?I (unat Length) b' t"
  proof (rule stream_ready [where I = ?I and H = "hw s"])
    show "\<exists>b' t. get_byte (walk LE Length k) (b, u) = Some (b', t) \<and> ?I (Suc k) b' t"
      if k: "k < unat Length" "?I k b u" for k b and u :: "'a dev_scheme"
    proof -
      from k(2) obtain bs where bs: "length bs = k" "was_read UEDATX u = was_read UEDATX s @ bs" "b = bs @ drop k Buffer" by auto
      let ?v = "fst (rd UEDATX u)"
      have d: "drop k Buffer = Buffer ! k # drop (Suc k) Buffer" using k(1) assms(2) by (simp add: Cons_nth_drop_Suc)
      have "get_byte (walk LE Length k) (b, u) = Some ((bs @ [?v]) @ drop (Suc k) Buffer, snd (rd UEDATX u))"
        using bs d by (simp add: get_byte_def set_byte_def walk_def Endpoint_Read_8_def split_beta Let_def list_update_append)
      moreover have "touches {} s (snd (rd UEDATX u))" using k(2) by (intro touch) simp
      ultimately show ?thesis using bs by (intro exI conjI) (assumption, assumption, auto)
    qed
    show "?I k b t" if "?I k b u" "glances u t" for k b and u t :: "'a dev_scheme"
      using that by (auto simp: glances_def intro: touches_trans)
  qed (use assms in \<open>auto dest: touches_hw\<close>)
  then show ?thesis by (auto simp: Endpoint_Read_Stream_LE_def)
qed

lemma wrote_pairs [simp]: "map snd (filter (\<lambda>(r', v). r' = r) (map (Pair r) xs)) = xs"
  by (simp add: filter_map comp_def)

text \<open>
  The host sends \<open>bs\<close>: of the bytes that the data register delivers, those after the first \<open>k\<close> are the bytes of \<open>bs\<close>.
\<close>

definition host_sends :: "(acc list \<Rightarrow> reg \<Rightarrow> u8) \<Rightarrow> nat \<Rightarrow> u8 list \<Rightarrow> bool" where
  "host_sends H k bs \<longleftrightarrow> (\<forall>l. k \<le> length (was_read_in UEDATX l) \<and> length (was_read_in UEDATX l) < k + length bs \<longrightarrow>
     H l UEDATX = bs ! (length (was_read_in UEDATX l) - k))"

lemma host_sends_append: "host_sends H k (bs @ cs) \<Longrightarrow> host_sends H k bs \<and> host_sends H (k + length bs) cs"
  by (auto simp: host_sends_def nth_append)

lemma read_sent:
  fixes s :: "'a dev_scheme"
  assumes "banks_ready (hw s)" "unat Length \<le> length Buffer" "host_sends (hw s) (length (was_read UEDATX s)) bs" "length bs = unat Length"
  shows "\<exists>t. Endpoint_Read_Stream_LE app Buffer Length None s = Some (ENDPOINT_RWSTREAM_NoError, None, bs @ drop (unat Length) Buffer, t) \<and>
    length (was_read UEDATX t) = length (was_read UEDATX s) + length bs \<and> touches {} s t"
proof -
  let ?I = "\<lambda>k b t. touches {} s t \<and> length (was_read UEDATX t) = length (was_read UEDATX s) + k \<and> b = take k bs @ drop k Buffer"
  have "\<exists>b' t. stream_template LE Endpoint_ClearOUT (USB_USBTask app) get_byte Buffer Length None s =
      Some (ENDPOINT_RWSTREAM_NoError, None, b', t) \<and> ?I (unat Length) b' t"
  proof (rule stream_ready [where I = ?I and H = "hw s"])
    show "\<exists>b' t. get_byte (walk LE Length k) (b, u) = Some (b', t) \<and> ?I (Suc k) b' t"
      if k: "k < unat Length" "?I k b u" for k b and u :: "'a dev_scheme"
    proof -
      from k have l: "length (take k bs) = k" using assms(4) by simp
      have v: "fst (rd UEDATX u) = bs ! k"
        using assms(3,4) k touches_hw [of "{}" s u] by (simp add: host_sends_def rd_def Let_def was_read_def)
      have d: "drop k Buffer = Buffer ! k # drop (Suc k) Buffer" using k(1) assms(2) by (simp add: Cons_nth_drop_Suc)
      have "get_byte (walk LE Length k) (b, u) = Some (take (Suc k) bs @ drop (Suc k) Buffer, snd (rd UEDATX u))"
        using k l d v assms(4)
        by (simp add: get_byte_def set_byte_def walk_def Endpoint_Read_8_def split_beta Let_def list_update_append take_Suc_conv_app_nth)
      moreover have "touches {} s (snd (rd UEDATX u))" using k(2) by (intro touch) simp
      ultimately show ?thesis using k by (intro exI conjI) (assumption, assumption, auto)
    qed
    show "?I k b t" if "?I k b u" "glances u t" for k b and u t :: "'a dev_scheme"
      using that by (auto simp: glances_def intro: touches_trans)
  qed (use assms in \<open>auto dest: touches_hw\<close>)
  then show ?thesis using assms(4) by (auto simp: Endpoint_Read_Stream_LE_def)
qed

text \<open>A configured device whose endpoints are ready\<close>

definition configured_ready :: "(acc list \<Rightarrow> reg \<Rightarrow> u8) \<Rightarrow> bool" where
  "configured_ready H \<longleftrightarrow> banks_ready H \<and> (\<forall>l. H l GPIOR0 = DEVICE_STATE_Configured)"

lemma configured_state: "configured_ready (hw s) \<Longrightarrow> fst (rd GPIOR0 s) = DEVICE_STATE_Configured"
  by (simp add: configured_ready_def rd_def Let_def)

text \<open>A host that sends the bytes \<open>bs\<close> again and again to such a device\<close>

definition repeating_host :: "u8 list \<Rightarrow> acc list \<Rightarrow> reg \<Rightarrow> u8" where
  "repeating_host bs l r = (if r = UEDATX then bs ! (length (was_read_in UEDATX l) mod length bs)
     else if r = GPIOR0 then DEVICE_STATE_Configured else if r = UEINTX then 0x25 else 0)"

lemma repeating_host_ready: "configured_ready (repeating_host bs)" "host_sends (repeating_host bs) 0 bs"
proof -
  have "tst 0x25 RWAL" "tst 0x25 TXINI" "tst 0x25 RXOUTI" by code_simp+
  then show "configured_ready (repeating_host bs)" by (simp add: configured_ready_def banks_ready_def repeating_host_def)
  show "host_sends (repeating_host bs) 0 bs" by (simp add: host_sends_def repeating_host_def)
qed

section \<open>Single bytes\<close>

text \<open>The block with which the class drivers put one byte into the bank of the selected endpoint\<close>

lemma bank_once:
  fixes s :: "'a mcu_scheme"
  assumes "(let (allowed, s) = Endpoint_IsReadWriteAllowed s in do {
      (e, s) \<leftarrow> (if \<not> allowed then Endpoint_WaitUntilReady (Endpoint_ClearIN s) else Some (ENDPOINT_READYWAIT_NoError, s));
      if e \<noteq> ENDPOINT_READYWAIT_NoError then Some (rw_code e, s) else Some (ENDPOINT_RWSTREAM_NoError, Endpoint_Write_8 b s) }) = Some (e, t)"
  shows "wrote UEDATX t = wrote UEDATX s @ (if e = ENDPOINT_RWSTREAM_NoError then [b] else []) \<and> touches {UEINTX, UEDATX} s t"
proof -
  let ?a = "Endpoint_IsReadWriteAllowed s" and ?R = "{UEINTX}"
  have a: "touches ?R s (snd ?a)" "touches ?R s (Endpoint_ClearIN (snd ?a))" by (intro touch touches_refl; simp)+
  from assms obtain c u where c: "(if \<not> fst ?a then Endpoint_WaitUntilReady (Endpoint_ClearIN (snd ?a))
      else Some (ENDPOINT_READYWAIT_NoError, snd ?a)) = Some (c, u)"
    and t: "if c \<noteq> ENDPOINT_READYWAIT_NoError then e = rw_code c \<and> t = u else e = ENDPOINT_RWSTREAM_NoError \<and> t = Endpoint_Write_8 b u"
    by (auto simp: split_beta Let_def bind_eq_Some_conv split: if_splits)
  have u: "touches ?R s u"
  proof (cases "fst ?a")
    case True
    with a(1) c show ?thesis by simp
  next
    case False
    with c have "touches {} (Endpoint_ClearIN (snd ?a)) u" using WaitUntilReady_seen by auto
    from touches_mono [OF this, of ?R] a(2) show ?thesis by (blast intro: touches_trans)
  qed
  have w: "wrote UEDATX t = wrote UEDATX s @ (if e = ENDPOINT_RWSTREAM_NoError then [b] else [])"
    using t touches_wrote [OF u, of UEDATX] by (cases c) (auto simp: Endpoint_Write_8_def wr_def wrote_def)
  have "touches {UEINTX, UEDATX} s u" by (rule touches_mono [OF u]) simp
  then have "touches {UEINTX, UEDATX} s (Endpoint_Write_8 b u)" by (intro touch) simp_all
  with t w \<open>touches {UEINTX, UEDATX} s u\<close> show ?thesis by (auto split: if_splits)
qed

text \<open>Bytes sent one after the other until one is refused, with the number of bytes that were accepted\<close>

primrec send_all :: "(u8 \<Rightarrow> 's \<Rightarrow> (rwstream \<times> 's) option) \<Rightarrow> u8 list \<Rightarrow> 's \<Rightarrow> (nat \<times> 's) option" where
  "send_all send [] s = Some (0, s)"
| "send_all send (b # bs) s = do {
     (e, s) \<leftarrow> send b s;
     if e \<noteq> ENDPOINT_RWSTREAM_NoError then Some (0, s)
     else do { (n, s) \<leftarrow> send_all send bs s; Some (Suc n, s) } }"

text \<open>
  What a class driver promises of its function for one byte: the byte is in the bank exactly when the result says so.
\<close>

locale char_sink =
  fixes send :: "u8 \<Rightarrow> 's mcu_scheme \<Rightarrow> (rwstream \<times> 's mcu_scheme) option"
  assumes send_once: "send b s = Some (e, t) \<Longrightarrow> wrote UEDATX t = wrote UEDATX s @ (if e = ENDPOINT_RWSTREAM_NoError then [b] else [])"
begin

lemma send_all_prefix: "send_all send bs s = Some (n, t) \<Longrightarrow> n \<le> length bs \<and> wrote UEDATX t = wrote UEDATX s @ take n bs"
proof (induction bs arbitrary: s n)
  case (Cons b bs)
  then obtain e u where u: "send b s = Some (e, u)"
    "if e \<noteq> ENDPOINT_RWSTREAM_NoError then n = 0 \<and> t = u else \<exists>m. send_all send bs u = Some (m, t) \<and> n = Suc m"
    by (auto simp: bind_eq_Some_conv split: if_splits)
  from send_once [OF u(1)] u(2) Cons.IH show ?case by (fastforce split: if_splits)
qed simp

end

end
