(* ===== verification/CDC_Class.thy ===== *)
theory CDC_Class
  imports Class_Common
begin

text \<open>
  The CDC-ACM class of a device (virtual serial port): \<open>CDCClassDevice.h\<close>, \<open>CDCClassDevice.c\<close> and
  \<open>CDCClassCommon.h\<close> under \<open>src/AT16u2/LUFA/Drivers/USB/Class\<close>. The interface structure is a variable of the
  application and extends the state of the stack; the events are parameters. The application \<open>app\<close> is
  the one whose control requests \<open>USB_USBTask\<close> serves.
\<close>

section \<open>State\<close>

record CDC_LineEncoding =
  BaudRateBPS :: u32
  CharFormat :: u8
  ParityType :: u8
  DataBits :: u8

record USB_ClassInfo_CDC_Device =
  cdc_ControlInterfaceNumber :: u8
  cdc_DataINEndpoint :: USB_Endpoint_Table
  cdc_DataOUTEndpoint :: USB_Endpoint_Table
  cdc_NotificationEndpoint :: USB_Endpoint_Table
  HostToDevice :: u16
  DeviceToHost :: u16
  LineEncoding :: CDC_LineEncoding

record cdc_dev = dev +
  CDCInterfaceInfo :: USB_ClassInfo_CDC_Device

record 's cdc_events =
  EVENT_CDC_Device_LineEncodingChanged :: "'s \<Rightarrow> 's option"
  EVENT_CDC_Device_ControLineStateChanged :: "'s \<Rightarrow> 's option"
  EVENT_CDC_Device_BreakSent :: "u8 \<Rightarrow> 's \<Rightarrow> 's option"

text \<open>Events the application does not define are aliases of an empty function.\<close>

definition CDC_Device_Event_Stub :: "'s \<Rightarrow> 's option" where
  "CDC_Device_Event_Stub s = Some s"

definition cdc_stub_events :: "'s cdc_events" where
  "cdc_stub_events = \<lparr>EVENT_CDC_Device_LineEncodingChanged = CDC_Device_Event_Stub,
     EVENT_CDC_Device_ControLineStateChanged = CDC_Device_Event_Stub,
     EVENT_CDC_Device_BreakSent = (\<lambda>_. CDC_Device_Event_Stub)\<rparr>"

abbreviation CDC_REQ_SetLineEncoding :: u8 where "CDC_REQ_SetLineEncoding \<equiv> 0x20"
abbreviation CDC_REQ_GetLineEncoding :: u8 where "CDC_REQ_GetLineEncoding \<equiv> 0x21"
abbreviation CDC_REQ_SetControlLineState :: u8 where "CDC_REQ_SetControlLineState \<equiv> 0x22"
abbreviation CDC_REQ_SendBreak :: u8 where "CDC_REQ_SendBreak \<equiv> 0x23"
abbreviation CDC_NOTIF_SerialState :: u8 where "CDC_NOTIF_SerialState \<equiv> 0x20"

definition set_cdc :: "(USB_ClassInfo_CDC_Device \<Rightarrow> USB_ClassInfo_CDC_Device) \<Rightarrow> 'a cdc_dev_scheme \<Rightarrow> 'a cdc_dev_scheme" where
  "set_cdc f s = s\<lparr>CDCInterfaceInfo := f (CDCInterfaceInfo s)\<rparr>"

section \<open>Control requests\<close>

definition cdc_GetLineEncoding :: "'a cdc_dev_scheme \<Rightarrow> 'a cdc_dev_scheme option" where
  "cdc_GetLineEncoding s =
     (if bmRequestType (USB_ControlRequest s) = class_in
      then do {
        let s = Endpoint_ClearSETUP s;
        s \<leftarrow> wait_set UEINTX TXINI s;
        let e = LineEncoding (CDCInterfaceInfo s);
        let s = Endpoint_Write_32_LE (BaudRateBPS e) s;
        let s = Endpoint_Write_8 (CharFormat e) s;
        let s = Endpoint_Write_8 (ParityType e) s;
        let s = Endpoint_Write_8 (DataBits e) s;
        Endpoint_ClearStatusStage (Endpoint_ClearIN s) }
      else Some s)"

text \<open>\<open>status_wait\<close> has the same loop as the wait for the data here; \<open>False\<close> is the early return.\<close>

definition cdc_SetLineEncoding :: "'a cdc_dev_scheme cdc_events \<Rightarrow> 'a cdc_dev_scheme \<Rightarrow> 'a cdc_dev_scheme option" where
  "cdc_SetLineEncoding ev s =
     (if bmRequestType (USB_ControlRequest s) = class_out
      then do {
        (ok, s) \<leftarrow> status_wait Endpoint_IsOUTReceived (Endpoint_ClearSETUP s);
        if \<not> ok then Some s
        else do {
          let (BaudRate, s) = Endpoint_Read_32_LE s;
          let (Format, s) = Endpoint_Read_8 s;
          let (Parity, s) = Endpoint_Read_8 s;
          let (Bits, s) = Endpoint_Read_8 s;
          let s = set_cdc (\<lambda>i. i\<lparr>LineEncoding := \<lparr>BaudRateBPS = BaudRate, CharFormat = Format, ParityType = Parity, DataBits = Bits\<rparr>\<rparr>) s;
          s \<leftarrow> Endpoint_ClearStatusStage (Endpoint_ClearOUT s);
          EVENT_CDC_Device_LineEncodingChanged ev s } }
      else Some s)"

definition cdc_SetControlLineState :: "'a cdc_dev_scheme cdc_events \<Rightarrow> 'a cdc_dev_scheme \<Rightarrow> 'a cdc_dev_scheme option" where
  "cdc_SetControlLineState ev s =
     (if bmRequestType (USB_ControlRequest s) = class_out
      then do {
        s \<leftarrow> Endpoint_ClearStatusStage (Endpoint_ClearSETUP s);
        let s = set_cdc (\<lambda>i. i\<lparr>HostToDevice := wValue (USB_ControlRequest s)\<rparr>) s;
        EVENT_CDC_Device_ControLineStateChanged ev s }
      else Some s)"

definition cdc_SendBreak :: "'a cdc_dev_scheme cdc_events \<Rightarrow> 'a cdc_dev_scheme \<Rightarrow> 'a cdc_dev_scheme option" where
  "cdc_SendBreak ev s =
     (if bmRequestType (USB_ControlRequest s) = class_out
      then do {
        s \<leftarrow> Endpoint_ClearStatusStage (Endpoint_ClearSETUP s);
        EVENT_CDC_Device_BreakSent ev (ucast (wValue (USB_ControlRequest s))) s }
      else Some s)"

definition CDC_Device_ProcessControlRequest :: "'a cdc_dev_scheme cdc_events \<Rightarrow> 'a cdc_dev_scheme \<Rightarrow> 'a cdc_dev_scheme option" where
  "CDC_Device_ProcessControlRequest ev s =
     (let (setup, s) = Endpoint_IsSETUPReceived s; q = USB_ControlRequest s
      in if \<not> setup then Some s
         else if wIndex q \<noteq> ucast (cdc_ControlInterfaceNumber (CDCInterfaceInfo s)) then Some s
         else if bRequest q = CDC_REQ_GetLineEncoding then cdc_GetLineEncoding s
         else if bRequest q = CDC_REQ_SetLineEncoding then cdc_SetLineEncoding ev s
         else if bRequest q = CDC_REQ_SetControlLineState then cdc_SetControlLineState ev s
         else if bRequest q = CDC_REQ_SendBreak then cdc_SendBreak ev s
         else Some s)"

section \<open>Configuration\<close>

definition CDC_Device_ConfigureEndpoints :: "'a cdc_dev_scheme \<Rightarrow> (bool \<times> 'a cdc_dev_scheme) option" where
  "CDC_Device_ConfigureEndpoints s = do {
     let s = set_cdc (\<lambda>i. i\<lparr>HostToDevice := 0, DeviceToHost := 0,
       LineEncoding := \<lparr>BaudRateBPS = 0, CharFormat = 0, ParityType = 0, DataBits = 0\<rparr>,
       cdc_DataINEndpoint := (cdc_DataINEndpoint i)\<lparr>ep_Type := EP_TYPE_BULK\<rparr>,
       cdc_DataOUTEndpoint := (cdc_DataOUTEndpoint i)\<lparr>ep_Type := EP_TYPE_BULK\<rparr>,
       cdc_NotificationEndpoint := (cdc_NotificationEndpoint i)\<lparr>ep_Type := EP_TYPE_INTERRUPT\<rparr>\<rparr>) s;
     (ok, s) \<leftarrow> Endpoint_ConfigureEndpointTable [cdc_DataINEndpoint (CDCInterfaceInfo s)] s;
     if \<not> ok then Some (False, s)
     else do {
       (ok, s) \<leftarrow> Endpoint_ConfigureEndpointTable [cdc_DataOUTEndpoint (CDCInterfaceInfo s)] s;
       if \<not> ok then Some (False, s)
       else Endpoint_ConfigureEndpointTable [cdc_NotificationEndpoint (CDCInterfaceInfo s)] s } }"

section \<open>Data\<close>

text \<open>The guard of the data functions: configured, and the host has set a baud rate.\<close>

definition cdc_usable :: "'a cdc_dev_scheme \<Rightarrow> bool \<times> 'a cdc_dev_scheme" where
  "cdc_usable s = (let (st, s) = rd GPIOR0 s
     in (st = DEVICE_STATE_Configured \<and> BaudRateBPS (LineEncoding (CDCInterfaceInfo s)) \<noteq> 0, s))"

definition cdc_select_in :: "'a cdc_dev_scheme \<Rightarrow> 'a cdc_dev_scheme" where
  "cdc_select_in s = Endpoint_SelectEndpoint (ep_Address (cdc_DataINEndpoint (CDCInterfaceInfo s))) s"

definition cdc_select_out :: "'a cdc_dev_scheme \<Rightarrow> 'a cdc_dev_scheme" where
  "cdc_select_out s = Endpoint_SelectEndpoint (ep_Address (cdc_DataOUTEndpoint (CDCInterfaceInfo s))) s"

definition CDC_Device_Flush :: "'a cdc_dev_scheme \<Rightarrow> (rwstream \<times> 'a cdc_dev_scheme) option" where
  "CDC_Device_Flush s =
     (let (ok, s) = cdc_usable s
      in if \<not> ok then Some (ENDPOINT_RWSTREAM_DeviceDisconnected, s)
         else let s = cdc_select_in s; (n, s) = Endpoint_BytesInEndpoint s
         in if n = 0 then Some (ENDPOINT_RWSTREAM_NoError, s)
            else let (allowed, s) = Endpoint_IsReadWriteAllowed s; s = Endpoint_ClearIN s
            in if \<not> allowed
               then do {
                 (e, s) \<leftarrow> Endpoint_WaitUntilReady s;
                 if e \<noteq> ENDPOINT_READYWAIT_NoError then Some (rw_code e, s)
                 else Some (ENDPOINT_RWSTREAM_NoError, Endpoint_ClearIN s) }
               else Some (ENDPOINT_RWSTREAM_NoError, s))"

definition CDC_Device_USBTask :: "'a cdc_dev_scheme \<Rightarrow> 'a cdc_dev_scheme option" where
  "CDC_Device_USBTask s =
     (let (ok, s) = cdc_usable s
      in if \<not> ok then Some s
         else let (ready, s) = Endpoint_IsINReady (cdc_select_in s)
         in if ready then do { (_, s) \<leftarrow> CDC_Device_Flush s; Some s } else Some s)"

definition CDC_Device_SendData :: "'a cdc_dev_scheme application \<Rightarrow> u8 list \<Rightarrow> u16 \<Rightarrow> 'a cdc_dev_scheme \<Rightarrow>
    (rwstream \<times> 'a cdc_dev_scheme) option" where
  "CDC_Device_SendData app Buffer Length s =
     (let (ok, s) = cdc_usable s
      in if \<not> ok then Some (ENDPOINT_RWSTREAM_DeviceDisconnected, s)
         else do { (e, _, _, s) \<leftarrow> Endpoint_Write_Stream_LE app Buffer Length None (cdc_select_in s); Some (e, s) })"

definition CDC_Device_SendData_P :: "'a cdc_dev_scheme application \<Rightarrow> u8 list \<Rightarrow> u16 \<Rightarrow> 'a cdc_dev_scheme \<Rightarrow>
    (rwstream \<times> 'a cdc_dev_scheme) option" where
  "CDC_Device_SendData_P app Buffer Length s =
     (let (ok, s) = cdc_usable s
      in if \<not> ok then Some (ENDPOINT_RWSTREAM_DeviceDisconnected, s)
         else do { (e, _, _, s) \<leftarrow> Endpoint_Write_PStream_LE app Buffer Length None (cdc_select_in s); Some (e, s) })"

definition CDC_Device_SendString :: "'a cdc_dev_scheme application \<Rightarrow> u8 list \<Rightarrow> 'a cdc_dev_scheme \<Rightarrow>
    (rwstream \<times> 'a cdc_dev_scheme) option" where
  "CDC_Device_SendString app String s =
     (let (ok, s) = cdc_usable s
      in if \<not> ok then Some (ENDPOINT_RWSTREAM_DeviceDisconnected, s)
         else do {
           let s = cdc_select_in s;
           n \<leftarrow> strlen String;
           (e, _, _, s) \<leftarrow> Endpoint_Write_Stream_LE app String n None s;
           Some (e, s) })"

definition CDC_Device_SendString_P :: "'a cdc_dev_scheme application \<Rightarrow> u8 list \<Rightarrow> 'a cdc_dev_scheme \<Rightarrow>
    (rwstream \<times> 'a cdc_dev_scheme) option" where
  "CDC_Device_SendString_P app String s =
     (let (ok, s) = cdc_usable s
      in if \<not> ok then Some (ENDPOINT_RWSTREAM_DeviceDisconnected, s)
         else do {
           let s = cdc_select_in s;
           n \<leftarrow> strlen String;
           (e, _, _, s) \<leftarrow> Endpoint_Write_PStream_LE app String n None s;
           Some (e, s) })"

definition CDC_Device_SendByte :: "u8 \<Rightarrow> 'a cdc_dev_scheme \<Rightarrow> (rwstream \<times> 'a cdc_dev_scheme) option" where
  "CDC_Device_SendByte Data s =
     (let (ok, s) = cdc_usable s
      in if \<not> ok then Some (ENDPOINT_RWSTREAM_DeviceDisconnected, s)
         else let (allowed, s) = Endpoint_IsReadWriteAllowed (cdc_select_in s)
         in do {
           (e, s) \<leftarrow> (if \<not> allowed then Endpoint_WaitUntilReady (Endpoint_ClearIN s) else Some (ENDPOINT_READYWAIT_NoError, s));
           if e \<noteq> ENDPOINT_READYWAIT_NoError then Some (rw_code e, s)
           else Some (ENDPOINT_RWSTREAM_NoError, Endpoint_Write_8 Data s) })"

definition CDC_Device_BytesReceived :: "'a cdc_dev_scheme \<Rightarrow> u16 \<times> 'a cdc_dev_scheme" where
  "CDC_Device_BytesReceived s =
     (let (ok, s) = cdc_usable s
      in if \<not> ok then (0, s)
         else let (received, s) = Endpoint_IsOUTReceived (cdc_select_out s)
         in if \<not> received then (0, s)
            else let (n, s) = Endpoint_BytesInEndpoint s
            in if n = 0 then (0, Endpoint_ClearOUT s) else Endpoint_BytesInEndpoint s)"

definition CDC_Device_ReceiveByte :: "'a cdc_dev_scheme \<Rightarrow> int \<times> 'a cdc_dev_scheme" where
  "CDC_Device_ReceiveByte s =
     (let (ok, s) = cdc_usable s
      in if \<not> ok then (- 1, s)
         else let (received, s) = Endpoint_IsOUTReceived (cdc_select_out s)
         in if \<not> received then (- 1, s)
            else let (n, s) = Endpoint_BytesInEndpoint s;
                     (ReceivedByte, s) = (if n \<noteq> 0 then let (v, s) = Endpoint_Read_8 s in (uint v, s) else (- 1, s));
                     (n, s) = Endpoint_BytesInEndpoint s
                 in (ReceivedByte, if n = 0 then Endpoint_ClearOUT s else s))"

definition CDC_Device_SendControlLineStateChange :: "'a cdc_dev_scheme application \<Rightarrow> 'a cdc_dev_scheme \<Rightarrow> 'a cdc_dev_scheme option" where
  "CDC_Device_SendControlLineStateChange app s =
     (let (ok, s) = cdc_usable s
      in if \<not> ok then Some s
         else do {
           let s = Endpoint_SelectEndpoint (ep_Address (cdc_NotificationEndpoint (CDCInterfaceInfo s))) s;
           let Notification = \<lparr>bmRequestType = class_in, bRequest = CDC_NOTIF_SerialState, wValue = 0, wIndex = 0, wLength = 2\<rparr>;
           (_, _, _, s) \<leftarrow> Endpoint_Write_Stream_LE app (request_bytes Notification) 8 None s;
           (_, _, _, s) \<leftarrow> Endpoint_Write_Stream_LE app (bytes16 (DeviceToHost (CDCInterfaceInfo s))) 2 None s;
           Some (Endpoint_ClearIN s) })"

section \<open>Character streams\<close>

definition CDC_Device_putchar :: "u8 \<Rightarrow> 'a cdc_dev_scheme \<Rightarrow> (int \<times> 'a cdc_dev_scheme) option" where
  "CDC_Device_putchar c s = do {
     (e, s) \<leftarrow> CDC_Device_SendByte c s;
     Some (if e \<noteq> ENDPOINT_RWSTREAM_NoError then FDEV_ERR else 0, s) }"

definition CDC_Device_getchar :: "'a cdc_dev_scheme \<Rightarrow> int \<times> 'a cdc_dev_scheme" where
  "CDC_Device_getchar s =
     (let (ReceivedByte, s) = CDC_Device_ReceiveByte s in (if ReceivedByte < 0 then FDEV_EOF else ReceivedByte, s))"

definition CDC_Device_getchar_Blocking :: "'a cdc_dev_scheme application \<Rightarrow> 'a cdc_dev_scheme \<Rightarrow> (int \<times> 'a cdc_dev_scheme) option" where
  "CDC_Device_getchar_Blocking app = poll_loop (\<lambda>s.
     let (ReceivedByte, s) = CDC_Device_ReceiveByte s
     in if \<not> ReceivedByte < 0 then Some (Some ReceivedByte, s)
        else let (st, s) = rd GPIOR0 s
        in if st = DEVICE_STATE_Unattached then Some (Some FDEV_EOF, s)
           else do { s \<leftarrow> CDC_Device_USBTask s; s \<leftarrow> USB_USBTask app s; Some (None, s) })"

definition CDC_Device_CreateStream :: "file_ref \<Rightarrow> 'a cdc_dev_scheme stdio \<Rightarrow> 'a cdc_dev_scheme stdio" where
  "CDC_Device_CreateStream Stream =
     set_file Stream \<lparr>fdev_put = CDC_Device_putchar, fdev_get = (\<lambda>s. Some (CDC_Device_getchar s))\<rparr>"

definition CDC_Device_CreateBlockingStream :: "'a cdc_dev_scheme application \<Rightarrow> file_ref \<Rightarrow> 'a cdc_dev_scheme stdio \<Rightarrow> 'a cdc_dev_scheme stdio" where
  "CDC_Device_CreateBlockingStream app Stream =
     set_file Stream \<lparr>fdev_put = CDC_Device_putchar, fdev_get = CDC_Device_getchar_Blocking app\<rparr>"

section \<open>Frames\<close>

lemma touches_cdc:
  fixes s t :: "'a cdc_dev_scheme"
  assumes "touches R s t"
  shows "CDCInterfaceInfo t = CDCInterfaceInfo s"
  using touches_more [OF assms] by (cases s; cases t; simp)

lemma set_cdc_simps [simp]:
  "CDCInterfaceInfo (set_cdc f s) = f (CDCInterfaceInfo s)" "was_read r (set_cdc f s) = was_read r s"
  "wrote r (set_cdc f s) = wrote r s" "hw (set_cdc f s) = hw s" "log (set_cdc f s) = log s"
  by (simp_all add: set_cdc_def was_read_def wrote_def)

section \<open>Data sent and received\<close>

lemma cdc_usable_touches [touch]: "touches R s t \<Longrightarrow> touches R s (snd (cdc_usable t))"
  by (simp add: cdc_usable_def Let_def split_beta touch)

lemma cdc_select_touches [touch]:
  assumes "touches R s t" "UENUM \<in> R"
  shows "touches R s (cdc_select_in t)" "touches R s (cdc_select_out t)"
  using assms by (simp_all add: cdc_select_in_def cdc_select_out_def touch)

text \<open>A byte is put into the bank exactly when the result says so.\<close>

lemma SendByte_once:
  assumes "CDC_Device_SendByte b s = Some (e, t)"
  shows "wrote UEDATX t = wrote UEDATX s @ (if e = ENDPOINT_RWSTREAM_NoError then [b] else [])"
proof (cases "fst (cdc_usable s)")
  case False
  have "touches {} s (snd (cdc_usable s))" by (intro touch touches_refl)
  with False assms touches_wrote [OF this, of UEDATX] show ?thesis by (simp add: CDC_Device_SendByte_def split_beta Let_def)
next
  case True
  let ?u = "cdc_select_in (snd (cdc_usable s))"
  have "touches {UENUM} s ?u" by (intro touch touches_refl) simp
  with bank_once [of ?u b e t] True assms touches_wrote [OF this, of UEDATX] show ?thesis
    by (simp add: CDC_Device_SendByte_def split_beta Let_def cong: if_cong)
qed

interpretation cdc_sink: char_sink CDC_Device_SendByte
  by unfold_locales (rule SendByte_once)

text \<open>Data is sent completely when the result says so, with no control request in between.\<close>

lemma SendData_complete:
  assumes "CDC_Device_SendData app Buffer Length s = Some (ENDPOINT_RWSTREAM_NoError, t)"
    and "unat Length \<le> length Buffer" "no_requests (hw s)"
  shows "wrote UEDATX t = wrote UEDATX s @ take (unat Length) Buffer"
proof -
  let ?u = "cdc_select_in (snd (cdc_usable s))"
  have u: "touches {UENUM} s ?u" by (intro touch touches_refl) simp
  from assms(1) obtain bp b where r: "Endpoint_Write_Stream_LE app Buffer Length None ?u = Some (ENDPOINT_RWSTREAM_NoError, bp, b, t)"
    by (auto simp: CDC_Device_SendData_def split_beta Let_def bind_eq_Some_conv split: if_splits)
  from touches_hw [OF u] assms(3) have "no_requests (hw ?u)" by simp
  from byte_stream.template_bytes [OF write_stream [OF assms(2) this, of LE app] r [unfolded Endpoint_Write_Stream_LE_def] refl, of 0]
  have "wrote UEDATX t = wrote UEDATX ?u @ stream LE Buffer Length" using assms(2) by auto
  with touches_wrote [OF u, of UEDATX] show ?thesis by (simp add: stream_def)
qed

section \<open>The line encoding is kept for the host\<close>

text \<open>The seven bytes of the line encoding on the bus\<close>

definition line_bytes :: "CDC_LineEncoding \<Rightarrow> u8 list" where
  "line_bytes e = bytes32 (BaudRateBPS e) @ [CharFormat e, ParityType e, DataBits e]"

text \<open>A request for the interface has arrived.\<close>

definition cdc_request :: "u8 \<Rightarrow> u8 \<Rightarrow> 'a cdc_dev_scheme \<Rightarrow> bool" where
  "cdc_request ty req s \<longleftrightarrow> tst (hw s (log s) UEINTX) RXSTPI \<and> bmRequestType (USB_ControlRequest s) = ty \<and>
     bRequest (USB_ControlRequest s) = req \<and>
     wIndex (USB_ControlRequest s) = ucast (cdc_ControlInterfaceNumber (CDCInterfaceInfo s))"

lemma cdc_dispatch:
  assumes "CDC_Device_ProcessControlRequest ev s = Some t" "cdc_request ty req s"
  shows "(if req = CDC_REQ_GetLineEncoding then cdc_GetLineEncoding (snd (Endpoint_IsSETUPReceived s))
    else if req = CDC_REQ_SetLineEncoding then cdc_SetLineEncoding ev (snd (Endpoint_IsSETUPReceived s))
    else if req = CDC_REQ_SetControlLineState then cdc_SetControlLineState ev (snd (Endpoint_IsSETUPReceived s))
    else if req = CDC_REQ_SendBreak then cdc_SendBreak ev (snd (Endpoint_IsSETUPReceived s))
    else Some (snd (Endpoint_IsSETUPReceived s))) = Some t"
proof -
  let ?u = "snd (Endpoint_IsSETUPReceived s)"
  have u: "touches {} s ?u" by (intro touch touches_refl)
  have "fst (Endpoint_IsSETUPReceived s)" using assms(2) by (simp add: cdc_request_def Endpoint_IsSETUPReceived_def tst_fst)
  moreover have "bRequest (USB_ControlRequest ?u) = req"
    "wIndex (USB_ControlRequest ?u) = ucast (cdc_ControlInterfaceNumber (CDCInterfaceInfo ?u))"
    using assms(2) touches_dev(1) [OF u] touches_cdc [OF u] by (simp_all add: cdc_request_def)
  ultimately show ?thesis using assms(1) by (simp add: CDC_Device_ProcessControlRequest_def Let_def split_beta cong: if_cong)
qed

lemma cdc_GetLineEncoding_writes:
  assumes "cdc_GetLineEncoding s = Some t" "bmRequestType (USB_ControlRequest s) = class_in"
  shows "wrote UEDATX t = wrote UEDATX s @ line_bytes (LineEncoding (CDCInterfaceInfo s))"
proof -
  from assms obtain u where u: "wait_set UEINTX TXINI (Endpoint_ClearSETUP s) = Some u"
    and t: "Endpoint_ClearStatusStage (Endpoint_ClearIN (Endpoint_Write_8 (DataBits (LineEncoding (CDCInterfaceInfo u)))
      (Endpoint_Write_8 (ParityType (LineEncoding (CDCInterfaceInfo u))) (Endpoint_Write_8 (CharFormat (LineEncoding (CDCInterfaceInfo u)))
        (Endpoint_Write_32_LE (BaudRateBPS (LineEncoding (CDCInterfaceInfo u))) u))))) = Some t"
    by (auto simp: cdc_GetLineEncoding_def bind_eq_Some_conv Let_def)
  have "touches {UEINTX} s (Endpoint_ClearSETUP s)" by (intro touch touches_refl) simp
  with wait_set_touches [OF u, of "{UEINTX}"] have a: "touches {UEINTX} s u" by (blast intro: touches_trans)
  from touches_wrote [OF ClearStatusStage_touches [OF t], of UEDATX] touches_wrote [OF a, of UEDATX] touches_cdc [OF a] show ?thesis
    by (simp add: line_bytes_def Endpoint_Write_32_LE_def Endpoint_Write_8_def Endpoint_ClearIN_def bytes32_def clr_bits_def
      Let_def split_beta)
qed

lemma cdc_SetLineEncoding_reads:
  assumes "cdc_SetLineEncoding cdc_stub_events s = Some t" "bmRequestType (USB_ControlRequest s) = class_out"
  shows "(\<exists>l. log t = Rd GPIOR0 DEVICE_STATE_Unattached # l) \<and> CDCInterfaceInfo t = CDCInterfaceInfo s \<or>
    was_read UEDATX t = was_read UEDATX s @ line_bytes (LineEncoding (CDCInterfaceInfo t))"
proof -
  from assms obtain ok u where u: "status_wait Endpoint_IsOUTReceived (Endpoint_ClearSETUP s) = Some (ok, u)"
    by (auto simp: cdc_SetLineEncoding_def bind_eq_Some_conv)
  have a: "touches {UEINTX} s (Endpoint_ClearSETUP s)" by (intro touch touches_refl) simp
  have b: "touches {UEINTX} (Endpoint_ClearSETUP s) u" by (rule status_wait_touches [OF u]) (intro touch)
  have r: "was_read UEDATX u = was_read UEDATX s"
    using status_wait_reads [OF u, of UEDATX] by (simp add: Endpoint_IsOUTReceived_def Endpoint_ClearSETUP_def)
  show ?thesis
  proof (cases ok)
    case False
    with assms u have "t = u" by (simp add: cdc_SetLineEncoding_def)
    with False status_wait_seen [OF u [unfolded Endpoint_IsOUTReceived_def]] touches_cdc [OF touches_trans [OF a b]]
    show ?thesis by simp
  next
    case True
    let ?b = "Endpoint_Read_32_LE u"
    let ?c = "rd UEDATX (snd ?b)" let ?d = "rd UEDATX (snd ?c)" let ?e = "rd UEDATX (snd ?d)"
    let ?l = "\<lparr>BaudRateBPS = fst ?b, CharFormat = fst ?c, ParityType = fst ?d, DataBits = fst ?e\<rparr>"
    let ?v = "set_cdc (\<lambda>i. i\<lparr>LineEncoding := ?l\<rparr>) (snd ?e)"
    from assms u True have t: "Endpoint_ClearStatusStage (Endpoint_ClearOUT ?v) = Some t"
      by (auto simp: cdc_SetLineEncoding_def bind_eq_Some_conv Let_def split_beta Endpoint_Read_8_def cdc_stub_events_def CDC_Device_Event_Stub_def)
    have "touches {UEINTX} ?v (Endpoint_ClearOUT ?v)" by (intro touch touches_refl) simp
    from touches_cdc [OF touches_trans [OF this ClearStatusStage_touches [OF t]]] have "LineEncoding (CDCInterfaceInfo t) = ?l" by simp
    moreover have "was_read UEDATX t = was_read UEDATX (snd ?e)"
      using ClearStatusStage_reads [OF t, of UEDATX] by (simp add: Endpoint_ClearOUT_def)
    ultimately show ?thesis using r
      by (simp add: line_bytes_def Endpoint_Read_32_LE_def Let_def split_beta)
  qed
qed

text \<open>With a host that answers, every request to the interface is processed.\<close>

lemma cdc_returns:
  assumes "always_ready (hw s)" "cdc_request ty req s" "(ty, req) = (class_out, CDC_REQ_SetLineEncoding) \<or> (ty, req) = (class_in, CDC_REQ_GetLineEncoding)"
  shows "\<exists>t. CDC_Device_ProcessControlRequest cdc_stub_events s = Some t \<and> (\<exists>v l. log t = Wr UEINTX v # l)"
proof -
  let ?u = "snd (Endpoint_IsSETUPReceived s)"
  have u: "touches {} s ?u" by (intro touch touches_refl)
  have "fst (Endpoint_IsSETUPReceived s)" using assms(2) by (simp add: cdc_request_def Endpoint_IsSETUPReceived_def tst_fst)
  moreover have "bRequest (USB_ControlRequest ?u) = req" "bmRequestType (USB_ControlRequest ?u) = ty"
    "wIndex (USB_ControlRequest ?u) = ucast (cdc_ControlInterfaceNumber (CDCInterfaceInfo ?u))" "always_ready (hw ?u)"
    using assms(1,2) touches_dev(1) [OF u] touches_cdc [OF u] touches_hw [OF u] by (simp_all add: cdc_request_def)
  ultimately show ?thesis using assms(3)
    by (auto simp: CDC_Device_ProcessControlRequest_def Let_def split_beta cdc_SetLineEncoding_def cdc_GetLineEncoding_def
      ready_wait(1,2) ready_wait(3) [simplified] Endpoint_ClearSETUP_def clr_bits_def Endpoint_Read_8_def Endpoint_Read_32_LE_def Endpoint_ClearOUT_def Endpoint_ClearIN_def
      Endpoint_Write_8_def Endpoint_Write_32_LE_def Endpoint_IsOUTReceived_def tst_bit_of_def cdc_stub_events_def CDC_Device_Event_Stub_def
      bind_eq_Some_conv intro!: ready_status)
qed

text \<open>
  Property C34. The line encoding is kept for the host: when a \<open>SetLineEncoding\<close> request has been processed, either the
  device was seen unattached and nothing has changed, or a later \<open>GetLineEncoding\<close> request, while the encoding
  is the same, is answered with exactly the seven bytes the first request carried.
\<close>

theorem line_encoding_roundtrip:
  assumes "CDC_Device_ProcessControlRequest cdc_stub_events s = Some t" "cdc_request class_out CDC_REQ_SetLineEncoding s"
    and "CDC_Device_ProcessControlRequest ev u = Some v" "cdc_request class_in CDC_REQ_GetLineEncoding u"
    and "LineEncoding (CDCInterfaceInfo u) = LineEncoding (CDCInterfaceInfo t)"
  shows "(\<exists>l. log t = Rd GPIOR0 DEVICE_STATE_Unattached # l) \<and> CDCInterfaceInfo t = CDCInterfaceInfo s \<or>
    (\<exists>bs. length bs = 7 \<and> was_read UEDATX t = was_read UEDATX s @ bs \<and> wrote UEDATX v = wrote UEDATX u @ bs)"
proof -
  note d = cdc_dispatch [OF assms(1,2)] cdc_dispatch [OF assms(3,4)]
  have x: "touches {} s (snd (Endpoint_IsSETUPReceived s))" "touches {} u (snd (Endpoint_IsSETUPReceived u))"
    by (intro touch touches_refl)+
  from assms(2,4) have "bmRequestType (USB_ControlRequest (snd (Endpoint_IsSETUPReceived s))) = class_out"
    "bmRequestType (USB_ControlRequest (snd (Endpoint_IsSETUPReceived u))) = class_in"
    using touches_dev(1) [OF x(1)] touches_dev(1) [OF x(2)] by (simp_all add: cdc_request_def)
  with d cdc_SetLineEncoding_reads [of "snd (Endpoint_IsSETUPReceived s)" t] cdc_GetLineEncoding_writes [of "snd (Endpoint_IsSETUPReceived u)" v]
  show ?thesis
    using touches_cdc [OF x(1)] touches_cdc [OF x(2)] touches_wrote [OF x(2), of UEDATX] assms(5)
    by (auto simp: Endpoint_IsSETUPReceived_def line_bytes_def)
qed

definition cdc_at :: "(acc list \<Rightarrow> reg \<Rightarrow> u8) \<Rightarrow> USB_Request_Header \<Rightarrow> CDC_LineEncoding \<Rightarrow> cdc_dev" where
  "cdc_at H q e = dev.extend (dev_at H q) (cdc_dev.fields \<lparr>cdc_ControlInterfaceNumber = 0,
     cdc_DataINEndpoint = \<lparr>ep_Address = 0x82, ep_Size = 16, ep_Type = 0, ep_Banks = 1\<rparr>,
     cdc_DataOUTEndpoint = \<lparr>ep_Address = 0x03, ep_Size = 16, ep_Type = 0, ep_Banks = 1\<rparr>,
     cdc_NotificationEndpoint = \<lparr>ep_Address = 0x81, ep_Size = 8, ep_Type = 0, ep_Banks = 1\<rparr>,
     HostToDevice = 0, DeviceToHost = 0, LineEncoding = e\<rparr>)"

lemma cdc_at_simps [simp]:
  "hw (cdc_at H q e) = H" "log (cdc_at H q e) = []" "USB_ControlRequest (cdc_at H q e) = q"
  "LineEncoding (CDCInterfaceInfo (cdc_at H q e)) = e" "cdc_ControlInterfaceNumber (CDCInterfaceInfo (cdc_at H q e)) = 0"
  by (simp_all add: cdc_at_def dev_at_def dev.defs cdc_dev.defs)

theorem line_encoding_roundtrip_witness:
  "\<exists>t v bs. CDC_Device_ProcessControlRequest cdc_stub_events (cdc_at (\<lambda>l r. 0x0D)
       \<lparr>bmRequestType = 0x21, bRequest = 0x20, wValue = 0, wIndex = 0, wLength = 7\<rparr>
       \<lparr>BaudRateBPS = 0, CharFormat = 0, ParityType = 0, DataBits = 0\<rparr>) = Some t \<and>
     CDC_Device_ProcessControlRequest cdc_stub_events (cdc_at (\<lambda>l r. 0x0D)
       \<lparr>bmRequestType = 0xA1, bRequest = 0x21, wValue = 0, wIndex = 0, wLength = 7\<rparr> (LineEncoding (CDCInterfaceInfo t))) = Some v \<and>
     length bs = 7 \<and> was_read UEDATX t = bs \<and> wrote UEDATX v = bs"
proof -
  let ?e = "\<lparr>BaudRateBPS = 0, CharFormat = 0, ParityType = 0, DataBits = 0\<rparr>"
  let ?s = "cdc_at (\<lambda>l r. 0x0D) \<lparr>bmRequestType = 0x21, bRequest = 0x20, wValue = 0, wIndex = 0, wLength = 7\<rparr> ?e"
  let ?u = "cdc_at (\<lambda>l r. 0x0D) \<lparr>bmRequestType = 0xA1, bRequest = 0x21, wValue = 0, wIndex = 0, wLength = 7\<rparr>"
  have c: "tst 0x0D RXOUTI" "tst 0x0D TXINI" "tst 0x0D RXSTPI" "class_out = 0x21" "class_in = 0xA1" by code_simp+
  then have s: "cdc_request class_out CDC_REQ_SetLineEncoding ?s" "cdc_request class_in CDC_REQ_GetLineEncoding (?u e)" for e
    by (simp_all add: cdc_request_def)
  from always_ready_const [OF c(1,2)] obtain t where t: "CDC_Device_ProcessControlRequest cdc_stub_events ?s = Some t"
    "\<exists>v l. log t = Wr UEINTX v # l" using cdc_returns [OF _ s(1)] by auto
  from always_ready_const [OF c(1,2)] obtain v where v: "CDC_Device_ProcessControlRequest cdc_stub_events (?u (LineEncoding (CDCInterfaceInfo t))) = Some v"
    using cdc_returns [OF _ s(2)] by auto
  from line_encoding_roundtrip [OF t(1) s(1) v s(2)] t(2) obtain bs where
    "length bs = 7 \<and> was_read UEDATX t = bs \<and> wrote UEDATX v = bs" by (auto simp: was_read_def wrote_def)
  with t v show ?thesis by auto
qed

end
