(* ===== verification/HID_Class.thy ===== *)
theory HID_Class
  imports Class_Common
begin

text \<open>
  The HID class of a device: \<open>HIDClassDevice.h\<close>, \<open>HIDClassDevice.c\<close> and \<open>HIDClassCommon.h\<close> under
  \<open>src/AT16u2/LUFA/Drivers/USB/Class\<close>. The two callbacks of the application are parameters. A report buffer is
  the list of its bytes; \<open>PrevReportINBuffer\<close> is \<open>None\<close> for the null pointer. The ATmega16U2 has no low speed mode.
\<close>

section \<open>State\<close>

record USB_ClassInfo_HID_Device =
  hid_InterfaceNumber :: u8
  hid_ReportINEndpoint :: USB_Endpoint_Table
  PrevReportINBuffer :: "u8 list option"
  PrevReportINBufferSize :: u8
  UsingReportProtocol :: bool
  PrevFrameNum :: u16
  IdleCount :: u16
  IdleMSRemaining :: u16

record hid_dev = dev +
  HIDInterfaceInfo :: USB_ClassInfo_HID_Device

text \<open>
  \<open>CreateHIDReport\<close> gets the report ID, the report type and the zeroed buffer, and returns whether to force the
  report, the ID, the buffer and the size of the report. \<open>ProcessHIDReport\<close> gets ID, type, data and size.
\<close>

record 's hid_callbacks =
  CALLBACK_HID_Device_CreateHIDReport :: "u8 \<Rightarrow> u8 \<Rightarrow> u8 list \<Rightarrow> 's \<Rightarrow> (bool \<times> u8 \<times> u8 list \<times> u16 \<times> 's) option"
  CALLBACK_HID_Device_ProcessHIDReport :: "u8 \<Rightarrow> u8 \<Rightarrow> u8 list \<Rightarrow> u16 \<Rightarrow> 's \<Rightarrow> 's option"

abbreviation HID_REQ_GetReport :: u8 where "HID_REQ_GetReport \<equiv> 0x01"
abbreviation HID_REQ_GetIdle :: u8 where "HID_REQ_GetIdle \<equiv> 0x02"
abbreviation HID_REQ_GetProtocol :: u8 where "HID_REQ_GetProtocol \<equiv> 0x03"
abbreviation HID_REQ_SetReport :: u8 where "HID_REQ_SetReport \<equiv> 0x09"
abbreviation HID_REQ_SetIdle :: u8 where "HID_REQ_SetIdle \<equiv> 0x0A"
abbreviation HID_REQ_SetProtocol :: u8 where "HID_REQ_SetProtocol \<equiv> 0x0B"
abbreviation HID_REPORT_ITEM_In :: u8 where "HID_REPORT_ITEM_In \<equiv> 0"

definition set_hid :: "(USB_ClassInfo_HID_Device \<Rightarrow> USB_ClassInfo_HID_Device) \<Rightarrow> 'a hid_dev_scheme \<Rightarrow> 'a hid_dev_scheme" where
  "set_hid f s = s\<lparr>HIDInterfaceInfo := f (HIDInterfaceInfo s)\<rparr>"

section \<open>Control requests\<close>

text \<open>The copy into \<open>PrevReportINBuffer\<close>, when there is one\<close>

definition keep_report :: "u8 list \<Rightarrow> 'a hid_dev_scheme \<Rightarrow> 'a hid_dev_scheme option" where
  "keep_report ReportData s =
     (let i = HIDInterfaceInfo s
      in case PrevReportINBuffer i of
           None \<Rightarrow> Some s
         | Some b \<Rightarrow> do {
             b \<leftarrow> memcpy b ReportData (unat (PrevReportINBufferSize i));
             Some (set_hid (\<lambda>i. i\<lparr>PrevReportINBuffer := Some b\<rparr>) s) })"

definition hid_GetReport :: "'a hid_dev_scheme hid_callbacks \<Rightarrow> 'a hid_dev_scheme \<Rightarrow> 'a hid_dev_scheme option" where
  "hid_GetReport cb s =
     (if bmRequestType (USB_ControlRequest s) = class_in
      then do {
        let ReportID = ucast (wValue (USB_ControlRequest s) AND 0xFF);
        let ReportType = ucast (drop_bit 8 (wValue (USB_ControlRequest s))) - 1;
        let ReportData = replicate (unat (PrevReportINBufferSize (HIDInterfaceInfo s))) 0;
        (_, ReportID, ReportData, ReportSize, s) \<leftarrow> CALLBACK_HID_Device_CreateHIDReport cb ReportID ReportType ReportData s;
        s \<leftarrow> keep_report ReportData s;
        let s = Endpoint_SelectEndpoint ENDPOINT_CONTROLEP s;
        let s = Endpoint_ClearSETUP s;
        let s = (if ReportID \<noteq> 0 then Endpoint_Write_8 ReportID s else s);
        (_, s) \<leftarrow> Endpoint_Write_Control_Stream_LE ReportData ReportSize s;
        Some (Endpoint_ClearOUT s) }
      else Some s)"

text \<open>The array \<open>ReportData\<close> is not initialised: \<open>junk\<close> is what the stack holds there.\<close>

definition hid_SetReport :: "'a hid_dev_scheme hid_callbacks \<Rightarrow> (nat \<Rightarrow> u8) \<Rightarrow> 'a hid_dev_scheme \<Rightarrow> 'a hid_dev_scheme option" where
  "hid_SetReport cb junk s =
     (if bmRequestType (USB_ControlRequest s) = class_out
      then do {
        let ReportSize = wLength (USB_ControlRequest s);
        let ReportID = ucast (wValue (USB_ControlRequest s) AND 0xFF);
        let ReportType = ucast (drop_bit 8 (wValue (USB_ControlRequest s))) - 1;
        let ReportData = map junk [0 ..< unat ReportSize];
        let s = Endpoint_ClearSETUP s;
        (_, ReportData, s) \<leftarrow> Endpoint_Read_Control_Stream_LE ReportData ReportSize s;
        let s = Endpoint_ClearIN s;
        CALLBACK_HID_Device_ProcessHIDReport cb ReportID ReportType
          (drop (if ReportID \<noteq> 0 then 1 else 0) ReportData) (ReportSize - (if ReportID \<noteq> 0 then 1 else 0)) s }
      else Some s)"

text \<open>The answer of one byte to \<open>GetProtocol\<close> and \<open>GetIdle\<close>\<close>

definition hid_answer :: "('a hid_dev_scheme \<Rightarrow> u8) \<Rightarrow> 'a hid_dev_scheme \<Rightarrow> 'a hid_dev_scheme option" where
  "hid_answer f s =
     (if bmRequestType (USB_ControlRequest s) = class_in
      then do {
        s \<leftarrow> wait_set UEINTX TXINI (Endpoint_ClearSETUP s);
        let s = Endpoint_Write_8 (f s) s;
        Endpoint_ClearStatusStage (Endpoint_ClearIN s) }
      else Some s)"

definition hid_GetProtocol :: "'a hid_dev_scheme \<Rightarrow> 'a hid_dev_scheme option" where
  "hid_GetProtocol = hid_answer (\<lambda>s. if UsingReportProtocol (HIDInterfaceInfo s) then 1 else 0)"

definition hid_GetIdle :: "'a hid_dev_scheme \<Rightarrow> 'a hid_dev_scheme option" where
  "hid_GetIdle = hid_answer (\<lambda>s. ucast (drop_bit 2 (IdleCount (HIDInterfaceInfo s))))"

definition hid_SetProtocol :: "'a hid_dev_scheme \<Rightarrow> 'a hid_dev_scheme option" where
  "hid_SetProtocol s =
     (if bmRequestType (USB_ControlRequest s) = class_out
      then do {
        s \<leftarrow> Endpoint_ClearStatusStage (Endpoint_ClearSETUP s);
        Some (set_hid (\<lambda>i. i\<lparr>UsingReportProtocol := (wValue (USB_ControlRequest s) AND 0xFF \<noteq> 0)\<rparr>) s) }
      else Some s)"

definition hid_SetIdle :: "'a hid_dev_scheme \<Rightarrow> 'a hid_dev_scheme option" where
  "hid_SetIdle s =
     (if bmRequestType (USB_ControlRequest s) = class_out
      then do {
        s \<leftarrow> Endpoint_ClearStatusStage (Endpoint_ClearSETUP s);
        Some (set_hid (\<lambda>i. i\<lparr>IdleCount := drop_bit 6 (wValue (USB_ControlRequest s) AND 0xFF00)\<rparr>) s) }
      else Some s)"

definition HID_Device_ProcessControlRequest :: "'a hid_dev_scheme hid_callbacks \<Rightarrow> (nat \<Rightarrow> u8) \<Rightarrow> 'a hid_dev_scheme \<Rightarrow> 'a hid_dev_scheme option" where
  "HID_Device_ProcessControlRequest cb junk s =
     (let (setup, s) = Endpoint_IsSETUPReceived s; q = USB_ControlRequest s
      in if \<not> setup then Some s
         else if wIndex q \<noteq> ucast (hid_InterfaceNumber (HIDInterfaceInfo s)) then Some s
         else if bRequest q = HID_REQ_GetReport then hid_GetReport cb s
         else if bRequest q = HID_REQ_SetReport then hid_SetReport cb junk s
         else if bRequest q = HID_REQ_GetProtocol then hid_GetProtocol s
         else if bRequest q = HID_REQ_SetProtocol then hid_SetProtocol s
         else if bRequest q = HID_REQ_SetIdle then hid_SetIdle s
         else if bRequest q = HID_REQ_GetIdle then hid_GetIdle s
         else Some s)"

section \<open>Configuration and task\<close>

definition HID_Device_ConfigureEndpoints :: "'a hid_dev_scheme \<Rightarrow> (bool \<times> 'a hid_dev_scheme) option" where
  "HID_Device_ConfigureEndpoints s = do {
     let s = set_hid (\<lambda>i. i\<lparr>UsingReportProtocol := True, PrevFrameNum := 0, IdleCount := 500, IdleMSRemaining := 0,
       hid_ReportINEndpoint := (hid_ReportINEndpoint i)\<lparr>ep_Type := EP_TYPE_INTERRUPT\<rparr>\<rparr>) s;
     (ok, s) \<leftarrow> Endpoint_ConfigureEndpointTable [hid_ReportINEndpoint (HIDInterfaceInfo s)] s;
     Some (ok, s) }"

definition HID_Device_MillisecondElapsed :: "'a hid_dev_scheme \<Rightarrow> 'a hid_dev_scheme" where
  "HID_Device_MillisecondElapsed s =
     (if IdleMSRemaining (HIDInterfaceInfo s) \<noteq> 0
      then set_hid (\<lambda>i. i\<lparr>IdleMSRemaining := IdleMSRemaining i - 1\<rparr>) s else s)"

text \<open>The comparison with the report sent before and its replacement\<close>

definition report_changed :: "u8 list \<Rightarrow> u16 \<Rightarrow> 'a hid_dev_scheme \<Rightarrow> (bool \<times> 'a hid_dev_scheme) option" where
  "report_changed ReportINData ReportINSize s =
     (case PrevReportINBuffer (HIDInterfaceInfo s) of
        None \<Rightarrow> Some (False, s)
      | Some b \<Rightarrow> do {
          StatesChanged \<leftarrow> memcmp_differs ReportINData b (unat ReportINSize);
          s \<leftarrow> keep_report ReportINData s;
          Some (StatesChanged, s) })"

definition send_report :: "'a hid_dev_scheme application \<Rightarrow> u8 \<Rightarrow> u8 list \<Rightarrow> u16 \<Rightarrow> 'a hid_dev_scheme \<Rightarrow> 'a hid_dev_scheme option" where
  "send_report app ReportID ReportINData ReportINSize s = do {
     let s = set_hid (\<lambda>i. i\<lparr>IdleMSRemaining := IdleCount i\<rparr>) s;
     let s = Endpoint_SelectEndpoint (ep_Address (hid_ReportINEndpoint (HIDInterfaceInfo s))) s;
     let s = (if ReportID \<noteq> 0 then Endpoint_Write_8 ReportID s else s);
     (_, _, _, s) \<leftarrow> Endpoint_Write_Stream_LE app ReportINData ReportINSize None s;
     Some (Endpoint_ClearIN s) }"

definition end_report :: "'a hid_dev_scheme \<Rightarrow> 'a hid_dev_scheme" where
  "end_report s = (let (frame, s) = USB_Device_GetFrameNumber s in set_hid (\<lambda>i. i\<lparr>PrevFrameNum := frame\<rparr>) s)"

definition hid_report :: "'a hid_dev_scheme application \<Rightarrow> 'a hid_dev_scheme hid_callbacks \<Rightarrow> 'a hid_dev_scheme \<Rightarrow> 'a hid_dev_scheme option" where
  "hid_report app cb s = do {
     let ReportINData = replicate (unat (PrevReportINBufferSize (HIDInterfaceInfo s))) 0;
     (ForceSend, ReportID, ReportINData, ReportINSize, s) \<leftarrow> CALLBACK_HID_Device_CreateHIDReport cb 0 HID_REPORT_ITEM_In ReportINData s;
     let IdlePeriodElapsed = (IdleCount (HIDInterfaceInfo s) \<noteq> 0 \<and> IdleMSRemaining (HIDInterfaceInfo s) = 0);
     (StatesChanged, s) \<leftarrow> report_changed ReportINData ReportINSize s;
     s \<leftarrow> (if ReportINSize \<noteq> 0 \<and> (ForceSend \<or> StatesChanged \<or> IdlePeriodElapsed)
           then send_report app ReportID ReportINData ReportINSize s else Some s);
     Some (end_report s) }"

definition HID_Device_USBTask :: "'a hid_dev_scheme application \<Rightarrow> 'a hid_dev_scheme hid_callbacks \<Rightarrow> 'a hid_dev_scheme \<Rightarrow> 'a hid_dev_scheme option" where
  "HID_Device_USBTask app cb s =
     (let (st, s) = rd GPIOR0 s
      in if st \<noteq> DEVICE_STATE_Configured then Some s
         else let (frame, s) = USB_Device_GetFrameNumber s
         in if PrevFrameNum (HIDInterfaceInfo s) = frame then Some s
            else let s = Endpoint_SelectEndpoint (ep_Address (hid_ReportINEndpoint (HIDInterfaceInfo s))) s;
                     (allowed, s) = Endpoint_IsReadWriteAllowed s
            in if allowed then hid_report app cb s else Some s)"

section \<open>Frames\<close>

lemma touches_hid:
  fixes s t :: "'a hid_dev_scheme"
  assumes "touches R s t"
  shows "HIDInterfaceInfo t = HIDInterfaceInfo s"
  using touches_more [OF assms] by (cases s; cases t; simp)

lemma set_hid_simps [simp]:
  "HIDInterfaceInfo (set_hid f s) = f (HIDInterfaceInfo s)" "wrote r (set_hid f s) = wrote r s"
  "hw (set_hid f s) = hw s" "log (set_hid f s) = log s" "USB_ControlRequest (set_hid f s) = USB_ControlRequest s"
  by (simp_all add: set_hid_def wrote_def)

text \<open>A request for the interface has arrived.\<close>

definition hid_request :: "u8 \<Rightarrow> u8 \<Rightarrow> 'a hid_dev_scheme \<Rightarrow> bool" where
  "hid_request ty req s \<longleftrightarrow> tst (hw s (log s) UEINTX) RXSTPI \<and> bmRequestType (USB_ControlRequest s) = ty \<and>
     bRequest (USB_ControlRequest s) = req \<and> wIndex (USB_ControlRequest s) = ucast (hid_InterfaceNumber (HIDInterfaceInfo s))"

lemma hid_requestE:
  assumes "hid_request ty req s"
  obtains u where "touches {} s u" "hid_request ty req s" "Endpoint_IsSETUPReceived s = (True, u)"
    "bmRequestType (USB_ControlRequest u) = ty" "bRequest (USB_ControlRequest u) = req"
    "wIndex (USB_ControlRequest u) = ucast (hid_InterfaceNumber (HIDInterfaceInfo u))"
proof -
  let ?u = "snd (Endpoint_IsSETUPReceived s)"
  have u: "touches {} s ?u" by (intro touch touches_refl)
  moreover have "fst (Endpoint_IsSETUPReceived s)" using assms by (simp add: hid_request_def Endpoint_IsSETUPReceived_def tst_fst)
  then have "Endpoint_IsSETUPReceived s = (True, ?u)" by (cases "Endpoint_IsSETUPReceived s") simp
  ultimately show thesis using that [of ?u] assms touches_dev(1) [OF u] touches_hid [OF u] by (simp add: hid_request_def)
qed

section \<open>The idle rate\<close>

lemma idle_word:
  fixes w :: u16
  shows "drop_bit 6 (w AND 0xFF00) = 4 * drop_bit 8 w" "(ucast (drop_bit 2 (4 * drop_bit 8 w)) :: u8) = ucast (drop_bit 8 w)"
proof -
  have m: "(0xFF00 :: u16) = push_bit 8 (mask 8)" by (simp add: mask_eq_exp_minus_1)
  have p: "4 * drop_bit 8 w = push_bit 2 (drop_bit 8 w)" by (simp add: push_bit_eq_mult mult.commute)
  show "drop_bit 6 (w AND 0xFF00) = 4 * drop_bit 8 w" unfolding p m
    by (rule bit_word_eqI) (auto simp: bit_simps dest: bit_imp_le_length)
  show "(ucast (drop_bit 2 (4 * drop_bit 8 w)) :: u8) = ucast (drop_bit 8 w)" unfolding p
    by (rule bit_word_eqI) (auto simp: bit_simps)
qed

lemma hid_SetIdle_stores:
  assumes "hid_SetIdle s = Some t" "bmRequestType (USB_ControlRequest s) = class_out"
  shows "IdleCount (HIDInterfaceInfo t) = 4 * drop_bit 8 (wValue (USB_ControlRequest s))"
proof -
  from assms obtain u where u: "Endpoint_ClearStatusStage (Endpoint_ClearSETUP s) = Some u"
    "t = set_hid (\<lambda>i. i\<lparr>IdleCount := drop_bit 6 (wValue (USB_ControlRequest u) AND 0xFF00)\<rparr>) u"
    by (auto simp: hid_SetIdle_def bind_eq_Some_conv)
  have "touches {UEINTX} s (Endpoint_ClearSETUP s)" by (intro touch touches_refl) simp
  from touches_dev(1) [OF touches_trans [OF this ClearStatusStage_touches [OF u(1)]]] u(2) [unfolded idle_word] show ?thesis by simp
qed

lemma hid_answer_writes:
  assumes "hid_answer f s = Some t" "bmRequestType (USB_ControlRequest s) = class_in"
    and "\<And>u. HIDInterfaceInfo u = HIDInterfaceInfo s \<Longrightarrow> f u = f s"
  shows "wrote UEDATX t = wrote UEDATX s @ [f s]"
proof -
  from assms obtain u where u: "wait_set UEINTX TXINI (Endpoint_ClearSETUP s) = Some u"
    and t: "Endpoint_ClearStatusStage (Endpoint_ClearIN (Endpoint_Write_8 (f u) u)) = Some t"
    by (auto simp: hid_answer_def bind_eq_Some_conv Let_def)
  have "touches {UEINTX} s (Endpoint_ClearSETUP s)" by (intro touch touches_refl) simp
  with wait_set_touches [OF u, of "{UEINTX}"] have a: "touches {UEINTX} s u" by (blast intro: touches_trans)
  from touches_wrote [OF ClearStatusStage_touches [OF t], of UEDATX] touches_wrote [OF a, of UEDATX] assms(3) [OF touches_hid [OF a]]
  show ?thesis by (simp add: Endpoint_Write_8_def Endpoint_ClearIN_def clr_bits_def split_beta Let_def)
qed

lemma hid_SetIdle_via:
  assumes "HID_Device_ProcessControlRequest cb junk s = Some t" "hid_request class_out HID_REQ_SetIdle s"
  shows "IdleCount (HIDInterfaceInfo t) = 4 * drop_bit 8 (wValue (USB_ControlRequest s))"
proof -
  from assms(2) obtain s' where s': "touches {} s s'" "Endpoint_IsSETUPReceived s = (True, s')"
    "bmRequestType (USB_ControlRequest s') = class_out" "bRequest (USB_ControlRequest s') = HID_REQ_SetIdle"
    "wIndex (USB_ControlRequest s') = ucast (hid_InterfaceNumber (HIDInterfaceInfo s'))" by (rule hid_requestE)
  from assms(1) s' have "hid_SetIdle s' = Some t" by (simp add: HID_Device_ProcessControlRequest_def)
  from hid_SetIdle_stores [OF this s'(3)] touches_dev(1) [OF s'(1)] show ?thesis by simp
qed

text \<open>
  The idle rate is kept for the host: \<open>SetIdle\<close> stores the duration in the high byte of \<open>wValue\<close>, which
  counts units of four milliseconds, as milliseconds, and \<open>GetIdle\<close> is answered with that byte.
\<close>

lemma idle_roundtrip:
  assumes "HID_Device_ProcessControlRequest cb junk s = Some t" "hid_request class_out HID_REQ_SetIdle s"
    and "HID_Device_ProcessControlRequest cb junk u = Some v" "hid_request class_in HID_REQ_GetIdle u"
    and "IdleCount (HIDInterfaceInfo u) = IdleCount (HIDInterfaceInfo t)"
  shows "IdleCount (HIDInterfaceInfo t) = 4 * drop_bit 8 (wValue (USB_ControlRequest s)) \<and>
    wrote UEDATX v = wrote UEDATX u @ [ucast (drop_bit 8 (wValue (USB_ControlRequest s)))]"
proof -
  from assms(4) obtain u' where u': "touches {} u u'" "Endpoint_IsSETUPReceived u = (True, u')"
    "bmRequestType (USB_ControlRequest u') = class_in" "bRequest (USB_ControlRequest u') = HID_REQ_GetIdle"
    "wIndex (USB_ControlRequest u') = ucast (hid_InterfaceNumber (HIDInterfaceInfo u'))" by (rule hid_requestE)
  from assms(3) u' have "hid_GetIdle u' = Some v" by (simp add: HID_Device_ProcessControlRequest_def)
  from hid_answer_writes [OF this [unfolded hid_GetIdle_def] u'(3)] touches_wrote [OF u'(1), of UEDATX] touches_hid [OF u'(1)]
    hid_SetIdle_via [OF assms(1,2)] assms(5)
  show ?thesis by (simp add: idle_word)
qed

definition hid_at :: "(acc list \<Rightarrow> reg \<Rightarrow> u8) \<Rightarrow> USB_Request_Header \<Rightarrow> u8 list \<Rightarrow> u16 \<Rightarrow> u16 \<Rightarrow> hid_dev" where
  "hid_at H q b c m = dev.extend (dev_at H q) (hid_dev.fields \<lparr>hid_InterfaceNumber = 0,
     hid_ReportINEndpoint = \<lparr>ep_Address = 0x81, ep_Size = 8, ep_Type = 0, ep_Banks = 1\<rparr>,
     PrevReportINBuffer = Some b, PrevReportINBufferSize = of_nat (length b), UsingReportProtocol = True, PrevFrameNum = 0,
     IdleCount = c, IdleMSRemaining = m\<rparr>)"

lemma hid_at_simps [simp]:
  "hw (hid_at H q b c m) = H" "log (hid_at H q b c m) = []" "USB_ControlRequest (hid_at H q b c m) = q"
  "IdleCount (HIDInterfaceInfo (hid_at H q b c m)) = c" "IdleMSRemaining (HIDInterfaceInfo (hid_at H q b c m)) = m"
  "hid_InterfaceNumber (HIDInterfaceInfo (hid_at H q b c m)) = 0" "PrevReportINBuffer (HIDInterfaceInfo (hid_at H q b c m)) = Some b"
  "PrevReportINBufferSize (HIDInterfaceInfo (hid_at H q b c m)) = of_nat (length b)"
  by (simp_all add: hid_at_def dev_at_def dev.defs hid_dev.defs)

text \<open>With a host that answers, both requests are processed.\<close>

lemma hid_returns:
  assumes "always_ready (hw s)" "hid_request ty req s" "(ty, req) = (class_out, HID_REQ_SetIdle) \<or> (ty, req) = (class_in, HID_REQ_GetIdle)"
  shows "\<exists>t. HID_Device_ProcessControlRequest cb junk s = Some t"
proof -
  from assms(2) obtain u where u: "touches {} s u" "Endpoint_IsSETUPReceived s = (True, u)"
    "bmRequestType (USB_ControlRequest u) = ty" "bRequest (USB_ControlRequest u) = req"
    "wIndex (USB_ControlRequest u) = ucast (hid_InterfaceNumber (HIDInterfaceInfo u))" by (rule hid_requestE)
  have r: "\<exists>w. Endpoint_ClearStatusStage v = Some w" if "hw v = hw u" for v :: "'a hid_dev_scheme"
    using ready_status [of v] that assms(1) touches_hw [OF u(1)] by auto
  have "\<exists>t. hid_SetIdle u = Some t" if "ty = class_out"
    using that u(3) r [of "Endpoint_ClearSETUP u"]
    by (auto simp: hid_SetIdle_def Endpoint_ClearSETUP_def clr_bits_def split_beta Let_def)
  moreover have "\<exists>t. hid_GetIdle u = Some t" if "ty = class_in"
    using that u(3) assms(1) touches_hw [OF u(1)] r ready_wait(3) [of "Endpoint_ClearSETUP u"]
    by (auto simp: hid_GetIdle_def hid_answer_def Endpoint_ClearSETUP_def Endpoint_ClearIN_def Endpoint_Write_8_def clr_bits_def split_beta Let_def)
  ultimately show ?thesis using u assms(3) by (auto simp: HID_Device_ProcessControlRequest_def)
qed

section \<open>Repeated reports\<close>

lemma send_report_restarts:
  fixes s t :: "'a hid_dev_scheme"
  assumes "send_report app ReportID d n s = Some t" "no_requests (hw s)"
  shows "HIDInterfaceInfo t = (HIDInterfaceInfo s)\<lparr>IdleMSRemaining := IdleCount (HIDInterfaceInfo s)\<rparr> \<and> hw t = hw s"
proof -
  let ?i = "(HIDInterfaceInfo s)\<lparr>IdleMSRemaining := IdleCount (HIDInterfaceInfo s)\<rparr>"
  let ?I = "\<lambda>u. hw u = hw s \<and> HIDInterfaceInfo u = ?i"
  have k: "?I v" if "?I u" "touches R u v" for R and u v :: "'a hid_dev_scheme" using that touches_hw [OF that(2)] touches_hid [OF that(2)] by simp
  let ?r = "set_hid (\<lambda>i. i\<lparr>IdleMSRemaining := IdleCount i\<rparr>) s"
  let ?a = "Endpoint_SelectEndpoint (ep_Address (hid_ReportINEndpoint (HIDInterfaceInfo ?r))) ?r"
  from assms(1) obtain e bp b u where u: "Endpoint_Write_Stream_LE app d n None (if ReportID \<noteq> 0 then Endpoint_Write_8 ReportID ?a else ?a) = Some (e, bp, b, u)"
    and t: "t = Endpoint_ClearIN u" by (auto simp: send_report_def bind_eq_Some_conv Let_def simp del: set_hid_simps)
  have "?I u"
  proof (rule stream_keeps [OF u [unfolded Endpoint_Write_Stream_LE_def], where I = ?I])
    have "touches {UENUM, UEDATX} ?r (if ReportID \<noteq> 0 then Endpoint_Write_8 ReportID ?a else ?a)"
      by (intro touch touches_refl) simp_all
    then show "?I (if ReportID \<noteq> 0 then Endpoint_Write_8 ReportID ?a else ?a)" by (rule k [rotated]) simp
    show "?I v" if "?I u" "touches {} u v" for u v :: "'a hid_dev_scheme" by (rule k [OF that])
    show "?I (Endpoint_ClearIN u)" if "?I u" for u :: "'a hid_dev_scheme" by (rule k [OF that, of "{UEINTX}"]) (intro touch touches_refl, simp)
    show "?I v" if "?I u" "USB_USBTask app u = Some v" for u v
      by (rule k [OF that(1) task_idle [OF that(2)]]) (use that(1) assms(2) in simp)
    show "?I v" if "?I u" "put_byte p (b, u) = Some (b', v)" for p b b' and u v :: "'a hid_dev_scheme"
      by (rule k [OF that(1), of "{UEDATX}"])
        (use that(2) in \<open>auto simp: put_byte_def bind_eq_Some_conv Endpoint_Write_8_def intro: touches_wr\<close>)
  qed
  then have "?I t" unfolding t by (rule k [of _ "{UEINTX}"]) (intro touch touches_refl, simp)
  then show ?thesis by simp
qed

lemma unat16_diff: "unat (x :: u16) - k < 2 ^ 16"
proof -
  have "unat x < 2 ^ LENGTH(16)" by (rule unsigned_less)
  then show ?thesis by simp
qed

lemma idle_ticks:
  "HIDInterfaceInfo ((HID_Device_MillisecondElapsed ^^ k) s) =
     (HIDInterfaceInfo s)\<lparr>IdleMSRemaining := of_nat (unat (IdleMSRemaining (HIDInterfaceInfo s)) - k)\<rparr>"
proof (induction k)
  case (Suc k)
  let ?t = "(HID_Device_MillisecondElapsed ^^ k) s" and ?n = "unat (IdleMSRemaining (HIDInterfaceInfo s))"
  have "?n - k < 2 ^ 16" by (rule unat16_diff)
  then have "IdleMSRemaining (HIDInterfaceInfo ?t) = 0 \<longleftrightarrow> ?n - k = 0"
    using Suc by (simp add: word_unat_eq_iff unsigned_of_nat take_bit_nat_eq_self)
  moreover have "(of_nat (?n - k) :: u16) - 1 = of_nat (?n - Suc k)" if "?n - k \<noteq> 0"
  proof -
    from that have "?n - k = Suc (?n - Suc k)" by simp
    then show ?thesis by (metis add_diff_cancel_left' of_nat_Suc)
  qed
  ultimately show ?case using Suc by (auto simp: HID_Device_MillisecondElapsed_def)
qed simp

lemma report_changed_same:
  assumes "report_changed d n s = Some (c, t)"
  shows "wrote r t = wrote r s \<and> IdleCount (HIDInterfaceInfo t) = IdleCount (HIDInterfaceInfo s)"
  using assms by (auto simp: report_changed_def keep_report_def bind_eq_Some_conv split: option.splits)

lemma end_report_same: "wrote r (end_report s) = wrote r s"
proof -
  have "touches {} s (snd (USB_Device_GetFrameNumber s))" by (intro touch touches_refl)
  then show ?thesis by (simp add: end_report_def split_beta touches_wrote)
qed

text \<open>
  Property C33. The idle rate decides when an unchanged report is repeated: \<open>k\<close> milliseconds after a report was sent, with
  no request of the host in between, a report that is not forced and equals the one before is sent again
  exactly when the idle rate is not zero and its period has passed; otherwise nothing is put into the
  endpoint.
\<close>

theorem idle_rate_repeats:
  assumes "send_report app ReportID d n s = Some t" "no_requests (hw s)" "u = (HID_Device_MillisecondElapsed ^^ k) t"
    and "CALLBACK_HID_Device_CreateHIDReport cb 0 HID_REPORT_ITEM_In (replicate (unat (PrevReportINBufferSize (HIDInterfaceInfo u))) 0) u =
      Some (False, ReportID', d', n', u)"
    and "report_changed d' n' u = Some (False, u')" "n' \<noteq> 0"
  shows "if IdleCount (HIDInterfaceInfo s) \<noteq> 0 \<and> unat (IdleCount (HIDInterfaceInfo s)) \<le> k
    then hid_report app cb u = map_option end_report (send_report app ReportID' d' n' u')
    else hid_report app cb u = Some (end_report u') \<and> wrote UEDATX (end_report u') = wrote UEDATX u"
proof -
  let ?n = "unat (IdleCount (HIDInterfaceInfo s))"
  have i: "IdleMSRemaining (HIDInterfaceInfo u) = of_nat (?n - k)" "IdleCount (HIDInterfaceInfo u) = IdleCount (HIDInterfaceInfo s)"
    using idle_ticks [of k t] send_report_restarts [OF assms(1,2)] by (simp_all add: assms(3))
  have "?n - k < 2 ^ 16" by (rule unat16_diff)
  then have z: "IdleMSRemaining (HIDInterfaceInfo u) = 0 \<longleftrightarrow> ?n \<le> k"
    by (simp add: i(1) word_unat_eq_iff unsigned_of_nat take_bit_nat_eq_self)
  have "hid_report app cb u = (do { s \<leftarrow> (if IdleCount (HIDInterfaceInfo s) \<noteq> 0 \<and> ?n \<le> k then send_report app ReportID' d' n' u' else Some u');
      Some (end_report s) })"
    using assms(4-6) i(2) z by (simp add: hid_report_def)
  then show ?thesis using report_changed_same [OF assms(5), of UEDATX] end_report_same [of UEDATX u']
    by (cases "send_report app ReportID' d' n' u'") auto
qed

theorem idle_rate_repeats_witness:
  "\<exists>t v. send_report (stub_application (\<lambda>_ _. (0, [])) (\<lambda>_. 0)) 0 [] 0
      (hid_at (\<lambda>l r. 0x21) \<lparr>bmRequestType = 0, bRequest = 0, wValue = 0, wIndex = 0, wLength = 0\<rparr> [0] 500 0) = Some t \<and>
    hid_report (stub_application (\<lambda>_ _. (0, [])) (\<lambda>_. 0))
      \<lparr>CALLBACK_HID_Device_CreateHIDReport = (\<lambda>i ty d s. Some (False, 0, d, 1, s)), CALLBACK_HID_Device_ProcessHIDReport = (\<lambda>i ty d n s. None)\<rparr>
      ((HID_Device_MillisecondElapsed ^^ 3) t) = Some v \<and> wrote UEDATX v = wrote UEDATX ((HID_Device_MillisecondElapsed ^^ 3) t)"
proof -
  let ?app = "stub_application (\<lambda>_ _. (0, [])) (\<lambda>_. 0)"
  let ?cb = "\<lparr>CALLBACK_HID_Device_CreateHIDReport = (\<lambda>i ty d s. Some (False, 0, d, 1, s)), CALLBACK_HID_Device_ProcessHIDReport = (\<lambda>i ty d n s. None)\<rparr>"
  let ?s = "hid_at (\<lambda>l r. 0x21) \<lparr>bmRequestType = 0, bRequest = 0, wValue = 0, wIndex = 0, wLength = 0\<rparr> [0] 500 0"
  have "\<not> Option.is_none (send_report ?app 0 [] 0 ?s)" by code_simp
  then obtain t where t: "send_report ?app 0 [] 0 ?s = Some t" by (auto simp: Option.is_none_def)
  have "\<not> tst 0x21 RXSTPI" by code_simp
  then have n: "no_requests (hw ?s)" by (simp add: no_requests_def)
  let ?u = "(HID_Device_MillisecondElapsed ^^ 3) t"
  have b: "PrevReportINBuffer (HIDInterfaceInfo ?u) = Some [0]" "PrevReportINBufferSize (HIDInterfaceInfo ?u) = 1"
    by (simp_all add: idle_ticks send_report_restarts [OF t n] del: funpow.simps)
  then have c: "report_changed (replicate (unat (1 :: u8)) 0) 1 ?u = Some (False, set_hid (\<lambda>i. i\<lparr>PrevReportINBuffer := Some [0]\<rparr>) ?u)"
    by (simp add: report_changed_def keep_report_def memcmp_differs_def memcpy_def)
  from idle_rate_repeats [OF t n refl, of ?cb 3 0 "replicate (unat (1 :: u8)) 0" 1 _, OF _ c] t b show ?thesis by auto
qed

text \<open>
  A \<open>SetReport\<close> request without data for a numbered report: the callback of the application is given a size of
  65535 bytes for an empty array.
\<close>

lemma SetReport_underflow:
  assumes "hid_SetReport cb junk s = Some t" "bmRequestType (USB_ControlRequest s) = class_out" "wLength (USB_ControlRequest s) = 0"
    and "(ucast (wValue (USB_ControlRequest s) AND 0xFF) :: u8) \<noteq> 0"
  shows "\<exists>i ty u. CALLBACK_HID_Device_ProcessHIDReport cb i ty [] 0xFFFF u = Some t"
proof -
  have "Buffer = []" if "control_read LE [] 0 v = Some (e, Buffer, w)" for v :: "'a hid_dev_scheme" and e w Buffer
  proof -
    let ?v = "Endpoint_ClearOUT v"
    have "poll_loop (read_round LE) ([], buffer_offset LE 0, 0, ?v) = Some (None, [], buffer_offset LE 0, 0, ?v)"
      by (rule poll_stop) (simp add: read_round_def)
    with that show ?thesis by (auto simp: control_read_def bind_eq_Some_conv)
  qed
  moreover from assms obtain e d u where "control_read LE [] 0 (Endpoint_ClearSETUP s) = Some (e, d, u)"
    and "CALLBACK_HID_Device_ProcessHIDReport cb (ucast (wValue (USB_ControlRequest s) AND 0xFF))
      (ucast (drop_bit 8 (wValue (USB_ControlRequest s))) - 1) (drop 1 d) (0 - 1) (Endpoint_ClearIN u) = Some t"
    by (auto simp: hid_SetReport_def Let_def bind_eq_Some_conv Endpoint_Read_Control_Stream_LE_def)
  moreover have "(0 - 1 :: u16) = 0xFFFF" by simp
  ultimately show ?thesis by (metis drop_Nil)
qed

end
