(* ===== verification/MS_Class.thy ===== *)
theory MS_Class
  imports Class_Common
begin

text \<open>
  The mass storage class of a device, bulk-only transport: \<open>MassStorageClassDevice.h\<close>,
  \<open>MassStorageClassDevice.c\<close> and \<open>MassStorageClassCommon.h\<close> under \<open>src/AT16u2/LUFA/Drivers/USB/Class\<close>. The
  command block is kept as the list of its 31 bytes, into which the streams write; its fields are functions
  of the bytes. The SCSI commands are a callback of the application.
\<close>

section \<open>State\<close>

record MS_CommandStatusWrapper =
  csw_Signature :: u32
  csw_Tag :: u32
  csw_DataTransferResidue :: u32
  csw_Status :: u8

record USB_ClassInfo_MS_Device =
  ms_InterfaceNumber :: u8
  ms_DataINEndpoint :: USB_Endpoint_Table
  ms_DataOUTEndpoint :: USB_Endpoint_Table
  TotalLUNs :: u8
  CommandBlock :: "u8 list"
  CommandStatus :: MS_CommandStatusWrapper
  IsMassStoreReset :: bool

record ms_dev = dev +
  MSInterfaceInfo :: USB_ClassInfo_MS_Device

definition set_ms :: "(USB_ClassInfo_MS_Device \<Rightarrow> USB_ClassInfo_MS_Device) \<Rightarrow> 'a ms_dev_scheme \<Rightarrow> 'a ms_dev_scheme" where
  "set_ms f s = s\<lparr>MSInterfaceInfo := f (MSInterfaceInfo s)\<rparr>"

abbreviation MS_CBW_SIGNATURE :: u32 where "MS_CBW_SIGNATURE \<equiv> 0x43425355"
abbreviation MS_CSW_SIGNATURE :: u32 where "MS_CSW_SIGNATURE \<equiv> 0x53425355"
abbreviation MS_COMMAND_DIR_DATA_IN :: u8 where "MS_COMMAND_DIR_DATA_IN \<equiv> 0x80"
abbreviation MS_REQ_GetMaxLUN :: u8 where "MS_REQ_GetMaxLUN \<equiv> 0xFE"
abbreviation MS_REQ_MassStorageReset :: u8 where "MS_REQ_MassStorageReset \<equiv> 0xFF"
abbreviation MS_SCSI_COMMAND_Pass :: u8 where "MS_SCSI_COMMAND_Pass \<equiv> 0"
abbreviation MS_SCSI_COMMAND_Fail :: u8 where "MS_SCSI_COMMAND_Fail \<equiv> 1"

text \<open>\<open>MS_CommandBlockWrapper_t\<close>: the fields in the packed structure\<close>

definition field32 :: "u8 list \<Rightarrow> nat \<Rightarrow> u32" where
  "field32 b n = word32 (b ! n) (b ! (n + 1)) (b ! (n + 2)) (b ! (n + 3))"

abbreviation cbw_Signature :: "u8 list \<Rightarrow> u32" where "cbw_Signature b \<equiv> field32 b 0"
abbreviation cbw_Tag :: "u8 list \<Rightarrow> u32" where "cbw_Tag b \<equiv> field32 b 4"
abbreviation cbw_DataTransferLength :: "u8 list \<Rightarrow> u32" where "cbw_DataTransferLength b \<equiv> field32 b 8"
abbreviation cbw_Flags :: "u8 list \<Rightarrow> u8" where "cbw_Flags b \<equiv> b ! 12"
abbreviation cbw_LUN :: "u8 list \<Rightarrow> u8" where "cbw_LUN b \<equiv> b ! 13"
abbreviation cbw_SCSICommandLength :: "u8 list \<Rightarrow> u8" where "cbw_SCSICommandLength b \<equiv> b ! 14"

text \<open>The 13 bytes of \<open>MS_CommandStatusWrapper_t\<close>\<close>

definition csw_bytes :: "MS_CommandStatusWrapper \<Rightarrow> u8 list" where
  "csw_bytes w = bytes32 (csw_Signature w) @ bytes32 (csw_Tag w) @ bytes32 (csw_DataTransferResidue w) @ [csw_Status w]"

section \<open>Control requests and configuration\<close>

definition MS_Device_ProcessControlRequest :: "'a ms_dev_scheme \<Rightarrow> 'a ms_dev_scheme option" where
  "MS_Device_ProcessControlRequest s =
     (let (setup, s) = Endpoint_IsSETUPReceived s; q = USB_ControlRequest s
      in if \<not> setup then Some s
         else if wIndex q \<noteq> ucast (ms_InterfaceNumber (MSInterfaceInfo s)) then Some s
         else if bRequest q = MS_REQ_MassStorageReset
         then (if bmRequestType q = class_out
               then do {
                 s \<leftarrow> Endpoint_ClearStatusStage (Endpoint_ClearSETUP s);
                 Some (set_ms (\<lambda>i. i\<lparr>IsMassStoreReset := True\<rparr>) s) }
               else Some s)
         else if bRequest q = MS_REQ_GetMaxLUN
         then (if bmRequestType q = class_in
               then do {
                 s \<leftarrow> wait_set UEINTX TXINI (Endpoint_ClearSETUP s);
                 let s = Endpoint_Write_8 (TotalLUNs (MSInterfaceInfo s) - 1) s;
                 Endpoint_ClearStatusStage (Endpoint_ClearIN s) }
               else Some s)
         else Some s)"

definition MS_Device_ConfigureEndpoints :: "'a ms_dev_scheme \<Rightarrow> (bool \<times> 'a ms_dev_scheme) option" where
  "MS_Device_ConfigureEndpoints s = do {
     let s = set_ms (\<lambda>i. i\<lparr>CommandBlock := replicate 31 0,
       CommandStatus := \<lparr>csw_Signature = 0, csw_Tag = 0, csw_DataTransferResidue = 0, csw_Status = 0\<rparr>, IsMassStoreReset := False,
       ms_DataINEndpoint := (ms_DataINEndpoint i)\<lparr>ep_Type := EP_TYPE_BULK\<rparr>,
       ms_DataOUTEndpoint := (ms_DataOUTEndpoint i)\<lparr>ep_Type := EP_TYPE_BULK\<rparr>\<rparr>) s;
     (ok, s) \<leftarrow> Endpoint_ConfigureEndpointTable [ms_DataINEndpoint (MSInterfaceInfo s)] s;
     if \<not> ok then Some (False, s)
     else Endpoint_ConfigureEndpointTable [ms_DataOUTEndpoint (MSInterfaceInfo s)] s }"

section \<open>The command block\<close>

definition ms_select_in :: "'a ms_dev_scheme \<Rightarrow> 'a ms_dev_scheme" where
  "ms_select_in s = Endpoint_SelectEndpoint (ep_Address (ms_DataINEndpoint (MSInterfaceInfo s))) s"

definition ms_select_out :: "'a ms_dev_scheme \<Rightarrow> 'a ms_dev_scheme" where
  "ms_select_out s = Endpoint_SelectEndpoint (ep_Address (ms_DataOUTEndpoint (MSInterfaceInfo s))) s"

text \<open>
  \<open>while (stream(..., &BytesProcessed) == ENDPOINT_RWSTREAM_IncompleteTransfer) { if (IsMassStoreReset) return ...; }\<close>:
  \<open>True\<close> is the end of the loop, \<open>False\<close> the return.
\<close>

definition ms_stream_round :: "(u16 option \<Rightarrow> 'a ms_dev_scheme \<Rightarrow> (rwstream \<times> u16 option \<times> unit \<times> 'a ms_dev_scheme) option) \<Rightarrow>
    u16 option \<times> 'a ms_dev_scheme \<Rightarrow> (bool option \<times> u16 option \<times> 'a ms_dev_scheme) option" where
  "ms_stream_round tr = (\<lambda>(BytesProcessed, s). do {
     (e, BytesProcessed, _, s) \<leftarrow> tr BytesProcessed s;
     Some (if e \<noteq> ENDPOINT_RWSTREAM_IncompleteTransfer then Some True
       else if IsMassStoreReset (MSInterfaceInfo s) then Some False else None, BytesProcessed, s) })"

definition ms_stream :: "(u16 option \<Rightarrow> 'a ms_dev_scheme \<Rightarrow> (rwstream \<times> u16 option \<times> unit \<times> 'a ms_dev_scheme) option) \<Rightarrow>
    'a ms_dev_scheme \<Rightarrow> (bool \<times> 'a ms_dev_scheme) option" where
  "ms_stream tr s = do { (ok, _, s) \<leftarrow> poll_loop (ms_stream_round tr) (Some 0, s); Some (ok, s) }"

definition block :: "'a ms_dev_scheme \<Rightarrow> u8 list" where "block s = CommandBlock (MSInterfaceInfo s)"

definition set_block :: "u8 list \<Rightarrow> 'a ms_dev_scheme \<Rightarrow> 'a ms_dev_scheme" where
  "set_block b = set_ms (\<lambda>i. i\<lparr>CommandBlock := b\<rparr>)"

text \<open>\<open>SCSICommandData\<close>, the last 16 bytes\<close>

definition scsi :: "'a ms_dev_scheme \<Rightarrow> u8 list" where "scsi s = drop 15 (block s)"

definition set_scsi :: "u8 list \<Rightarrow> 'a ms_dev_scheme \<Rightarrow> 'a ms_dev_scheme" where
  "set_scsi b s = set_block (take 15 (block s) @ b) s"

definition cbw_valid :: "u8 \<Rightarrow> u8 list \<Rightarrow> bool" where
  "cbw_valid LUNs b \<longleftrightarrow> cbw_Signature b = MS_CBW_SIGNATURE \<and> cbw_LUN b < LUNs \<and> cbw_Flags b AND 0x1F = 0 \<and>
     cbw_SCSICommandLength b \<noteq> 0 \<and> cbw_SCSICommandLength b \<le> 16"

definition MS_Device_ReadInCommandBlock :: "'a ms_dev_scheme application \<Rightarrow> 'a ms_dev_scheme \<Rightarrow> (bool \<times> 'a ms_dev_scheme) option" where
  "MS_Device_ReadInCommandBlock app s = do {
     (ok, s) \<leftarrow> ms_stream (Read_Stream_in app block set_block 15) (ms_select_out s);
     if \<not> ok then Some (False, s)
     else if \<not> cbw_valid (TotalLUNs (MSInterfaceInfo s)) (block s)
     then Some (False, Endpoint_StallTransaction (ms_select_in (Endpoint_StallTransaction s)))
     else do {
       (ok, s) \<leftarrow> ms_stream (Read_Stream_in app scsi set_scsi (ucast (cbw_SCSICommandLength (block s)))) s;
       if \<not> ok then Some (False, s) else Some (True, Endpoint_ClearOUT s) } }"

section \<open>The command status\<close>

text \<open>The wait for the end of a stall; \<open>False\<close> is the return on a reset.\<close>

definition stall_wait :: "'a ms_dev_scheme application \<Rightarrow> 'a ms_dev_scheme \<Rightarrow> (bool \<times> 'a ms_dev_scheme) option" where
  "stall_wait app = poll_loop (\<lambda>s.
     let (stalled, s) = Endpoint_IsStalled s
     in if \<not> stalled then Some (Some True, s)
        else do {
          s \<leftarrow> USB_USBTask app s;
          Some (if IsMassStoreReset (MSInterfaceInfo s) then Some False else None, s) })"

definition status_bytes :: "'a ms_dev_scheme \<Rightarrow> u8 list" where
  "status_bytes s = csw_bytes (CommandStatus (MSInterfaceInfo s))"

definition MS_Device_ReturnCommandStatus :: "'a ms_dev_scheme application \<Rightarrow> 'a ms_dev_scheme \<Rightarrow> 'a ms_dev_scheme option" where
  "MS_Device_ReturnCommandStatus app s = do {
     (ok, s) \<leftarrow> stall_wait app (ms_select_out s);
     if \<not> ok then Some s
     else do {
       (ok, s) \<leftarrow> stall_wait app (ms_select_in s);
       if \<not> ok then Some s
       else do {
         (ok, s) \<leftarrow> ms_stream (Write_Stream_in app status_bytes 13) s;
         Some (if ok then Endpoint_ClearIN s else s) } } }"

section \<open>The task\<close>

text \<open>One command: the callback and its status\<close>

definition ms_command :: "'a ms_dev_scheme application \<Rightarrow> ('a ms_dev_scheme \<Rightarrow> (bool \<times> 'a ms_dev_scheme) option) \<Rightarrow>
    'a ms_dev_scheme \<Rightarrow> 'a ms_dev_scheme option" where
  "ms_command app SCSICommandReceived s = do {
     let s = (if cbw_Flags (block s) AND MS_COMMAND_DIR_DATA_IN \<noteq> 0 then ms_select_in s else s);
     (SCSICommandResult, s) \<leftarrow> SCSICommandReceived s;
     let s = set_ms (\<lambda>i. i\<lparr>CommandStatus :=
       \<lparr>csw_Signature = MS_CSW_SIGNATURE, csw_Tag = cbw_Tag (CommandBlock i),
        csw_DataTransferResidue = cbw_DataTransferLength (CommandBlock i),
        csw_Status = (if SCSICommandResult then MS_SCSI_COMMAND_Pass else MS_SCSI_COMMAND_Fail)\<rparr>\<rparr>) s;
     let s = (if \<not> SCSICommandResult \<and> csw_DataTransferResidue (CommandStatus (MSInterfaceInfo s)) \<noteq> 0
              then Endpoint_StallTransaction s else s);
     MS_Device_ReturnCommandStatus app s }"

definition ms_reset :: "'a ms_dev_scheme \<Rightarrow> 'a ms_dev_scheme" where
  "ms_reset s =
     (let s = Endpoint_ResetEndpoint (ep_Address (ms_DataOUTEndpoint (MSInterfaceInfo s))) s;
          s = Endpoint_ResetEndpoint (ep_Address (ms_DataINEndpoint (MSInterfaceInfo s))) s;
          s = ms_select_out s;
          s = Endpoint_ClearStall s;
          s = Endpoint_ResetDataToggle s;
          s = ms_select_in s;
          s = Endpoint_ClearStall s;
          s = Endpoint_ResetDataToggle s
      in set_ms (\<lambda>i. i\<lparr>IsMassStoreReset := False\<rparr>) s)"

definition MS_Device_USBTask :: "'a ms_dev_scheme application \<Rightarrow> ('a ms_dev_scheme \<Rightarrow> (bool \<times> 'a ms_dev_scheme) option) \<Rightarrow>
    'a ms_dev_scheme \<Rightarrow> 'a ms_dev_scheme option" where
  "MS_Device_USBTask app SCSICommandReceived s =
     (let (st, s) = rd GPIOR0 s
      in if st \<noteq> DEVICE_STATE_Configured then Some s
         else do {
           let (received, s) = Endpoint_IsOUTReceived (ms_select_out s);
           s \<leftarrow> (if received
                 then do {
                   (ok, s) \<leftarrow> MS_Device_ReadInCommandBlock app s;
                   if ok then ms_command app SCSICommandReceived s else Some s }
                 else Some s);
           Some (if IsMassStoreReset (MSInterfaceInfo s) then ms_reset s else s) })"

section \<open>Frames\<close>

lemma touches_ms:
  fixes s t :: "'a ms_dev_scheme"
  assumes "touches R s t"
  shows "MSInterfaceInfo t = MSInterfaceInfo s"
  using touches_more [OF assms] by (cases s; cases t; simp)

lemma set_ms_simps [simp]:
  "MSInterfaceInfo (set_ms f s) = f (MSInterfaceInfo s)" "hw (set_ms f s) = hw s" "log (set_ms f s) = log s"
  "was_read r (set_ms f s) = was_read r s" "wrote r (set_ms f s) = wrote r s"
  by (simp_all add: set_ms_def was_read_def wrote_def)

lemma puts_ms:
  fixes s t :: "'a ms_dev_scheme"
  assumes "puts ws s t"
  shows "MSInterfaceInfo t = MSInterfaceInfo s"
  using assms by (cases s; cases t; simp add: puts_def)

text \<open>Every result but an incomplete transfer counts as the end of the loop, errors included.\<close>

lemma ms_stream_done:
  assumes "tr (Some 0) s = Some (e, n, x, t)" "e \<noteq> ENDPOINT_RWSTREAM_IncompleteTransfer"
  shows "ms_stream tr s = Some (True, t)"
proof -
  have "poll_loop (ms_stream_round tr) (Some 0, s) = Some (True, n, t)"
    by (rule poll_stop) (simp add: ms_stream_round_def assms)
  then show ?thesis by (simp add: ms_stream_def)
qed

section \<open>Streams of the class on endpoints that are ready\<close>

text \<open>After \<open>k\<close> bytes, from the place \<open>off\<close> of the command block on\<close>

definition reading :: "nat \<Rightarrow> 'a ms_dev_scheme \<Rightarrow> nat \<Rightarrow> 'a ms_dev_scheme \<Rightarrow> bool" where
  "reading off s0 k s \<longleftrightarrow> hw s = hw s0 \<and> writes_in (log s) = writes_in (log s0) \<and>
     (\<exists>bs. length bs = k \<and> was_read UEDATX s = was_read UEDATX s0 @ bs \<and>
       MSInterfaceInfo s = (MSInterfaceInfo s0)\<lparr>CommandBlock := take off (block s0) @ bs @ drop (off + k) (block s0)\<rparr>)"

lemma reading_glances:
  assumes "reading off s0 k s" "glances s t"
  shows "reading off s0 k t"
proof -
  from assms(2) have "touches {} s t" "was_read UEDATX t = was_read UEDATX s" by (simp_all add: glances_def)
  with assms(1) touches_ms [OF this(1)] touches_hw [OF this(1)] puts_reads [OF this(1)] show ?thesis
    by (auto simp: reading_def puts_def)
qed

lemma reading_step:
  assumes "reading off s0 k s" "off + k < length (block s0)"
    and b: "\<And>s. buf s = drop off (block s)" "\<And>b s. set_buf b s = set_block (take off (block s) @ b) s"
  shows "\<exists>t. get_byte_in buf set_buf (walk LE Length k) ((), s) = Some ((), t) \<and> reading off s0 (Suc k) t"
proof -
  let ?u = "snd (rd UEDATX s)" and ?v = "fst (rd UEDATX s)" and ?c = "block s0"
  from assms(1) obtain bs where bs: "length bs = k" "was_read UEDATX s = was_read UEDATX s0 @ bs"
    "MSInterfaceInfo s = (MSInterfaceInfo s0)\<lparr>CommandBlock := take off ?c @ bs @ drop (off + k) ?c\<rparr>"
    "hw s = hw s0" "writes_in (log s) = writes_in (log s0)" by (auto simp: reading_def)
  have m: "MSInterfaceInfo ?u = MSInterfaceInfo s" by (rule touches_ms [OF touches_rd])
  have c: "block ?u = take off ?c @ bs @ drop (off + k) ?c" using bs(3) m by (simp add: block_def)
  have l: "length (take off ?c) = off" using assms(2) by simp
  have d: "drop (off + k) ?c = ?c ! (off + k) # drop (off + Suc k) ?c" using assms(2) by (simp add: Cons_nth_drop_Suc)
  have e: "take off (block ?u) = take off ?c" using c l by simp
  let ?b = "bs @ ?v # drop (off + Suc k) ?c"
  have "set_byte (buf ?u) (walk LE Length k) ?v = Some ?b"
    using l bs(1) d by (simp add: set_byte_def walk_def b(1) c list_update_append)
  then have "get_byte_in buf set_buf (walk LE Length k) ((), s) = Some ((), set_buf ?b ?u)"
    by (simp add: get_byte_in_def Endpoint_Read_8_def split_beta Let_def)
  moreover have "reading off s0 (Suc k) (set_buf ?b ?u)"
    unfolding reading_def b(2) set_block_def
    using bs m e puts_reads [OF touches_rd [of "{}" s UEDATX]] by (intro conjI exI [of _ "bs @ [?v]"]) (simp_all add: puts_def)
  ultimately show ?thesis by blast
qed

lemma read_block:
  assumes "banks_ready (hw s)" "off + unat Length \<le> length (block s)"
    and "\<And>s. buf s = drop off (block s)" "\<And>b s. set_buf b s = set_block (take off (block s) @ b) s"
  shows "\<exists>t. ms_stream (Read_Stream_in app buf set_buf Length) s = Some (True, t) \<and> reading off s (unat Length) t"
proof -
  have "\<exists>b' t. stream_template LE Endpoint_ClearOUT (USB_USBTask app) (get_byte_in buf set_buf) () Length (Some 0) s =
      Some (ENDPOINT_RWSTREAM_NoError, Some 0, b', t) \<and> reading off s (unat Length) t"
  proof (rule stream_ready [where I = "\<lambda>k b. reading off s k" and H = "hw s"])
    show "reading off s 0 s" by (simp add: reading_def block_def)
    show "\<exists>b' t. get_byte_in buf set_buf (walk LE Length k) (b, u) = Some (b', t) \<and> reading off s (Suc k) t"
      if "k < unat Length" "reading off s k u" for k u and b :: unit
      using reading_step [OF that(2) _ assms(3,4), of Length] that(1) assms(2) by auto
    show "hw u = hw s" if "reading off s k u" for k u and b :: unit using that by (simp add: reading_def)
  qed (use assms(1) in \<open>auto intro: reading_glances\<close>)
  then obtain b' t where "Read_Stream_in app buf set_buf Length (Some 0) s = Some (ENDPOINT_RWSTREAM_NoError, Some 0, b', t)"
    "reading off s (unat Length) t" unfolding Read_Stream_in_def by blast
  with ms_stream_done show ?thesis by blast
qed

lemma write_status:
  fixes s :: "'a ms_dev_scheme"
  assumes "banks_ready (hw s)"
  shows "\<exists>t. ms_stream (Write_Stream_in app status_bytes 13) s = Some (True, t) \<and> puts (map (Pair UEDATX) (status_bytes s)) s t"
proof -
  let ?I = "\<lambda>k (b :: unit) t. puts (map (Pair UEDATX) (take k (status_bytes s))) s t"
  have l: "length (status_bytes s) = unat (13 :: u16)" by (simp add: status_bytes_def csw_bytes_def)
  have "\<exists>b' t. stream_template LE Endpoint_ClearIN (USB_USBTask app) (put_byte_in status_bytes) () 13 (Some 0) s =
      Some (ENDPOINT_RWSTREAM_NoError, Some 0, b', t) \<and> ?I (unat (13 :: u16)) b' t"
  proof (rule stream_ready [where I = ?I and H = "hw s"])
    show "\<exists>b' t. put_byte_in status_bytes (walk LE 13 k) (b, u) = Some (b', t) \<and> ?I (Suc k) b' t"
      if "k < unat (13 :: u16)" "?I k b u" for k and b :: unit and u :: "'a ms_dev_scheme"
    proof -
      let ?v = "status_bytes s ! k"
      have "status_bytes u = status_bytes s" using puts_ms [OF that(2)] by (simp add: status_bytes_def)
      then have "put_byte_in status_bytes (walk LE 13 k) (b, u) = Some ((), wr UEDATX ?v u)"
        using that(1) l by (simp add: put_byte_in_def byte_at_def walk_def Endpoint_Write_8_def)
      moreover have "?I (Suc k) () (wr UEDATX ?v u)"
        using puts_trans [OF that(2) puts_wr [of UEDATX ?v]] that(1) l by (simp add: take_Suc_conv_app_nth)
      ultimately show ?thesis by blast
    qed
    show "?I k b t" if "?I k b u" "glances u t" for k and b :: unit and u t :: "'a ms_dev_scheme"
      using puts_trans [OF that(1) puts_reads, of t] that(2) by (simp add: glances_def)
  qed (use assms in \<open>auto dest: puts_hw\<close>)
  with l obtain b' t where "Write_Stream_in app status_bytes 13 (Some 0) s = Some (ENDPOINT_RWSTREAM_NoError, Some 0, b', t)"
    "puts (map (Pair UEDATX) (status_bytes s)) s t" unfolding Write_Stream_in_def by auto
  with ms_stream_done show ?thesis by blast
qed

section \<open>A command from block to status\<close>

text \<open>A configured device whose endpoints are ready and not stalled\<close>

definition storage_ready :: "(acc list \<Rightarrow> reg \<Rightarrow> u8) \<Rightarrow> bool" where
  "storage_ready H \<longleftrightarrow> banks_ready H \<and> (\<forall>l. H l GPIOR0 = DEVICE_STATE_Configured \<and> \<not> tst (H l UECONX) STALLRQ)"

lemma cbw_prefix:
  assumes "length bs = 15"
  shows "cbw_valid L (bs @ xs) = cbw_valid L bs" "cbw_Tag (bs @ xs) = cbw_Tag bs"
    "cbw_DataTransferLength (bs @ xs) = cbw_DataTransferLength bs" "cbw_SCSICommandLength (bs @ xs) = cbw_SCSICommandLength bs"
  using assms by (simp_all add: cbw_valid_def
    field32_def nth_append)

lemma stall_free:
  assumes "storage_ready (hw s)"
  shows "stall_wait app s = Some (True, snd (Endpoint_IsStalled s))"
proof -
  have "\<not> fst (Endpoint_IsStalled s)" using assms by (simp add: storage_ready_def Endpoint_IsStalled_def tst_fst)
  then show ?thesis unfolding stall_wait_def by (intro poll_stop) (simp add: split_beta Let_def)
qed

lemma puts_select: "puts [(UENUM, ep_Address (ms_DataOUTEndpoint (MSInterfaceInfo s)) AND ENDPOINT_EPNUM_MASK)] s (ms_select_out s)"
  "puts [(UENUM, ep_Address (ms_DataINEndpoint (MSInterfaceInfo s)) AND ENDPOINT_EPNUM_MASK)] s (ms_select_in s)"
  by (simp_all add: ms_select_out_def ms_select_in_def Endpoint_SelectEndpoint_def puts_wr)

lemma status_returned:
  assumes "storage_ready (hw s)"
  shows "\<exists>t. MS_Device_ReturnCommandStatus app s = Some t \<and> wrote UEDATX t = wrote UEDATX s @ status_bytes s \<and>
    MSInterfaceInfo t = MSInterfaceInfo s \<and> hw t = hw s"
proof -
  let ?a = "snd (Endpoint_IsStalled (ms_select_out s))"
  let ?b = "snd (Endpoint_IsStalled (ms_select_in ?a))"
  have "touches {UENUM} s ?a" "touches {UENUM} s ?b"
    unfolding ms_select_out_def ms_select_in_def by (intro touch touches_refl; simp)+
  note b = touches_ms [OF this(2)] touches_hw [OF this(2)] touches_wrote [OF this(2), of UEDATX] touches_hw [OF this(1)]
  from assms b have "banks_ready (hw ?b)" by (simp add: storage_ready_def)
  from write_status [OF this] obtain t where t: "ms_stream (Write_Stream_in app status_bytes 13) ?b = Some (True, t)"
    "puts (map (Pair UEDATX) (status_bytes ?b)) ?b t" by blast
  have f: "filter (\<lambda>(r, v). r = UEDATX) (map (Pair UEDATX) xs) = map (Pair UEDATX) xs" for xs :: "u8 list" by (simp add: filter_map comp_def)
  have c: "touches {UEINTX} t (Endpoint_ClearIN t)" by (intro touch touches_refl) simp
  have "MS_Device_ReturnCommandStatus app s = Some (Endpoint_ClearIN t)"
    using assms b t(1) stall_free [of "ms_select_out s" app] stall_free [of "ms_select_in ?a" app]
    by (simp add: MS_Device_ReturnCommandStatus_def ms_select_out_def ms_select_in_def Endpoint_SelectEndpoint_def)
  moreover have "wrote UEDATX (Endpoint_ClearIN t) = wrote UEDATX s @ status_bytes s"
    using puts_wrote [OF t(2), of UEDATX] touches_wrote [OF c, of UEDATX] b by (simp add: f comp_def status_bytes_def)
  ultimately show ?thesis
    using touches_ms [OF c] touches_hw [OF c] puts_ms [OF t(2)] puts_hw [OF t(2)] b by auto
qed

lemma block_read:
  assumes "storage_ready (hw s)" "length (block s) = 31"
  shows "\<exists>bs t. length bs = 15 \<and> hw t = hw s \<and>
    (if cbw_valid (TotalLUNs (MSInterfaceInfo s)) bs
     then MS_Device_ReadInCommandBlock app s = Some (True, t) \<and> wrote UEDATX t = wrote UEDATX s \<and>
       (\<exists>cs. length cs = unat (cbw_SCSICommandLength bs) \<and> was_read UEDATX t = was_read UEDATX s @ bs @ cs \<and>
         MSInterfaceInfo t = (MSInterfaceInfo s)\<lparr>CommandBlock := bs @ cs @ drop (15 + length cs) (block s)\<rparr>)
     else MS_Device_ReadInCommandBlock app s = Some (False, t) \<and> was_read UEDATX t = was_read UEDATX s @ bs \<and>
       IsMassStoreReset (MSInterfaceInfo t) = IsMassStoreReset (MSInterfaceInfo s) \<and>
       (\<exists>v w. writes_in (log t) = writes_in (log s) @
         [(UENUM, ep_Address (ms_DataOUTEndpoint (MSInterfaceInfo s)) AND ENDPOINT_EPNUM_MASK), (UECONX, v OR bv STALLRQ),
          (UENUM, ep_Address (ms_DataINEndpoint (MSInterfaceInfo s)) AND ENDPOINT_EPNUM_MASK), (UECONX, w OR bv STALLRQ)]))"
proof -
  let ?o = "ms_select_out s"
  note o = puts_select(1) [of s] puts_hw [OF puts_select(1) [of s]] puts_ms [OF puts_select(1) [of s]]
  have ro: "was_read UEDATX ?o = was_read UEDATX s" by (simp add: ms_select_out_def Endpoint_SelectEndpoint_def)
  from assms(1) o(2) have r: "banks_ready (hw ?o)" by (simp add: storage_ready_def)
  from assms(2) o(3) have "0 + unat (15 :: u16) \<le> length (block ?o)" by (simp add: block_def)
  from read_block [OF r this, of block set_block app] obtain u where
    u: "ms_stream (Read_Stream_in app block set_block 15) ?o = Some (True, u)" "reading 0 ?o 15 u" by auto
  from u(2) obtain bs where bs: "length bs = 15" "was_read UEDATX u = was_read UEDATX s @ bs" "hw u = hw s"
    "MSInterfaceInfo u = (MSInterfaceInfo s)\<lparr>CommandBlock := bs @ drop 15 (block s)\<rparr>" "writes_in (log u) = writes_in (log ?o)"
    using ro o by (auto simp: reading_def block_def)
  have bu: "block u = bs @ drop 15 (block s)" by (simp add: block_def bs(4))
  show ?thesis
  proof (cases "cbw_valid (TotalLUNs (MSInterfaceInfo s)) bs")
    case False
    let ?v = "Endpoint_StallTransaction u"
    let ?w = "Endpoint_StallTransaction (ms_select_in ?v)"
    obtain a b where ab: "puts [(UECONX, a OR bv STALLRQ)] u ?v" "puts [(UECONX, b OR bv STALLRQ)] (ms_select_in ?v) ?w"
      unfolding Endpoint_StallTransaction_def using puts_set_bits by blast
    note p = puts_trans [OF puts_trans [OF ab(1) puts_select(2)] ab(2)]
    have "was_read UEDATX ?w = was_read UEDATX u"
      by (simp add: Endpoint_StallTransaction_def ms_select_in_def Endpoint_SelectEndpoint_def)
    moreover have "MS_Device_ReadInCommandBlock app s = Some (False, ?w)"
      using False u(1) bs(1,4) bu by (simp add: MS_Device_ReadInCommandBlock_def cbw_prefix)
    ultimately show ?thesis
      using False bs p o(1) puts_ms [OF p] puts_ms [OF ab(1)] by (intro exI [of _ bs] exI [of _ ?w]) (auto simp: puts_def)
  next
    case True
    then have "cbw_SCSICommandLength bs \<le> 16" by (simp add: cbw_valid_def)
    then have n: "unat (cbw_SCSICommandLength bs) \<le> 16" by (simp add: word_le_nat_alt)
    let ?n = "ucast (cbw_SCSICommandLength bs) :: u16"
    have "15 + unat ?n \<le> length (block u)" using n assms(2) bs(1) by (simp add: unat_ucast_16 bu)
    from read_block [OF _ this, of scsi set_scsi app] assms(1) bs(3) obtain w where
      w: "ms_stream (Read_Stream_in app scsi set_scsi ?n) u = Some (True, w)" "reading 15 u (unat ?n) w"
      by (auto simp: storage_ready_def scsi_def set_scsi_def)
    from w(2) obtain cs where cs: "length cs = unat (cbw_SCSICommandLength bs)" "was_read UEDATX w = was_read UEDATX u @ cs" "hw w = hw u"
      "MSInterfaceInfo w = (MSInterfaceInfo s)\<lparr>CommandBlock := bs @ cs @ drop (15 + length cs) (block s)\<rparr>" "writes_in (log w) = writes_in (log u)"
      using bs(1,4) bu by (auto simp: reading_def unat_ucast_16 add.commute)
    let ?t = "Endpoint_ClearOUT w"
    have t: "touches {UEINTX} w ?t" by (intro touch touches_refl) simp
    have "wrote UEDATX w = wrote UEDATX s"
      using cs(5) bs(5) o(1) by (simp add: wrote_def wrote_in_writes puts_def)
    moreover have "was_read UEDATX ?t = was_read UEDATX w" by (simp add: Endpoint_ClearOUT_def)
    moreover have "MS_Device_ReadInCommandBlock app s = Some (True, ?t)"
      using True u(1) w(1) bs(1,4) bu by (simp add: MS_Device_ReadInCommandBlock_def cbw_prefix)
    ultimately show ?thesis
      using True bs cs touches_wrote [OF t, of UEDATX] touches_ms [OF t] touches_hw [OF t]
      by (intro exI [of _ bs] exI [of _ ?t]) auto
  qed
qed

lemma command_answered:
  fixes s :: "'a ms_dev_scheme"
  assumes "storage_ready (hw s)"
    and "\<And>u :: 'a ms_dev_scheme. hw u = hw s \<Longrightarrow> \<exists>ok v. cb u = Some (ok, v) \<and> hw v = hw u \<and> MSInterfaceInfo v = MSInterfaceInfo u"
  shows "\<exists>u ok v t. puts (if cbw_Flags (block s) AND MS_COMMAND_DIR_DATA_IN \<noteq> 0
      then [(UENUM, ep_Address (ms_DataINEndpoint (MSInterfaceInfo s)) AND ENDPOINT_EPNUM_MASK)] else []) s u \<and>
    was_read UEDATX u = was_read UEDATX s \<and>
    cb u = Some (ok, v) \<and> ms_command app cb s = Some t \<and> IsMassStoreReset (MSInterfaceInfo t) = IsMassStoreReset (MSInterfaceInfo s) \<and>
    wrote UEDATX t = wrote UEDATX v @ csw_bytes \<lparr>csw_Signature = MS_CSW_SIGNATURE, csw_Tag = cbw_Tag (block s),
      csw_DataTransferResidue = cbw_DataTransferLength (block s), csw_Status = (if ok then MS_SCSI_COMMAND_Pass else MS_SCSI_COMMAND_Fail)\<rparr>"
proof -
  define u where "u = (if cbw_Flags (block s) AND MS_COMMAND_DIR_DATA_IN \<noteq> 0 then ms_select_in s else s)"
  have u: "puts (if cbw_Flags (block s) AND MS_COMMAND_DIR_DATA_IN \<noteq> 0
      then [(UENUM, ep_Address (ms_DataINEndpoint (MSInterfaceInfo s)) AND ENDPOINT_EPNUM_MASK)] else []) s u"
    using puts_select(2) [of s] by (simp add: u_def)
  from assms(2) [OF puts_hw [OF u]] obtain ok v where v: "cb u = Some (ok, v)" "hw v = hw u" "MSInterfaceInfo v = MSInterfaceInfo u" by blast
  define w where "w = \<lparr>csw_Signature = MS_CSW_SIGNATURE, csw_Tag = cbw_Tag (block s),
      csw_DataTransferResidue = cbw_DataTransferLength (block s), csw_Status = (if ok then MS_SCSI_COMMAND_Pass else MS_SCSI_COMMAND_Fail)\<rparr>"
  let ?x = "set_ms (\<lambda>i. i\<lparr>CommandStatus := w\<rparr>) v"
  let ?y = "if \<not> ok \<and> csw_DataTransferResidue w \<noteq> 0 then Endpoint_StallTransaction ?x else ?x"
  have y: "touches {UECONX} ?x ?y" by (intro touch touches_refl) simp_all
  have "storage_ready (hw ?y)" using assms(1) touches_hw [OF y] v(2) puts_hw [OF u] by simp
  from status_returned [OF this, of app] obtain t where t: "MS_Device_ReturnCommandStatus app ?y = Some t"
    "wrote UEDATX t = wrote UEDATX ?y @ status_bytes ?y" "MSInterfaceInfo t = MSInterfaceInfo ?y" by blast
  have "CommandBlock (MSInterfaceInfo v) = block s" using v(3) puts_ms [OF u] by (simp add: block_def)
  then have "ms_command app cb s = MS_Device_ReturnCommandStatus app ?y"
    using v(1) by (simp add: ms_command_def u_def [symmetric] w_def Let_def set_ms_def cong: if_cong)
  moreover have "was_read UEDATX u = was_read UEDATX s" by (simp add: u_def ms_select_in_def Endpoint_SelectEndpoint_def)
  ultimately show ?thesis using u v t touches_ms [OF y] touches_wrote [OF y, of UEDATX] puts_ms [OF u]
    by (intro exI [of _ u] exI [of _ ok] exI [of _ v] exI [of _ t]) (auto simp: status_bytes_def w_def)
qed

text \<open>What the host sees of a command that was executed, and of a block that was refused\<close>

definition command_done :: "('a ms_dev_scheme \<Rightarrow> (bool \<times> 'a ms_dev_scheme) option) \<Rightarrow> 'a ms_dev_scheme \<Rightarrow> u8 list \<Rightarrow> 'a ms_dev_scheme \<Rightarrow> bool" where
  "command_done cb s bs t \<longleftrightarrow> (\<exists>cs u ok v. length cs = unat (cbw_SCSICommandLength bs) \<and> length cs \<le> 16 \<and>
     was_read UEDATX u = was_read UEDATX s @ bs @ cs \<and> take (15 + length cs) (block u) = bs @ cs \<and> wrote UEDATX u = wrote UEDATX s \<and>
     cb u = Some (ok, v) \<and> wrote UEDATX t = wrote UEDATX v @ csw_bytes \<lparr>csw_Signature = MS_CSW_SIGNATURE, csw_Tag = cbw_Tag bs,
       csw_DataTransferResidue = cbw_DataTransferLength bs, csw_Status = (if ok then MS_SCSI_COMMAND_Pass else MS_SCSI_COMMAND_Fail)\<rparr>)"

definition command_refused :: "'a ms_dev_scheme \<Rightarrow> u8 list \<Rightarrow> 'a ms_dev_scheme \<Rightarrow> bool" where
  "command_refused s bs t \<longleftrightarrow> was_read UEDATX t = was_read UEDATX s @ bs \<and> wrote UEDATX t = wrote UEDATX s \<and>
     (\<exists>l v w. writes_in (log t) = l @
       [(UENUM, ep_Address (ms_DataOUTEndpoint (MSInterfaceInfo s)) AND ENDPOINT_EPNUM_MASK), (UECONX, v OR bv STALLRQ),
        (UENUM, ep_Address (ms_DataINEndpoint (MSInterfaceInfo s)) AND ENDPOINT_EPNUM_MASK), (UECONX, w OR bv STALLRQ)])"


definition ms_at :: "(acc list \<Rightarrow> reg \<Rightarrow> u8) \<Rightarrow> ms_dev" where
  "ms_at H = dev.extend (dev_at H \<lparr>bmRequestType = 0, bRequest = 0, wValue = 0, wIndex = 0, wLength = 0\<rparr>) (ms_dev.fields
     \<lparr>ms_InterfaceNumber = 0, ms_DataINEndpoint = \<lparr>ep_Address = 0x83, ep_Size = 64, ep_Type = 2, ep_Banks = 1\<rparr>,
      ms_DataOUTEndpoint = \<lparr>ep_Address = 0x04, ep_Size = 64, ep_Type = 2, ep_Banks = 1\<rparr>, TotalLUNs = 1,
      CommandBlock = replicate 31 0, CommandStatus = \<lparr>csw_Signature = 0, csw_Tag = 0, csw_DataTransferResidue = 0, csw_Status = 0\<rparr>,
      IsMassStoreReset = False\<rparr>)"

lemma ms_at_simps [simp]:
  "hw (ms_at H) = H" "log (ms_at H) = []" "TotalLUNs (MSInterfaceInfo (ms_at H)) = 1" "length (block (ms_at H)) = 31"
  "\<not> IsMassStoreReset (MSInterfaceInfo (ms_at H))"
  by (simp_all add: ms_at_def block_def dev_at_def dev.defs ms_dev.defs)

text \<open>A host that sends the command block of a test for readiness (\<open>TEST UNIT READY\<close>) with the tag \<open>1\<close>\<close>

definition test_unit_ready :: "u8 list" where
  "test_unit_ready = [0x55, 0x53, 0x42, 0x43, 1, 0, 0, 0, 0, 0, 0, 0, 0, 0, 6]"

definition tur_host :: "acc list \<Rightarrow> reg \<Rightarrow> u8" where
  "tur_host l r = (if r = UEDATX then (test_unit_ready @ replicate 16 0) ! (length (was_read_in UEDATX l) mod 31)
     else if r = GPIOR0 then DEVICE_STATE_Configured else if r = UEINTX then 0x25 else 0)"


end
