(* ===== verification/RNDIS_Class.thy ===== *)
theory RNDIS_Class
  imports Class_Common
begin

text \<open>
  The RNDIS class of a device (Ethernet over USB): \<open>RNDISClassDevice.h\<close>, \<open>RNDISClassDevice.c\<close> and
  \<open>RNDISClassCommon.h\<close> under \<open>src/AT16u2/LUFA/Drivers/USB/Class\<close>. The message buffer is the list of its bytes,
  shared by a message and its response as in the code; accesses outside are \<open>None\<close>. A message structure is the
  sequence of its 32-bit fields, so a field is named by its offset.
\<close>

section \<open>State\<close>

datatype RNDIS_States = RNDIS_Uninitialized | RNDIS_Initialized | RNDIS_Data_Initialized

record USB_ClassInfo_RNDIS_Device =
  rn_ControlInterfaceNumber :: u8
  rn_DataINEndpoint :: USB_Endpoint_Table
  rn_DataOUTEndpoint :: USB_Endpoint_Table
  rn_NotificationEndpoint :: USB_Endpoint_Table
  AdapterVendorDescription :: "u8 list"
  AdapterMACAddress :: "u8 list"
  MessageBuffer :: "u8 list option"
  MessageBufferLength :: u16
  ResponseReady :: bool
  CurrRNDISState :: RNDIS_States
  CurrPacketFilter :: u32

record rndis_dev = dev +
  RNDISInterfaceInfo :: USB_ClassInfo_RNDIS_Device

definition set_rn :: "(USB_ClassInfo_RNDIS_Device \<Rightarrow> USB_ClassInfo_RNDIS_Device) \<Rightarrow> 'a rndis_dev_scheme \<Rightarrow> 'a rndis_dev_scheme" where
  "set_rn f s = s\<lparr>RNDISInterfaceInfo := f (RNDISInterfaceInfo s)\<rparr>"

section \<open>Constants\<close>

abbreviation REMOTE_NDIS_PACKET_MSG :: u32 where "REMOTE_NDIS_PACKET_MSG \<equiv> 1"
abbreviation REMOTE_NDIS_INITIALIZE_MSG :: u32 where "REMOTE_NDIS_INITIALIZE_MSG \<equiv> 2"
abbreviation REMOTE_NDIS_HALT_MSG :: u32 where "REMOTE_NDIS_HALT_MSG \<equiv> 3"
abbreviation REMOTE_NDIS_QUERY_MSG :: u32 where "REMOTE_NDIS_QUERY_MSG \<equiv> 4"
abbreviation REMOTE_NDIS_SET_MSG :: u32 where "REMOTE_NDIS_SET_MSG \<equiv> 5"
abbreviation REMOTE_NDIS_RESET_MSG :: u32 where "REMOTE_NDIS_RESET_MSG \<equiv> 6"
abbreviation REMOTE_NDIS_KEEPALIVE_MSG :: u32 where "REMOTE_NDIS_KEEPALIVE_MSG \<equiv> 8"
abbreviation REMOTE_NDIS_INITIALIZE_CMPLT :: u32 where "REMOTE_NDIS_INITIALIZE_CMPLT \<equiv> 0x80000002"
abbreviation REMOTE_NDIS_QUERY_CMPLT :: u32 where "REMOTE_NDIS_QUERY_CMPLT \<equiv> 0x80000004"
abbreviation REMOTE_NDIS_SET_CMPLT :: u32 where "REMOTE_NDIS_SET_CMPLT \<equiv> 0x80000005"
abbreviation REMOTE_NDIS_RESET_CMPLT :: u32 where "REMOTE_NDIS_RESET_CMPLT \<equiv> 0x80000006"
abbreviation REMOTE_NDIS_KEEPALIVE_CMPLT :: u32 where "REMOTE_NDIS_KEEPALIVE_CMPLT \<equiv> 0x80000008"
abbreviation REMOTE_NDIS_STATUS_SUCCESS :: u32 where "REMOTE_NDIS_STATUS_SUCCESS \<equiv> 0"
abbreviation REMOTE_NDIS_STATUS_NOT_SUPPORTED :: u32 where "REMOTE_NDIS_STATUS_NOT_SUPPORTED \<equiv> 0xC00000BB"

abbreviation OID_GEN_SUPPORTED_LIST :: u32 where "OID_GEN_SUPPORTED_LIST \<equiv> 0x00010101"
abbreviation OID_GEN_HARDWARE_STATUS :: u32 where "OID_GEN_HARDWARE_STATUS \<equiv> 0x00010102"
abbreviation OID_GEN_MEDIA_SUPPORTED :: u32 where "OID_GEN_MEDIA_SUPPORTED \<equiv> 0x00010103"
abbreviation OID_GEN_MEDIA_IN_USE :: u32 where "OID_GEN_MEDIA_IN_USE \<equiv> 0x00010104"
abbreviation OID_GEN_MAXIMUM_FRAME_SIZE :: u32 where "OID_GEN_MAXIMUM_FRAME_SIZE \<equiv> 0x00010106"
abbreviation OID_GEN_MAXIMUM_TOTAL_SIZE :: u32 where "OID_GEN_MAXIMUM_TOTAL_SIZE \<equiv> 0x00010111"
abbreviation OID_GEN_LINK_SPEED :: u32 where "OID_GEN_LINK_SPEED \<equiv> 0x00010107"
abbreviation OID_GEN_TRANSMIT_BLOCK_SIZE :: u32 where "OID_GEN_TRANSMIT_BLOCK_SIZE \<equiv> 0x0001010A"
abbreviation OID_GEN_RECEIVE_BLOCK_SIZE :: u32 where "OID_GEN_RECEIVE_BLOCK_SIZE \<equiv> 0x0001010B"
abbreviation OID_GEN_VENDOR_ID :: u32 where "OID_GEN_VENDOR_ID \<equiv> 0x0001010C"
abbreviation OID_GEN_VENDOR_DESCRIPTION :: u32 where "OID_GEN_VENDOR_DESCRIPTION \<equiv> 0x0001010D"
abbreviation OID_GEN_CURRENT_PACKET_FILTER :: u32 where "OID_GEN_CURRENT_PACKET_FILTER \<equiv> 0x0001010E"
abbreviation OID_GEN_MEDIA_CONNECT_STATUS :: u32 where "OID_GEN_MEDIA_CONNECT_STATUS \<equiv> 0x00010114"
abbreviation OID_GEN_PHYSICAL_MEDIUM :: u32 where "OID_GEN_PHYSICAL_MEDIUM \<equiv> 0x00010202"
abbreviation OID_GEN_XMIT_OK :: u32 where "OID_GEN_XMIT_OK \<equiv> 0x00020101"
abbreviation OID_GEN_RCV_OK :: u32 where "OID_GEN_RCV_OK \<equiv> 0x00020102"
abbreviation OID_GEN_XMIT_ERROR :: u32 where "OID_GEN_XMIT_ERROR \<equiv> 0x00020103"
abbreviation OID_GEN_RCV_ERROR :: u32 where "OID_GEN_RCV_ERROR \<equiv> 0x00020104"
abbreviation OID_GEN_RCV_NO_BUFFER :: u32 where "OID_GEN_RCV_NO_BUFFER \<equiv> 0x00020105"
abbreviation OID_802_3_PERMANENT_ADDRESS :: u32 where "OID_802_3_PERMANENT_ADDRESS \<equiv> 0x01010101"
abbreviation OID_802_3_CURRENT_ADDRESS :: u32 where "OID_802_3_CURRENT_ADDRESS \<equiv> 0x01010102"
abbreviation OID_802_3_MULTICAST_LIST :: u32 where "OID_802_3_MULTICAST_LIST \<equiv> 0x01010103"
abbreviation OID_802_3_MAXIMUM_LIST_SIZE :: u32 where "OID_802_3_MAXIMUM_LIST_SIZE \<equiv> 0x01010104"
abbreviation OID_802_3_RCV_ERROR_ALIGNMENT :: u32 where "OID_802_3_RCV_ERROR_ALIGNMENT \<equiv> 0x01020101"
abbreviation OID_802_3_XMIT_ONE_COLLISION :: u32 where "OID_802_3_XMIT_ONE_COLLISION \<equiv> 0x01020102"
abbreviation OID_802_3_XMIT_MORE_COLLISIONS :: u32 where "OID_802_3_XMIT_MORE_COLLISIONS \<equiv> 0x01020103"

abbreviation ETHERNET_FRAME_SIZE_MAX :: nat where "ETHERNET_FRAME_SIZE_MAX \<equiv> 1500"
abbreviation RNDIS_REQ_SendEncapsulatedCommand :: u8 where "RNDIS_REQ_SendEncapsulatedCommand \<equiv> 0"
abbreviation RNDIS_REQ_GetEncapsulatedResponse :: u8 where "RNDIS_REQ_GetEncapsulatedResponse \<equiv> 1"
abbreviation RNDIS_NOTIF_ResponseAvailable :: u8 where "RNDIS_NOTIF_ResponseAvailable \<equiv> 1"

definition AdapterSupportedOIDList :: "u32 list" where
  "AdapterSupportedOIDList =
    [OID_GEN_SUPPORTED_LIST, OID_GEN_PHYSICAL_MEDIUM, OID_GEN_HARDWARE_STATUS, OID_GEN_MEDIA_SUPPORTED, OID_GEN_MEDIA_IN_USE,
     OID_GEN_MAXIMUM_FRAME_SIZE, OID_GEN_MAXIMUM_TOTAL_SIZE, OID_GEN_LINK_SPEED, OID_GEN_TRANSMIT_BLOCK_SIZE,
     OID_GEN_RECEIVE_BLOCK_SIZE, OID_GEN_VENDOR_ID, OID_GEN_VENDOR_DESCRIPTION, OID_GEN_CURRENT_PACKET_FILTER,
     OID_GEN_MAXIMUM_TOTAL_SIZE, OID_GEN_MEDIA_CONNECT_STATUS, OID_GEN_XMIT_OK, OID_GEN_RCV_OK, OID_GEN_XMIT_ERROR,
     OID_GEN_RCV_ERROR, OID_GEN_RCV_NO_BUFFER, OID_802_3_PERMANENT_ADDRESS, OID_802_3_CURRENT_ADDRESS,
     OID_802_3_MULTICAST_LIST, OID_802_3_MAXIMUM_LIST_SIZE, OID_802_3_RCV_ERROR_ALIGNMENT, OID_802_3_XMIT_ONE_COLLISION,
     OID_802_3_XMIT_MORE_COLLISIONS]"

section \<open>Fields of messages\<close>

definition get32 :: "u8 list \<Rightarrow> nat \<Rightarrow> u32 option" where
  "get32 b n = (if n + 4 \<le> length b then Some (word32 (b ! n) (b ! (n + 1)) (b ! (n + 2)) (b ! (n + 3))) else None)"

definition put_at :: "u8 list \<Rightarrow> nat \<Rightarrow> u8 list \<Rightarrow> u8 list option" where
  "put_at b n vs = (if n + length vs \<le> length b then Some (take n b @ vs @ drop (n + length vs) b) else None)"

definition put32 :: "u8 list \<Rightarrow> nat \<Rightarrow> u32 \<Rightarrow> u8 list option" where
  "put32 b n v = put_at b n (bytes32 v)"

text \<open>Offsets: \<open>RNDIS_Message_Header_t\<close> and the structures that begin with it\<close>

abbreviation off_MessageType :: nat where "off_MessageType \<equiv> 0"
abbreviation off_MessageLength :: nat where "off_MessageLength \<equiv> 4"
abbreviation off_RequestId :: nat where "off_RequestId \<equiv> 8"
abbreviation off_Status :: nat where "off_Status \<equiv> 12"
abbreviation off_Oid :: nat where "off_Oid \<equiv> 12"
abbreviation off_InfoOffset :: nat where "off_InfoOffset \<equiv> 20"
abbreviation off_InfoLength :: nat where "off_InfoLength \<equiv> 16"
abbreviation sizeof_Header :: nat where "sizeof_Header \<equiv> 8"
abbreviation sizeof_Query_Complete :: nat where "sizeof_Query_Complete \<equiv> 24"
abbreviation sizeof_Packet :: nat where "sizeof_Packet \<equiv> 44"

text \<open>Several fields one after the other\<close>

primrec put32s :: "u8 list \<Rightarrow> nat \<Rightarrow> u32 list \<Rightarrow> u8 list option" where
  "put32s b n [] = Some b"
| "put32s b n (v # vs) = do { b \<leftarrow> put32 b n v; put32s b (n + 4) vs }"

section \<open>Queries and settings\<close>

text \<open>The response of a query that is one word\<close>

definition ndis_word :: "USB_ClassInfo_RNDIS_Device \<Rightarrow> u32 \<Rightarrow> u32 option" where
  "ndis_word i OId =
     (if OId = OID_GEN_PHYSICAL_MEDIUM then Some 0
      else if OId = OID_GEN_HARDWARE_STATUS then Some 0
      else if OId = OID_GEN_MEDIA_SUPPORTED \<or> OId = OID_GEN_MEDIA_IN_USE then Some 0
      else if OId = OID_GEN_VENDOR_ID then Some 0x00FFFFFF
      else if OId = OID_GEN_MAXIMUM_FRAME_SIZE \<or> OId = OID_GEN_TRANSMIT_BLOCK_SIZE \<or> OId = OID_GEN_RECEIVE_BLOCK_SIZE
      then Some (of_nat ETHERNET_FRAME_SIZE_MAX)
      else if OId = OID_GEN_MEDIA_CONNECT_STATUS then Some 0
      else if OId = OID_GEN_LINK_SPEED then Some 100000
      else if OId = OID_802_3_MAXIMUM_LIST_SIZE then Some 1
      else if OId = OID_GEN_CURRENT_PACKET_FILTER then Some (CurrPacketFilter i)
      else if OId \<in> {OID_GEN_XMIT_OK, OID_GEN_RCV_OK, OID_GEN_XMIT_ERROR, OID_GEN_RCV_ERROR, OID_GEN_RCV_NO_BUFFER,
        OID_802_3_RCV_ERROR_ALIGNMENT, OID_802_3_XMIT_ONE_COLLISION, OID_802_3_XMIT_MORE_COLLISIONS} then Some 0
      else if OId = OID_GEN_MAXIMUM_TOTAL_SIZE
      then Some (ucast (MessageBufferLength i + of_nat ETHERNET_FRAME_SIZE_MAX))
      else None)"

text \<open>
  \<open>RNDIS_Device_ProcessNDISQuery\<close>: the outer option is the return, the inner one \<open>None\<close> for \<open>false\<close> and the
  size of the response with the buffer otherwise. The response goes to \<open>ResponseData\<close>, an offset in the buffer.
\<close>

definition RNDIS_Device_ProcessNDISQuery :: "USB_ClassInfo_RNDIS_Device \<Rightarrow> u32 \<Rightarrow> u8 list \<Rightarrow> nat \<Rightarrow> (u16 \<times> u8 list) option option" where
  "RNDIS_Device_ProcessNDISQuery i OId b ResponseData =
     (if OId = OID_GEN_SUPPORTED_LIST
      then do { b \<leftarrow> put32s b ResponseData AdapterSupportedOIDList; Some (Some (of_nat (4 * length AdapterSupportedOIDList), b)) }
      else if OId = OID_GEN_VENDOR_DESCRIPTION
      then do {
        n \<leftarrow> strlen (AdapterVendorDescription i);
        b \<leftarrow> put_at b ResponseData (take (unat (n + 1)) (AdapterVendorDescription i));
        Some (Some (n + 1, b)) }
      else if OId = OID_802_3_PERMANENT_ADDRESS \<or> OId = OID_802_3_CURRENT_ADDRESS
      then do { b \<leftarrow> put_at b ResponseData (AdapterMACAddress i); Some (Some (6, b)) }
      else case ndis_word i OId of
        Some v \<Rightarrow> do { b \<leftarrow> put32 b ResponseData v; Some (Some (4, b)) }
      | None \<Rightarrow> Some None)"

definition RNDIS_Device_ProcessNDISSet :: "USB_ClassInfo_RNDIS_Device \<Rightarrow> u32 \<Rightarrow> u8 list \<Rightarrow> nat \<Rightarrow> (bool \<times> USB_ClassInfo_RNDIS_Device) option" where
  "RNDIS_Device_ProcessNDISSet i OId b SetData =
     (if OId = OID_GEN_CURRENT_PACKET_FILTER
      then do {
        f \<leftarrow> get32 b SetData;
        Some (True, i\<lparr>CurrPacketFilter := f, CurrRNDISState := (if f \<noteq> 0 then RNDIS_Data_Initialized else RNDIS_Initialized)\<rparr>) }
      else Some (OId = OID_802_3_MULTICAST_LIST, i))"

section \<open>Control messages\<close>

definition rn_initialize :: "USB_ClassInfo_RNDIS_Device \<Rightarrow> u8 list \<Rightarrow> USB_ClassInfo_RNDIS_Device option" where
  "rn_initialize i b = do {
     let i = i\<lparr>ResponseReady := True\<rparr>;
     b \<leftarrow> put32s b 0 [REMOTE_NDIS_INITIALIZE_CMPLT, 52];
     r \<leftarrow> get32 b off_RequestId;
     b \<leftarrow> put32s b 8 [r, REMOTE_NDIS_STATUS_SUCCESS, 1, 0, 1, 0, 1, of_nat (sizeof_Packet + ETHERNET_FRAME_SIZE_MAX), 0, 0, 0];
     Some (i\<lparr>MessageBuffer := Some b, CurrRNDISState := RNDIS_Initialized\<rparr>) }"

definition rn_halt :: "USB_ClassInfo_RNDIS_Device \<Rightarrow> u8 list \<Rightarrow> USB_ClassInfo_RNDIS_Device option" where
  "rn_halt i b = do {
     let i = i\<lparr>ResponseReady := False\<rparr>;
     b \<leftarrow> put32 b off_MessageLength 0;
     Some (i\<lparr>MessageBuffer := Some b, CurrRNDISState := RNDIS_Uninitialized\<rparr>) }"

text \<open>The data of the query is not used: only its place is computed.\<close>

definition rn_query :: "USB_ClassInfo_RNDIS_Device \<Rightarrow> u8 list \<Rightarrow> USB_ClassInfo_RNDIS_Device option" where
  "rn_query i b = do {
     let i = i\<lparr>ResponseReady := True\<rparr>;
     Query_Oid \<leftarrow> get32 b off_Oid;
     b \<leftarrow> put32 b off_MessageType REMOTE_NDIS_QUERY_CMPLT;
     r \<leftarrow> RNDIS_Device_ProcessNDISQuery i Query_Oid b sizeof_Query_Complete;
     b \<leftarrow> (case r of
         Some (ResponseSize, b) \<Rightarrow> do {
           b \<leftarrow> put32 b off_Status REMOTE_NDIS_STATUS_SUCCESS;
           b \<leftarrow> put32 b off_MessageLength (ucast (of_nat sizeof_Query_Complete + ResponseSize));
           b \<leftarrow> put32 b off_InfoLength (ucast ResponseSize);
           put32 b off_InfoOffset (of_nat (sizeof_Query_Complete - sizeof_Header)) }
       | None \<Rightarrow> do {
           b \<leftarrow> put32 b off_Status REMOTE_NDIS_STATUS_NOT_SUPPORTED;
           b \<leftarrow> put32 b off_MessageLength (of_nat sizeof_Query_Complete);
           b \<leftarrow> put32 b off_InfoLength 0;
           put32 b off_InfoOffset 0 });
     Some (i\<lparr>MessageBuffer := Some b\<rparr>) }"

text \<open>The place of the data is chosen by the host; the sum is computed with 32 bits.\<close>

definition rn_set :: "USB_ClassInfo_RNDIS_Device \<Rightarrow> u8 list \<Rightarrow> USB_ClassInfo_RNDIS_Device option" where
  "rn_set i b = do {
     let i = i\<lparr>ResponseReady := True\<rparr>;
     SET_Oid \<leftarrow> get32 b off_Oid;
     b \<leftarrow> put32s b 0 [REMOTE_NDIS_SET_CMPLT, 16];
     r \<leftarrow> get32 b off_RequestId;
     b \<leftarrow> put32 b off_RequestId r;
     off \<leftarrow> get32 b off_InfoOffset;
     (ok, i) \<leftarrow> RNDIS_Device_ProcessNDISSet i SET_Oid b (unat (of_nat sizeof_Header + off));
     b \<leftarrow> put32 b off_Status (if ok then REMOTE_NDIS_STATUS_SUCCESS else REMOTE_NDIS_STATUS_NOT_SUPPORTED);
     Some (i\<lparr>MessageBuffer := Some b\<rparr>) }"

definition rn_reset :: "USB_ClassInfo_RNDIS_Device \<Rightarrow> u8 list \<Rightarrow> USB_ClassInfo_RNDIS_Device option" where
  "rn_reset i b = do {
     let i = i\<lparr>ResponseReady := True\<rparr>;
     b \<leftarrow> put32s b 0 [REMOTE_NDIS_RESET_CMPLT, 16, REMOTE_NDIS_STATUS_SUCCESS, 0];
     Some (i\<lparr>MessageBuffer := Some b\<rparr>) }"

definition rn_keepalive :: "USB_ClassInfo_RNDIS_Device \<Rightarrow> u8 list \<Rightarrow> USB_ClassInfo_RNDIS_Device option" where
  "rn_keepalive i b = do {
     let i = i\<lparr>ResponseReady := True\<rparr>;
     b \<leftarrow> put32s b 0 [REMOTE_NDIS_KEEPALIVE_CMPLT, 16];
     r \<leftarrow> get32 b off_RequestId;
     b \<leftarrow> put32s b 8 [r, REMOTE_NDIS_STATUS_SUCCESS];
     Some (i\<lparr>MessageBuffer := Some b\<rparr>) }"

definition RNDIS_Device_ProcessRNDISControlMessage :: "USB_ClassInfo_RNDIS_Device \<Rightarrow> USB_ClassInfo_RNDIS_Device option" where
  "RNDIS_Device_ProcessRNDISControlMessage i = do {
     b \<leftarrow> MessageBuffer i;
     t \<leftarrow> get32 b off_MessageType;
     if t = REMOTE_NDIS_INITIALIZE_MSG then rn_initialize i b
     else if t = REMOTE_NDIS_HALT_MSG then rn_halt i b
     else if t = REMOTE_NDIS_QUERY_MSG then rn_query i b
     else if t = REMOTE_NDIS_SET_MSG then rn_set i b
     else if t = REMOTE_NDIS_RESET_MSG then rn_reset i b
     else if t = REMOTE_NDIS_KEEPALIVE_MSG then rn_keepalive i b
     else Some i }"

section \<open>Control requests\<close>

definition rn_SendCommand :: "'a rndis_dev_scheme \<Rightarrow> 'a rndis_dev_scheme option" where
  "rn_SendCommand s = do {
     b \<leftarrow> MessageBuffer (RNDISInterfaceInfo s);
     (_, b, s) \<leftarrow> Endpoint_Read_Control_Stream_LE b (wLength (USB_ControlRequest s)) (Endpoint_ClearSETUP s);
     let s = Endpoint_ClearIN (set_rn (\<lambda>i. i\<lparr>MessageBuffer := Some b\<rparr>) s);
     i \<leftarrow> RNDIS_Device_ProcessRNDISControlMessage (RNDISInterfaceInfo s);
     Some (set_rn (\<lambda>_. i) s) }"

definition rn_GetResponse :: "'a rndis_dev_scheme \<Rightarrow> 'a rndis_dev_scheme option" where
  "rn_GetResponse s = do {
     b \<leftarrow> MessageBuffer (RNDISInterfaceInfo s);
     n \<leftarrow> get32 b off_MessageLength;
     b \<leftarrow> (if n = 0 then do { b \<leftarrow> put_at b 0 [0]; put32 b off_MessageLength 1 } else Some b);
     n \<leftarrow> get32 b off_MessageLength;
     (_, s) \<leftarrow> Endpoint_Write_Control_Stream_LE b (ucast n) (Endpoint_ClearSETUP s);
     let s = Endpoint_ClearOUT s;
     b \<leftarrow> put32 b off_MessageLength 0;
     Some (set_rn (\<lambda>i. i\<lparr>MessageBuffer := Some b\<rparr>) s) }"

definition RNDIS_Device_ProcessControlRequest :: "'a rndis_dev_scheme \<Rightarrow> 'a rndis_dev_scheme option" where
  "RNDIS_Device_ProcessControlRequest s =
     (let (setup, s) = Endpoint_IsSETUPReceived s; q = USB_ControlRequest s
      in if \<not> setup then Some s
         else if wIndex q \<noteq> ucast (rn_ControlInterfaceNumber (RNDISInterfaceInfo s)) then Some s
         else if bRequest q = RNDIS_REQ_SendEncapsulatedCommand
         then (if bmRequestType q = class_out then rn_SendCommand s else Some s)
         else if bRequest q = RNDIS_REQ_GetEncapsulatedResponse
         then (if bmRequestType q = class_in then rn_GetResponse s else Some s)
         else Some s)"

definition RNDIS_DEVICE_MIN_MESSAGE_BUFFER_LENGTH :: nat where
  "RNDIS_DEVICE_MIN_MESSAGE_BUFFER_LENGTH = 4 * length AdapterSupportedOIDList + sizeof_Query_Complete"

definition RNDIS_Device_ConfigureEndpoints :: "'a rndis_dev_scheme \<Rightarrow> (bool \<times> 'a rndis_dev_scheme) option" where
  "RNDIS_Device_ConfigureEndpoints s = do {
     let s = set_rn (\<lambda>i. i\<lparr>ResponseReady := False, CurrRNDISState := RNDIS_Uninitialized, CurrPacketFilter := 0,
       rn_DataINEndpoint := (rn_DataINEndpoint i)\<lparr>ep_Type := EP_TYPE_BULK\<rparr>,
       rn_DataOUTEndpoint := (rn_DataOUTEndpoint i)\<lparr>ep_Type := EP_TYPE_BULK\<rparr>,
       rn_NotificationEndpoint := (rn_NotificationEndpoint i)\<lparr>ep_Type := EP_TYPE_INTERRUPT\<rparr>\<rparr>) s;
     if MessageBuffer (RNDISInterfaceInfo s) = None then Some (False, s)
     else if unat (MessageBufferLength (RNDISInterfaceInfo s)) < RNDIS_DEVICE_MIN_MESSAGE_BUFFER_LENGTH then Some (False, s)
     else do {
       (ok, s) \<leftarrow> Endpoint_ConfigureEndpointTable [rn_DataINEndpoint (RNDISInterfaceInfo s)] s;
       if \<not> ok then Some (False, s)
       else do {
         (ok, s) \<leftarrow> Endpoint_ConfigureEndpointTable [rn_DataOUTEndpoint (RNDISInterfaceInfo s)] s;
         if \<not> ok then Some (False, s)
         else Endpoint_ConfigureEndpointTable [rn_NotificationEndpoint (RNDISInterfaceInfo s)] s } } }"

section \<open>Task and packets\<close>

definition RNDIS_Device_USBTask :: "'a rndis_dev_scheme application \<Rightarrow> 'a rndis_dev_scheme \<Rightarrow> 'a rndis_dev_scheme option" where
  "RNDIS_Device_USBTask app s =
     (let (st, s) = rd GPIOR0 s
      in if st \<noteq> DEVICE_STATE_Configured then Some s
         else let (ready, s) = Endpoint_IsINReady (Endpoint_SelectEndpoint (ep_Address (rn_NotificationEndpoint (RNDISInterfaceInfo s))) s)
         in if ready \<and> ResponseReady (RNDISInterfaceInfo s)
            then do {
              let Notification = \<lparr>bmRequestType = class_in, bRequest = RNDIS_NOTIF_ResponseAvailable, wValue = 0, wIndex = 0, wLength = 0\<rparr>;
              (_, _, _, s) \<leftarrow> Endpoint_Write_Stream_LE app (request_bytes Notification) 8 None s;
              Some (set_rn (\<lambda>i. i\<lparr>ResponseReady := False\<rparr>) (Endpoint_ClearIN s)) }
            else Some s)"

text \<open>The guard of the packet functions\<close>

definition rn_usable :: "'a rndis_dev_scheme \<Rightarrow> bool \<times> 'a rndis_dev_scheme" where
  "rn_usable s = (let (st, s) = rd GPIOR0 s
     in (st = DEVICE_STATE_Configured \<and> CurrRNDISState (RNDISInterfaceInfo s) = RNDIS_Data_Initialized, s))"

definition RNDIS_Device_IsPacketReceived :: "'a rndis_dev_scheme \<Rightarrow> bool \<times> 'a rndis_dev_scheme" where
  "RNDIS_Device_IsPacketReceived s =
     (let (ok, s) = rn_usable s
      in if \<not> ok then (False, s)
         else Endpoint_IsOUTReceived (Endpoint_SelectEndpoint (ep_Address (rn_DataOUTEndpoint (RNDISInterfaceInfo s))) s))"

datatype packet_result = Rw rwstream | RNDIS_ERROR_LOGICAL_CMD_FAILED

text \<open>
  The local \<open>RNDISPacketHeader\<close> is not initialised: \<open>junk\<close> is what the stack holds there. The result has the
  buffer of the caller and \<open>PacketLength\<close>, which is not set on the first return.
\<close>

definition RNDIS_Device_ReadPacket :: "'a rndis_dev_scheme application \<Rightarrow> u8 list \<Rightarrow> u8 list \<Rightarrow> 'a rndis_dev_scheme \<Rightarrow>
    (packet_result \<times> u16 option \<times> u8 list \<times> 'a rndis_dev_scheme) option" where
  "RNDIS_Device_ReadPacket app junk Buffer s =
     (let (ok, s) = rn_usable s
      in if \<not> ok then Some (Rw ENDPOINT_RWSTREAM_DeviceDisconnected, None, Buffer, s)
         else let (received, s) = Endpoint_IsOUTReceived (Endpoint_SelectEndpoint (ep_Address (rn_DataOUTEndpoint (RNDISInterfaceInfo s))) s)
         in if \<not> received then Some (Rw ENDPOINT_RWSTREAM_NoError, Some 0, Buffer, s)
            else do {
              (_, _, h, s) \<leftarrow> Endpoint_Read_Stream_LE app junk (of_nat sizeof_Packet) None s;
              DataLength \<leftarrow> get32 h 12;
              if of_nat ETHERNET_FRAME_SIZE_MAX < DataLength
              then Some (RNDIS_ERROR_LOGICAL_CMD_FAILED, Some 0, Buffer, Endpoint_StallTransaction s)
              else do {
                let PacketLength = ucast DataLength;
                (_, _, Buffer, s) \<leftarrow> Endpoint_Read_Stream_LE app Buffer PacketLength None s;
                Some (Rw ENDPOINT_RWSTREAM_NoError, Some PacketLength, Buffer, Endpoint_ClearOUT s) } })"

text \<open>The header in front of a packet\<close>

definition packet_header :: "u16 \<Rightarrow> u8 list" where
  "packet_header PacketLength = concat (map bytes32 [REMOTE_NDIS_PACKET_MSG, ucast (of_nat sizeof_Packet + PacketLength),
     of_nat (sizeof_Packet - sizeof_Header), ucast PacketLength, 0, 0, 0, 0, 0, 0, 0])"

definition RNDIS_Device_SendPacket :: "'a rndis_dev_scheme application \<Rightarrow> u8 list \<Rightarrow> u16 \<Rightarrow> 'a rndis_dev_scheme \<Rightarrow>
    (rwstream \<times> 'a rndis_dev_scheme) option" where
  "RNDIS_Device_SendPacket app Buffer PacketLength s =
     (let (ok, s) = rn_usable s
      in if \<not> ok then Some (ENDPOINT_RWSTREAM_DeviceDisconnected, s)
         else do {
           (e, s) \<leftarrow> Endpoint_WaitUntilReady (Endpoint_SelectEndpoint (ep_Address (rn_DataINEndpoint (RNDISInterfaceInfo s))) s);
           if e \<noteq> ENDPOINT_READYWAIT_NoError then Some (rw_code e, s)
           else do {
             (_, _, _, s) \<leftarrow> Endpoint_Write_Stream_LE app (packet_header PacketLength) (of_nat sizeof_Packet) None s;
             (_, _, _, s) \<leftarrow> Endpoint_Write_Stream_LE app Buffer PacketLength None s;
             Some (ENDPOINT_RWSTREAM_NoError, Endpoint_ClearIN s) } })"

section \<open>Laws of the fields\<close>

lemma put_at_SomeD:
  assumes "put_at b n vs = Some c"
  shows "length c = length b" "n + length vs \<le> length b" "take n c = take n b" "drop (n + length vs) c = drop (n + length vs) b"
    "take (length vs) (drop n c) = vs"
  using assms by (auto simp: put_at_def split: if_splits)

lemma put_at_total: "n + length vs \<le> length b \<Longrightarrow> \<exists>c. put_at b n vs = Some c"
  by (simp add: put_at_def)

lemma put_at_nth:
  assumes "put_at b n vs = Some c" "k < length b"
  shows "c ! k = (if n \<le> k \<and> k < n + length vs then vs ! (k - n) else b ! k)"
  using assms by (auto simp: put_at_def nth_append min_def split: if_splits)

lemma get32_put_at:
  assumes "put_at b n vs = Some c" "k + 4 \<le> n \<or> n + length vs \<le> k"
  shows "get32 c k = get32 b k"
  using assms(2) put_at_SomeD(1,2) [OF assms(1)] by (auto simp: get32_def put_at_nth [OF assms(1)])

lemma get32_put32: "put32 b n v = Some c \<Longrightarrow> get32 c k = (if k = n then Some v else get32 c k)"
proof (cases "k = n")
  case True
  assume p: "put32 b n v = Some c"
  from put_at_SomeD(1,2) [OF p [unfolded put32_def]] have "n + 4 \<le> length b" "length c = length b" by simp_all
  with True show ?thesis by (simp add: get32_def put_at_nth [OF p [unfolded put32_def]] bytes32_def)
qed simp

lemma get32_put32_other: "put32 b n v = Some c \<Longrightarrow> k + 4 \<le> n \<or> n + 4 \<le> k \<Longrightarrow> get32 c k = get32 b k"
  unfolding put32_def by (rule get32_put_at) auto

lemma put32_length: "put32 b n v = Some c \<Longrightarrow> length c = length b"
  unfolding put32_def by (rule put_at_SomeD(1))

lemma put32_total: "n + 4 \<le> length b \<Longrightarrow> \<exists>c. put32 b n v = Some c"
  unfolding put32_def by (rule put_at_total) simp

lemma get32_total: "n + 4 \<le> length b \<Longrightarrow> \<exists>v. get32 b n = Some v"
  by (simp add: get32_def)

lemma put32s_total:
  "n + 4 * length vs \<le> length b \<Longrightarrow> \<exists>c. put32s b n vs = Some c \<and> length c = length b \<and>
     (\<forall>k. k + 4 \<le> n \<or> n + 4 * length vs \<le> k \<longrightarrow> get32 c k = get32 b k) \<and>
     (\<forall>j < length vs. get32 c (n + 4 * j) = Some (vs ! j))"
proof (induction vs arbitrary: b n)
  case (Cons v vs)
  from Cons.prems put32_total [of n b v] obtain c where c: "put32 b n v = Some c" by auto
  from Cons.prems put32_length [OF c] Cons.IH [of "n + 4" c] obtain d where
    d: "put32s c (n + 4) vs = Some d" "length d = length c"
      "\<And>k. k + 4 \<le> n + 4 \<or> n + 4 + 4 * length vs \<le> k \<Longrightarrow> get32 d k = get32 c k"
      "\<And>j. j < length vs \<Longrightarrow> get32 d (n + 4 + 4 * j) = Some (vs ! j)" by auto
  have "get32 d (n + 4 * j) = Some ((v # vs) ! j)" if "j < length (v # vs)" for j
  proof (cases j)
    case 0
    with d(3) [of n] get32_put32 [OF c, of n] show ?thesis by simp
  next
    case (Suc i)
    with d(4) [of i] that show ?thesis by (simp add: add.assoc)
  qed
  moreover have "get32 d k = get32 b k" if "k + 4 \<le> n \<or> n + 4 * length (v # vs) \<le> k" for k
    using d(3) [of k] get32_put32_other [OF c, of k] that by auto
  ultimately show ?case using c d(1,2) put32_length [OF c] by auto
qed simp

section \<open>Every message is answered inside the buffer\<close>

text \<open>
  A well-formed interface: the buffer has the size that \<open>RNDIS_Device_ConfigureEndpoints\<close> asks for and the
  description of the vendor fits into it; data is exchanged only under a packet filter.
\<close>

definition rn_wf :: "USB_ClassInfo_RNDIS_Device \<Rightarrow> bool" where
  "rn_wf i \<longleftrightarrow> length (AdapterMACAddress i) = 6 \<and> 0 \<in> set (AdapterVendorDescription i) \<and>
     (\<exists>b. MessageBuffer i = Some b \<and> RNDIS_DEVICE_MIN_MESSAGE_BUFFER_LENGTH \<le> length b \<and> length b < 2 ^ 16 \<and>
       sizeof_Query_Complete + length (takeWhile (\<lambda>c. c \<noteq> 0) (AdapterVendorDescription i)) < length b) \<and>
     (CurrRNDISState i = RNDIS_Data_Initialized \<longrightarrow> CurrPacketFilter i \<noteq> 0)"

text \<open>A response in the buffer to the message \<open>b\<close> of type \<open>t\<close>\<close>

definition rn_reply :: "u32 \<Rightarrow> u8 list \<Rightarrow> u8 list \<Rightarrow> bool" where
  "rn_reply t b b' \<longleftrightarrow> length b' = length b \<and> get32 b' off_MessageType = Some (t OR 0x80000000) \<and>
     (\<exists>n. get32 b' off_MessageLength = Some n \<and> 16 \<le> unat n \<and> unat n \<le> length b') \<and>
     (t \<noteq> REMOTE_NDIS_RESET_MSG \<longrightarrow> get32 b' off_RequestId = get32 b off_RequestId)"

lemma min_length: "RNDIS_DEVICE_MIN_MESSAGE_BUFFER_LENGTH = 132" "length AdapterSupportedOIDList = 27"
  by (simp_all add: RNDIS_DEVICE_MIN_MESSAGE_BUFFER_LENGTH_def AdapterSupportedOIDList_def)

lemma initialize_replies:
  assumes "132 \<le> length b"
  shows "\<exists>b'. rn_initialize i b = Some (i\<lparr>ResponseReady := True, MessageBuffer := Some b', CurrRNDISState := RNDIS_Initialized\<rparr>) \<and>
    rn_reply REMOTE_NDIS_INITIALIZE_MSG b b'"
proof -
  let ?v = "[REMOTE_NDIS_INITIALIZE_CMPLT, 52]"
  from put32s_total [of 0 ?v b] assms obtain c where c: "put32s b 0 ?v = Some c" "length c = length b"
    "\<And>k. 8 \<le> k \<Longrightarrow> get32 c k = get32 b k" "\<forall>j < 2. get32 c (4 * j) = Some (?v ! j)" by auto
  from get32_total [of 8 c] assms c(2) obtain r where r: "get32 c 8 = Some r" by auto
  let ?w = "[r, REMOTE_NDIS_STATUS_SUCCESS, 1, 0, 1, 0, 1, of_nat (sizeof_Packet + ETHERNET_FRAME_SIZE_MAX), 0, 0, 0]"
  from put32s_total [of 8 ?w c] assms c(2) obtain d where d: "put32s c 8 ?w = Some d" "length d = length b"
    "\<And>k. k + 4 \<le> 8 \<Longrightarrow> get32 d k = get32 c k" "\<forall>j < 11. get32 d (8 + 4 * j) = Some (?w ! j)" by auto
  from c(4) have "get32 c 0 = Some REMOTE_NDIS_INITIALIZE_CMPLT" "get32 c 4 = Some 52"
    by (auto dest: spec [of _ 0] spec [of _ 1])
  with d(2,3) d(4) [rule_format, of 0] r c(3) [of 8] assms have "rn_reply REMOTE_NDIS_INITIALIZE_MSG b d"
    by (simp add: rn_reply_def)
  with c(1) r d(1) show ?thesis by (intro exI [of _ d]) (simp add: rn_initialize_def del: put32s.simps)
qed

lemma keepalive_replies:
  assumes "132 \<le> length b"
  shows "\<exists>b'. rn_keepalive i b = Some (i\<lparr>ResponseReady := True, MessageBuffer := Some b'\<rparr>) \<and> rn_reply REMOTE_NDIS_KEEPALIVE_MSG b b'"
proof -
  let ?v = "[REMOTE_NDIS_KEEPALIVE_CMPLT, 16]"
  from put32s_total [of 0 ?v b] assms obtain c where c: "put32s b 0 ?v = Some c" "length c = length b"
    "\<And>k. 8 \<le> k \<Longrightarrow> get32 c k = get32 b k" "\<forall>j < 2. get32 c (4 * j) = Some (?v ! j)" by auto
  from get32_total [of 8 c] assms c(2) obtain r where r: "get32 c 8 = Some r" by auto
  let ?w = "[r, REMOTE_NDIS_STATUS_SUCCESS]"
  from put32s_total [of 8 ?w c] assms c(2) obtain d where d: "put32s c 8 ?w = Some d" "length d = length b"
    "\<And>k. k + 4 \<le> 8 \<Longrightarrow> get32 d k = get32 c k" "\<forall>j < 2. get32 d (8 + 4 * j) = Some (?w ! j)" by auto
  from c(4) have "get32 c 0 = Some REMOTE_NDIS_KEEPALIVE_CMPLT" "get32 c 4 = Some 16"
    by (auto dest: spec [of _ 0] spec [of _ 1])
  with d(2,3) d(4) [rule_format, of 0] r c(3) [of 8] assms have "rn_reply REMOTE_NDIS_KEEPALIVE_MSG b d"
    by (simp add: rn_reply_def)
  with c(1) r d(1) show ?thesis by (intro exI [of _ d]) (simp add: rn_keepalive_def del: put32s.simps)
qed

lemma reset_replies:
  assumes "132 \<le> length b"
  shows "\<exists>b'. rn_reset i b = Some (i\<lparr>ResponseReady := True, MessageBuffer := Some b'\<rparr>) \<and> rn_reply REMOTE_NDIS_RESET_MSG b b'"
proof -
  let ?v = "[REMOTE_NDIS_RESET_CMPLT, 16, REMOTE_NDIS_STATUS_SUCCESS, 0]"
  from put32s_total [of 0 ?v b] assms obtain c where c: "put32s b 0 ?v = Some c" "length c = length b"
    "\<forall>j < 4. get32 c (4 * j) = Some (?v ! j)" by auto
  from c(3) have "get32 c 0 = Some REMOTE_NDIS_RESET_CMPLT" "get32 c 4 = Some 16"
    by (auto dest: spec [of _ 0] spec [of _ 1])
  with c(2) assms have "rn_reply REMOTE_NDIS_RESET_MSG b c" by (simp add: rn_reply_def)
  with c(1) show ?thesis by (intro exI [of _ c]) (simp add: rn_reset_def del: put32s.simps)
qed

lemma set_replies:
  assumes "132 \<le> length b"
    and "get32 b off_Oid = Some OID_GEN_CURRENT_PACKET_FILTER \<longrightarrow> (\<exists>off. get32 b off_InfoOffset = Some off \<and> unat (8 + off) + 4 \<le> length b)"
  shows "\<exists>b' i'. rn_set i b = Some (i'\<lparr>ResponseReady := True, MessageBuffer := Some b'\<rparr>) \<and> rn_reply REMOTE_NDIS_SET_MSG b b' \<and>
    (i' = i \<or> (\<exists>f. i' = i\<lparr>CurrPacketFilter := f, CurrRNDISState := if f \<noteq> 0 then RNDIS_Data_Initialized else RNDIS_Initialized\<rparr>))"
proof -
  let ?v = "[REMOTE_NDIS_SET_CMPLT, 16]"
  from get32_total [of 12 b] assms obtain oid where oid: "get32 b 12 = Some oid" by auto
  from put32s_total [of 0 ?v b] assms obtain c where c: "put32s b 0 ?v = Some c" "length c = length b"
    "\<And>k. 8 \<le> k \<Longrightarrow> get32 c k = get32 b k" "\<forall>j < 2. get32 c (4 * j) = Some (?v ! j)" by auto
  from get32_total [of 8 c] assms c(2) obtain r where r: "get32 c 8 = Some r" by auto
  from put32_total [of 8 c r] assms c(2) obtain d where d: "put32 c 8 r = Some d" by auto
  note ld = put32_length [OF d] c(2)
  from get32_total [of 20 d] assms ld obtain off where off: "get32 d 20 = Some off" by auto
  then have off_b: "get32 b 20 = Some off" using get32_put32_other [OF d, of 20] c(3) [of 20] by simp
  have "\<exists>ok i'. RNDIS_Device_ProcessNDISSet (i\<lparr>ResponseReady := True\<rparr>) oid d (unat (8 + off)) = Some (ok, i'\<lparr>ResponseReady := True\<rparr>) \<and>
      (i' = i \<or> (\<exists>f. i' = i\<lparr>CurrPacketFilter := f, CurrRNDISState := if f \<noteq> 0 then RNDIS_Data_Initialized else RNDIS_Initialized\<rparr>))"
  proof (cases "oid = OID_GEN_CURRENT_PACKET_FILTER")
    case True
    with assms(2) oid off_b ld get32_total [of "unat (8 + off)" d] obtain f where "get32 d (unat (8 + off)) = Some f" by auto
    with True show ?thesis unfolding RNDIS_Device_ProcessNDISSet_def
      by (intro exI [of _ True] exI [of _ "i\<lparr>CurrPacketFilter := f, CurrRNDISState := if f \<noteq> 0 then RNDIS_Data_Initialized else RNDIS_Initialized\<rparr>"]) auto
  next
    case False
    then show ?thesis by (auto simp: RNDIS_Device_ProcessNDISSet_def)
  qed
  then obtain ok i' where i': "RNDIS_Device_ProcessNDISSet (i\<lparr>ResponseReady := True\<rparr>) oid d (unat (8 + off)) = Some (ok, i'\<lparr>ResponseReady := True\<rparr>)"
    "i' = i \<or> (\<exists>f. i' = i\<lparr>CurrPacketFilter := f, CurrRNDISState := if f \<noteq> 0 then RNDIS_Data_Initialized else RNDIS_Initialized\<rparr>)" by blast
  from put32_total [of 12 d "if ok then REMOTE_NDIS_STATUS_SUCCESS else REMOTE_NDIS_STATUS_NOT_SUPPORTED"] assms ld obtain e where
    e: "put32 d 12 (if ok then REMOTE_NDIS_STATUS_SUCCESS else REMOTE_NDIS_STATUS_NOT_SUPPORTED) = Some e" by auto
  from c(4) have "get32 c 0 = Some REMOTE_NDIS_SET_CMPLT" "get32 c 4 = Some 16"
    by (auto dest: spec [of _ 0] spec [of _ 1])
  then have "rn_reply REMOTE_NDIS_SET_MSG b e"
    using get32_put32_other [OF e] get32_put32_other [OF d] get32_put32 [OF d, of 8] r c(3) [of 8] put32_length [OF e] ld assms
    by (simp add: rn_reply_def)
  moreover have "rn_set i b = Some (i'\<lparr>ResponseReady := True, MessageBuffer := Some e\<rparr>)"
    using oid c(1) r d off i'(1) e by (simp add: rn_set_def)
  ultimately show ?thesis using i'(2) by blast
qed

text \<open>The response of a query stays behind the header of the response and inside the buffer.\<close>

lemma put_behind:
  assumes "24 + length vs \<le> length b"
  shows "\<exists>c. put_at b 24 vs = Some c \<and> length c = length b \<and> (\<forall>k. k + 4 \<le> 24 \<longrightarrow> get32 c k = get32 b k)"
  using put_at_total [OF assms] get32_put_at put_at_SomeD(1) by blast

lemma query_inside:
  assumes wf: "length (AdapterMACAddress i) = 6" "0 \<in> set (AdapterVendorDescription i)" "132 \<le> length b" "length b < 2 ^ 16"
    "24 + length (takeWhile (\<lambda>c. c \<noteq> 0) (AdapterVendorDescription i)) < length b"
  shows "\<exists>r. RNDIS_Device_ProcessNDISQuery i OId b 24 = Some r \<and>
    (\<forall>n c. r = Some (n, c) \<longrightarrow> length c = length b \<and> 24 + unat n \<le> length b \<and> (\<forall>k. k + 4 \<le> 24 \<longrightarrow> get32 c k = get32 b k))"
proof -
  let ?l = "length (takeWhile (\<lambda>c. c \<noteq> 0) (AdapterVendorDescription i))"
  have l: "unat (of_nat ?l + 1 :: u16) = ?l + 1"
  proof -
    have "of_nat ?l + 1 = (of_nat (?l + 1) :: u16)" by simp
    also have "unat \<dots> = ?l + 1" using wf(4,5) unfolding unsigned_of_nat by (simp add: take_bit_nat_eq_self)
    finally show ?thesis .
  qed
  consider "OId = OID_GEN_SUPPORTED_LIST" | "OId = OID_GEN_VENDOR_DESCRIPTION" "OId \<noteq> OID_GEN_SUPPORTED_LIST"
    | "OId = OID_802_3_PERMANENT_ADDRESS \<or> OId = OID_802_3_CURRENT_ADDRESS" "OId \<noteq> OID_GEN_SUPPORTED_LIST" "OId \<noteq> OID_GEN_VENDOR_DESCRIPTION"
    | "OId \<noteq> OID_GEN_SUPPORTED_LIST" "OId \<noteq> OID_GEN_VENDOR_DESCRIPTION" "\<not> (OId = OID_802_3_PERMANENT_ADDRESS \<or> OId = OID_802_3_CURRENT_ADDRESS)"
    by blast
  then show ?thesis
  proof cases
    case 1
    with put32s_total [of 24 AdapterSupportedOIDList b] wf(3) show ?thesis
      by (auto simp: RNDIS_Device_ProcessNDISQuery_def min_length)
  next
    case 2
    have "24 + length (take (?l + 1) (AdapterVendorDescription i)) \<le> length b" using wf(5) by simp
    from put_behind [OF this] obtain c where
      "put_at b 24 (take (?l + 1) (AdapterVendorDescription i)) = Some c" "length c = length b" "\<forall>k. k + 4 \<le> 24 \<longrightarrow> get32 c k = get32 b k"
      by blast
    with 2 wf(2,5) l show ?thesis by (simp add: RNDIS_Device_ProcessNDISQuery_def strlen_def)
  next
    case 3
    then show ?thesis using put_behind [of "AdapterMACAddress i" b] wf(1,3) by (auto simp: RNDIS_Device_ProcessNDISQuery_def)
  next
    case 4
    then show ?thesis
    proof (cases "ndis_word i OId")
      case (Some v)
      then show ?thesis using 4 put_behind [of "bytes32 v" b] wf(3) by (auto simp: RNDIS_Device_ProcessNDISQuery_def put32_def)
    qed (simp add: RNDIS_Device_ProcessNDISQuery_def)
  qed
qed

text \<open>Status, length and place of the information, in the order in which they are stored\<close>

lemma query_fields:
  assumes "24 \<le> length c"
  shows "\<exists>d. (do { b \<leftarrow> put32 c 12 st; b \<leftarrow> put32 b 4 n; b \<leftarrow> put32 b 16 l; put32 b 20 off }) = Some d \<and> length d = length c \<and>
    get32 d 0 = get32 c 0 \<and> get32 d 4 = Some n \<and> get32 d 8 = get32 c 8"
proof -
  from put32_total [of 12 c st] assms obtain d1 where 1: "put32 c 12 st = Some d1" by auto
  from put32_total [of 4 d1 n] put32_length [OF 1] assms obtain d2 where 2: "put32 d1 4 n = Some d2" by auto
  from put32_total [of 16 d2 l] put32_length [OF 1] put32_length [OF 2] assms obtain d3 where 3: "put32 d2 16 l = Some d3" by auto
  from put32_total [of 20 d3 off] put32_length [OF 1] put32_length [OF 2] put32_length [OF 3] assms obtain d where
    4: "put32 d3 20 off = Some d" by auto
  note other = get32_put32_other [OF 1] get32_put32_other [OF 2] get32_put32_other [OF 3] get32_put32_other [OF 4]
  show ?thesis using 1 2 3 4 other get32_put32 [OF 2, of 4] put32_length [OF 1] put32_length [OF 2] put32_length [OF 3] put32_length [OF 4]
    by simp
qed

lemma query_replies:
  assumes wf: "length (AdapterMACAddress i) = 6" "0 \<in> set (AdapterVendorDescription i)" "132 \<le> length b" "length b < 2 ^ 16"
    "24 + length (takeWhile (\<lambda>c. c \<noteq> 0) (AdapterVendorDescription i)) < length b"
  shows "\<exists>b'. rn_query i b = Some (i\<lparr>ResponseReady := True, MessageBuffer := Some b'\<rparr>) \<and> rn_reply REMOTE_NDIS_QUERY_MSG b b'"
proof -
  from get32_total [of 12 b] wf(3) obtain oid where oid: "get32 b 12 = Some oid" by auto
  from put32_total [of 0 b REMOTE_NDIS_QUERY_CMPLT] wf(3) obtain c where c: "put32 b 0 REMOTE_NDIS_QUERY_CMPLT = Some c" by auto
  note len = put32_length [OF c]
  from query_inside [of "i\<lparr>ResponseReady := True\<rparr>" c oid] wf len obtain r where
    r: "RNDIS_Device_ProcessNDISQuery (i\<lparr>ResponseReady := True\<rparr>) oid c 24 = Some r"
      "\<And>n d. r = Some (n, d) \<Longrightarrow> length d = length b \<and> 24 + unat n \<le> length b \<and> (\<forall>k. k + 4 \<le> 24 \<longrightarrow> get32 d k = get32 c k)" by auto
  have c0: "get32 c 0 = Some REMOTE_NDIS_QUERY_CMPLT" "get32 c 8 = get32 b 8"
    using get32_put32 [OF c, of 0] get32_put32_other [OF c, of 8] by simp_all
  show ?thesis
  proof (cases r)
    case None
    from query_fields [of c REMOTE_NDIS_STATUS_NOT_SUPPORTED 24 0 0] wf(3) len obtain d where
      d: "(do { b \<leftarrow> put32 c 12 REMOTE_NDIS_STATUS_NOT_SUPPORTED; b \<leftarrow> put32 b 4 24; b \<leftarrow> put32 b 16 0; put32 b 20 0 }) = Some d"
        "length d = length c" "get32 d 0 = get32 c 0" "get32 d 4 = Some 24" "get32 d 8 = get32 c 8" by auto
    have "rn_query i b = Some (i\<lparr>ResponseReady := True, MessageBuffer := Some d\<rparr>)"
      using oid c r(1) None d(1) by (simp add: rn_query_def)
    moreover have "rn_reply REMOTE_NDIS_QUERY_MSG b d"
      using d c0 len wf(3) by (simp add: rn_reply_def)
    ultimately show ?thesis by blast
  next
    case (Some p)
    obtain n e where p: "p = (n, e)" by (cases p)
    from r(2) [of n e] Some p have e: "length e = length b" "24 + unat n \<le> length b" "get32 e 0 = get32 c 0" "get32 e 8 = get32 c 8"
      by auto
    from query_fields [of e REMOTE_NDIS_STATUS_SUCCESS "ucast (24 + n)" "ucast n" 16] wf(3) e(1) obtain d where
      d: "(do { b \<leftarrow> put32 e 12 REMOTE_NDIS_STATUS_SUCCESS; b \<leftarrow> put32 b 4 (ucast (24 + n)); b \<leftarrow> put32 b 16 (ucast n); put32 b 20 16 }) = Some d"
        "length d = length e" "get32 d 0 = get32 e 0" "get32 d 4 = Some (ucast (24 + n))" "get32 d 8 = get32 e 8" by auto
    have "unat (ucast (24 + n) :: u32) = 24 + unat n"
      using e(2) wf(4) by (simp add: unsigned_ucast_eq unat_word_ariths take_bit_eq_mod)
    moreover have "rn_query i b = Some (i\<lparr>ResponseReady := True, MessageBuffer := Some d\<rparr>)"
      using oid c r(1) Some p d(1) by (simp add: rn_query_def)
    ultimately show ?thesis using d e c0 len by (auto simp: rn_reply_def)
  qed
qed

text \<open>The place of a new packet filter, chosen by the host, is inside the buffer\<close>

definition filter_inside :: "u8 list \<Rightarrow> bool" where
  "filter_inside b \<longleftrightarrow> (get32 b off_MessageType = Some REMOTE_NDIS_SET_MSG \<and> get32 b off_Oid = Some OID_GEN_CURRENT_PACKET_FILTER \<longrightarrow>
     (case get32 b off_InfoOffset of None \<Rightarrow> False | Some off \<Rightarrow> unat (8 + off) + 4 \<le> length b))"

lemma rn_wf_buffer:
  assumes "rn_wf i" "MessageBuffer i = Some b"
  shows "length (AdapterMACAddress i) = 6" "0 \<in> set (AdapterVendorDescription i)" "132 \<le> length b" "length b < 2 ^ 16"
    "24 + length (takeWhile (\<lambda>c. c \<noteq> 0) (AdapterVendorDescription i)) < length b"
    "CurrRNDISState i = RNDIS_Data_Initialized \<Longrightarrow> CurrPacketFilter i \<noteq> 0"
  using assms by (auto simp: rn_wf_def min_length)

text \<open>A new buffer of the same length, and a state that has a filter when it has data, are well formed.\<close>

lemma rn_wf_update:
  assumes "rn_wf i" "MessageBuffer i = Some b" "length b' = length b"
    "AdapterMACAddress i' = AdapterMACAddress i" "AdapterVendorDescription i' = AdapterVendorDescription i" "MessageBuffer i' = Some b'"
    "CurrRNDISState i' = RNDIS_Data_Initialized \<Longrightarrow> CurrPacketFilter i' \<noteq> 0"
  shows "rn_wf i'"
  using assms by (auto simp: rn_wf_def)

definition rn_answers :: "u32 set" where
  "rn_answers = {REMOTE_NDIS_INITIALIZE_MSG, REMOTE_NDIS_QUERY_MSG, REMOTE_NDIS_SET_MSG, REMOTE_NDIS_RESET_MSG, REMOTE_NDIS_KEEPALIVE_MSG}"

lemma halt_ok:
  assumes "132 \<le> length b"
  shows "\<exists>b'. rn_halt i b = Some (i\<lparr>ResponseReady := False, MessageBuffer := Some b', CurrRNDISState := RNDIS_Uninitialized\<rparr>) \<and> length b' = length b"
  using put32_total [of 4 b 0] put32_length [of b 4 0] assms by (auto simp: rn_halt_def)

text \<open>What a message of type \<open>t\<close> in the buffer \<open>b\<close> makes of the interface\<close>

definition rn_handled :: "u32 \<Rightarrow> USB_ClassInfo_RNDIS_Device \<Rightarrow> u8 list \<Rightarrow> USB_ClassInfo_RNDIS_Device \<Rightarrow> bool" where
  "rn_handled t i b i' \<longleftrightarrow> rn_wf i' \<and> (\<exists>b'. MessageBuffer i' = Some b' \<and> length b' = length b \<and>
     (if t \<in> rn_answers then rn_reply t b b' \<and> ResponseReady i'
      else if t = REMOTE_NDIS_HALT_MSG then \<not> ResponseReady i' \<and> CurrRNDISState i' = RNDIS_Uninitialized
      else i' = i))"

lemma answered:
  assumes "rn_wf i" "MessageBuffer i = Some b" "rn_reply t b b'" "t \<in> rn_answers" "ResponseReady i'"
    "AdapterMACAddress i' = AdapterMACAddress i" "AdapterVendorDescription i' = AdapterVendorDescription i" "MessageBuffer i' = Some b'"
    "CurrRNDISState i' = RNDIS_Data_Initialized \<Longrightarrow> CurrPacketFilter i' \<noteq> 0"
  shows "rn_handled t i b i'"
proof -
  from assms(3) have l: "length b' = length b" by (simp add: rn_reply_def)
  with assms(3-5,8) rn_wf_update [OF assms(1,2) l assms(6-9)] show ?thesis by (simp add: rn_handled_def)
qed

lemma dispatch:
  assumes "MessageBuffer i = Some b" "get32 b off_MessageType = Some t"
  shows "t = REMOTE_NDIS_INITIALIZE_MSG \<Longrightarrow> RNDIS_Device_ProcessRNDISControlMessage i = rn_initialize i b"
    "t = REMOTE_NDIS_HALT_MSG \<Longrightarrow> RNDIS_Device_ProcessRNDISControlMessage i = rn_halt i b"
    "t = REMOTE_NDIS_QUERY_MSG \<Longrightarrow> RNDIS_Device_ProcessRNDISControlMessage i = rn_query i b"
    "t = REMOTE_NDIS_SET_MSG \<Longrightarrow> RNDIS_Device_ProcessRNDISControlMessage i = rn_set i b"
    "t = REMOTE_NDIS_RESET_MSG \<Longrightarrow> RNDIS_Device_ProcessRNDISControlMessage i = rn_reset i b"
    "t = REMOTE_NDIS_KEEPALIVE_MSG \<Longrightarrow> RNDIS_Device_ProcessRNDISControlMessage i = rn_keepalive i b"
    "t \<notin> rn_answers \<Longrightarrow> t \<noteq> REMOTE_NDIS_HALT_MSG \<Longrightarrow> RNDIS_Device_ProcessRNDISControlMessage i = Some i"
  using assms by (auto simp: RNDIS_Device_ProcessRNDISControlMessage_def rn_answers_def)

lemma set_handled:
  assumes wf: "rn_wf i" and b: "MessageBuffer i = Some b" and t: "get32 b off_MessageType = Some REMOTE_NDIS_SET_MSG" and f: "filter_inside b"
  shows "\<exists>i'. rn_set i b = Some i' \<and> rn_handled REMOTE_NDIS_SET_MSG i b i'"
proof -
  from f t have "get32 b off_Oid = Some OID_GEN_CURRENT_PACKET_FILTER \<longrightarrow> (\<exists>off. get32 b off_InfoOffset = Some off \<and> unat (8 + off) + 4 \<le> length b)"
    by (auto simp: filter_inside_def split: option.splits)
  from set_replies [OF rn_wf_buffer(3) [OF wf b] this, of i] obtain b' i' where
    i': "rn_set i b = Some (i'\<lparr>ResponseReady := True, MessageBuffer := Some b'\<rparr>)" "rn_reply REMOTE_NDIS_SET_MSG b b'"
      "i' = i \<or> (\<exists>f. i' = i\<lparr>CurrPacketFilter := f, CurrRNDISState := if f \<noteq> 0 then RNDIS_Data_Initialized else RNDIS_Initialized\<rparr>)" by blast
  have "rn_handled REMOTE_NDIS_SET_MSG i b (i'\<lparr>ResponseReady := True, MessageBuffer := Some b'\<rparr>)"
    by (rule answered [OF wf b i'(2)]) (use i'(3) rn_wf_buffer(6) [OF wf b] in \<open>auto simp: rn_answers_def split: if_splits\<close>)
  with i'(1) show ?thesis by blast
qed

text \<open>
  Property C31. Every control message returns and keeps the interface well formed, so data is exchanged only under a
  packet filter. The messages that have a response get it into the shared buffer with the type of the request and the
  top bit, a length inside of the buffer and, except for a reset, the identifier of the request; the response is then
  marked ready. The host must place a new packet filter inside of the buffer, which the code does not check.
\<close>

theorem rndis_replies:
  assumes wf: "rn_wf i" and b: "MessageBuffer i = Some b" and t: "get32 b off_MessageType = Some t" and f: "filter_inside b"
  shows "\<exists>i'. RNDIS_Device_ProcessRNDISControlMessage i = Some i' \<and> rn_handled t i b i'"
proof -
  note buf = rn_wf_buffer [OF wf b]
  note ans = answered [OF wf b]
  consider "t = REMOTE_NDIS_INITIALIZE_MSG" | "t = REMOTE_NDIS_HALT_MSG" | "t = REMOTE_NDIS_QUERY_MSG" | "t = REMOTE_NDIS_SET_MSG"
    | "t = REMOTE_NDIS_RESET_MSG" | "t = REMOTE_NDIS_KEEPALIVE_MSG" | "t \<notin> rn_answers" "t \<noteq> REMOTE_NDIS_HALT_MSG"
    by (auto simp: rn_answers_def)
  then show ?thesis
  proof cases
    case 1
    from initialize_replies [OF buf(3), of i] dispatch(1) [OF b t 1] show ?thesis
      by (auto simp: 1 rn_answers_def intro!: ans)
  next
    case 2
    from halt_ok [OF buf(3), of i] obtain b' where
      b': "rn_halt i b = Some (i\<lparr>ResponseReady := False, MessageBuffer := Some b', CurrRNDISState := RNDIS_Uninitialized\<rparr>)" "length b' = length b"
      by blast
    have "rn_wf (i\<lparr>ResponseReady := False, MessageBuffer := Some b', CurrRNDISState := RNDIS_Uninitialized\<rparr>)"
      by (rule rn_wf_update [OF wf b b'(2)]) simp_all
    with b' dispatch(2) [OF b t 2] show ?thesis by (simp add: 2 rn_answers_def rn_handled_def)
  next
    case 3
    from query_replies [OF buf(1-5)] buf(6) dispatch(3) [OF b t 3] show ?thesis by (auto simp: 3 rn_answers_def intro!: ans)
  next
    case 4
    from set_handled [OF wf b t [unfolded 4] f] dispatch(4) [OF b t 4] show ?thesis by (simp add: 4)
  next
    case 5
    from reset_replies [OF buf(3), of i] buf(6) dispatch(5) [OF b t 5] show ?thesis by (auto simp: 5 rn_answers_def intro!: ans)
  next
    case 6
    from keepalive_replies [OF buf(3), of i] buf(6) dispatch(6) [OF b t 6] show ?thesis by (auto simp: 6 rn_answers_def intro!: ans)
  next
    case 7
    from wf b dispatch(7) [OF b t 7] 7 show ?thesis by (simp add: rn_handled_def)
  qed
qed

text \<open>A message that sets the packet filter to \<open>0x0F\<close>, in a buffer of the least length\<close>

definition filter_message :: "u8 list" where
  "filter_message = concat (map bytes32 [REMOTE_NDIS_SET_MSG, 32, 7, OID_GEN_CURRENT_PACKET_FILTER, 4, 20, 0, 0x0F]) @ replicate 100 0"

definition rn_interface :: "u8 list \<Rightarrow> RNDIS_States \<Rightarrow> u32 \<Rightarrow> USB_ClassInfo_RNDIS_Device" where
  "rn_interface b st f = \<lparr>rn_ControlInterfaceNumber = 0,
     rn_DataINEndpoint = \<lparr>ep_Address = 0x81, ep_Size = 64, ep_Type = 2, ep_Banks = 1\<rparr>,
     rn_DataOUTEndpoint = \<lparr>ep_Address = 0x02, ep_Size = 64, ep_Type = 2, ep_Banks = 1\<rparr>,
     rn_NotificationEndpoint = \<lparr>ep_Address = 0x83, ep_Size = 8, ep_Type = 3, ep_Banks = 1\<rparr>,
     AdapterVendorDescription = [0x4C, 0x55, 0x46, 0x41, 0], AdapterMACAddress = [2, 0, 2, 0, 2, 0],
     MessageBuffer = Some b, MessageBufferLength = of_nat (length b), ResponseReady = False, CurrRNDISState = st, CurrPacketFilter = f\<rparr>"

theorem rndis_replies_witness:
  "\<exists>i'. RNDIS_Device_ProcessRNDISControlMessage (rn_interface filter_message RNDIS_Initialized 0) = Some i' \<and>
    rn_handled REMOTE_NDIS_SET_MSG (rn_interface filter_message RNDIS_Initialized 0) filter_message i'"
proof (rule rndis_replies)
  have l: "length filter_message = 132" by code_simp
  show "rn_wf (rn_interface filter_message RNDIS_Initialized 0)" by (simp add: rn_wf_def rn_interface_def min_length l)
  show "MessageBuffer (rn_interface filter_message RNDIS_Initialized 0) = Some filter_message" by (simp add: rn_interface_def)
  show "get32 filter_message off_MessageType = Some REMOTE_NDIS_SET_MSG" by code_simp
  show "filter_inside filter_message" by code_simp
qed

section \<open>Packets\<close>

lemma touches_rn:
  fixes s t :: "'a rndis_dev_scheme"
  assumes "touches R s t"
  shows "RNDISInterfaceInfo t = RNDISInterfaceInfo s"
  using touches_more [OF assms] by (cases s; cases t; simp)

lemma usable_ready:
  assumes "configured_ready (hw s)" "CurrRNDISState (RNDISInterfaceInfo s) = RNDIS_Data_Initialized"
  shows "rn_usable s = (True, snd (rd GPIOR0 s))"
  using assms touches_rn [OF touches_rd, of GPIOR0 s] by (simp add: rn_usable_def configured_ready_def rd_def Let_def)

lemma packet_header_length: "length (packet_header n) = 44"
  by (simp add: packet_header_def)

lemma packet_header_data: "get32 (packet_header n) 12 = Some (ucast n)"
  by (simp add: packet_header_def get32_def bytes32_def)

lemma packet_sent:
  fixes s :: "'a rndis_dev_scheme"
  assumes "configured_ready (hw s)" "CurrRNDISState (RNDISInterfaceInfo s) = RNDIS_Data_Initialized" "unat n \<le> length Buffer"
  shows "\<exists>t. RNDIS_Device_SendPacket app Buffer n s = Some (ENDPOINT_RWSTREAM_NoError, t) \<and>
    wrote UEDATX t = wrote UEDATX s @ packet_header n @ take (unat n) Buffer"
proof -
  let ?s0 = "snd (rd GPIOR0 s)"
  let ?s = "Endpoint_SelectEndpoint (ep_Address (rn_DataINEndpoint (RNDISInterfaceInfo ?s0))) ?s0"
  have s: "touches {UENUM} s ?s" by (intro touch touches_refl) simp
  from assms(1) touches_hw [OF s] have r: "banks_ready (hw ?s)" by (simp add: configured_ready_def)
  from wait_ready [OF this] obtain u where u: "Endpoint_WaitUntilReady ?s = Some (ENDPOINT_READYWAIT_NoError, u)" "touches {} ?s u"
    by (auto simp: glances_def)
  from r touches_hw [OF u(2)] have ru: "banks_ready (hw u)" by simp
  from write_ready [OF ru, of 44 "packet_header n" app] obtain v where
    v: "Endpoint_Write_Stream_LE app (packet_header n) 44 None u = Some (ENDPOINT_RWSTREAM_NoError, None, packet_header n, v)"
      "puts (map (Pair UEDATX) (packet_header n)) u v" by (auto simp: packet_header_length)
  from write_ready [of v n Buffer app] ru puts_hw [OF v(2)] assms(3) obtain w where
    w: "Endpoint_Write_Stream_LE app Buffer n None v = Some (ENDPOINT_RWSTREAM_NoError, None, Buffer, w)"
      "puts (map (Pair UEDATX) (take (unat n) Buffer)) v w" by auto
  let ?t = "Endpoint_ClearIN w"
  have t: "touches {UEINTX} w ?t" by (intro touch touches_refl) simp
  have "wrote UEDATX ?t = wrote UEDATX s @ packet_header n @ take (unat n) Buffer"
    using touches_wrote [OF t, of UEDATX] puts_wrote [OF w(2), of UEDATX] puts_wrote [OF v(2), of UEDATX]
      touches_wrote [OF u(2), of UEDATX] touches_wrote [OF s, of UEDATX] by (simp add: comp_def)
  moreover have "RNDIS_Device_SendPacket app Buffer n s = Some (ENDPOINT_RWSTREAM_NoError, ?t)"
    using u(1) v(1) w(1) by (simp add: RNDIS_Device_SendPacket_def usable_ready [OF assms(1,2)])
  ultimately show ?thesis by blast
qed

lemma packet_read:
  fixes s :: "'a rndis_dev_scheme"
  assumes "configured_ready (hw s)" "CurrRNDISState (RNDISInterfaceInfo s) = RNDIS_Data_Initialized" "length junk = 44"
    "unat n \<le> ETHERNET_FRAME_SIZE_MAX" "unat n \<le> length Buffer" "length packet = unat n"
    "host_sends (hw s) (length (was_read UEDATX s)) (packet_header n @ packet)"
  shows "\<exists>t. RNDIS_Device_ReadPacket app junk Buffer s =
    Some (Rw ENDPOINT_RWSTREAM_NoError, Some n, packet @ drop (unat n) Buffer, t)"
proof -
  let ?s0 = "snd (rd GPIOR0 s)"
  let ?r = "Endpoint_IsOUTReceived (Endpoint_SelectEndpoint (ep_Address (rn_DataOUTEndpoint (RNDISInterfaceInfo ?s0))) ?s0)"
  have s: "touches {UENUM} s (snd ?r)" by (intro touch touches_refl) simp
  have rd: "was_read UEDATX (snd ?r) = was_read UEDATX s" by (simp add: Endpoint_IsOUTReceived_def Endpoint_SelectEndpoint_def)
  have r: "fst ?r" using assms(1)
    by (simp add: configured_ready_def banks_ready_def Endpoint_IsOUTReceived_def tst_fst Endpoint_SelectEndpoint_def rd_def Let_def)
  have b: "banks_ready (hw (snd ?r))" using assms(1) touches_hw [OF s] by (simp add: configured_ready_def)
  from host_sends_append [OF assms(7)] touches_hw [OF s] have h: "host_sends (hw (snd ?r)) (length (was_read UEDATX (snd ?r))) (packet_header n)"
    "host_sends (hw s) (length (was_read UEDATX s) + 44) packet" by (simp_all add: rd packet_header_length)
  from read_sent [OF b _ h(1), of 44 junk app] assms(3) obtain u where
    u: "Endpoint_Read_Stream_LE app junk 44 None (snd ?r) = Some (ENDPOINT_RWSTREAM_NoError, None, packet_header n, u)"
      "length (was_read UEDATX u) = length (was_read UEDATX s) + 44" "touches {} (snd ?r) u" by (auto simp: packet_header_length rd)
  have "banks_ready (hw u)" "host_sends (hw u) (length (was_read UEDATX u)) packet"
    using b h(2) touches_hw [OF u(3)] touches_hw [OF s] u(2) by simp_all
  from read_sent [OF this(1) assms(5) this(2) assms(6), of app] obtain t where
    t: "Endpoint_Read_Stream_LE app Buffer n None u = Some (ENDPOINT_RWSTREAM_NoError, None, packet @ drop (unat n) Buffer, t)" by blast
  have "unat n < 2 ^ 32" using assms(4) by simp
  then have "unat (ucast n :: u32) = unat n" by (simp add: unsigned_ucast_eq take_bit_nat_eq_self)
  then have "\<not> 1500 < (ucast n :: u32)" using assms(4) by (simp add: word_less_nat_alt)
  moreover have "(ucast (ucast n :: u32) :: u16) = n" by (auto simp: bit_eq_iff bit_simps)
  ultimately show ?thesis using r u(1) t packet_header_data [of n]
    by (simp add: RNDIS_Device_ReadPacket_def usable_ready [OF assms(1,2)] split_beta Let_def)
qed


definition rn_at :: "(acc list \<Rightarrow> reg \<Rightarrow> u8) \<Rightarrow> rndis_dev" where
  "rn_at H = dev.extend (dev_at H \<lparr>bmRequestType = 0, bRequest = 0, wValue = 0, wIndex = 0, wLength = 0\<rparr>)
     (rndis_dev.fields (rn_interface filter_message RNDIS_Data_Initialized 0x0F))"

lemma rn_at_simps [simp]:
  "hw (rn_at H) = H" "log (rn_at H) = []" "CurrRNDISState (RNDISInterfaceInfo (rn_at H)) = RNDIS_Data_Initialized"
  by (simp_all add: rn_at_def rn_interface_def dev_at_def dev.defs rndis_dev.defs)


end
