(* ===== verification/MIDI_Class.thy ===== *)
theory MIDI_Class
  imports Class_Common
begin

text \<open>
  The MIDI class of a device: \<open>MIDIClassDevice.h\<close>, \<open>MIDIClassDevice.c\<close> and the event packet of
  \<open>MIDIClassCommon.h\<close> under \<open>src/AT16u2/LUFA/Drivers/USB/Class\<close>. Events are sent and received in packets of four
  bytes; a packet that was sent and is delivered at the other end is received unchanged.
\<close>

section \<open>State\<close>

record MIDI_EventPacket =
  Event :: u8
  Data1 :: u8
  Data2 :: u8
  Data3 :: u8

record USB_ClassInfo_MIDI_Device =
  midi_StreamingInterfaceNumber :: u8
  midi_DataINEndpoint :: USB_Endpoint_Table
  midi_DataOUTEndpoint :: USB_Endpoint_Table
  midi_RESERVED :: u8

record midi_dev = dev +
  MIDIInterfaceInfo :: USB_ClassInfo_MIDI_Device

definition set_midi :: "(USB_ClassInfo_MIDI_Device \<Rightarrow> USB_ClassInfo_MIDI_Device) \<Rightarrow> 'a midi_dev_scheme \<Rightarrow> 'a midi_dev_scheme" where
  "set_midi f s = s\<lparr>MIDIInterfaceInfo := f (MIDIInterfaceInfo s)\<rparr>"

text \<open>The packet as the four bytes of the structure, and back\<close>

definition event_bytes :: "MIDI_EventPacket \<Rightarrow> u8 list" where
  "event_bytes e = [Event e, Data1 e, Data2 e, Data3 e]"

definition event_of :: "u8 list \<Rightarrow> MIDI_EventPacket" where
  "event_of b = \<lparr>Event = b ! 0, Data1 = b ! 1, Data2 = b ! 2, Data3 = b ! 3\<rparr>"

lemma event_of_bytes [simp]: "event_of (event_bytes e) = e" "length (event_bytes e) = 4"
  by (simp_all add: event_of_def event_bytes_def)

section \<open>Operations\<close>

definition MIDI_Device_ConfigureEndpoints :: "'a midi_dev_scheme \<Rightarrow> (bool \<times> 'a midi_dev_scheme) option" where
  "MIDI_Device_ConfigureEndpoints s = do {
     let s = set_midi (\<lambda>i. i\<lparr>midi_RESERVED := 0,
       midi_DataINEndpoint := (midi_DataINEndpoint i)\<lparr>ep_Type := EP_TYPE_BULK\<rparr>,
       midi_DataOUTEndpoint := (midi_DataOUTEndpoint i)\<lparr>ep_Type := EP_TYPE_BULK\<rparr>\<rparr>) s;
     (ok, s) \<leftarrow> Endpoint_ConfigureEndpointTable [midi_DataINEndpoint (MIDIInterfaceInfo s)] s;
     if \<not> ok then Some (False, s)
     else Endpoint_ConfigureEndpointTable [midi_DataOUTEndpoint (MIDIInterfaceInfo s)] s }"

definition MIDI_Device_Flush :: "'a midi_dev_scheme \<Rightarrow> (rwstream \<times> 'a midi_dev_scheme) option" where
  "MIDI_Device_Flush s =
     (let (st, s) = rd GPIOR0 s
      in if st \<noteq> DEVICE_STATE_Configured then Some (ENDPOINT_RWSTREAM_DeviceDisconnected, s)
         else let s = Endpoint_SelectEndpoint (ep_Address (midi_DataINEndpoint (MIDIInterfaceInfo s))) s;
                  (n, s) = Endpoint_BytesInEndpoint s
         in if n \<noteq> 0
            then do { (e, s) \<leftarrow> Endpoint_WaitUntilReady (Endpoint_ClearIN s); Some (rw_code e, s) }
            else Some (ENDPOINT_RWSTREAM_NoError, s))"

definition MIDI_Device_USBTask :: "'a midi_dev_scheme \<Rightarrow> 'a midi_dev_scheme option" where
  "MIDI_Device_USBTask s =
     (let (st, s) = rd GPIOR0 s
      in if st \<noteq> DEVICE_STATE_Configured then Some s
         else let (ready, s) = Endpoint_IsINReady (Endpoint_SelectEndpoint (ep_Address (midi_DataINEndpoint (MIDIInterfaceInfo s))) s)
         in if ready then do { (_, s) \<leftarrow> MIDI_Device_Flush s; Some s } else Some s)"

definition MIDI_Device_SendEventPacket :: "'a midi_dev_scheme application \<Rightarrow> MIDI_EventPacket \<Rightarrow> 'a midi_dev_scheme \<Rightarrow>
    (rwstream \<times> 'a midi_dev_scheme) option" where
  "MIDI_Device_SendEventPacket app ev s =
     (let (st, s) = rd GPIOR0 s
      in if st \<noteq> DEVICE_STATE_Configured then Some (ENDPOINT_RWSTREAM_DeviceDisconnected, s)
         else do {
           let s = Endpoint_SelectEndpoint (ep_Address (midi_DataINEndpoint (MIDIInterfaceInfo s))) s;
           (e, _, _, s) \<leftarrow> Endpoint_Write_Stream_LE app (event_bytes ev) 4 None s;
           if e \<noteq> ENDPOINT_RWSTREAM_NoError then Some (e, s)
           else let (allowed, s) = Endpoint_IsReadWriteAllowed s
             in Some (ENDPOINT_RWSTREAM_NoError, if \<not> allowed then Endpoint_ClearIN s else s) })"

definition MIDI_Device_ReceiveEventPacket :: "'a midi_dev_scheme application \<Rightarrow> MIDI_EventPacket \<Rightarrow> 'a midi_dev_scheme \<Rightarrow>
    (bool \<times> MIDI_EventPacket \<times> 'a midi_dev_scheme) option" where
  "MIDI_Device_ReceiveEventPacket app ev s =
     (let (st, s) = rd GPIOR0 s
      in if st \<noteq> DEVICE_STATE_Configured then Some (False, ev, s)
         else let (received, s) = Endpoint_IsOUTReceived (Endpoint_SelectEndpoint (ep_Address (midi_DataOUTEndpoint (MIDIInterfaceInfo s))) s)
         in if \<not> received then Some (False, ev, s)
            else let (allowed, s) = Endpoint_IsReadWriteAllowed s
            in if \<not> allowed then Some (False, ev, s)
               else do {
                 (_, _, b, s) \<leftarrow> Endpoint_Read_Stream_LE app (event_bytes ev) 4 None s;
                 let (allowed, s) = Endpoint_IsReadWriteAllowed s;
                 Some (True, event_of b, if \<not> allowed then Endpoint_ClearOUT s else s) })"

section \<open>Events make the round trip\<close>

lemma touches_midi:
  fixes s t :: "'a midi_dev_scheme"
  assumes "touches R s t"
  shows "MIDIInterfaceInfo t = MIDIInterfaceInfo s"
  using touches_more [OF assms] by (cases s; cases t; simp)

lemma event_sent:
  fixes s :: "'a midi_dev_scheme"
  assumes "configured_ready (hw s)"
  shows "\<exists>t. MIDI_Device_SendEventPacket app ev s = Some (ENDPOINT_RWSTREAM_NoError, t) \<and>
    wrote UEDATX t = wrote UEDATX s @ event_bytes ev \<and> MIDIInterfaceInfo t = MIDIInterfaceInfo s \<and> hw t = hw s"
proof -
  let ?s0 = "snd (rd GPIOR0 s)"
  let ?s = "Endpoint_SelectEndpoint (ep_Address (midi_DataINEndpoint (MIDIInterfaceInfo ?s0))) ?s0"
  have s: "touches {UENUM} s ?s" by (intro touch touches_refl) simp
  have "banks_ready (hw ?s)" using assms touches_hw [OF s] by (simp add: configured_ready_def)
  from write_ready [OF this, of 4 "event_bytes ev" app] obtain u where
    u: "Endpoint_Write_Stream_LE app (event_bytes ev) 4 None ?s = Some (ENDPOINT_RWSTREAM_NoError, None, event_bytes ev, u)"
      "puts (map (Pair UEDATX) (event_bytes ev)) ?s u" by auto
  let ?a = "Endpoint_IsReadWriteAllowed u"
  have allowed: "fst ?a" using assms touches_hw [OF s] puts_hw [OF u(2)]
    by (simp add: configured_ready_def banks_ready_def Endpoint_IsReadWriteAllowed_def tst_fst)
  have t: "touches {} u (snd ?a)" by (intro touch touches_refl)
  have "MIDI_Device_SendEventPacket app ev s = Some (ENDPOINT_RWSTREAM_NoError, snd ?a)"
    using u(1) allowed configured_state [OF assms] by (simp add: MIDI_Device_SendEventPacket_def split_beta Let_def)
  moreover have "wrote UEDATX (snd ?a) = wrote UEDATX s @ event_bytes ev"
    using touches_wrote [OF t, of UEDATX] puts_wrote [OF u(2), of UEDATX] touches_wrote [OF s, of UEDATX] by (simp add: comp_def)
  moreover have "MIDIInterfaceInfo u = MIDIInterfaceInfo ?s" using u(2) by (cases u; cases ?s; simp add: puts_def)
  ultimately show ?thesis using touches_midi [OF s] touches_midi [OF t] touches_hw [OF t] puts_hw [OF u(2)] touches_hw [OF s] by simp
qed

lemma event_received:
  fixes s :: "'a midi_dev_scheme"
  assumes "configured_ready (hw s)" "host_sends (hw s) (length (was_read UEDATX s)) (event_bytes ev)"
  shows "\<exists>t. MIDI_Device_ReceiveEventPacket app old s = Some (True, ev, t) \<and> hw t = hw s \<and>
    length (was_read UEDATX t) = length (was_read UEDATX s) + 4"
proof -
  let ?s0 = "snd (rd GPIOR0 s)"
  let ?r = "Endpoint_IsOUTReceived (Endpoint_SelectEndpoint (ep_Address (midi_DataOUTEndpoint (MIDIInterfaceInfo ?s0))) ?s0)"
  let ?a = "Endpoint_IsReadWriteAllowed (snd ?r)"
  have s: "touches {UENUM} s (snd ?a)" by (intro touch touches_refl) simp
  have rd: "was_read UEDATX (snd ?a) = was_read UEDATX s"
    by (simp add: Endpoint_IsOUTReceived_def Endpoint_SelectEndpoint_def Endpoint_IsReadWriteAllowed_def)
  have h: "hw (snd ?r) = hw s" by (rule touches_hw [of "{UENUM}"]) (intro touch touches_refl, simp)
  have r: "fst ?r" "fst ?a" using assms(1) h
    by (simp_all add: configured_ready_def banks_ready_def Endpoint_IsOUTReceived_def Endpoint_IsReadWriteAllowed_def tst_fst
      Endpoint_SelectEndpoint_def rd_def Let_def)
  have "banks_ready (hw (snd ?a))" "host_sends (hw (snd ?a)) (length (was_read UEDATX (snd ?a))) (event_bytes ev)"
    using assms touches_hw [OF s] rd by (simp_all add: configured_ready_def)
  from read_sent [OF this(1) _ this(2), of 4 "event_bytes old" app] obtain u where
    u: "Endpoint_Read_Stream_LE app (event_bytes old) 4 None (snd ?a) = Some (ENDPOINT_RWSTREAM_NoError, None, event_bytes ev, u)"
      "length (was_read UEDATX u) = length (was_read UEDATX s) + 4" "touches {} (snd ?a) u" by (auto simp: rd)
  let ?b = "Endpoint_IsReadWriteAllowed u"
  have "fst ?b" using assms(1) touches_hw [OF s] touches_hw [OF u(3)]
    by (simp add: configured_ready_def banks_ready_def Endpoint_IsReadWriteAllowed_def tst_fst)
  then have "MIDI_Device_ReceiveEventPacket app old s = Some (True, ev, snd ?b)"
    using r u(1) configured_state [OF assms(1)] by (simp add: MIDI_Device_ReceiveEventPacket_def split_beta Let_def)
  moreover have "hw (snd ?b) = hw u" by (rule touches_hw [of "{}"]) (intro touch touches_refl)
  moreover have "was_read UEDATX (snd ?b) = was_read UEDATX u" by (simp add: Endpoint_IsReadWriteAllowed_def)
  ultimately show ?thesis using u(2) touches_hw [OF u(3)] touches_hw [OF s] by auto
qed

text \<open>An application that sends a list of events, and one that receives as many\<close>

primrec send_events :: "'a midi_dev_scheme application \<Rightarrow> MIDI_EventPacket list \<Rightarrow> 'a midi_dev_scheme \<Rightarrow> 'a midi_dev_scheme option" where
  "send_events app [] s = Some s"
| "send_events app (e # es) s = do {
     (r, s) \<leftarrow> MIDI_Device_SendEventPacket app e s;
     if r \<noteq> ENDPOINT_RWSTREAM_NoError then None else send_events app es s }"

primrec receive_events :: "'a midi_dev_scheme application \<Rightarrow> MIDI_EventPacket \<Rightarrow> nat \<Rightarrow> 'a midi_dev_scheme \<Rightarrow>
    (MIDI_EventPacket list \<times> 'a midi_dev_scheme) option" where
  "receive_events app old 0 s = Some ([], s)"
| "receive_events app old (Suc n) s = do {
     (ok, e, s) \<leftarrow> MIDI_Device_ReceiveEventPacket app old s;
     if \<not> ok then None else do { (es, s) \<leftarrow> receive_events app e n s; Some (e # es, s) } }"

lemma events_sent:
  fixes s :: "'a midi_dev_scheme"
  shows "configured_ready (hw s) \<Longrightarrow> \<exists>t. send_events app es s = Some t \<and> wrote UEDATX t = wrote UEDATX s @ concat (map event_bytes es)"
proof (induction es arbitrary: s)
  case (Cons e es)
  from event_sent [OF Cons.prems, of app e] obtain t where
    t: "MIDI_Device_SendEventPacket app e s = Some (ENDPOINT_RWSTREAM_NoError, t)" "wrote UEDATX t = wrote UEDATX s @ event_bytes e" "hw t = hw s"
    by blast
  from Cons.IH [of t] Cons.prems t show ?case by auto
qed simp

lemma events_received:
  fixes s :: "'a midi_dev_scheme"
  shows "configured_ready (hw s) \<Longrightarrow> host_sends (hw s) (length (was_read UEDATX s)) (concat (map event_bytes es)) \<Longrightarrow>
    \<exists>t. receive_events app old (length es) s = Some (es, t)"
proof (induction es arbitrary: s old)
  case (Cons e es)
  from host_sends_append [of "hw s" _ "event_bytes e"] Cons.prems(2)
  have h: "host_sends (hw s) (length (was_read UEDATX s)) (event_bytes e)"
    "host_sends (hw s) (length (was_read UEDATX s) + 4) (concat (map event_bytes es))" by auto
  from event_received [OF Cons.prems(1) h(1), of app old] obtain t where
    t: "MIDI_Device_ReceiveEventPacket app old s = Some (True, e, t)" "hw t = hw s" "length (was_read UEDATX t) = length (was_read UEDATX s) + 4"
    by blast
  from Cons.IH [of t e] Cons.prems(1) h(2) t show ?case by auto
qed simp


definition midi_at :: "(acc list \<Rightarrow> reg \<Rightarrow> u8) \<Rightarrow> midi_dev" where
  "midi_at H = dev.extend (dev_at H \<lparr>bmRequestType = 0, bRequest = 0, wValue = 0, wIndex = 0, wLength = 0\<rparr>) (midi_dev.fields
     \<lparr>midi_StreamingInterfaceNumber = 1, midi_DataINEndpoint = \<lparr>ep_Address = 0x82, ep_Size = 64, ep_Type = 2, ep_Banks = 1\<rparr>,
      midi_DataOUTEndpoint = \<lparr>ep_Address = 0x01, ep_Size = 64, ep_Type = 2, ep_Banks = 1\<rparr>, midi_RESERVED = 0\<rparr>)"

lemma midi_at_simps [simp]: "hw (midi_at H) = H" "log (midi_at H) = []"
  by (simp_all add: midi_at_def dev_at_def dev.defs midi_dev.defs)

text \<open>A note switched on and off again\<close>

definition note_on :: MIDI_EventPacket where "note_on = \<lparr>Event = 0x09, Data1 = 0x90, Data2 = 60, Data3 = 64\<rparr>"
definition note_off :: MIDI_EventPacket where "note_off = \<lparr>Event = 0x08, Data1 = 0x80, Data2 = 60, Data3 = 64\<rparr>"


end
