(* ===== verification/Printer_Class.thy ===== *)
theory Printer_Class
  imports Class_Common
begin

text \<open>
  The printer class of a device: \<open>PrinterClassDevice.h\<close>, \<open>PrinterClassDevice.c\<close> and \<open>PrinterClassCommon.h\<close>
  under \<open>src/AT16u2/LUFA/Drivers/USB/Class\<close>. The event of a soft reset is a parameter.
\<close>

section \<open>State\<close>

record USB_ClassInfo_PRNT_Device =
  prnt_InterfaceNumber :: u8
  prnt_DataINEndpoint :: USB_Endpoint_Table
  prnt_DataOUTEndpoint :: USB_Endpoint_Table
  IEEE1284String :: "u8 list"
  PortStatus :: u8
  IsPrinterReset :: bool

record prnt_dev = dev +
  PRNTInterfaceInfo :: USB_ClassInfo_PRNT_Device

definition set_prnt :: "(USB_ClassInfo_PRNT_Device \<Rightarrow> USB_ClassInfo_PRNT_Device) \<Rightarrow> 'a prnt_dev_scheme \<Rightarrow> 'a prnt_dev_scheme" where
  "set_prnt f s = s\<lparr>PRNTInterfaceInfo := f (PRNTInterfaceInfo s)\<rparr>"

abbreviation PRNT_REQ_GetDeviceID :: u8 where "PRNT_REQ_GetDeviceID \<equiv> 0x00"
abbreviation PRNT_REQ_GetPortStatus :: u8 where "PRNT_REQ_GetPortStatus \<equiv> 0x01"
abbreviation PRNT_REQ_SoftReset :: u8 where "PRNT_REQ_SoftReset \<equiv> 0x02"
abbreviation PRNT_PORTSTATUS_NOTERROR :: u8 where "PRNT_PORTSTATUS_NOTERROR \<equiv> 0x08"
abbreviation PRNT_PORTSTATUS_SELECT :: u8 where "PRNT_PORTSTATUS_SELECT \<equiv> 0x10"

definition PRNT_Device_Event_Stub :: "'s \<Rightarrow> 's option" where
  "PRNT_Device_Event_Stub s = Some s"

section \<open>Control requests\<close>

text \<open>The waits for a free bank are the loop \<open>status_wait\<close>; \<open>False\<close> is the early return.\<close>

definition prnt_GetDeviceID :: "'a prnt_dev_scheme \<Rightarrow> 'a prnt_dev_scheme option" where
  "prnt_GetDeviceID s =
     (if bmRequestType (USB_ControlRequest s) = class_in
      then do {
        (ok, s) \<leftarrow> status_wait Endpoint_IsINReady (Endpoint_ClearSETUP s);
        if \<not> ok then Some s
        else do {
          let str = IEEE1284String (PRNTInterfaceInfo s);
          IEEEStringLen \<leftarrow> strlen str;
          let s = Endpoint_Write_16_BE IEEEStringLen s;
          (_, s) \<leftarrow> Endpoint_Write_Control_Stream_LE str IEEEStringLen s;
          Endpoint_ClearStatusStage s } }
      else Some s)"

definition prnt_GetPortStatus :: "'a prnt_dev_scheme \<Rightarrow> 'a prnt_dev_scheme option" where
  "prnt_GetPortStatus s =
     (if bmRequestType (USB_ControlRequest s) = class_in
      then do {
        (ok, s) \<leftarrow> status_wait Endpoint_IsINReady (Endpoint_ClearSETUP s);
        if \<not> ok then Some s
        else Endpoint_ClearStatusStage (Endpoint_Write_8 (PortStatus (PRNTInterfaceInfo s)) s) }
      else Some s)"

definition prnt_SoftReset :: "('a prnt_dev_scheme \<Rightarrow> 'a prnt_dev_scheme option) \<Rightarrow> 'a prnt_dev_scheme \<Rightarrow> 'a prnt_dev_scheme option" where
  "prnt_SoftReset ev s =
     (if bmRequestType (USB_ControlRequest s) = class_out
      then do {
        s \<leftarrow> Endpoint_ClearStatusStage (Endpoint_ClearSETUP s);
        ev (set_prnt (\<lambda>i. i\<lparr>IsPrinterReset := True\<rparr>) s) }
      else Some s)"

definition PRNT_Device_ProcessControlRequest :: "('a prnt_dev_scheme \<Rightarrow> 'a prnt_dev_scheme option) \<Rightarrow> 'a prnt_dev_scheme \<Rightarrow> 'a prnt_dev_scheme option" where
  "PRNT_Device_ProcessControlRequest ev s =
     (let (setup, s) = Endpoint_IsSETUPReceived s; q = USB_ControlRequest s
      in if \<not> setup then Some s
         else if wIndex q \<noteq> ucast (prnt_InterfaceNumber (PRNTInterfaceInfo s)) then Some s
         else if bRequest q = PRNT_REQ_GetDeviceID then prnt_GetDeviceID s
         else if bRequest q = PRNT_REQ_GetPortStatus then prnt_GetPortStatus s
         else if bRequest q = PRNT_REQ_SoftReset then prnt_SoftReset ev s
         else Some s)"

definition PRNT_Device_ConfigureEndpoints :: "'a prnt_dev_scheme \<Rightarrow> (bool \<times> 'a prnt_dev_scheme) option" where
  "PRNT_Device_ConfigureEndpoints s = do {
     let s = set_prnt (\<lambda>i. i\<lparr>PortStatus := PRNT_PORTSTATUS_NOTERROR OR PRNT_PORTSTATUS_SELECT, IsPrinterReset := False,
       prnt_DataINEndpoint := (prnt_DataINEndpoint i)\<lparr>ep_Type := EP_TYPE_BULK\<rparr>,
       prnt_DataOUTEndpoint := (prnt_DataOUTEndpoint i)\<lparr>ep_Type := EP_TYPE_BULK\<rparr>\<rparr>) s;
     (ok, s) \<leftarrow> Endpoint_ConfigureEndpointTable [prnt_DataINEndpoint (PRNTInterfaceInfo s)] s;
     if \<not> ok then Some (False, s)
     else Endpoint_ConfigureEndpointTable [prnt_DataOUTEndpoint (PRNTInterfaceInfo s)] s }"

section \<open>Data\<close>

definition prnt_select_in :: "'a prnt_dev_scheme \<Rightarrow> 'a prnt_dev_scheme" where
  "prnt_select_in s = Endpoint_SelectEndpoint (ep_Address (prnt_DataINEndpoint (PRNTInterfaceInfo s))) s"

definition prnt_select_out :: "'a prnt_dev_scheme \<Rightarrow> 'a prnt_dev_scheme" where
  "prnt_select_out s = Endpoint_SelectEndpoint (ep_Address (prnt_DataOUTEndpoint (PRNTInterfaceInfo s))) s"

definition PRNT_Device_Flush :: "'a prnt_dev_scheme \<Rightarrow> (rwstream \<times> 'a prnt_dev_scheme) option" where
  "PRNT_Device_Flush s =
     (let (st, s) = rd GPIOR0 s
      in if st \<noteq> DEVICE_STATE_Configured then Some (ENDPOINT_RWSTREAM_DeviceDisconnected, s)
         else let (n, s) = Endpoint_BytesInEndpoint (prnt_select_in s)
         in if n = 0 then Some (ENDPOINT_RWSTREAM_NoError, s)
            else let (allowed, s) = Endpoint_IsReadWriteAllowed s; s = Endpoint_ClearIN s
            in if \<not> allowed
               then do {
                 (e, s) \<leftarrow> Endpoint_WaitUntilReady s;
                 if e \<noteq> ENDPOINT_READYWAIT_NoError then Some (rw_code e, s)
                 else Some (ENDPOINT_RWSTREAM_NoError, Endpoint_ClearIN s) }
               else Some (ENDPOINT_RWSTREAM_NoError, s))"

definition prnt_reset :: "'a prnt_dev_scheme \<Rightarrow> 'a prnt_dev_scheme" where
  "prnt_reset s =
     (let s = Endpoint_ResetEndpoint (ep_Address (prnt_DataOUTEndpoint (PRNTInterfaceInfo s))) s;
          s = Endpoint_ResetEndpoint (ep_Address (prnt_DataINEndpoint (PRNTInterfaceInfo s))) s;
          s = prnt_select_out s;
          s = Endpoint_ClearStall s;
          s = Endpoint_ResetDataToggle s;
          s = prnt_select_in s;
          s = Endpoint_ClearStall s;
          s = Endpoint_ResetDataToggle s
      in set_prnt (\<lambda>i. i\<lparr>IsPrinterReset := False\<rparr>) s)"

definition PRNT_Device_USBTask :: "'a prnt_dev_scheme \<Rightarrow> 'a prnt_dev_scheme option" where
  "PRNT_Device_USBTask s =
     (let (st, s) = rd GPIOR0 s
      in if st \<noteq> DEVICE_STATE_Configured then Some s
         else do {
           let (ready, s) = Endpoint_IsINReady (prnt_select_in s);
           s \<leftarrow> (if ready then do { (_, s) \<leftarrow> PRNT_Device_Flush s; Some s } else Some s);
           Some (if IsPrinterReset (PRNTInterfaceInfo s) then prnt_reset s else s) })"

definition PRNT_Device_SendString :: "'a prnt_dev_scheme application \<Rightarrow> u8 list \<Rightarrow> 'a prnt_dev_scheme \<Rightarrow>
    (rwstream \<times> 'a prnt_dev_scheme) option" where
  "PRNT_Device_SendString app String s =
     (let (st, s) = rd GPIOR0 s
      in if st \<noteq> DEVICE_STATE_Configured then Some (ENDPOINT_RWSTREAM_DeviceDisconnected, s)
         else do {
           let s = prnt_select_in s;
           n \<leftarrow> strlen String;
           (e, _, _, s) \<leftarrow> Endpoint_Write_Stream_LE app String n None s;
           Some (e, s) })"

definition PRNT_Device_SendData :: "'a prnt_dev_scheme application \<Rightarrow> u8 list \<Rightarrow> u16 \<Rightarrow> 'a prnt_dev_scheme \<Rightarrow>
    (rwstream \<times> 'a prnt_dev_scheme) option" where
  "PRNT_Device_SendData app Buffer Length s =
     (let (st, s) = rd GPIOR0 s
      in if st \<noteq> DEVICE_STATE_Configured then Some (ENDPOINT_RWSTREAM_DeviceDisconnected, s)
         else do { (e, _, _, s) \<leftarrow> Endpoint_Write_Stream_LE app Buffer Length None (prnt_select_in s); Some (e, s) })"

definition PRNT_Device_SendByte :: "u8 \<Rightarrow> 'a prnt_dev_scheme \<Rightarrow> (rwstream \<times> 'a prnt_dev_scheme) option" where
  "PRNT_Device_SendByte Data s =
     (let (st, s) = rd GPIOR0 s
      in if st \<noteq> DEVICE_STATE_Configured then Some (ENDPOINT_RWSTREAM_DeviceDisconnected, s)
         else let (allowed, s) = Endpoint_IsReadWriteAllowed (prnt_select_in s)
         in do {
           (e, s) \<leftarrow> (if \<not> allowed then Endpoint_WaitUntilReady (Endpoint_ClearIN s) else Some (ENDPOINT_READYWAIT_NoError, s));
           if e \<noteq> ENDPOINT_READYWAIT_NoError then Some (rw_code e, s)
           else Some (ENDPOINT_RWSTREAM_NoError, Endpoint_Write_8 Data s) })"

definition PRNT_Device_BytesReceived :: "'a prnt_dev_scheme \<Rightarrow> u16 \<times> 'a prnt_dev_scheme" where
  "PRNT_Device_BytesReceived s =
     (let (st, s) = rd GPIOR0 s
      in if st \<noteq> DEVICE_STATE_Configured then (0, s)
         else let (received, s) = Endpoint_IsOUTReceived (prnt_select_out s)
         in if \<not> received then (0, s)
            else let (n, s) = Endpoint_BytesInEndpoint s
            in if n = 0 then (0, Endpoint_ClearOUT s) else Endpoint_BytesInEndpoint s)"

definition PRNT_Device_ReceiveByte :: "'a prnt_dev_scheme \<Rightarrow> int \<times> 'a prnt_dev_scheme" where
  "PRNT_Device_ReceiveByte s =
     (let (st, s) = rd GPIOR0 s
      in if st \<noteq> DEVICE_STATE_Configured then (- 1, s)
         else let (received, s) = Endpoint_IsOUTReceived (prnt_select_out s)
         in if \<not> received then (- 1, s)
            else let (n, s) = Endpoint_BytesInEndpoint s;
                     (ReceivedByte, s) = (if n \<noteq> 0 then let (v, s) = Endpoint_Read_8 s in (uint v, s) else (- 1, s));
                     (n, s) = Endpoint_BytesInEndpoint s
                 in (ReceivedByte, if n = 0 then Endpoint_ClearOUT s else s))"

definition PRNT_Device_putchar :: "u8 \<Rightarrow> 'a prnt_dev_scheme \<Rightarrow> (int \<times> 'a prnt_dev_scheme) option" where
  "PRNT_Device_putchar c s = do {
     (e, s) \<leftarrow> PRNT_Device_SendByte c s;
     Some (if e \<noteq> ENDPOINT_RWSTREAM_NoError then FDEV_ERR else 0, s) }"

definition PRNT_Device_getchar :: "'a prnt_dev_scheme \<Rightarrow> int \<times> 'a prnt_dev_scheme" where
  "PRNT_Device_getchar s =
     (let (ReceivedByte, s) = PRNT_Device_ReceiveByte s in (if ReceivedByte < 0 then FDEV_EOF else ReceivedByte, s))"

definition PRNT_Device_getchar_Blocking :: "'a prnt_dev_scheme application \<Rightarrow> 'a prnt_dev_scheme \<Rightarrow> (int \<times> 'a prnt_dev_scheme) option" where
  "PRNT_Device_getchar_Blocking app = poll_loop (\<lambda>s.
     let (ReceivedByte, s) = PRNT_Device_ReceiveByte s
     in if \<not> ReceivedByte < 0 then Some (Some ReceivedByte, s)
        else let (st, s) = rd GPIOR0 s
        in if st = DEVICE_STATE_Unattached then Some (Some FDEV_EOF, s)
           else do { s \<leftarrow> PRNT_Device_USBTask s; s \<leftarrow> USB_USBTask app s; Some (None, s) })"

definition PRNT_Device_CreateStream :: "file_ref \<Rightarrow> 'a prnt_dev_scheme stdio \<Rightarrow> 'a prnt_dev_scheme stdio" where
  "PRNT_Device_CreateStream Stream =
     set_file Stream \<lparr>fdev_put = PRNT_Device_putchar, fdev_get = (\<lambda>s. Some (PRNT_Device_getchar s))\<rparr>"

definition PRNT_Device_CreateBlockingStream :: "'a prnt_dev_scheme application \<Rightarrow> file_ref \<Rightarrow> 'a prnt_dev_scheme stdio \<Rightarrow> 'a prnt_dev_scheme stdio" where
  "PRNT_Device_CreateBlockingStream app Stream =
     set_file Stream \<lparr>fdev_put = PRNT_Device_putchar, fdev_get = PRNT_Device_getchar_Blocking app\<rparr>"

section \<open>Laws\<close>

lemma touches_prnt:
  fixes s t :: "'a prnt_dev_scheme"
  assumes "touches R s t"
  shows "PRNTInterfaceInfo t = PRNTInterfaceInfo s"
  using touches_more [OF assms] by (cases s; cases t; simp)

lemma prnt_select_touches [touch]:
  assumes "touches R s t" "UENUM \<in> R"
  shows "touches R s (prnt_select_in t)" "touches R s (prnt_select_out t)"
  using assms by (simp_all add: prnt_select_in_def prnt_select_out_def touch)

lemma prnt_SendByte_once:
  assumes "PRNT_Device_SendByte b s = Some (e, t)"
  shows "wrote UEDATX t = wrote UEDATX s @ (if e = ENDPOINT_RWSTREAM_NoError then [b] else [])"
proof (cases "fst (rd GPIOR0 s) = DEVICE_STATE_Configured")
  case False
  have "touches {} s (snd (rd GPIOR0 s))" by (intro touch touches_refl)
  with False assms touches_wrote [OF this, of UEDATX] show ?thesis by (simp add: PRNT_Device_SendByte_def split_beta Let_def)
next
  case True
  let ?u = "prnt_select_in (snd (rd GPIOR0 s))"
  have "touches {UENUM} s ?u" by (intro touch touches_refl) simp
  with bank_once [of ?u b e t] True assms touches_wrote [OF this, of UEDATX] show ?thesis
    by (simp add: PRNT_Device_SendByte_def split_beta Let_def cong: if_cong)
qed

interpretation prnt_sink: char_sink PRNT_Device_SendByte
  by unfold_locales (rule prnt_SendByte_once)

text \<open>A text sent byte by byte arrives as the prefix that was accepted.\<close>

lemma printer_text:
  assumes "send_all PRNT_Device_SendByte bs s = Some (n, t)"
  shows "n \<le> length bs \<and> wrote UEDATX t = wrote UEDATX s @ take n bs"
  using prnt_sink.send_all_prefix [OF assms] .

end
