(* ===== verification/Audio_Class.thy ===== *)
theory Audio_Class
  imports Class_Common
begin

text \<open>
  The audio class of a device: \<open>AudioClassDevice.h\<close>, \<open>AudioClassDevice.c\<close> and the requests of
  \<open>AudioClassCommon.h\<close> under \<open>src/AT16u2/LUFA/Drivers/USB/Class\<close>. The callbacks and the event of the application are
  parameters. A sample is the word of its bits; the code reads it as a signed number.
\<close>

section \<open>State\<close>

record USB_ClassInfo_Audio_Device =
  au_ControlInterfaceNumber :: u8
  au_StreamingInterfaceNumber :: u8
  au_DataINEndpoint :: USB_Endpoint_Table
  au_DataOUTEndpoint :: USB_Endpoint_Table
  InterfaceEnabled :: bool

record audio_dev = dev +
  AudioInterfaceInfo :: USB_ClassInfo_Audio_Device

text \<open>
  The callbacks get the property, the endpoint and control or the entity and parameter, and the length and the data,
  or nothing when the code passes null pointers; they may change length and data.
\<close>

record 's audio_callbacks =
  CALLBACK_Audio_Device_GetSetEndpointProperty :: "u8 \<Rightarrow> u8 \<Rightarrow> u8 \<Rightarrow> (u16 \<times> u8 list) option \<Rightarrow> 's \<Rightarrow> (bool \<times> (u16 \<times> u8 list) option \<times> 's) option"
  CALLBACK_Audio_Device_GetSetInterfaceProperty :: "u8 \<Rightarrow> u8 \<Rightarrow> u16 \<Rightarrow> (u16 \<times> u8 list) option \<Rightarrow> 's \<Rightarrow> (bool \<times> (u16 \<times> u8 list) option \<times> 's) option"
  EVENT_Audio_Device_StreamStartStop :: "'s \<Rightarrow> 's option"

definition Audio_Device_Event_Stub :: "'s \<Rightarrow> 's option" where
  "Audio_Device_Event_Stub s = Some s"

definition set_audio :: "(USB_ClassInfo_Audio_Device \<Rightarrow> USB_ClassInfo_Audio_Device) \<Rightarrow> 'a audio_dev_scheme \<Rightarrow> 'a audio_dev_scheme" where
  "set_audio f s = s\<lparr>AudioInterfaceInfo := f (AudioInterfaceInfo s)\<rparr>"

abbreviation EP_TYPE_ISOCHRONOUS :: u8 where "EP_TYPE_ISOCHRONOUS \<equiv> 1"
abbreviation REQ_SetInterface :: u8 where "REQ_SetInterface \<equiv> 11"
abbreviation AUDIO_REQ_SetCurrent :: u8 where "AUDIO_REQ_SetCurrent \<equiv> 0x01"
abbreviation AUDIO_REQ_SetMinimum :: u8 where "AUDIO_REQ_SetMinimum \<equiv> 0x02"
abbreviation AUDIO_REQ_SetMaximum :: u8 where "AUDIO_REQ_SetMaximum \<equiv> 0x03"
abbreviation AUDIO_REQ_SetResolution :: u8 where "AUDIO_REQ_SetResolution \<equiv> 0x04"
abbreviation AUDIO_REQ_GetCurrent :: u8 where "AUDIO_REQ_GetCurrent \<equiv> 0x81"
abbreviation AUDIO_REQ_GetMinimum :: u8 where "AUDIO_REQ_GetMinimum \<equiv> 0x82"
abbreviation AUDIO_REQ_GetMaximum :: u8 where "AUDIO_REQ_GetMaximum \<equiv> 0x83"
abbreviation AUDIO_REQ_GetResolution :: u8 where "AUDIO_REQ_GetResolution \<equiv> 0x84"
abbreviation AUDIO_REQ_GetStatus :: u8 where "AUDIO_REQ_GetStatus \<equiv> 0xFF"

section \<open>Control requests\<close>

text \<open>The request is for this interface or one of its endpoints; requests for the device pass.\<close>

definition audio_addressed :: "USB_ClassInfo_Audio_Device \<Rightarrow> USB_Request_Header \<Rightarrow> bool" where
  "audio_addressed i q =
     (let recipient = bmRequestType q AND CONTROL_REQTYPE_RECIPIENT; index = ucast (wIndex q AND 0xFF) :: u8
      in if recipient = REQREC_INTERFACE then index = au_ControlInterfaceNumber i \<or> index = au_StreamingInterfaceNumber i
         else if recipient = REQREC_ENDPOINT then index = ep_Address (au_DataINEndpoint i) \<or> index = ep_Address (au_DataOUTEndpoint i)
         else True)"

definition audio_SetInterface :: "'a audio_dev_scheme audio_callbacks \<Rightarrow> 'a audio_dev_scheme \<Rightarrow> 'a audio_dev_scheme option" where
  "audio_SetInterface cb s =
     (if bmRequestType (USB_ControlRequest s) = REQDIR_HOSTTODEVICE OR REQTYPE_STANDARD OR REQREC_INTERFACE
      then do {
        s \<leftarrow> Endpoint_ClearStatusStage (Endpoint_ClearSETUP s);
        EVENT_Audio_Device_StreamStartStop cb (set_audio (\<lambda>i. i\<lparr>InterfaceEnabled := wValue (USB_ControlRequest s) AND 0xFF \<noteq> 0\<rparr>) s) }
      else Some s)"

definition audio_GetStatus :: "'a audio_dev_scheme \<Rightarrow> 'a audio_dev_scheme option" where
  "audio_GetStatus s =
     (if bmRequestType (USB_ControlRequest s) = REQDIR_HOSTTODEVICE OR REQTYPE_CLASS OR REQREC_INTERFACE \<or>
         bmRequestType (USB_ControlRequest s) = REQDIR_HOSTTODEVICE OR REQTYPE_CLASS OR REQREC_ENDPOINT
      then Endpoint_ClearStatusStage (Endpoint_ClearSETUP s)
      else Some s)"

text \<open>
  The callback of the recipient with the fields of the request: for an endpoint its address and the control, for an
  interface the entity and the parameter; no callback for another recipient.
\<close>

definition audio_property :: "'a audio_dev_scheme audio_callbacks \<Rightarrow> USB_Request_Header \<Rightarrow>
    ((u16 \<times> u8 list) option \<Rightarrow> 'a audio_dev_scheme \<Rightarrow> (bool \<times> (u16 \<times> u8 list) option \<times> 'a audio_dev_scheme) option) option" where
  "audio_property cb q =
     (let recipient = bmRequestType q AND CONTROL_REQTYPE_RECIPIENT
      in if recipient = REQREC_ENDPOINT
         then Some (CALLBACK_Audio_Device_GetSetEndpointProperty cb (bRequest q) (ucast (wIndex q)) (ucast (drop_bit 8 (wValue q))))
         else if recipient = REQREC_INTERFACE
         then Some (CALLBACK_Audio_Device_GetSetInterfaceProperty cb (bRequest q) (ucast (drop_bit 8 (wIndex q))) (wValue q))
         else None)"

text \<open>The array \<open>Value\<close> on the stack is not initialised: \<open>junk\<close> is what it holds.\<close>

definition audio_set :: "'a audio_dev_scheme audio_callbacks \<Rightarrow> (nat \<Rightarrow> u8) \<Rightarrow> 'a audio_dev_scheme \<Rightarrow> 'a audio_dev_scheme option" where
  "audio_set cb junk s =
     (case audio_property cb (USB_ControlRequest s) of
        None \<Rightarrow> Some s
      | Some callback \<Rightarrow> do {
          (supported, _, s) \<leftarrow> callback None s;
          if \<not> supported then Some s
          else do {
            let ValueLength = wLength (USB_ControlRequest s);
            (_, Value, s) \<leftarrow> Endpoint_Read_Control_Stream_LE (map junk [0..<unat ValueLength]) ValueLength (Endpoint_ClearSETUP s);
            (_, _, s) \<leftarrow> callback (Some (ValueLength, Value)) (Endpoint_ClearIN s);
            Some s } })"

definition audio_get :: "'a audio_dev_scheme audio_callbacks \<Rightarrow> (nat \<Rightarrow> u8) \<Rightarrow> 'a audio_dev_scheme \<Rightarrow> 'a audio_dev_scheme option" where
  "audio_get cb junk s =
     (case audio_property cb (USB_ControlRequest s) of
        None \<Rightarrow> Some s
      | Some callback \<Rightarrow> do {
          let ValueLength = wLength (USB_ControlRequest s);
          (supported, data, s) \<leftarrow> callback (Some (ValueLength, map junk [0..<unat ValueLength])) s;
          if \<not> supported then Some s
          else do {
            (ValueLength, Value) \<leftarrow> data;
            (_, s) \<leftarrow> Endpoint_Write_Control_Stream_LE Value ValueLength (Endpoint_ClearSETUP s);
            Some (Endpoint_ClearOUT s) } })"

definition Audio_Device_ProcessControlRequest :: "'a audio_dev_scheme audio_callbacks \<Rightarrow> (nat \<Rightarrow> u8) \<Rightarrow> 'a audio_dev_scheme \<Rightarrow> 'a audio_dev_scheme option" where
  "Audio_Device_ProcessControlRequest cb junk s =
     (let (setup, s) = Endpoint_IsSETUPReceived s; q = USB_ControlRequest s
      in if \<not> setup then Some s
         else if \<not> audio_addressed (AudioInterfaceInfo s) q then Some s
         else if bRequest q = REQ_SetInterface then audio_SetInterface cb s
         else if bRequest q = AUDIO_REQ_GetStatus then audio_GetStatus s
         else if bRequest q \<in> {AUDIO_REQ_SetCurrent, AUDIO_REQ_SetMinimum, AUDIO_REQ_SetMaximum, AUDIO_REQ_SetResolution} then audio_set cb junk s
         else if bRequest q \<in> {AUDIO_REQ_GetCurrent, AUDIO_REQ_GetMinimum, AUDIO_REQ_GetMaximum, AUDIO_REQ_GetResolution} then audio_get cb junk s
         else Some s)"

definition Audio_Device_ConfigureEndpoints :: "'a audio_dev_scheme \<Rightarrow> (bool \<times> 'a audio_dev_scheme) option" where
  "Audio_Device_ConfigureEndpoints s = do {
     let s = set_audio (\<lambda>i. i\<lparr>InterfaceEnabled := False,
       au_DataINEndpoint := (au_DataINEndpoint i)\<lparr>ep_Type := EP_TYPE_ISOCHRONOUS\<rparr>,
       au_DataOUTEndpoint := (au_DataOUTEndpoint i)\<lparr>ep_Type := EP_TYPE_ISOCHRONOUS\<rparr>\<rparr>) s;
     (ok, s) \<leftarrow> Endpoint_ConfigureEndpointTable [au_DataINEndpoint (AudioInterfaceInfo s)] s;
     if \<not> ok then Some (False, s)
     else Endpoint_ConfigureEndpointTable [au_DataOUTEndpoint (AudioInterfaceInfo s)] s }"

section \<open>Samples\<close>

definition Audio_Device_USBTask :: "'a audio_dev_scheme \<Rightarrow> 'a audio_dev_scheme" where
  "Audio_Device_USBTask s = s"

definition Audio_Device_IsSampleReceived :: "'a audio_dev_scheme \<Rightarrow> bool \<times> 'a audio_dev_scheme" where
  "Audio_Device_IsSampleReceived s =
     (let (st, s) = rd GPIOR0 s
      in if st \<noteq> DEVICE_STATE_Configured \<or> \<not> InterfaceEnabled (AudioInterfaceInfo s) then (False, s)
         else Endpoint_IsOUTReceived (Endpoint_SelectEndpoint (ep_Address (au_DataOUTEndpoint (AudioInterfaceInfo s))) s))"

definition Audio_Device_IsReadyForNextSample :: "'a audio_dev_scheme \<Rightarrow> bool \<times> 'a audio_dev_scheme" where
  "Audio_Device_IsReadyForNextSample s =
     (let (st, s) = rd GPIOR0 s
      in if st \<noteq> DEVICE_STATE_Configured \<or> \<not> InterfaceEnabled (AudioInterfaceInfo s) then (False, s)
         else Endpoint_IsINReady (Endpoint_SelectEndpoint (ep_Address (au_DataINEndpoint (AudioInterfaceInfo s))) s))"

text \<open>The end of a read: an empty bank is released.\<close>

definition sample_read :: "'a audio_dev_scheme \<Rightarrow> 'a audio_dev_scheme" where
  "sample_read s = (let (n, s) = Endpoint_BytesInEndpoint s in if n = 0 then Endpoint_ClearOUT s else s)"

definition Audio_Device_ReadSample8 :: "'a audio_dev_scheme \<Rightarrow> u8 \<times> 'a audio_dev_scheme" where
  "Audio_Device_ReadSample8 s = (let (Sample, s) = Endpoint_Read_8 s in (Sample, sample_read s))"

definition Audio_Device_ReadSample16 :: "'a audio_dev_scheme \<Rightarrow> u16 \<times> 'a audio_dev_scheme" where
  "Audio_Device_ReadSample16 s = (let (Sample, s) = Endpoint_Read_16_LE s in (Sample, sample_read s))"

text \<open>
  C leaves open which operand of \<open>|\<close> is evaluated first: \<open>left_first\<close> is the choice of the compiler.
\<close>

definition Audio_Device_ReadSample24 :: "bool \<Rightarrow> 'a audio_dev_scheme \<Rightarrow> u32 \<times> 'a audio_dev_scheme" where
  "Audio_Device_ReadSample24 left_first s =
     (let (high, low, s) = (if left_first
        then let (h, s) = Endpoint_Read_8 s; (l, s) = Endpoint_Read_16_LE s in (h, l, s)
        else let (l, s) = Endpoint_Read_16_LE s; (h, s) = Endpoint_Read_8 s in (h, l, s))
      in (push_bit 16 (ucast high) OR ucast low, sample_read s))"

text \<open>The end of a write: a full bank is sent.\<close>

definition sample_written :: "'a audio_dev_scheme \<Rightarrow> 'a audio_dev_scheme" where
  "sample_written s = (let (n, s) = Endpoint_BytesInEndpoint s
     in if n = ep_Size (au_DataINEndpoint (AudioInterfaceInfo s)) then Endpoint_ClearIN s else s)"

definition Audio_Device_WriteSample8 :: "u8 \<Rightarrow> 'a audio_dev_scheme \<Rightarrow> 'a audio_dev_scheme" where
  "Audio_Device_WriteSample8 Sample s = sample_written (Endpoint_Write_8 Sample s)"

definition Audio_Device_WriteSample16 :: "u16 \<Rightarrow> 'a audio_dev_scheme \<Rightarrow> 'a audio_dev_scheme" where
  "Audio_Device_WriteSample16 Sample s = sample_written (Endpoint_Write_16_LE Sample s)"

definition Audio_Device_WriteSample24 :: "u32 \<Rightarrow> 'a audio_dev_scheme \<Rightarrow> 'a audio_dev_scheme" where
  "Audio_Device_WriteSample24 Sample s =
     sample_written (Endpoint_Write_8 (ucast (signed_drop_bit 16 Sample)) (Endpoint_Write_16_LE (ucast Sample) s))"

section \<open>Round trips\<close>

lemma wrote_sample_written: "wrote UEDATX (sample_written s) = wrote UEDATX s"
proof -
  have "touches {UEINTX} s (sample_written s)" unfolding sample_written_def Let_def split_beta by (intro touch touches_refl) simp
  then show ?thesis by (rule touches_wrote) simp
qed

text \<open>The bytes of a sample on the bus\<close>

lemma sample_bytes:
  "appended UEDATX (Audio_Device_WriteSample8 a) s = [a]" "appended UEDATX (Audio_Device_WriteSample16 b) s = bytes16 b"
  "appended UEDATX (Audio_Device_WriteSample24 c) s = bytes16 (ucast c) @ [ucast (signed_drop_bit 16 c)]"
  by (simp_all add: appended_def Audio_Device_WriteSample8_def Audio_Device_WriteSample16_def Audio_Device_WriteSample24_def
    wrote_sample_written Endpoint_Write_8_def Endpoint_Write_16_LE_def bytes16_def)

lemma bytes24_low:
  "push_bit 16 (ucast (ucast (signed_drop_bit 16 c) :: u8)) OR ucast (ucast c :: u16) = (c AND mask 24 :: u32)"
  by (rule bit_word_eqI) (auto simp: bit_simps)

lemma bytes24_mixed:
  "push_bit 16 (ucast (ucast (ucast c :: u16) :: u8)) OR ucast (word16 (ucast (drop_bit 8 (ucast c :: u16))) (ucast (signed_drop_bit 16 c))) =
   (push_bit 16 (c AND mask 8) OR drop_bit 8 (c AND mask 24) :: u32)"
  by (rule bit_word_eqI) (auto simp: bit_simps word16_def)

lemma sample24_small: "uint (push_bit 16 (ucast h) OR ucast l :: u32) < 2 ^ 24" for h :: u8 and l :: u16
proof -
  let ?v = "push_bit 16 (ucast h) OR ucast l :: u32"
  have "take_bit 24 ?v = ?v" by (rule bit_word_eqI) (auto simp: bit_simps dest: bit_imp_le_length)
  then have "uint ?v = take_bit 24 (uint ?v)" using unsigned_take_bit_eq [of 24 ?v, where 'a = int] by simp
  then show ?thesis using take_bit_int_less_exp [of 24 "uint ?v"] by (simp only:)
qed

lemma sample24_read:
  assumes "reads_as UEDATX (appended UEDATX (Audio_Device_WriteSample24 c) t) s"
  shows "fst (Audio_Device_ReadSample24 False s) = c AND mask 24"
    "fst (Audio_Device_ReadSample24 True s) = push_bit 16 (c AND mask 8) OR drop_bit 8 (c AND mask 24)"
proof -
  let ?s1 = "snd (rd UEDATX s)"
  from assms have r: "fst (rd UEDATX s) = ucast (ucast c :: u16)" "fst (rd UEDATX ?s1) = ucast (drop_bit 8 (ucast c :: u16))"
    "fst (rd UEDATX (snd (rd UEDATX ?s1))) = ucast (signed_drop_bit 16 c)"
    unfolding sample_bytes bytes16_def by simp_all
  have w: "word16 (ucast (ucast c :: u16)) (ucast (drop_bit 8 (ucast c :: u16))) = (ucast c :: u16)"
    by (rule bit_word_eqI) (auto simp: bit_simps word16_def)
  have "fst (Audio_Device_ReadSample24 False s) =
      push_bit 16 (ucast (fst (rd UEDATX (snd (rd UEDATX ?s1))))) OR ucast (word16 (fst (rd UEDATX s)) (fst (rd UEDATX ?s1)))"
    by (simp add: Audio_Device_ReadSample24_def Endpoint_Read_8_def Endpoint_Read_16_LE_def split_beta Let_def)
  then show "fst (Audio_Device_ReadSample24 False s) = c AND mask 24" unfolding r w bytes24_low .
  have "fst (Audio_Device_ReadSample24 True s) =
      push_bit 16 (ucast (fst (rd UEDATX s))) OR ucast (word16 (fst (rd UEDATX ?s1)) (fst (rd UEDATX (snd (rd UEDATX ?s1)))))"
    by (simp add: Audio_Device_ReadSample24_def Endpoint_Read_8_def Endpoint_Read_16_LE_def split_beta Let_def)
  then show "fst (Audio_Device_ReadSample24 True s) = push_bit 16 (c AND mask 8) OR drop_bit 8 (c AND mask 24)"
    unfolding r bytes24_mixed .
qed

text \<open>
  Property C36. Samples of 8 and 16 bits that were written and are delivered at the other end are read back unchanged.
  A sample of 24 bits is not: the reader returns a number between 0 and \<open>2\<^sup>2\<^sup>4\<close>, never a negative one,
  which is the lower 24 bits when the compiler evaluates the right operand first, and has its bytes exchanged when it
  evaluates the left operand first.
\<close>

theorem audio_samples:
  "(reads_as UEDATX (appended UEDATX (Audio_Device_WriteSample8 a) t) s \<longrightarrow> fst (Audio_Device_ReadSample8 s) = a) \<and>
   (reads_as UEDATX (appended UEDATX (Audio_Device_WriteSample16 b) t) s \<longrightarrow> fst (Audio_Device_ReadSample16 s) = b) \<and>
   (reads_as UEDATX (appended UEDATX (Audio_Device_WriteSample24 c) t) s \<longrightarrow>
     fst (Audio_Device_ReadSample24 False s) = c AND mask 24 \<and>
     fst (Audio_Device_ReadSample24 True s) = push_bit 16 (c AND mask 8) OR drop_bit 8 (c AND mask 24)) \<and>
   uint (fst (Audio_Device_ReadSample24 left_first s)) < 2 ^ 24"
proof -
  have "uint (fst (Audio_Device_ReadSample24 left_first s)) < 2 ^ 24"
    unfolding Audio_Device_ReadSample24_def Let_def split_beta fst_conv by (rule sample24_small)
  moreover have "reads_as UEDATX (appended UEDATX (Audio_Device_WriteSample8 a) t) s \<longrightarrow> fst (Audio_Device_ReadSample8 s) = a"
    unfolding sample_bytes by (simp add: Audio_Device_ReadSample8_def Endpoint_Read_8_def split_beta Let_def)
  moreover have "reads_as UEDATX (appended UEDATX (Audio_Device_WriteSample16 b) t) s \<longrightarrow> fst (Audio_Device_ReadSample16 s) = b"
    unfolding sample_bytes by (simp add: Audio_Device_ReadSample16_def Endpoint_Read_16_LE_def bytes16_def split_beta Let_def)
  ultimately show ?thesis using sample24_read by blast
qed

definition audio_at :: "(acc list \<Rightarrow> reg \<Rightarrow> u8) \<Rightarrow> audio_dev" where
  "audio_at H = dev.extend (dev_at H \<lparr>bmRequestType = 0, bRequest = 0, wValue = 0, wIndex = 0, wLength = 0\<rparr>) (audio_dev.fields
     \<lparr>au_ControlInterfaceNumber = 0, au_StreamingInterfaceNumber = 1,
      au_DataINEndpoint = \<lparr>ep_Address = 0x81, ep_Size = 64, ep_Type = 1, ep_Banks = 2\<rparr>,
      au_DataOUTEndpoint = \<lparr>ep_Address = 0x02, ep_Size = 64, ep_Type = 1, ep_Banks = 2\<rparr>, InterfaceEnabled = True\<rparr>)"

lemma audio_at_simps [simp]: "hw (audio_at H) = H" "log (audio_at H) = []"
  by (simp_all add: audio_at_def dev_at_def dev.defs audio_dev.defs)

text \<open>The sample \<open>-2\<close> is sent as the bytes \<open>FE FF FF\<close> and read as \<open>FFFFFE\<close> or \<open>FEFFFF\<close>.\<close>

theorem audio_samples_witness:
  "fst (Audio_Device_ReadSample24 False (audio_at (repeating_host [0xFE, 0xFF, 0xFF]))) = 0xFFFFFE \<and>
   fst (Audio_Device_ReadSample24 True (audio_at (repeating_host [0xFE, 0xFF, 0xFF]))) = 0xFEFFFF"
proof -
  let ?s = "audio_at (repeating_host [0xFE, 0xFF, 0xFF])"
  have b: "bytes16 (ucast (- 2 :: u32)) @ [ucast (signed_drop_bit 16 (- 2 :: u32))] = [0xFE, 0xFF, 0xFF]" by code_simp
  have "reads_as UEDATX (appended UEDATX (Audio_Device_WriteSample24 (- 2)) ?s) ?s"
    unfolding sample_bytes b by (simp add: rd_def repeating_host_def Let_def)
  with audio_samples [of 0 ?s ?s 0 "- 2"] have
    "fst (Audio_Device_ReadSample24 False ?s) = - 2 AND mask 24"
    "fst (Audio_Device_ReadSample24 True ?s) = push_bit 16 (- 2 AND mask 8) OR drop_bit 8 (- 2 AND mask 24)" by blast+
  moreover have "- 2 AND mask 24 = (0xFFFFFE :: u32)" "push_bit 16 (- 2 AND mask 8) OR drop_bit 8 (- 2 AND mask 24) = (0xFEFFFF :: u32)"
    by code_simp+
  ultimately show ?thesis by simp
qed

end
