(* ===== verification/Boot_Flash.thy ===== *)
theory Boot_Flash
  imports Class_Common
begin

text \<open>
  Self-programming of the flash memory, as the boot loaders under \<open>src/AT16u2/Bootloaders\<close> use it through
  \<open>avr/boot.h\<close>, \<open>avr/pgmspace.h\<close>, \<open>avr/eeprom.h\<close> and \<open>avr/wdt.h\<close>, on a controller with at most 64 KB of flash and
  pages of 128 bytes like the ATmega16U2. A page is erased to ones, loaded word by word into a page buffer and
  programmed, which can only clear bits and empties the buffer. While the section is busy, until
  \<open>boot_rww_enable\<close>, reading it is undefined, which is \<open>None\<close>.
\<close>

section \<open>Memories\<close>

abbreviation SPM_PAGESIZE :: nat where "SPM_PAGESIZE \<equiv> 128"

record boot_dev = dev +
  Flash :: "nat \<Rightarrow> u8"
  PageBuffer :: "nat \<Rightarrow> u16"
  RWWBusy :: bool
  EEPROM :: "nat \<Rightarrow> u8"
  MCUSR :: u8
  Watchdog :: bool
  MagicBootKey :: u16

definition page_no :: "nat \<Rightarrow> nat" where
  "page_no a = a div SPM_PAGESIZE"

text \<open>The byte of the page buffer for an address\<close>

definition buffer_byte :: "(nat \<Rightarrow> u16) \<Rightarrow> nat \<Rightarrow> u8" where
  "buffer_byte b a = (let w = b (a mod SPM_PAGESIZE div 2) in if even a then ucast w else ucast (drop_bit 8 w))"

definition boot_page_erase :: "nat \<Rightarrow> 'a boot_dev_scheme \<Rightarrow> 'a boot_dev_scheme" where
  "boot_page_erase a s = s\<lparr>Flash := (\<lambda>x. if page_no x = page_no a then 0xFF else Flash s x), RWWBusy := True\<rparr>"

definition boot_page_fill :: "nat \<Rightarrow> u16 \<Rightarrow> 'a boot_dev_scheme \<Rightarrow> 'a boot_dev_scheme" where
  "boot_page_fill a w s = s\<lparr>PageBuffer := (PageBuffer s)(a mod SPM_PAGESIZE div 2 := w)\<rparr>"

definition boot_page_write :: "nat \<Rightarrow> 'a boot_dev_scheme \<Rightarrow> 'a boot_dev_scheme" where
  "boot_page_write a s = s\<lparr>Flash := (\<lambda>x. if page_no x = page_no a then Flash s x AND buffer_byte (PageBuffer s) x else Flash s x),
     PageBuffer := (\<lambda>_. 0xFFFF), RWWBusy := True\<rparr>"

definition boot_rww_enable :: "'a boot_dev_scheme \<Rightarrow> 'a boot_dev_scheme" where
  "boot_rww_enable s = s\<lparr>RWWBusy := False\<rparr>"

definition pgm_read_byte :: "nat \<Rightarrow> 'a boot_dev_scheme \<Rightarrow> u8 option" where
  "pgm_read_byte a s = (if RWWBusy s then None else Some (Flash s a))"

definition pgm_read_word :: "nat \<Rightarrow> 'a boot_dev_scheme \<Rightarrow> u16 option" where
  "pgm_read_word a s = (if RWWBusy s then None else Some (word16 (Flash s a) (Flash s (a + 1))))"

text \<open>The address of a word on a controller with 64 KB: the upper half of a long address is dropped.\<close>

definition flash_addr :: "u32 \<Rightarrow> nat" where
  "flash_addr a = unat (ucast a :: u16)"

section \<open>Frames\<close>

lemma boot_simps [simp]:
  "hw (boot_page_erase a s) = hw s" "log (boot_page_erase a s) = log s" "was_read r (boot_page_erase a s) = was_read r s"
  "hw (boot_page_fill a w s) = hw s" "log (boot_page_fill a w s) = log s" "was_read r (boot_page_fill a w s) = was_read r s"
  "hw (boot_page_write a s) = hw s" "log (boot_page_write a s) = log s" "was_read r (boot_page_write a s) = was_read r s"
  "hw (boot_rww_enable s) = hw s" "log (boot_rww_enable s) = log s" "was_read r (boot_rww_enable s) = was_read r s"
  by (simp_all add: boot_page_erase_def boot_page_fill_def boot_page_write_def boot_rww_enable_def was_read_def)

lemma boot_mem [simp]:
  "Flash (boot_page_erase a s) = (\<lambda>x. if page_no x = page_no a then 0xFF else Flash s x)" "PageBuffer (boot_page_erase a s) = PageBuffer s"
  "Flash (boot_page_fill a w s) = Flash s" "PageBuffer (boot_page_fill a w s) = (PageBuffer s)(a mod SPM_PAGESIZE div 2 := w)"
  "Flash (boot_page_write a s) = (\<lambda>x. if page_no x = page_no a then Flash s x AND buffer_byte (PageBuffer s) x else Flash s x)"
  "PageBuffer (boot_page_write a s) = (\<lambda>_. 0xFFFF)" "Flash (boot_rww_enable s) = Flash s" "PageBuffer (boot_rww_enable s) = PageBuffer s"
  "RWWBusy (boot_page_fill a w s) = RWWBusy s" "RWWBusy (boot_rww_enable s) = False"
  "RWWBusy (boot_page_erase a s)" "RWWBusy (boot_page_write a s)"
  by (simp_all add: boot_page_erase_def boot_page_fill_def boot_page_write_def boot_rww_enable_def)

lemma boot_more:
  "boot_dev.more (boot_page_erase a s) = boot_dev.more s" "boot_dev.more (boot_page_fill a w s) = boot_dev.more s"
  "boot_dev.more (boot_page_write a s) = boot_dev.more s" "boot_dev.more (boot_rww_enable s) = boot_dev.more s"
  by (simp_all add: boot_page_erase_def boot_page_fill_def boot_page_write_def boot_rww_enable_def)

text \<open>Accesses to registers leave the memories alone.\<close>

lemma touches_boot:
  fixes s t :: "'a boot_dev_scheme"
  assumes "touches R s t"
  shows "Flash t = Flash s" "PageBuffer t = PageBuffer s" "RWWBusy t = RWWBusy s" "EEPROM t = EEPROM s" "boot_dev.more t = boot_dev.more s"
  using touches_more [OF assms] by (cases s; cases t; simp)+

lemma buffer_byte_word: "buffer_byte b a = bytes16 (b (a mod SPM_PAGESIZE div 2)) ! (a mod 2)"
  by (cases "even a") (auto simp: buffer_byte_def bytes16_def Let_def even_iff_mod_2_eq_zero odd_iff_mod_2_eq_one)

lemma and_ones [simp]: "(0xFF :: u8) AND v = v" "v AND (0xFF :: u8) = v"
proof -
  have "(0xFF :: u8) = - 1" by simp
  then show "(0xFF :: u8) AND v = v" "v AND (0xFF :: u8) = v" by (simp_all only: and.right_neutral and.left_neutral)
qed

section \<open>Pages and the page buffer\<close>

lemma page_no_same:
  assumes "P mod 128 = 0"
  shows "page_no x = page_no P \<longleftrightarrow> P \<le> x \<and> x < P + 128"
proof -
  from assms obtain q where q: "P = 128 * q" by (auto simp: mod_eq_0_iff_dvd)
  have "x = 128 * (x div 128) + x mod 128" "x mod 128 < 128" by simp_all
  then have "x div 128 = q \<longleftrightarrow> 128 * q \<le> x \<and> x < 128 * q + 128" by linarith
  then show ?thesis by (simp add: page_no_def q)
qed

lemma word16_parts: "ucast (word16 a b) = a" "ucast (drop_bit 8 (word16 a b)) = b"
  using bytes16_word16 [of a b] by (simp_all add: bytes16_def)

lemma buffer_fill:
  assumes "P mod 128 = 0" "j < 64" "P \<le> x" "x < P + 128"
  shows "buffer_byte (b(j := word16 b0 b1)) x = (if x = P + 2 * j then b0 else if x = Suc (P + 2 * j) then b1 else buffer_byte b x)"
proof -
  from assms(1) obtain q where q: "P = 128 * q" by (auto simp: mod_eq_0_iff_dvd)
  obtain y where y: "x = 128 * q + y" "y < 128" using assms(3,4) by (auto simp: q le_iff_add)
  consider i where "y = 2 * i" | i where "y = Suc (2 * i)" using oddE evenE by (metis Suc_eq_plus1)
  then show ?thesis
    by cases (use y in \<open>auto simp: buffer_byte_def q word16_parts Let_def\<close>)
qed

text \<open>
  The memory after \<open>bs\<close> was written from address \<open>a\<close> on, with the page from \<open>P\<close> on begun in the buffer: what was in
  the buffer, then \<open>bs\<close>, then ones up to the end of the page.
\<close>

definition flash_image :: "nat \<Rightarrow> nat \<Rightarrow> (nat \<Rightarrow> u16) \<Rightarrow> u8 list \<Rightarrow> (nat \<Rightarrow> u8) \<Rightarrow> nat \<Rightarrow> u8" where
  "flash_image P a buf bs f x =
     (if P \<le> x \<and> x < a then buffer_byte buf x
      else if a \<le> x \<and> x < a + length bs then bs ! (x - a)
      else if P \<le> x \<and> page_no x \<le> page_no (a + length bs - 1) then 0xFF
      else f x)"

lemma flash_addr_small: "unat a < 2 ^ 16 \<Longrightarrow> flash_addr a = unat a"
  by (simp add: flash_addr_def unsigned_ucast_eq take_bit_nat_eq_self)

lemma page_no_mono: "x \<le> y \<Longrightarrow> page_no x \<le> page_no y"
  by (simp add: page_no_def div_le_mono)

lemma buffer_blank:
  assumes "P mod 128 = 0" "\<forall>k \<ge> j. b k = 0xFFFF" "P + 2 * j \<le> x" "x < P + 128"
  shows "buffer_byte b x = 0xFF"
proof -
  from assms(1) obtain q where q: "P = 128 * q" by (auto simp: mod_eq_0_iff_dvd)
  obtain y where y: "x = 128 * q + y" "2 * j \<le> y" "y < 128" using assms(3,4) q by (metis add_le_cancel_left le_iff_add nat_add_left_cancel_less trans_le_add1)
  then have "j \<le> x mod 128 div 2" by simp
  with assms(2) show ?thesis by (simp add: buffer_byte_def Let_def)
qed

lemma image_word:
  assumes "P mod 128 = 0" "j < 64" "\<forall>x. page_no x = page_no P \<longrightarrow> f x = 0xFF" "\<forall>k \<ge> j. b k = 0xFFFF"
  shows "(\<lambda>x. if page_no x = page_no P then f x AND buffer_byte (b(j := word16 b0 b1)) x else f x) = flash_image P (P + 2 * j) b [b0, b1] f"
proof
  fix x
  have e: "page_no (Suc (P + 2 * j)) = page_no P" using assms(1,2) by (simp add: page_no_same)
  have l: "P \<le> x \<Longrightarrow> page_no x \<le> page_no P \<longleftrightarrow> page_no x = page_no P" using page_no_mono [of P x] by auto
  show "(if page_no x = page_no P then f x AND buffer_byte (b(j := word16 b0 b1)) x else f x) = flash_image P (P + 2 * j) b [b0, b1] f x"
  proof (cases "page_no x = page_no P")
    case True
    then have x: "P \<le> x" "x < P + 128" using assms(1) by (simp_all add: page_no_same)
    then show ?thesis using True assms e buffer_blank [OF assms(1,4)]
      by (auto simp: flash_image_def buffer_fill nth_Cons' not_less)
  next
    case False
    then have "\<not> (P \<le> x \<and> x < P + 128)" using assms(1) by (simp add: page_no_same)
    with False l assms(2) e show ?thesis by (auto simp: flash_image_def)
  qed
qed

lemma image_fill:
  assumes "P mod 128 = 0" "j < 64" "bs \<noteq> []"
  shows "flash_image P (P + 2 * j + 2) (b(j := word16 b0 b1)) bs f = flash_image P (P + 2 * j) b (b0 # b1 # bs) f"
proof
  fix x
  show "flash_image P (P + 2 * j + 2) (b(j := word16 b0 b1)) bs f x = flash_image P (P + 2 * j) b (b0 # b1 # bs) f x"
    using assms by (auto simp: flash_image_def buffer_fill nth_Cons' numeral_2_eq_2)
qed

lemma image_page:
  assumes "P mod 128 = 0" "bs \<noteq> []"
  shows "flash_image (P + 128) (P + 128) b' bs (\<lambda>x. if page_no x = page_no (P + 128) then 0xFF else flash_image P (P + 126) b [b0, b1] f x) =
    flash_image P (P + 126) b (b0 # b1 # bs) f"
proof
  fix x
  have l: "page_no (P + 128) \<le> page_no (P + 128 + length bs - 1)" using assms(2) by (intro page_no_mono) (cases bs; simp)
  have e: "page_no (P + 127) = page_no P" "page_no (P + 128) = Suc (page_no P)" using assms(1) by (simp_all add: page_no_same) (simp add: page_no_def)
  have q: "P + 128 \<le> x \<Longrightarrow> Suc (page_no P) \<le> page_no x" using page_no_mono [of "P + 128" x] e(2) by simp
  have r: "x < P + 128 \<Longrightarrow> page_no x \<le> page_no P" using page_no_mono [of x "P + 127"] e(1) by simp
  show "flash_image (P + 128) (P + 128) b' bs (\<lambda>x. if page_no x = page_no (P + 128) then 0xFF else flash_image P (P + 126) b [b0, b1] f x) x =
    flash_image P (P + 126) b (b0 # b1 # bs) f x"
    using assms(2) l e q r by (cases "x < P + 128") (auto simp: flash_image_def nth_Cons' numeral_2_eq_2 ac_simps)
qed

end
