(* ===== verification/DFU_Boot.thy ===== *)
theory DFU_Boot
  imports Boot_Flash
begin

text \<open>
  The DFU boot loader, \<open>src/AT16u2/Bootloaders/DFU/BootloaderDFU.c\<close> and \<open>.h\<close>, with which the firmware of the
  pad is installed (\<open>dfu.mk\<close>): the control requests, the commands of the host and the programming of flash and
  EEPROM. \<open>B\<close> is \<open>BOOT_START_ADDR\<close>, which the build defines. The indicator LEDs depend on the board and are left out.
\<close>

section \<open>State\<close>

record DFU_Command =
  Command :: u8
  Data :: "u8 list"
  DataSize :: u16

record dfu_dev = boot_dev +
  IsSecure :: bool
  RunBootloader :: bool
  WaitForExit :: bool
  DFU_State :: u8
  DFU_Status :: u8
  SentCommand :: DFU_Command
  ResponseByte :: u8
  AppStartPtr :: u16
  Flash64KBPage :: u8
  StartAddr :: u16
  EndAddr :: u16

abbreviation dfuIDLE :: u8 where "dfuIDLE \<equiv> 2"
abbreviation dfuDNLOAD_IDLE :: u8 where "dfuDNLOAD_IDLE \<equiv> 5"
abbreviation dfuUPLOAD_IDLE :: u8 where "dfuUPLOAD_IDLE \<equiv> 9"
abbreviation dfuERROR :: u8 where "dfuERROR \<equiv> 10"
abbreviation status_OK :: u8 where "status_OK \<equiv> 0"
abbreviation errWRITE :: u8 where "errWRITE \<equiv> 3"
abbreviation errCHECK_ERASED :: u8 where "errCHECK_ERASED \<equiv> 5"
abbreviation errADDRESS :: u8 where "errADDRESS \<equiv> 8"
abbreviation MAGIC_BOOT_KEY :: u16 where "MAGIC_BOOT_KEY \<equiv> 0xDC42"
abbreviation DFU_FILE_SUFFIX_SIZE :: nat where "DFU_FILE_SUFFIX_SIZE \<equiv> 16"
abbreviation DFU_FILLER_BYTES_SIZE :: nat where "DFU_FILLER_BYTES_SIZE \<equiv> 26"
abbreviation DFU_CONTROL_ENDPOINT_SIZE :: u16 where "DFU_CONTROL_ENDPOINT_SIZE \<equiv> 32"
abbreviation DFU_REQ_DNLOAD :: u8 where "DFU_REQ_DNLOAD \<equiv> 1"
abbreviation DFU_REQ_UPLOAD :: u8 where "DFU_REQ_UPLOAD \<equiv> 2"
abbreviation DFU_REQ_GETSTATUS :: u8 where "DFU_REQ_GETSTATUS \<equiv> 3"
abbreviation DFU_REQ_CLRSTATUS :: u8 where "DFU_REQ_CLRSTATUS \<equiv> 4"
abbreviation DFU_REQ_GETSTATE :: u8 where "DFU_REQ_GETSTATE \<equiv> 5"
abbreviation DFU_REQ_ABORT :: u8 where "DFU_REQ_ABORT \<equiv> 6"
abbreviation COMMAND_PROG_START :: u8 where "COMMAND_PROG_START \<equiv> 1"
abbreviation COMMAND_DISP_DATA :: u8 where "COMMAND_DISP_DATA \<equiv> 3"
abbreviation COMMAND_WRITE :: u8 where "COMMAND_WRITE \<equiv> 4"
abbreviation COMMAND_READ :: u8 where "COMMAND_READ \<equiv> 5"
abbreviation COMMAND_CHANGE_BASE_ADDR :: u8 where "COMMAND_CHANGE_BASE_ADDR \<equiv> 6"

definition BootloaderInfo :: "u8 list" where "BootloaderInfo = [0x20, 0xDC, 0xFB]"
definition SignatureInfo :: "u8 list" where "SignatureInfo = [0x58, 0x1E, 0x94, 0x89]"

text \<open>\<open>IS_ONEBYTE_COMMAND\<close> and \<open>IS_TWOBYTE_COMMAND\<close> on the parameters of the command\<close>

abbreviation onebyte :: "'a dfu_dev_scheme \<Rightarrow> u8 \<Rightarrow> bool" where
  "onebyte s b \<equiv> Data (SentCommand s) ! 0 = b"

abbreviation twobyte :: "'a dfu_dev_scheme \<Rightarrow> u8 \<Rightarrow> u8 \<Rightarrow> bool" where
  "twobyte s b c \<equiv> Data (SentCommand s) ! 0 = b \<and> Data (SentCommand s) ! 1 = c"

section \<open>Commands\<close>

definition LoadStartEndAddresses :: "'a dfu_dev_scheme \<Rightarrow> 'a dfu_dev_scheme" where
  "LoadStartEndAddresses s = (let d = Data (SentCommand s)
     in s\<lparr>StartAddr := word16 (d ! 2) (d ! 1), EndAddr := word16 (d ! 4) (d ! 3)\<rparr>)"

text \<open>The union of the 16-bit address and the number of the 64 KB page\<close>

definition long_addr :: "'a dfu_dev_scheme \<Rightarrow> u32" where
  "long_addr s = ucast (StartAddr s) OR push_bit 16 (ucast (Flash64KBPage s))"

definition ProcessMemProgCommand :: "'a dfu_dev_scheme \<Rightarrow> 'a dfu_dev_scheme" where
  "ProcessMemProgCommand s =
     (if onebyte s 0 \<or> onebyte s 1
      then let s = LoadStartEndAddresses s;
               s = (if onebyte s 0 then boot_page_erase (flash_addr (long_addr s)) s else s)
           in s\<lparr>DFU_State := dfuDNLOAD_IDLE\<rparr>
      else s)"

text \<open>The blank check of \<open>n\<close> bytes from address \<open>a\<close> stops at the first byte that is not blank.\<close>

primrec blank_check :: "nat \<Rightarrow> nat \<Rightarrow> 'a dfu_dev_scheme \<Rightarrow> 'a dfu_dev_scheme option" where
  "blank_check 0 a s = Some s"
| "blank_check (Suc n) a s = do {
     v \<leftarrow> pgm_read_byte a s;
     if v \<noteq> 0xFF
     then Some (s\<lparr>Flash64KBPage := of_nat (a div 2 ^ 16), StartAddr := of_nat a, DFU_State := dfuERROR, DFU_Status := errCHECK_ERASED\<rparr>)
     else blank_check n (a + 1) s }"

definition ProcessMemReadCommand :: "nat \<Rightarrow> 'a dfu_dev_scheme \<Rightarrow> 'a dfu_dev_scheme option" where
  "ProcessMemReadCommand B s =
     (if onebyte s 0 \<or> onebyte s 2 then Some ((LoadStartEndAddresses s)\<lparr>DFU_State := dfuUPLOAD_IDLE\<rparr>)
      else if onebyte s 1 then blank_check B 0 s
      else Some s)"

function erase_pages :: "nat \<Rightarrow> nat \<Rightarrow> 'a dfu_dev_scheme \<Rightarrow> 'a dfu_dev_scheme" where
  "erase_pages B a s = (if a < B then erase_pages B (a + SPM_PAGESIZE) (boot_page_write a (boot_page_erase a s)) else s)"
  by pat_completeness auto
termination by (relation "measure (\<lambda>(B, a, s). B - a)") auto

declare erase_pages.simps [simp del]

definition start_application :: "'a dfu_dev_scheme \<Rightarrow> 'a dfu_dev_scheme option" where
  "start_application s =
     (let s = s\<lparr>WaitForExit := True\<rparr>; d = Data (SentCommand s)
      in if DataSize (SentCommand s) \<noteq> 0
         then Some (if d ! 1 = 1 then s\<lparr>AppStartPtr := word16 (d ! 4) (d ! 3)\<rparr> else s)
         else if d ! 1 = 0 then Some (s\<lparr>MagicBootKey := MAGIC_BOOT_KEY, Watchdog := True\<rparr>)
         else do { v \<leftarrow> pgm_read_word 0 s; Some (if v = 0xFFFF then s\<lparr>RunBootloader := False\<rparr> else s) })"

definition ProcessWriteCommand :: "nat \<Rightarrow> 'a dfu_dev_scheme \<Rightarrow> 'a dfu_dev_scheme option" where
  "ProcessWriteCommand B s =
     (if onebyte s 3 then start_application s
      else if twobyte s 0 0xFF then Some ((boot_rww_enable (erase_pages B 0 s))\<lparr>IsSecure := False\<rparr>)
      else Some s)"

text \<open>\<open>None\<close> is an invalid address.\<close>

definition info_byte :: "'a dfu_dev_scheme \<Rightarrow> u8 option" where
  "info_byte s =
     (let i = Data (SentCommand s) ! 1
      in if onebyte s 0 then (if i < 3 then Some (BootloaderInfo ! unat i) else None)
         else if onebyte s 1
         then (if i = 0x30 then Some (SignatureInfo ! 0) else if i = 0x31 then Some (SignatureInfo ! 1)
               else if i = 0x60 then Some (SignatureInfo ! 2) else if i = 0x61 then Some (SignatureInfo ! 3) else None)
         else Some (ResponseByte s))"

definition ProcessReadCommand :: "'a dfu_dev_scheme \<Rightarrow> 'a dfu_dev_scheme" where
  "ProcessReadCommand s =
     (case info_byte s of
        Some v \<Rightarrow> s\<lparr>ResponseByte := v\<rparr>
      | None \<Rightarrow> s\<lparr>DFU_State := dfuERROR, DFU_Status := errADDRESS\<rparr>)"

definition ProcessBootloaderCommand :: "nat \<Rightarrow> 'a dfu_dev_scheme \<Rightarrow> 'a dfu_dev_scheme option" where
  "ProcessBootloaderCommand B s =
     (let c = Command (SentCommand s)
      in if IsSecure s \<and> \<not> (c = COMMAND_WRITE \<and> twobyte s 0 0xFF \<or> c = COMMAND_READ)
         then Some (Endpoint_StallTransaction (s\<lparr>DFU_State := dfuERROR, DFU_Status := errWRITE\<rparr>))
         else if c = COMMAND_PROG_START then Some (ProcessMemProgCommand s)
         else if c = COMMAND_DISP_DATA then ProcessMemReadCommand B s
         else if c = COMMAND_WRITE then ProcessWriteCommand B s
         else if c = COMMAND_READ then Some (ProcessReadCommand s)
         else if c = COMMAND_CHANGE_BASE_ADDR
         then Some (if twobyte s 3 0 then s\<lparr>Flash64KBPage := Data (SentCommand s) ! 2\<rparr> else s)
         else Some s)"

section \<open>Data stages\<close>

text \<open>When the bank is empty it is released and the next packet is awaited; \<open>False\<close> is the return of an unattached device.\<close>

definition next_packet :: "'a mcu_scheme \<Rightarrow> (bool \<times> 'a mcu_scheme) option" where
  "next_packet s = (let (n, s) = Endpoint_BytesInEndpoint s
     in if n = 0 then status_wait Endpoint_IsOUTReceived (Endpoint_ClearOUT s) else Some (True, s))"

definition next_bank :: "'a mcu_scheme \<Rightarrow> (bool \<times> 'a mcu_scheme) option" where
  "next_bank s = (let (n, s) = Endpoint_BytesInEndpoint s
     in if n = DFU_CONTROL_ENDPOINT_SIZE then status_wait Endpoint_IsINReady (Endpoint_ClearIN s) else Some (True, s))"

text \<open>A new packet counts as a discarded byte, and the return of an unattached device does not end the caller.\<close>

primrec DiscardFillerBytes :: "nat \<Rightarrow> 'a dfu_dev_scheme \<Rightarrow> 'a dfu_dev_scheme option" where
  "DiscardFillerBytes 0 s = Some s"
| "DiscardFillerBytes (Suc n) s =
     (let (c, s) = Endpoint_BytesInEndpoint s
      in if c = 0
         then do {
           (ok, s) \<leftarrow> status_wait Endpoint_IsOUTReceived (Endpoint_ClearOUT s);
           if ok then DiscardFillerBytes n s else Some s }
         else DiscardFillerBytes n (Endpoint_Discard_8 s))"

text \<open>The loop over the words: \<open>n\<close> words are left, \<open>w\<close> words are in the page buffer.\<close>

primrec write_words :: "nat \<Rightarrow> u32 \<Rightarrow> u32 \<Rightarrow> u8 \<Rightarrow> 'a dfu_dev_scheme \<Rightarrow> (bool \<times> 'a dfu_dev_scheme) option" where
  "write_words 0 CurrFlashAddress PageStart w s = Some (True, s)"
| "write_words (Suc n) CurrFlashAddress PageStart w s = do {
     (ok, s) \<leftarrow> next_packet s;
     if \<not> ok then Some (False, s)
     else do {
       let (v, s) = Endpoint_Read_16_LE s;
       let s = boot_page_fill (flash_addr CurrFlashAddress) v s;
       let w = w + 1;
       let CurrFlashAddress = CurrFlashAddress + 2;
       if w = 64 \<or> n = 0
       then let s = boot_page_write (flash_addr PageStart) s
         in if n \<noteq> 0 then write_words n CurrFlashAddress CurrFlashAddress 0 (boot_page_erase (flash_addr CurrFlashAddress) s)
            else write_words n CurrFlashAddress PageStart w s
       else write_words n CurrFlashAddress PageStart w s } }"

definition BytesRemaining :: "'a dfu_dev_scheme \<Rightarrow> u16" where
  "BytesRemaining s = (EndAddr s - StartAddr s) + 1"

definition write_flash :: "'a dfu_dev_scheme \<Rightarrow> (bool \<times> 'a dfu_dev_scheme) option" where
  "write_flash s = do {
     (ok, s) \<leftarrow> write_words (unat (drop_bit 1 (BytesRemaining s))) (long_addr s) (long_addr s) 0 s;
     if \<not> ok then Some (False, s)
     else Some (True, boot_rww_enable (s\<lparr>StartAddr := EndAddr s\<rparr>)) }"

primrec write_eeprom :: "nat \<Rightarrow> 'a dfu_dev_scheme \<Rightarrow> (bool \<times> 'a dfu_dev_scheme) option" where
  "write_eeprom 0 s = Some (True, s)"
| "write_eeprom (Suc n) s = do {
     (ok, s) \<leftarrow> next_packet s;
     if \<not> ok then Some (False, s)
     else let (v, s) = Endpoint_Read_8 s
       in write_eeprom n (s\<lparr>EEPROM := (EEPROM s)(unat (StartAddr s) := v), StartAddr := StartAddr s + 1\<rparr>) }"

primrec read_words :: "nat \<Rightarrow> u32 \<Rightarrow> 'a dfu_dev_scheme \<Rightarrow> (bool \<times> 'a dfu_dev_scheme) option" where
  "read_words 0 CurrFlashAddress s = Some (True, s)"
| "read_words (Suc n) CurrFlashAddress s = do {
     (ok, s) \<leftarrow> next_bank s;
     if \<not> ok then Some (False, s)
     else do {
       v \<leftarrow> pgm_read_word (flash_addr CurrFlashAddress) s;
       read_words n (CurrFlashAddress + 2) (Endpoint_Write_16_LE v s) } }"

definition read_flash :: "'a dfu_dev_scheme \<Rightarrow> (bool \<times> 'a dfu_dev_scheme) option" where
  "read_flash s = do {
     (ok, s) \<leftarrow> read_words (unat (drop_bit 1 (BytesRemaining s))) (long_addr s) s;
     Some (ok, if ok then s\<lparr>StartAddr := EndAddr s\<rparr> else s) }"

primrec read_eeprom :: "nat \<Rightarrow> 'a dfu_dev_scheme \<Rightarrow> (bool \<times> 'a dfu_dev_scheme) option" where
  "read_eeprom 0 s = Some (True, s)"
| "read_eeprom (Suc n) s = do {
     (ok, s) \<leftarrow> next_bank s;
     if \<not> ok then Some (False, s)
     else let s = Endpoint_Write_8 (EEPROM s (unat (StartAddr s))) s
       in read_eeprom n (s\<lparr>StartAddr := StartAddr s + 1\<rparr>) }"

section \<open>Control requests\<close>

text \<open>The parameters of a command: at most \<open>n\<close> bytes from place \<open>i\<close>, while the bank has some\<close>

primrec load_data :: "nat \<Rightarrow> nat \<Rightarrow> 'a dfu_dev_scheme \<Rightarrow> 'a dfu_dev_scheme" where
  "load_data 0 i s = s"
| "load_data (Suc n) i s =
     (let (c, s) = Endpoint_BytesInEndpoint s
      in if c = 0 then s
         else let (v, s) = Endpoint_Read_8 s; q = SentCommand s
           in load_data n (i + 1) (s\<lparr>SentCommand := q\<lparr>Data := (Data q)[i := v], DataSize := DataSize q - 1\<rparr>\<rparr>))"

definition load_command :: "nat \<Rightarrow> 'a dfu_dev_scheme \<Rightarrow> (bool \<times> 'a dfu_dev_scheme) option" where
  "load_command B s =
     (if DataSize (SentCommand s) = 0 then Some (True, s)
      else do {
        (ok, s) \<leftarrow> status_wait Endpoint_IsOUTReceived s;
        if \<not> ok then Some (False, s)
        else do {
          let (c, s) = Endpoint_Read_8 s;
          let q = SentCommand s;
          let s = load_data 5 0 (s\<lparr>SentCommand := q\<lparr>Command := c, DataSize := DataSize q - 1\<rparr>\<rparr>);
          s \<leftarrow> ProcessBootloaderCommand B s;
          Some (True, s) } })"

definition load_firmware :: "'a dfu_dev_scheme \<Rightarrow> (bool \<times> 'a dfu_dev_scheme) option" where
  "load_firmware s =
     (if DFU_State s \<noteq> dfuDNLOAD_IDLE then Some (True, s)
      else if DataSize (SentCommand s) = 0 then Some (True, s\<lparr>DFU_State := dfuIDLE\<rparr>)
      else do {
        s \<leftarrow> DiscardFillerBytes DFU_FILLER_BYTES_SIZE s;
        s \<leftarrow> DiscardFillerBytes (unat (StartAddr s mod DFU_CONTROL_ENDPOINT_SIZE)) s;
        (ok, s) \<leftarrow> (if onebyte s 0 then write_flash s else write_eeprom (unat (BytesRemaining s)) s);
        if \<not> ok then Some (False, s)
        else do { s \<leftarrow> DiscardFillerBytes DFU_FILE_SUFFIX_SIZE s; Some (True, s) } })"

definition dfu_DNLOAD :: "nat \<Rightarrow> 'a dfu_dev_scheme \<Rightarrow> 'a dfu_dev_scheme option" where
  "dfu_DNLOAD B s = do {
     let s = Endpoint_ClearSETUP s;
     s \<leftarrow> (if WaitForExit s then do { s \<leftarrow> ProcessBootloaderCommand B s; Some (s\<lparr>WaitForExit := False\<rparr>) } else Some s);
     (ok, s) \<leftarrow> load_command B s;
     if \<not> ok then Some s
     else do {
       (ok, s) \<leftarrow> load_firmware s;
       if \<not> ok then Some s else Endpoint_ClearStatusStage (Endpoint_ClearOUT s) } }"

definition dfu_upload_data :: "'a dfu_dev_scheme \<Rightarrow> (bool \<times> 'a dfu_dev_scheme) option" where
  "dfu_upload_data s =
     (if DFU_State s \<noteq> dfuUPLOAD_IDLE
      then Some (True, if DFU_State s = dfuERROR \<and> onebyte s 1 then Endpoint_Write_16_LE (StartAddr s) s else Endpoint_Write_8 (ResponseByte s) s)
      else do {
        (ok, s) \<leftarrow> (if onebyte s 0 then read_flash s
                    else if onebyte s 2 then read_eeprom (unat (BytesRemaining s)) s
                    else Some (True, s));
        Some (ok, if ok then s\<lparr>DFU_State := dfuIDLE\<rparr> else s) })"

definition dfu_UPLOAD :: "'a dfu_dev_scheme \<Rightarrow> 'a dfu_dev_scheme option" where
  "dfu_UPLOAD s = do {
     (ok, s) \<leftarrow> status_wait Endpoint_IsINReady (Endpoint_ClearSETUP s);
     if \<not> ok then Some s
     else do {
       (ok, s) \<leftarrow> dfu_upload_data s;
       if \<not> ok then Some s else Endpoint_ClearStatusStage (Endpoint_ClearIN s) } }"

definition dfu_GETSTATUS :: "'a dfu_dev_scheme \<Rightarrow> 'a dfu_dev_scheme option" where
  "dfu_GETSTATUS s = do {
     (ok, s) \<leftarrow> status_wait Endpoint_IsINReady (Endpoint_ClearSETUP s);
     if \<not> ok then Some s
     else do {
       let s = Endpoint_Write_8 (DFU_Status s) s;
       let s = Endpoint_Write_16_LE 0 (Endpoint_Write_8 0 s);
       let s = Endpoint_Write_8 0 (Endpoint_Write_8 (DFU_State s) s);
       Endpoint_ClearStatusStage (Endpoint_ClearIN s) } }"

definition dfu_CLRSTATUS :: "'a dfu_dev_scheme \<Rightarrow> 'a dfu_dev_scheme option" where
  "dfu_CLRSTATUS s = Endpoint_ClearStatusStage ((Endpoint_ClearSETUP s)\<lparr>DFU_Status := status_OK\<rparr>)"

definition dfu_GETSTATE :: "'a dfu_dev_scheme \<Rightarrow> 'a dfu_dev_scheme option" where
  "dfu_GETSTATE s = do {
     (ok, s) \<leftarrow> status_wait Endpoint_IsINReady (Endpoint_ClearSETUP s);
     if \<not> ok then Some s
     else Endpoint_ClearStatusStage (Endpoint_ClearIN (Endpoint_Write_8 (DFU_State s) s)) }"

definition dfu_ABORT :: "'a dfu_dev_scheme \<Rightarrow> 'a dfu_dev_scheme option" where
  "dfu_ABORT s = Endpoint_ClearStatusStage ((Endpoint_ClearSETUP s)\<lparr>DFU_State := dfuIDLE\<rparr>)"

definition DFU_ControlRequest :: "nat \<Rightarrow> 'a dfu_dev_scheme \<Rightarrow> 'a dfu_dev_scheme option" where
  "DFU_ControlRequest B s =
     (let q = USB_ControlRequest s
      in if bmRequestType q AND (0x60 OR CONTROL_REQTYPE_RECIPIENT) \<noteq> REQTYPE_CLASS OR REQREC_INTERFACE then Some s
         else let s = s\<lparr>SentCommand := (SentCommand s)\<lparr>DataSize := wLength q\<rparr>\<rparr>
         in if bRequest q = DFU_REQ_DNLOAD then dfu_DNLOAD B s
            else if bRequest q = DFU_REQ_UPLOAD then dfu_UPLOAD s
            else if bRequest q = DFU_REQ_GETSTATUS then dfu_GETSTATUS s
            else if bRequest q = DFU_REQ_CLRSTATUS then dfu_CLRSTATUS s
            else if bRequest q = DFU_REQ_GETSTATE then dfu_GETSTATE s
            else if bRequest q = DFU_REQ_ABORT then dfu_ABORT s
            else Some s)"

section \<open>Start of the application\<close>

text \<open>
  \<open>Application_Jump_Check\<close> on a board without a jumper. \<open>high_fuse\<close> are the fuse bits of the controller and
  \<open>FUSE_BOOTRST\<close> is their mask in \<open>avr/io.h\<close>; \<open>True\<close> is the jump to the application.
\<close>

definition Application_Jump_Check :: "u8 \<Rightarrow> u8 \<Rightarrow> 'a dfu_dev_scheme \<Rightarrow> (bool \<times> 'a dfu_dev_scheme) option" where
  "Application_Jump_Check FUSE_BOOTRST high_fuse s = do {
     let (JumpToApplication, s) =
       (if high_fuse AND FUSE_BOOTRST \<noteq> 0
        then (\<not> tst (MCUSR s) 1 \<or> MagicBootKey s = MAGIC_BOOT_KEY, s\<lparr>MCUSR := MCUSR s AND NOT (bv 1)\<rparr>)
        else (tst (MCUSR s) 3 \<and> MagicBootKey s = MAGIC_BOOT_KEY, s\<lparr>MCUSR := MCUSR s AND NOT (bv 3)\<rparr>));
     v \<leftarrow> pgm_read_word 0 s;
     Some (if JumpToApplication \<and> v \<noteq> 0xFFFF
           then (True, s\<lparr>MCUSR := MCUSR s AND NOT (bv 3), Watchdog := False, MagicBootKey := 0\<rparr>)
           else (False, s)) }"

section \<open>Programming the flash\<close>

lemma status_wait_OUT:
  assumes "status_wait Endpoint_IsOUTReceived s = Some (ok, t)"
  shows "touches {} s t" "was_read UEDATX t = was_read UEDATX s"
  using assms by (auto elim!: status_wait_touches intro: touch status_wait_reads simp: Endpoint_IsOUTReceived_def)

lemma next_packet_keeps:
  assumes "next_packet s = Some (ok, t)"
  shows "touches {UEINTX} s t" "was_read UEDATX t = was_read UEDATX s"
proof -
  let ?c = "Endpoint_ClearOUT (snd (Endpoint_BytesInEndpoint s))"
  have c: "touches {UEINTX} s ?c" "was_read UEDATX ?c = was_read UEDATX s"
    "touches {UEINTX} s (snd (Endpoint_BytesInEndpoint s))" "was_read UEDATX (snd (Endpoint_BytesInEndpoint s)) = was_read UEDATX s"
    by (auto intro!: touch simp: Endpoint_ClearOUT_def Endpoint_BytesInEndpoint_def split_beta Let_def)
  from assms consider "t = snd (Endpoint_BytesInEndpoint s)" | "status_wait Endpoint_IsOUTReceived ?c = Some (ok, t)"
    by (auto simp: next_packet_def split_beta Let_def split: if_splits)
  then have "touches {UEINTX} s t \<and> was_read UEDATX t = was_read UEDATX s"
  proof cases
    case 2
    from touches_mono [OF status_wait_OUT(1) [OF 2], of "{UEINTX}"] status_wait_OUT(2) [OF 2] c show ?thesis by (auto intro: touches_trans)
  qed (use c in simp)
  then show "touches {UEINTX} s t" "was_read UEDATX t = was_read UEDATX s" by auto
qed

lemma Read_16_bytes:
  "\<exists>b0 b1. Endpoint_Read_16_LE s = (word16 b0 b1, snd (Endpoint_Read_16_LE s)) \<and>
    was_read UEDATX (snd (Endpoint_Read_16_LE s)) = was_read UEDATX s @ [b0, b1] \<and> touches {} s (snd (Endpoint_Read_16_LE s))"
  unfolding Endpoint_Read_16_LE_def split_beta Let_def by (intro exI conjI) (rule prod_eqI, simp_all add: touch)

text \<open>One word: the packet it comes from, its bytes and the page buffer\<close>

lemma write_words_Suc:
  fixes s :: "'a dfu_dev_scheme"
  assumes "write_words (Suc n) a P w s = Some (True, t)"
  obtains b0 b1 u where "was_read UEDATX u = was_read UEDATX s @ [b0, b1]" "Flash u = Flash s" "boot_dev.more u = boot_dev.more s" "hw u = hw s"
    "PageBuffer u = (PageBuffer s)(flash_addr a mod 128 div 2 := word16 b0 b1)"
    "(if w + 1 = 64 \<or> n = 0
      then if n \<noteq> 0 then write_words n (a + 2) (a + 2) 0 (boot_page_erase (flash_addr (a + 2)) (boot_page_write (flash_addr P) u))
        else write_words n (a + 2) P (w + 1) (boot_page_write (flash_addr P) u)
      else write_words n (a + 2) P (w + 1) u) = Some (True, t)"
proof -
  from assms obtain p where p: "next_packet s = Some (True, p)" by (auto simp: bind_eq_Some_conv split: if_splits)
  note k = next_packet_keeps [OF p]
  from Read_16_bytes [of p] obtain b0 b1 where r: "Endpoint_Read_16_LE p = (word16 b0 b1, snd (Endpoint_Read_16_LE p))"
    "was_read UEDATX (snd (Endpoint_Read_16_LE p)) = was_read UEDATX p @ [b0, b1]" "touches {} p (snd (Endpoint_Read_16_LE p))" by blast
  have v: "fst (Endpoint_Read_16_LE p) = word16 b0 b1" by (subst r(1)) simp
  let ?u = "boot_page_fill (flash_addr a) (word16 b0 b1) (snd (Endpoint_Read_16_LE p))"
  show thesis
  proof (rule that [of ?u b0 b1])
    show "was_read UEDATX ?u = was_read UEDATX s @ [b0, b1]" using r(2) k(2) by simp
    show "Flash ?u = Flash s" "PageBuffer ?u = (PageBuffer s)(flash_addr a mod 128 div 2 := word16 b0 b1)"
      "boot_dev.more ?u = boot_dev.more s" "hw ?u = hw s"
      using touches_boot [OF r(3)] touches_boot [OF k(1)] touches_hw [OF r(3)] touches_hw [OF k(1)] by (simp_all add: boot_more)
    show "(if w + 1 = 64 \<or> n = 0
      then if n \<noteq> 0 then write_words n (a + 2) (a + 2) 0 (boot_page_erase (flash_addr (a + 2)) (boot_page_write (flash_addr P) ?u))
        else write_words n (a + 2) P (w + 1) (boot_page_write (flash_addr P) ?u)
      else write_words n (a + 2) P (w + 1) ?u) = Some (True, t)"
      using assms p by (simp add: split_beta Let_def v cong: if_cong)
  qed
qed

lemma write_words_image:
  fixes s :: "'a dfu_dev_scheme"
  assumes "write_words n a P w s = Some (True, t)" "0 < n" "unat a = unat P + 2 * unat w" "unat P mod 128 = 0" "unat w < 64"
    "unat a + 2 * n \<le> 2 ^ 16" "\<forall>x. page_no x = page_no (unat P) \<longrightarrow> Flash s x = 0xFF" "\<forall>j \<ge> unat w. PageBuffer s j = 0xFFFF"
  shows "\<exists>bs. length bs = 2 * n \<and> was_read UEDATX t = was_read UEDATX s @ bs \<and> Flash t = flash_image (unat P) (unat a) (PageBuffer s) bs (Flash s) \<and>
    boot_dev.more t = boot_dev.more s \<and> hw t = hw s"
  using assms
proof (induction n arbitrary: a P w s)
  case (Suc n)
  from Suc.prems(1) obtain b0 b1 u where u: "was_read UEDATX u = was_read UEDATX s @ [b0, b1]" "Flash u = Flash s"
    "boot_dev.more u = boot_dev.more s" "hw u = hw s" "PageBuffer u = (PageBuffer s)(flash_addr a mod 128 div 2 := word16 b0 b1)"
    and c: "(if w + 1 = 64 \<or> n = 0
      then if n \<noteq> 0 then write_words n (a + 2) (a + 2) 0 (boot_page_erase (flash_addr (a + 2)) (boot_page_write (flash_addr P) u))
        else write_words n (a + 2) P (w + 1) (boot_page_write (flash_addr P) u)
      else write_words n (a + 2) P (w + 1) u) = Some (True, t)" by (rule write_words_Suc)
  have fa: "flash_addr a = unat a" "flash_addr P = unat P" using Suc.prems(3,6) by (intro flash_addr_small; simp)+
  have "flash_addr a mod 128 div 2 = unat w" using Suc.prems(3-5) by (simp add: fa mod_add_left_eq [symmetric])
  with u(5) have b: "PageBuffer u = (PageBuffer s)(unat w := word16 b0 b1)" by simp
  have a2: "unat (a + 2) = unat a + 2" using Suc.prems(6) by (simp add: unat_word_ariths)
  have w1: "unat (w + 1) = Suc (unat w)" using Suc.prems(5) by (simp add: unat_word_ariths)
  have page: "page_no x = page_no (unat P) \<longleftrightarrow> unat P \<le> x \<and> x < unat P + 128" for x by (rule page_no_same [OF Suc.prems(4)])
  note fill = buffer_fill [OF Suc.prems(4,5), where b = "PageBuffer s"]
  have img: "Flash (boot_page_write (flash_addr P) u) = flash_image (unat P) (unat a) (PageBuffer s) [b0, b1] (Flash s)"
    using image_word [OF Suc.prems(4,5,7,8)] by (simp add: fa b u(2) Suc.prems(3) cong: if_cong)
  consider (last) "n = 0" | (page) "n \<noteq> 0" "w = 63" | (inside) "n \<noteq> 0" "w \<noteq> 63" by auto
  then show ?case
  proof cases
    case last
    with c img u show ?thesis by (intro exI [of _ "[b0, b1]"]) (auto simp: boot_more)
  next
    case page
    have a': "unat (a + 2) = unat P + 128" "unat a = unat P + 126" using page Suc.prems(3) a2 by simp_all
    let ?v = "boot_page_erase (flash_addr (a + 2)) (boot_page_write (flash_addr P) u)"
    have "\<exists>bs. length bs = 2 * n \<and> was_read UEDATX t = was_read UEDATX ?v @ bs \<and>
        Flash t = flash_image (unat (a + 2)) (unat (a + 2)) (PageBuffer ?v) bs (Flash ?v) \<and> boot_dev.more t = boot_dev.more ?v \<and> hw t = hw ?v"
      using c page a' Suc.prems(4,6) by (intro Suc.IH) (auto simp: flash_addr_small)
    then obtain bs where bs: "length bs = 2 * n" "was_read UEDATX t = was_read UEDATX s @ b0 # b1 # bs"
      "Flash t = flash_image (unat P + 128) (unat P + 128) (\<lambda>_. 0xFFFF) bs (Flash ?v)" "boot_dev.more t = boot_dev.more s" "hw t = hw s"
      using u by (auto simp: boot_more a')
    have "flash_addr (a + 2) = unat P + 128" using Suc.prems(6) page a' by (subst flash_addr_small) auto
    then have v: "Flash ?v = (\<lambda>x. if page_no x = page_no (unat P + 128) then 0xFF else flash_image (unat P) (unat P + 126) (PageBuffer s) [b0, b1] (Flash s) x)"
      by (simp only: boot_mem(1) img a'(2))
    have "bs \<noteq> []" using bs(1) page(1) by auto
    with bs v image_page [OF Suc.prems(4), of bs] show ?thesis by (intro exI [of _ "b0 # b1 # bs"]) (simp only: a'(2), simp)
  next
    case inside
    have "\<exists>bs. length bs = 2 * n \<and> was_read UEDATX t = was_read UEDATX u @ bs \<and>
        Flash t = flash_image (unat P) (unat (a + 2)) (PageBuffer u) bs (Flash u) \<and> boot_dev.more t = boot_dev.more u \<and> hw t = hw u"
    proof (rule Suc.IH)
      have "unat w \<noteq> unat (63 :: u8)" using inside(2) by (simp only: word_unat_eq_iff [symmetric] not_False_eq_True)
      then show "unat (w + 1) < 64" using Suc.prems(5) w1 by simp
    qed (use c inside Suc.prems in \<open>auto simp: a2 w1 b u(2)\<close>)
    then obtain bs where bs: "length bs = 2 * n" "was_read UEDATX t = was_read UEDATX s @ b0 # b1 # bs"
      "Flash t = flash_image (unat P) (unat a + 2) ((PageBuffer s)(unat w := word16 b0 b1)) bs (Flash s)" "boot_dev.more t = boot_dev.more s" "hw t = hw s"
      using u b by (auto simp: a2)
    have "bs \<noteq> []" using bs(1) inside(1) by auto
    with bs image_fill [OF Suc.prems(4,5), of bs] show ?thesis by (intro exI [of _ "b0 # b1 # bs"]) (auto simp: Suc.prems(3))
  qed
qed simp

text \<open>On an endpoint that is ready every loop returns.\<close>

lemma released_hw: "hw (Endpoint_ClearOUT (snd (Endpoint_BytesInEndpoint s))) = hw s"
  by (simp add: Endpoint_ClearOUT_def Endpoint_BytesInEndpoint_def clr_bits_def Let_def split_beta)

lemma next_packet_ready: "always_ready (hw s) \<Longrightarrow> \<exists>t. next_packet s = Some (True, t)"
  by (simp add: next_packet_def Let_def split_beta ready_wait released_hw)

lemma write_words_ready:
  fixes s :: "'a dfu_dev_scheme"
  assumes "always_ready (hw s)"
  shows "\<exists>t. write_words n a P w s = Some (True, t)"
  using assms
proof (induction n arbitrary: a P w s)
  case (Suc n)
  from next_packet_ready [OF Suc.prems] obtain p where p: "next_packet s = Some (True, p)" by blast
  with next_packet_keeps(1) Suc.prems have "always_ready (hw p)" by (metis touches_def)
  then show ?case by (auto simp: p split_beta Let_def Endpoint_Read_16_LE_def intro!: Suc.IH)
qed simp

lemma DiscardFillerBytes_ready:
  fixes s :: "'a dfu_dev_scheme"
  assumes "always_ready (hw s)"
  shows "\<exists>t bs. DiscardFillerBytes n s = Some t \<and> touches {UEINTX} s t \<and> was_read UEDATX t = was_read UEDATX s @ bs \<and> length bs \<le> n"
  using assms
proof (induction n arbitrary: s)
  case (Suc n)
  let ?b = "snd (Endpoint_BytesInEndpoint s)"
  let ?u = "if fst (Endpoint_BytesInEndpoint s) = 0 then snd (Endpoint_IsOUTReceived (Endpoint_ClearOUT ?b)) else Endpoint_Discard_8 ?b"
  have u: "touches {UEINTX} s ?u" "\<exists>bs. was_read UEDATX ?u = was_read UEDATX s @ bs \<and> length bs \<le> 1"
    by (auto intro!: touch simp: Endpoint_Discard_8_def Endpoint_IsOUTReceived_def Endpoint_ClearOUT_def Endpoint_BytesInEndpoint_def split_beta Let_def)
  have hw: "always_ready (hw ?u)" using u(1) Suc.prems by (metis touches_def)
  have r: "always_ready (hw (Endpoint_ClearOUT ?b))" using Suc.prems by (simp add: released_hw)
  have e: "DiscardFillerBytes (Suc n) s = DiscardFillerBytes n ?u" by (simp add: split_beta Let_def ready_wait [OF r])
  from Suc.IH [OF hw] obtain t bs where "DiscardFillerBytes n ?u = Some t" "touches {UEINTX} ?u t"
    "was_read UEDATX t = was_read UEDATX ?u @ bs" "length bs \<le> n" by blast
  moreover from u(2) obtain cs where "was_read UEDATX ?u = was_read UEDATX s @ cs" "length cs \<le> 1" by blast
  ultimately show ?case using touches_trans [OF u(1), of t] unfolding e by (intro exI [of _ t] exI [of _ "cs @ bs"]) simp
qed simp

section \<open>The firmware arrives\<close>

text \<open>
  A program command for the flash from address \<open>a\<close>, which begins a page, to \<open>e\<close>, the last byte of a word, on a
  controller that reads its flash, with an empty page buffer.
\<close>

definition prog_command :: "u16 \<Rightarrow> u16 \<Rightarrow> 'a dfu_dev_scheme \<Rightarrow> bool" where
  "prog_command a e s \<longleftrightarrow> Data (SentCommand s) = [0, ucast (drop_bit 8 a), ucast a, ucast (drop_bit 8 e), ucast e] \<and> unat a mod SPM_PAGESIZE = 0 \<and>
     a < e \<and> e < 0xFFFF \<and> \<not> even (unat e) \<and> Flash64KBPage s = 0 \<and> PageBuffer s = (\<lambda>_. 0xFFFF)"

lemma touches_dfu:
  fixes s t :: "'a dfu_dev_scheme"
  assumes "touches R s t"
  shows "IsSecure t = IsSecure s" "DFU_State t = DFU_State s" "WaitForExit t = WaitForExit s" "SentCommand t = SentCommand s"
    "StartAddr t = StartAddr s" "EndAddr t = EndAddr s" "Flash64KBPage t = Flash64KBPage s" "RunBootloader t = RunBootloader s"
  using touches_boot(5) [OF assms] by (cases s; cases t; simp)+

lemma span_words:
  fixes s :: "'a dfu_dev_scheme"
  assumes "Flash64KBPage s = 0" "unat (StartAddr s) mod SPM_PAGESIZE = 0" "StartAddr s < EndAddr s" "EndAddr s < 0xFFFF" "\<not> even (unat (EndAddr s))"
  shows "unat (StartAddr s) < unat (EndAddr s)" "unat (EndAddr s) < 0xFFFF" "unat (long_addr s) = unat (StartAddr s)"
    "2 * unat (drop_bit 1 (BytesRemaining s)) = unat (EndAddr s) - unat (StartAddr s) + 1"
proof -
  show ea: "unat (StartAddr s) < unat (EndAddr s)" "unat (EndAddr s) < 0xFFFF" using assms(3,4) by (simp_all add: word_less_nat_alt)
  then show "unat (long_addr s) = unat (StartAddr s)"
    using assms(1) by (simp add: long_addr_def unsigned_ucast_eq take_bit_nat_eq_self)
  have "unat (EndAddr s - StartAddr s) = unat (EndAddr s) - unat (StartAddr s)" using assms(3) by (intro unat_sub) simp
  then have b: "unat (BytesRemaining s) = unat (EndAddr s) - unat (StartAddr s) + 1" using ea by (simp add: BytesRemaining_def unat_word_ariths)
  have "even (unat (StartAddr s))" using assms(2) by presburger
  then have "even (unat (EndAddr s) - unat (StartAddr s) + 1)" using assms(5) ea(1) by simp
  moreover have "unat (drop_bit 1 (BytesRemaining s)) = unat (BytesRemaining s) div 2"
    by (simp only: unat_drop_bit_eq) (simp add: drop_bit_eq_div)
  ultimately show "2 * unat (drop_bit 1 (BytesRemaining s)) = unat (EndAddr s) - unat (StartAddr s) + 1" by (simp only: b dvd_mult_div_cancel)
qed

lemma write_flash_image:
  fixes s :: "'a dfu_dev_scheme"
  assumes "always_ready (hw s)" "Flash64KBPage s = 0" "unat (StartAddr s) mod SPM_PAGESIZE = 0" "StartAddr s < EndAddr s" "EndAddr s < 0xFFFF" "\<not> even (unat (EndAddr s))"
    "\<forall>x. page_no x = page_no (unat (StartAddr s)) \<longrightarrow> Flash s x = 0xFF" "PageBuffer s = (\<lambda>_. 0xFFFF)"
  shows "\<exists>t bs. write_flash s = Some (True, t) \<and> was_read UEDATX t = was_read UEDATX s @ bs \<and>
    Flash t = flash_image (unat (StartAddr s)) (unat (StartAddr s)) (\<lambda>_. 0xFFFF) bs (Flash s) \<and>
    length bs = unat (EndAddr s) - unat (StartAddr s) + 1 \<and> \<not> RWWBusy t \<and> hw t = hw s"
proof -
  let ?n = "unat (drop_bit 1 (BytesRemaining s))"
  note ea = span_words(1,2) [OF assms(2-6)] and a = span_words(3) [OF assms(2-6)] and n = span_words(4) [OF assms(2-6)]
  from write_words_ready [OF assms(1)] obtain u where u: "write_words ?n (long_addr s) (long_addr s) 0 s = Some (True, u)" by blast
  have "\<exists>bs. length bs = 2 * ?n \<and> was_read UEDATX u = was_read UEDATX s @ bs \<and>
      Flash u = flash_image (unat (long_addr s)) (unat (long_addr s)) (PageBuffer s) bs (Flash s) \<and> boot_dev.more u = boot_dev.more s \<and> hw u = hw s"
  proof (rule write_words_image [OF u])
    show "unat (long_addr s) + 2 * ?n \<le> 2 ^ 16" using n a ea by simp
  qed (use n a ea assms in auto)
  then obtain bs where "length bs = 2 * ?n" "was_read UEDATX u = was_read UEDATX s @ bs" "hw u = hw s"
    "Flash u = flash_image (unat (StartAddr s)) (unat (StartAddr s)) (\<lambda>_. 0xFFFF) bs (Flash s)" using a assms(8) by auto
  then show ?thesis using n by (intro exI [of _ "boot_rww_enable (u\<lparr>StartAddr := EndAddr u\<rparr>)"] exI [of _ bs]) (simp add: write_flash_def u [simplified] was_read_def)
qed

lemma image_parts:
  assumes "a + length bs = Suc e" "a \<le> e"
  shows "i < length bs \<Longrightarrow> flash_image a a b bs f (a + i) = bs ! i"
    "page_no x < page_no a \<or> page_no e < page_no x \<Longrightarrow> flash_image a a b bs f x = f x"
    "e < x \<Longrightarrow> page_no x = page_no e \<Longrightarrow> flash_image a a b bs f x = 0xFF"
  using assms page_no_mono [of a x] page_no_mono [of x e] by (auto simp: flash_image_def)

lemma prog_started:
  assumes "prog_command a e s"
  shows "StartAddr (ProcessMemProgCommand s) = a" "EndAddr (ProcessMemProgCommand s) = e" "Flash64KBPage (ProcessMemProgCommand s) = 0"
    "DFU_State (ProcessMemProgCommand s) = dfuDNLOAD_IDLE" "SentCommand (ProcessMemProgCommand s) = SentCommand s"
    "PageBuffer (ProcessMemProgCommand s) = (\<lambda>_. 0xFFFF)" "hw (ProcessMemProgCommand s) = hw s" "log (ProcessMemProgCommand s) = log s"
    "Flash (ProcessMemProgCommand s) = (\<lambda>x. if page_no x = page_no (unat a) then 0xFF else Flash s x)"
proof -
  have "ucast (ucast a :: u32) = a" by (rule bit_word_eqI) (auto simp: bit_simps)
  then have "flash_addr (ucast a) = unat a" by (simp add: flash_addr_def)
  then show "StartAddr (ProcessMemProgCommand s) = a" "EndAddr (ProcessMemProgCommand s) = e" "Flash64KBPage (ProcessMemProgCommand s) = 0"
    "DFU_State (ProcessMemProgCommand s) = dfuDNLOAD_IDLE" "SentCommand (ProcessMemProgCommand s) = SentCommand s"
    "PageBuffer (ProcessMemProgCommand s) = (\<lambda>_. 0xFFFF)" "hw (ProcessMemProgCommand s) = hw s" "log (ProcessMemProgCommand s) = log s"
    "Flash (ProcessMemProgCommand s) = (\<lambda>x. if page_no x = page_no (unat a) then 0xFF else Flash s x)"
    using assms by (simp_all add: prog_command_def ProcessMemProgCommand_def LoadStartEndAddresses_def Let_def boot_page_erase_def long_addr_def cong: if_cong)
qed

lemma load_firmware_image:
  fixes s :: "'a dfu_dev_scheme"
  assumes "always_ready (hw s)" "prog_command a e s" "DataSize (SentCommand s) \<noteq> 0"
  shows "\<exists>t pre bs suf. load_firmware (ProcessMemProgCommand s) = Some (True, t) \<and>
    was_read UEDATX t = was_read UEDATX s @ pre @ bs @ suf \<and> length pre \<le> 26 \<and> length suf \<le> 16 \<and>
    unat a + length bs = Suc (unat e) \<and> Flash t = flash_image (unat a) (unat a) (\<lambda>_. 0xFFFF) bs (Flash (ProcessMemProgCommand s)) \<and> \<not> RWWBusy t"
proof -
  let ?s = "ProcessMemProgCommand s"
  note c = assms(2) [unfolded prog_command_def]
  have ae: "unat a < unat e" "unat e < 0xFFFF" using c by (simp_all add: word_less_nat_alt)
  note st = prog_started [OF assms(2)]
  from DiscardFillerBytes_ready [of ?s 26] assms(1) obtain u pre where u: "DiscardFillerBytes 26 ?s = Some u" "touches {UEINTX} ?s u"
    "was_read UEDATX u = was_read UEDATX s @ pre" "length pre \<le> 26" by (auto simp: was_read_def st)
  note uf = touches_dfu [OF u(2)] touches_boot [OF u(2)]
  have hu: "hw u = hw s" using u(2) by (simp add: touches_def st)
  have "unat a mod 128 mod 32 = 0" using c by simp
  then have m: "unat (a mod 32) = 0" by (simp add: unat_mod mod_mod_cancel)
  from write_flash_image [of u] obtain v bs where v: "write_flash u = Some (True, v)" "was_read UEDATX v = was_read UEDATX u @ bs"
    "Flash v = flash_image (unat a) (unat a) (\<lambda>_. 0xFFFF) bs (Flash u)" "length bs = unat e - unat a + 1" "\<not> RWWBusy v" "hw v = hw s"
    using c assms(1) by (auto simp: uf hu st)
  from DiscardFillerBytes_ready [of v 16] assms(1) v(6) obtain t suf where t: "DiscardFillerBytes 16 v = Some t" "touches {UEINTX} v t"
    "was_read UEDATX t = was_read UEDATX v @ suf" "length suf \<le> 16" by auto
  have "load_firmware ?s = Some (True, t)"
    using c assms(3) by (simp add: load_firmware_def u(1) m v(1) t(1) uf st)
  moreover have "Flash t = flash_image (unat a) (unat a) (\<lambda>_. 0xFFFF) bs (Flash ?s)" "\<not> RWWBusy t" using touches_boot [OF t(2)] v uf by simp_all
  moreover have "unat a + length bs = Suc (unat e)" using v(4) ae by simp
  ultimately show ?thesis using u v t by (intro exI [of _ t] exI [of _ pre] exI [of _ bs] exI [of _ suf]) simp
qed


section \<open>The firmware is read back\<close>

lemma next_bank_ready:
  assumes "always_ready (hw s)"
  shows "\<exists>t. next_bank s = Some (True, t) \<and> touches {UEINTX} s t"
proof -
  have "hw (Endpoint_ClearIN (snd (Endpoint_BytesInEndpoint s))) = hw s"
    by (simp add: Endpoint_ClearIN_def Endpoint_BytesInEndpoint_def clr_bits_def Let_def split_beta)
  then show ?thesis using assms by (auto simp: next_bank_def Let_def split_beta ready_wait intro!: touch)
qed

lemma read_words_bytes:
  fixes s :: "'a dfu_dev_scheme"
  assumes "always_ready (hw s)" "\<not> RWWBusy s" "unat a + 2 * n \<le> 2 ^ 16"
  shows "\<exists>t. read_words n a s = Some (True, t) \<and> wrote UEDATX t = wrote UEDATX s @ map (Flash s) [unat a..<unat a + 2 * n]"
  using assms
proof (induction n arbitrary: a s)
  case (Suc n)
  from next_bank_ready [OF Suc.prems(1)] obtain p where p: "next_bank s = Some (True, p)" "touches {UEINTX} s p" by blast
  note pf = touches_boot [OF p(2)]
  have hp: "hw p = hw s" using p(2) by (simp add: touches_def)
  have a: "flash_addr a = unat a" using Suc.prems(3) by (intro flash_addr_small) simp
  let ?q = "Endpoint_Write_16_LE (word16 (Flash s (unat a)) (Flash s (unat a + 1))) p"
  have q: "touches {UEDATX} p ?q" by (intro touch) auto
  have w: "wrote UEDATX ?q = wrote UEDATX s @ map (Flash s) [unat a, unat a + 1]"
    using touches_wrote [OF p(2), of UEDATX] by (simp add: Endpoint_Write_16_LE_def word16_parts)
  have hq: "hw ?q = hw s" using q hp by (simp add: touches_def)
  show ?case
  proof (cases "n = 0")
    case True
    then show ?thesis using w by (auto simp: p(1) pgm_read_word_def pf Suc.prems(2) a)
  next
    case False
    then have a2: "unat (a + 2) = unat a + 2" using Suc.prems(3) by (simp add: unat_word_ariths)
    have "\<exists>t. read_words n (a + 2) ?q = Some (True, t) \<and> wrote UEDATX t = wrote UEDATX ?q @ map (Flash ?q) [unat (a + 2)..<unat (a + 2) + 2 * n]"
      using Suc.prems touches_boot [OF q] pf hq by (intro Suc.IH) (auto simp: a2)
    then show ?thesis using w touches_boot [OF q] pf by (auto simp: p(1) pgm_read_word_def Suc.prems(2) a a2 upt_rec [of "unat a"] upt_rec [of "Suc (unat a)"])
  qed
qed simp

text \<open>
  Property C9. A display command with the addresses of an earlier program command sends the host, on an endpoint that
  stays ready, exactly the firmware bytes that the program command took from it.
\<close>

theorem firmware_read_back:
  fixes s t u :: "'a dfu_dev_scheme"
  assumes "always_ready (hw s)" "prog_command a e s" "DataSize (SentCommand s) \<noteq> 0"
    and "load_firmware (ProcessMemProgCommand s) = Some (True, t)"
    and "always_ready (hw u)" "Flash u = Flash t" "\<not> RWWBusy u" "Flash64KBPage u = 0" "Data (SentCommand u) = Data (SentCommand s)"
  shows "\<exists>v z pre bs suf. ProcessMemReadCommand B u = Some v \<and> dfu_upload_data v = Some (True, z) \<and> DFU_State z = dfuIDLE \<and>
    was_read UEDATX t = was_read UEDATX s @ pre @ bs @ suf \<and> length pre \<le> 26 \<and> length suf \<le> 16 \<and> length bs = unat e - unat a + 1 \<and>
    wrote UEDATX z = wrote UEDATX u @ bs"
proof -
  from load_firmware_image [OF assms(1-3)] assms(4) obtain pre bs suf where t:
    "was_read UEDATX t = was_read UEDATX s @ pre @ bs @ suf" "length pre \<le> 26" "length suf \<le> 16" "unat a + length bs = Suc (unat e)"
    "Flash t = flash_image (unat a) (unat a) (\<lambda>_. 0xFFFF) bs (Flash (ProcessMemProgCommand s))" by auto
  note c = assms(2) [unfolded prog_command_def]
  let ?v = "(LoadStartEndAddresses u)\<lparr>DFU_State := dfuUPLOAD_IDLE\<rparr>"
  have v: "StartAddr ?v = a" "EndAddr ?v = e" "Flash64KBPage ?v = 0" "\<not> RWWBusy ?v" "hw ?v = hw u" "Flash ?v = Flash u" "wrote UEDATX ?v = wrote UEDATX u"
    "Data (SentCommand ?v) ! 0 = 0" using c assms(7-9) by (simp_all add: LoadStartEndAddresses_def Let_def wrote_def)
  have n: "unat a < unat e" "unat e < 0xFFFF" "unat (long_addr ?v) = unat a" "2 * unat (drop_bit 1 (BytesRemaining ?v)) = unat e - unat a + 1"
    using span_words [of ?v] c unfolding v by auto
  have len: "unat e - unat a + 1 = length bs" using t(4) n(1) by simp
  have "\<exists>z. read_words (unat (drop_bit 1 (BytesRemaining ?v))) (long_addr ?v) ?v = Some (True, z) \<and>
      wrote UEDATX z = wrote UEDATX u @ map (Flash u) [unat a..<unat a + length bs]"
    using read_words_bytes [of ?v "long_addr ?v" "unat (drop_bit 1 (BytesRemaining ?v))", OF _ v(4)] assms(5) n(2) t(4) unfolding v n(3,4) len by simp
  moreover have "map (Flash u) [unat a..<unat a + length bs] = bs"
    using n(1) by (intro nth_equalityI) (simp_all add: assms(6) t(5) image_parts(1) [OF t(4)] nth_append del: upt_Suc)
  ultimately obtain z where z: "read_words (unat (drop_bit 1 (BytesRemaining ?v))) (long_addr ?v) ?v = Some (True, z)" "wrote UEDATX z = wrote UEDATX u @ bs" by auto
  then have "dfu_upload_data ?v = Some (True, z\<lparr>StartAddr := EndAddr z, DFU_State := dfuIDLE\<rparr>)" using v(8)
    by (simp add: dfu_upload_data_def read_flash_def)
  moreover have "ProcessMemReadCommand B u = Some ?v" using c assms(9) by (simp add: ProcessMemReadCommand_def)
  ultimately show ?thesis using t z n(1) by (intro exI [of _ ?v] exI [of _ "z\<lparr>StartAddr := EndAddr z, DFU_State := dfuIDLE\<rparr>"] exI [of _ pre] exI [of _ bs] exI [of _ suf]) (simp add: wrote_def)
qed

text \<open>A device with this flash that is sent the command \<open>d\<close>\<close>

definition dfu_at :: "(acc list \<Rightarrow> reg \<Rightarrow> u8) \<Rightarrow> u8 \<Rightarrow> u8 list \<Rightarrow> bool \<Rightarrow> (nat \<Rightarrow> u8) \<Rightarrow> dfu_dev" where
  "dfu_at H c d secure f = boot_dev.extend
     (dev.extend (dev_at H \<lparr>bmRequestType = 0x21, bRequest = 1, wValue = 0, wIndex = 0, wLength = 7\<rparr>)
       (boot_dev.fields f (\<lambda>_. 0xFFFF) False (\<lambda>_. 0xFF) 0 False 0))
     (dfu_dev.fields secure True False dfuIDLE status_OK \<lparr>Command = c, Data = d, DataSize = 1\<rparr> 0 0 0 0 0)"

lemma dfu_at_simps [simp]:
  "hw (dfu_at H c d secure f) = H" "log (dfu_at H c d secure f) = []" "SentCommand (dfu_at H c d secure f) = \<lparr>Command = c, Data = d, DataSize = 1\<rparr>"
  "Flash (dfu_at H c d secure f) = f" "PageBuffer (dfu_at H c d secure f) = (\<lambda>_. 0xFFFF)" "Flash64KBPage (dfu_at H c d secure f) = 0"
  "IsSecure (dfu_at H c d secure f) = secure" "WaitForExit (dfu_at H c d secure f) = False" "DFU_State (dfu_at H c d secure f) = dfuIDLE"
  "RWWBusy (dfu_at H c d secure f) = False"
  by (simp_all add: dfu_at_def dev_at_def dev.defs boot_dev.defs dfu_dev.defs)


theorem firmware_read_back_witness:
  "\<exists>t v z bs. load_firmware (ProcessMemProgCommand (dfu_at (\<lambda>l r. 0x25) COMMAND_PROG_START [0, 0, 0, 0, 3] False (\<lambda>_. 0))) = Some (True, t) \<and>
    ProcessMemReadCommand 0x3000 (dfu_at (\<lambda>l r. 0x25) COMMAND_DISP_DATA [0, 0, 0, 0, 3] False (Flash t)) = Some v \<and>
    dfu_upload_data v = Some (True, z) \<and> length bs = 4 \<and> wrote UEDATX z = bs"
proof -
  let ?s = "dfu_at (\<lambda>l r. 0x25) COMMAND_PROG_START [0, 0, 0, 0, 3] False (\<lambda>_. 0)"
  have c: "tst 0x25 RXOUTI" "tst 0x25 TXINI" by code_simp+
  note H = always_ready_const [OF c]
  have p: "prog_command 0 3 ?s" by (simp add: prog_command_def)
  with H load_firmware_image [of ?s 0 3] obtain t where t: "load_firmware (ProcessMemProgCommand ?s) = Some (True, t)" by auto
  from firmware_read_back [OF _ p _ t, where u = "dfu_at (\<lambda>l r. 0x25) COMMAND_DISP_DATA [0, 0, 0, 0, 3] False (Flash t)" and B = "0x3000"] H
  obtain v z bs where "ProcessMemReadCommand 0x3000 (dfu_at (\<lambda>l r. 0x25) COMMAND_DISP_DATA [0, 0, 0, 0, 3] False (Flash t)) = Some v"
    "dfu_upload_data v = Some (True, z)" "length bs = unat (3 :: u16) - unat (0 :: u16) + 1" "wrote UEDATX z = bs"
    by (auto simp: wrote_def)
  with t show ?thesis by (intro exI [of _ t] exI [of _ v] exI [of _ z] exI [of _ bs]) simp
qed

section \<open>Secure mode\<close>

text \<open>
  A run of control requests, of any kind and in any order. On a secured device no download or upload is going on, no
  exit is pending and the page buffer is empty.
\<close>

inductive dfu_session :: "nat \<Rightarrow> 'a dfu_dev_scheme \<Rightarrow> 'a dfu_dev_scheme \<Rightarrow> bool" for B where
  idle: "dfu_session B s s"
| request: "dfu_session B s t \<Longrightarrow> DFU_ControlRequest B (t\<lparr>USB_ControlRequest := q\<rparr>) = Some u \<Longrightarrow> dfu_session B s u"

definition secured :: "'a dfu_dev_scheme \<Rightarrow> bool" where
  "secured s \<longleftrightarrow> IsSecure s \<and> DFU_State s \<noteq> dfuDNLOAD_IDLE \<and> DFU_State s \<noteq> dfuUPLOAD_IDLE \<and> \<not> WaitForExit s \<and> PageBuffer s = (\<lambda>_. 0xFFFF)"

text \<open>The memories are as they were, or the application section is blank and the rest as it was.\<close>

definition wiped :: "nat \<Rightarrow> 'a dfu_dev_scheme \<Rightarrow> 'a dfu_dev_scheme \<Rightarrow> bool" where
  "wiped B s t \<longleftrightarrow> (\<forall>x < B. Flash t x = 0xFF) \<and> (\<forall>x. page_no (B - 1) < page_no x \<longrightarrow> Flash t x = Flash s x) \<and> EEPROM t = EEPROM s"

definition guarded :: "nat \<Rightarrow> 'a dfu_dev_scheme \<Rightarrow> 'a dfu_dev_scheme \<Rightarrow> bool" where
  "guarded B s t \<longleftrightarrow> secured t \<and> Flash t = Flash s \<and> EEPROM t = EEPROM s \<or> wiped B s t \<and> DFU_State t \<noteq> dfuDNLOAD_IDLE"

lemma guarded_touches:
  fixes s t u :: "'a dfu_dev_scheme"
  assumes "guarded B s t" "touches R t u"
  shows "guarded B s u"
  using assms(1) by (simp add: guarded_def secured_def wiped_def touches_dfu [OF assms(2)] touches_boot [OF assms(2)])

lemma erase_pages_flash:
  assumes "PageBuffer s = (\<lambda>_. 0xFFFF)" "a mod 128 = 0"
  shows "Flash (erase_pages B a s) = (\<lambda>x. if a \<le> x \<and> page_no x \<le> page_no (B - 1) \<and> a < B then 0xFF else Flash s x) \<and>
    EEPROM (erase_pages B a s) = EEPROM s \<and> PageBuffer (erase_pages B a s) = PageBuffer s \<and> boot_dev.more (erase_pages B a s) = boot_dev.more s"
  using assms
proof (induction B a s rule: erase_pages.induct)
  case (1 B a s)
  show ?case
  proof (cases "a < B")
    case True
    let ?u = "boot_page_write a (boot_page_erase a s)"
    have b: "buffer_byte (\<lambda>_. 0xFFFF) x = 0xFF" for x by (simp add: buffer_byte_def Let_def)
    have u: "EEPROM ?u = EEPROM s" "boot_dev.more ?u = boot_dev.more s" by (simp_all add: boot_page_write_def boot_page_erase_def)
    note same = page_no_same [OF "1.prems"(2)]
    have l: "page_no a \<le> page_no (B - 1)" using True by (intro page_no_mono) simp
    have r: "page_no (B - 1) = page_no a" if "B \<le> a + 128" using that True by (simp add: same) linarith
    have ih: "Flash (erase_pages B (a + 128) ?u) x = (if a + 128 \<le> x \<and> page_no x \<le> page_no (B - 1) \<and> a + 128 < B then 0xFF else Flash ?u x)" for x
      using "1.IH" [OF True] "1.prems" by simp
    have f: "Flash ?u x = (if page_no x = page_no a then 0xFF else Flash s x)" for x using "1.prems"(1) by (simp add: b)
    have "Flash (erase_pages B (a + 128) ?u) x = (if a \<le> x \<and> page_no x \<le> page_no (B - 1) then 0xFF else Flash s x)" for x
    proof (cases "page_no x = page_no a")
      case True
      then show ?thesis using l by (simp add: ih b "1.prems"(1)) (simp add: same)
    next
      case False
      then have "x < a \<or> a + 128 \<le> x" by (auto simp: same)
      moreover have "\<not> page_no x \<le> page_no (B - 1)" if "B \<le> a + 128" "a + 128 \<le> x" using r [OF that(1)] page_no_mono [of a x] that False by simp
      ultimately show ?thesis using False by (auto simp: ih f)
    qed
    then have "Flash (erase_pages B (a + 128) ?u) = (\<lambda>x. if a \<le> x \<and> page_no x \<le> page_no (B - 1) \<and> a < B then 0xFF else Flash s x)" using True by auto
    then show ?thesis using "1.IH" [OF True] "1.prems" True u by (simp add: erase_pages.simps [of B a])
  qed (simp add: erase_pages.simps)
qed

lemma command_guarded:
  fixes s t :: "'a dfu_dev_scheme"
  assumes "secured s" "ProcessBootloaderCommand B s = Some t"
  shows "guarded B s t"
proof -
  let ?c = "Command (SentCommand s)"
  consider (reject) "t = Endpoint_StallTransaction (s\<lparr>DFU_State := dfuERROR, DFU_Status := errWRITE\<rparr>)"
    | (read) "t = ProcessReadCommand s" | (erase) "t = (boot_rww_enable (erase_pages B 0 s))\<lparr>IsSecure := False\<rparr>"
    using assms by (auto simp: ProcessBootloaderCommand_def ProcessWriteCommand_def secured_def Let_def split: if_splits)
  then show ?thesis
  proof cases
    case reject
    have "touches {UECONX} (s\<lparr>DFU_State := dfuERROR, DFU_Status := errWRITE\<rparr>) t" unfolding reject by (intro touch) auto
    moreover have "guarded B s (s\<lparr>DFU_State := dfuERROR, DFU_Status := errWRITE\<rparr>)" using assms(1) by (simp add: guarded_def secured_def)
    ultimately show ?thesis by (rule guarded_touches [rotated])
  next
    case read
    then show ?thesis using assms(1) by (simp add: guarded_def secured_def ProcessReadCommand_def split: option.split)
  next
    case erase
    have e: "Flash (erase_pages B 0 s) = (\<lambda>x. if page_no x \<le> page_no (B - 1) \<and> 0 < B then 0xFF else Flash s x)" "EEPROM (erase_pages B 0 s) = EEPROM s"
      "boot_dev.more (erase_pages B 0 s) = boot_dev.more s"
      using erase_pages_flash [of s 0 B] assms(1) by (simp_all add: secured_def)
    then have "DFU_State (erase_pages B 0 s) = DFU_State s" by (cases s; cases "erase_pages B 0 s") simp
    with e erase assms(1) show ?thesis by (auto simp: guarded_def wiped_def secured_def boot_rww_enable_def intro: page_no_mono)
  qed
qed

lemma secured_touches:
  fixes s t :: "'a dfu_dev_scheme"
  assumes "touches R s t"
  shows "secured t = secured s" "Flash t = Flash s" "EEPROM t = EEPROM s"
  by (simp_all add: secured_def touches_dfu [OF assms] touches_boot [OF assms])

lemma load_data_secured:
  fixes s :: "'a dfu_dev_scheme"
  shows "secured (load_data n i s) = secured s \<and> Flash (load_data n i s) = Flash s \<and> EEPROM (load_data n i s) = EEPROM s"
proof (induction n arbitrary: i s)
  case (Suc n)
  let ?b = "snd (Endpoint_BytesInEndpoint s)"
  let ?r = "snd (Endpoint_Read_8 ?b)"
  have "touches {} s ?b" "touches {} s ?r" by (auto intro!: touch)
  note k = secured_touches [OF this(1)] secured_touches [OF this(2)]
  have u: "secured (?r\<lparr>SentCommand := q\<rparr>) = secured ?r" for q by (simp add: secured_def)
  show ?case using k by (simp add: Let_def split_beta Suc.IH u)
qed simp

lemma load_command_guarded:
  fixes s t :: "'a dfu_dev_scheme"
  assumes "secured s" "load_command B s = Some (ok, t)"
  shows "guarded B s t"
proof (cases "DataSize (SentCommand s) = 0")
  case True
  with assms show ?thesis by (auto simp: load_command_def guarded_def)
next
  case False
  from assms(2) False obtain ok' u where u: "status_wait Endpoint_IsOUTReceived s = Some (ok', u)" by (auto simp: load_command_def bind_eq_Some_conv)
  note k = secured_touches [OF status_wait_OUT(1) [OF u]]
  show ?thesis
  proof (cases ok')
    case False
    with assms u \<open>DataSize (SentCommand s) \<noteq> 0\<close> k show ?thesis by (auto simp: load_command_def guarded_def)
  next
    case True
    let ?r = "snd (Endpoint_Read_8 u)"
    have "touches {} u ?r" by (auto intro!: touch)
    note r = secured_touches [OF this]
    let ?q = "SentCommand ?r"
    let ?d = "load_data 5 0 (?r\<lparr>SentCommand := ?q\<lparr>Command := fst (Endpoint_Read_8 u), DataSize := DataSize ?q - 1\<rparr>\<rparr>)"
    have "secured ?d" "Flash ?d = Flash s" "EEPROM ?d = EEPROM s"
      using assms(1) k r by (simp_all add: load_data_secured) (simp add: secured_def)
    moreover have "ProcessBootloaderCommand B ?d = Some t"
      using assms(2) u True False by (auto simp: load_command_def Let_def split_beta bind_eq_Some_conv)
    ultimately show ?thesis using command_guarded [of ?d B t] by (auto simp: guarded_def wiped_def)
  qed
qed

lemma firmware_guarded: "DFU_State s \<noteq> dfuDNLOAD_IDLE \<Longrightarrow> load_firmware s = Some (True, s)"
  by (simp add: load_firmware_def)

lemma dnload_guarded:
  fixes s t :: "'a dfu_dev_scheme"
  assumes "secured s" "dfu_DNLOAD B s = Some t"
  shows "guarded B s t"
proof -
  let ?s = "Endpoint_ClearSETUP s"
  have "touches {UEINTX} s ?s" by (intro touch) auto
  note k = secured_touches [OF this]
  with assms(1) have w: "\<not> WaitForExit ?s" by (simp add: secured_def)
  from assms(2) w obtain ok u where u: "load_command B ?s = Some (ok, u)" by (auto simp: dfu_DNLOAD_def Let_def bind_eq_Some_conv)
  have g: "guarded B s u" using load_command_guarded [OF _ u] assms(1) k by (simp add: guarded_def wiped_def)
  then have f: "load_firmware u = Some (True, u)" by (intro firmware_guarded) (auto simp: guarded_def secured_def)
  have "t = u \<or> Endpoint_ClearStatusStage (Endpoint_ClearOUT u) = Some t"
    using assms(2) w u f by (auto simp: dfu_DNLOAD_def Let_def split: if_splits)
  moreover have "touches {UEINTX} u (Endpoint_ClearOUT u)" by (intro touch) auto
  ultimately show ?thesis using g by (auto intro: guarded_touches ClearStatusStage_touches)
qed

lemma status_wait_IN: "status_wait Endpoint_IsINReady s = Some (ok, t) \<Longrightarrow> touches {UEINTX, UEDATX} s t"
  by (auto elim!: status_wait_touches intro: touch)

lemma status_stage_guarded:
  fixes s t u :: "'a dfu_dev_scheme"
  assumes "touches {UEINTX, UEDATX} s t" "Endpoint_ClearStatusStage t = Some u"
  shows "touches {UEINTX, UEDATX} s u"
  by (rule touches_trans [OF assms(1) touches_mono [OF ClearStatusStage_touches [OF assms(2)]]]) auto

text \<open>Requests that only answer\<close>

lemma answer_touches:
  fixes s t :: "'a dfu_dev_scheme"
  assumes "status_wait Endpoint_IsINReady (Endpoint_ClearSETUP s) \<bind> (\<lambda>(ok, s). if \<not> ok then Some s else g s) = Some t"
    and "\<And>u. DFU_State u = DFU_State s \<Longrightarrow> g u = Some t \<Longrightarrow> Endpoint_ClearStatusStage (Endpoint_ClearIN (f u)) = Some t"
    and "\<And>u. touches {UEINTX, UEDATX} u (f u)"
  shows "touches {UEINTX, UEDATX} s t"
proof -
  have c: "touches {UEINTX, UEDATX} s (Endpoint_ClearSETUP s)" by (auto intro!: touch)
  from assms(1) obtain ok u where u: "status_wait Endpoint_IsINReady (Endpoint_ClearSETUP s) = Some (ok, u)" and r: "t = u \<or> g u = Some t"
    by (auto simp: bind_eq_Some_conv split: if_splits)
  have su: "touches {UEINTX, UEDATX} s u" by (rule touches_trans [OF c status_wait_IN [OF u]])
  from r show ?thesis
  proof
    assume "g u = Some t"
    then have e: "Endpoint_ClearStatusStage (Endpoint_ClearIN (f u)) = Some t" by (intro assms(2) touches_dfu(2) [OF su])
    have "touches {UEINTX, UEDATX} s (Endpoint_ClearIN (f u))" by (intro touch touches_trans [OF su assms(3)]) simp
    then show ?thesis by (rule status_stage_guarded [OF _ e])
  qed (use su in simp)
qed

lemma answers_touch:
  fixes s t :: "'a dfu_dev_scheme"
  shows "dfu_UPLOAD s = Some t \<Longrightarrow> DFU_State s \<noteq> dfuUPLOAD_IDLE \<Longrightarrow> touches {UEINTX, UEDATX} s t"
    and "dfu_GETSTATUS s = Some t \<Longrightarrow> touches {UEINTX, UEDATX} s t"
    and "dfu_GETSTATE s = Some t \<Longrightarrow> touches {UEINTX, UEDATX} s t"
proof -
  show "touches {UEINTX, UEDATX} s t" if "dfu_UPLOAD s = Some t" "DFU_State s \<noteq> dfuUPLOAD_IDLE"
    by (rule answer_touches [OF that(1) [unfolded dfu_UPLOAD_def], where f = "\<lambda>u. if DFU_State u = dfuERROR \<and> onebyte u 1
      then Endpoint_Write_16_LE (StartAddr u) u else Endpoint_Write_8 (ResponseByte u) u"])
      (use that(2) in \<open>auto simp: dfu_upload_data_def intro!: touch\<close>)
  show "touches {UEINTX, UEDATX} s t" if "dfu_GETSTATUS s = Some t"
    by (rule answer_touches [OF that [unfolded dfu_GETSTATUS_def], where f = "\<lambda>s. let s = Endpoint_Write_16_LE 0 (Endpoint_Write_8 0
      (Endpoint_Write_8 (DFU_Status s) s)) in Endpoint_Write_8 0 (Endpoint_Write_8 (DFU_State s) s)"])
      (auto intro!: touch simp: Let_def)
  show "touches {UEINTX, UEDATX} s t" if "dfu_GETSTATE s = Some t"
    by (rule answer_touches [OF that [unfolded dfu_GETSTATE_def], where f = "\<lambda>s. Endpoint_Write_8 (DFU_State s) s"])
      (auto intro!: touch)
qed

lemma request_guarded:
  fixes s t :: "'a dfu_dev_scheme"
  assumes "secured s" "DFU_ControlRequest B s = Some t"
  shows "guarded B s t"
proof -
  let ?s = "s\<lparr>SentCommand := (SentCommand s)\<lparr>DataSize := wLength (USB_ControlRequest s)\<rparr>\<rparr>"
  have s: "secured ?s" "guarded B s ?s" "guarded B s s" using assms(1) by (simp_all add: secured_def guarded_def)
  then have i: "DFU_State ?s \<noteq> dfuUPLOAD_IDLE" by (simp add: secured_def)
  have "guarded B s (Endpoint_ClearSETUP ?s)" by (rule guarded_touches [OF s(2), of "{UEINTX}"]) (auto intro!: touch)
  then have a: "guarded B s ((Endpoint_ClearSETUP ?s)\<lparr>DFU_Status := status_OK\<rparr>)" "guarded B s ((Endpoint_ClearSETUP ?s)\<lparr>DFU_State := dfuIDLE\<rparr>)"
    by (auto simp: guarded_def secured_def wiped_def)
  have "t = s \<or> t = ?s \<or> dfu_DNLOAD B ?s = Some t \<or> dfu_UPLOAD ?s = Some t \<or> dfu_GETSTATUS ?s = Some t \<or>
      dfu_GETSTATE ?s = Some t \<or> dfu_CLRSTATUS ?s = Some t \<or> dfu_ABORT ?s = Some t"
    using assms(2) unfolding DFU_ControlRequest_def Let_def by (metis option.inject)
  then consider "t = s" | "t = ?s" | "dfu_DNLOAD B ?s = Some t" | "dfu_UPLOAD ?s = Some t" | "dfu_GETSTATUS ?s = Some t"
    | "dfu_GETSTATE ?s = Some t" | "dfu_CLRSTATUS ?s = Some t" | "dfu_ABORT ?s = Some t"
by blast
  then show ?thesis
  proof cases
    case 3
    from dnload_guarded [OF s(1) this] show ?thesis by (simp add: guarded_def wiped_def)
  next
    case 4
    from guarded_touches [OF s(2) answers_touch(1) [OF this i]] show ?thesis .
  next
    case 5
    from guarded_touches [OF s(2) answers_touch(2) [OF this]] show ?thesis .
  next
    case 6
    from guarded_touches [OF s(2) answers_touch(3) [OF this]] show ?thesis .
  next
    case 7
    from guarded_touches [OF a(1) ClearStatusStage_touches [OF this [unfolded dfu_CLRSTATUS_def]]] show ?thesis .
  next
    case 8
    from guarded_touches [OF a(2) ClearStatusStage_touches [OF this [unfolded dfu_ABORT_def]]] show ?thesis .
  qed (use s in simp_all)
qed

lemma session_guarded:
  assumes "dfu_session B s t" "secured s"
  shows "secured t \<and> Flash t = Flash s \<and> EEPROM t = EEPROM s \<or> (\<exists>v. dfu_session B s v \<and> wiped B s v \<and> dfu_session B v t)"
  using assms
proof (induction rule: dfu_session.induct)
  case (request s t q u)
  show ?case
  proof (cases "secured t \<and> Flash t = Flash s \<and> EEPROM t = EEPROM s")
    case True
    with request_guarded [OF _ request.hyps(2)] have "guarded B (t\<lparr>USB_ControlRequest := q\<rparr>) u" by (simp add: secured_def)
    with True request.hyps show ?thesis by (auto simp: guarded_def wiped_def intro: dfu_session.intros)
  next
    case False
    with request show ?thesis by (blast intro: dfu_session.intros)
  qed
qed simp

text \<open>
  Property C10. Whatever requests the host sends to a secured device, in any order, the device stays secured with its
  flash and EEPROM unchanged, unless the session passes through a state in which the whole application section is blank.
  That erasure leaves the EEPROM and the pages behind the application section alone.
\<close>

theorem secure_mode:
  assumes "dfu_session B s t" "secured s"
  shows "IsSecure t \<and> Flash t = Flash s \<and> EEPROM t = EEPROM s \<or>
    (\<exists>v. dfu_session B s v \<and> dfu_session B v t \<and> (\<forall>x < B. Flash v x = 0xFF) \<and> EEPROM v = EEPROM s \<and>
      (\<forall>x. page_no (B - 1) < page_no x \<longrightarrow> Flash v x = Flash s x))"
  using session_guarded [OF assms] by (auto simp: secured_def wiped_def)

text \<open>A secured device is asked to clear its status.\<close>

theorem secure_mode_witness:
  "\<exists>t. DFU_ControlRequest 0x3000 ((dfu_at (\<lambda>l r. 0x25) COMMAND_READ [0, 0, 0, 0, 0] True (\<lambda>_. 7))\<lparr>USB_ControlRequest :=
      \<lparr>bmRequestType = 0x21, bRequest = DFU_REQ_CLRSTATUS, wValue = 0, wIndex = 0, wLength = 0\<rparr>\<rparr>) = Some t \<and>
    (IsSecure t \<and> Flash t 5 = 7 \<or> (\<exists>v. dfu_session 0x3000 v t \<and> Flash v 5 = 0xFF))"
proof -
  let ?s = "dfu_at (\<lambda>l r. 0x25) COMMAND_READ [0, 0, 0, 0, 0] True (\<lambda>_. 7)"
  let ?q = "\<lparr>bmRequestType = 0x21, bRequest = DFU_REQ_CLRSTATUS, wValue = 0, wIndex = 0, wLength = 0\<rparr>"
  have c: "tst 0x25 RXOUTI" "tst 0x25 TXINI" by code_simp+
  have h: "hw (Endpoint_ClearSETUP u) = hw u" for u :: dfu_dev by (simp add: Endpoint_ClearSETUP_def clr_bits_def split_beta Let_def)
  have "DFU_ControlRequest 0x3000 (?s\<lparr>USB_ControlRequest := ?q\<rparr>) =
      dfu_CLRSTATUS (?s\<lparr>USB_ControlRequest := ?q, SentCommand := (SentCommand ?s)\<lparr>DataSize := 0\<rparr>\<rparr>)"
    by (simp add: DFU_ControlRequest_def)
  with ready_status [of "Endpoint_ClearSETUP (?s\<lparr>USB_ControlRequest := ?q, SentCommand := (SentCommand ?s)\<lparr>DataSize := 0\<rparr>\<rparr>)\<lparr>DFU_Status := status_OK\<rparr>"]
  obtain t where t: "DFU_ControlRequest 0x3000 (?s\<lparr>USB_ControlRequest := ?q\<rparr>) = Some t"
    using always_ready_const [OF c] by (auto simp: dfu_CLRSTATUS_def h)
  then have d: "dfu_session 0x3000 ?s t" by (blast intro: dfu_session.intros)
  have "secured ?s" by (simp add: secured_def)
  from secure_mode [OF d this] have "IsSecure t \<and> Flash t 5 = 7 \<or> (\<exists>v. dfu_session 0x3000 v t \<and> Flash v 5 = 0xFF)" by force
  with t show ?thesis by blast
qed

end
