(* ===== verification/CDC_Boot.thy ===== *)
theory CDC_Boot
  imports Boot_Flash CDC_Class
begin

text \<open>
  The CDC boot loader, \<open>src/AT16u2/Bootloaders/CDC/BootloaderCDC.c\<close> and \<open>.h\<close>: a virtual serial port on which
  a programmer speaks the protocol AVR109. \<open>B\<close> is \<open>BOOT_START_ADDR\<close>, which the build defines, and \<open>fuse\<close> are the
  fuse bytes of the controller. The signature is the one of the ATmega16U2. The indicator LEDs depend on the board
  and are left out, and so is \<open>main\<close>: its device task comes from a configuration of the library of its own.
\<close>

section \<open>State\<close>

record avr109_dev = boot_dev +
  PortEncoding :: CDC_LineEncoding
  CurrAddress :: u32
  Running :: bool
  LockBits :: u8

abbreviation BOOT_NOTIFICATION_EPADDR :: u8 where "BOOT_NOTIFICATION_EPADDR \<equiv> 0x82"
abbreviation BOOT_TX_EPADDR :: u8 where "BOOT_TX_EPADDR \<equiv> 0x83"
abbreviation BOOT_RX_EPADDR :: u8 where "BOOT_RX_EPADDR \<equiv> 4"
abbreviation BOOT_KEY :: u16 where "BOOT_KEY \<equiv> 0xDC42"

text \<open>A character of the protocol\<close>

definition ch :: "char \<Rightarrow> u8" where
  "ch c = of_nat (of_char c)"

abbreviation AVR109_COMMAND_Sync :: u8 where "AVR109_COMMAND_Sync \<equiv> 27"
abbreviation CR :: u8 where "CR \<equiv> 13"

definition SOFTWARE_IDENTIFIER :: string where
  "SOFTWARE_IDENTIFIER = ''LUFACDC''"

section \<open>Bytes from and to the host\<close>

definition FetchNextCommandByte :: "'a mcu_scheme \<Rightarrow> (u8 \<times> 'a mcu_scheme) option" where
  "FetchNextCommandByte s = do {
     (ok, s) \<leftarrow> poll_loop (\<lambda>s.
       let (allowed, s) = Endpoint_IsReadWriteAllowed s
       in if allowed then Some (Some True, s)
          else do {
            (ok, s) \<leftarrow> status_wait Endpoint_IsOUTReceived (Endpoint_ClearOUT s);
            Some (if ok then None else Some False, s) }) (Endpoint_SelectEndpoint BOOT_RX_EPADDR s);
     Some (if ok then Endpoint_Read_8 s else (0, s)) }"

definition WriteNextResponseByte :: "u8 \<Rightarrow> 'a mcu_scheme \<Rightarrow> 'a mcu_scheme option" where
  "WriteNextResponseByte Response s =
     (let (allowed, s) = Endpoint_IsReadWriteAllowed (Endpoint_SelectEndpoint BOOT_TX_EPADDR s)
      in if allowed then Some (Endpoint_Write_8 Response s)
         else do {
           (ok, s) \<leftarrow> status_wait Endpoint_IsINReady (Endpoint_ClearIN s);
           Some (if ok then Endpoint_Write_8 Response s else s) })"

primrec respond :: "u8 list \<Rightarrow> 'a mcu_scheme \<Rightarrow> 'a mcu_scheme option" where
  "respond [] s = Some s"
| "respond (v # vs) s = do { s \<leftarrow> WriteNextResponseByte v s; respond vs s }"

section \<open>Blocks\<close>

definition eeprom_addr :: "u32 \<Rightarrow> nat" where
  "eeprom_addr a = unat (ucast (drop_bit 1 a) :: u16)"

definition flash_at :: "bool \<Rightarrow> 'a avr109_dev_scheme \<Rightarrow> nat" where
  "flash_at HighByte s = flash_addr (CurrAddress s OR (if HighByte then 1 else 0))"

primrec read_block :: "nat \<Rightarrow> bool \<Rightarrow> bool \<Rightarrow> 'a avr109_dev_scheme \<Rightarrow> 'a avr109_dev_scheme option" where
  "read_block 0 flash HighByte s = Some s"
| "read_block (Suc BlockSize) flash HighByte s =
     (if flash
      then do {
        v \<leftarrow> pgm_read_byte (flash_at HighByte s) s;
        s \<leftarrow> WriteNextResponseByte v s;
        read_block BlockSize flash (\<not> HighByte) (if HighByte then s\<lparr>CurrAddress := CurrAddress s + 2\<rparr> else s) }
      else do {
        s \<leftarrow> WriteNextResponseByte (EEPROM s (eeprom_addr (CurrAddress s))) s;
        read_block BlockSize flash HighByte (s\<lparr>CurrAddress := CurrAddress s + 2\<rparr>) })"

primrec write_block :: "nat \<Rightarrow> bool \<Rightarrow> bool \<Rightarrow> u8 \<Rightarrow> 'a avr109_dev_scheme \<Rightarrow> 'a avr109_dev_scheme option" where
  "write_block 0 flash HighByte LowByte s = Some s"
| "write_block (Suc BlockSize) flash HighByte LowByte s = do {
     (v, s) \<leftarrow> FetchNextCommandByte s;
     if flash
     then if HighByte
       then let s = boot_page_fill (flash_addr (CurrAddress s)) (word16 LowByte v) s
         in write_block BlockSize flash (\<not> HighByte) LowByte (s\<lparr>CurrAddress := CurrAddress s + 2\<rparr>)
       else write_block BlockSize flash (\<not> HighByte) v s
     else write_block BlockSize flash HighByte LowByte
       (s\<lparr>EEPROM := (EEPROM s)(eeprom_addr (CurrAddress s) := v), CurrAddress := CurrAddress s + 2\<rparr>) }"

definition ReadWriteMemoryBlock :: "u8 \<Rightarrow> 'a avr109_dev_scheme \<Rightarrow> 'a avr109_dev_scheme option" where
  "ReadWriteMemoryBlock Cmd s = do {
     (h, s) \<leftarrow> FetchNextCommandByte s;
     (l, s) \<leftarrow> FetchNextCommandByte s;
     (MemoryType, s) \<leftarrow> FetchNextCommandByte s;
     let BlockSize = unat (word16 l h);
     let flash = (MemoryType = ch CHR ''F'');
     if \<not> flash \<and> MemoryType \<noteq> ch CHR ''E'' then WriteNextResponseByte (ch CHR ''?'') s
     else if Cmd = ch CHR ''g'' then read_block BlockSize flash False (boot_rww_enable s)
     else do {
       let PageStartAddress = flash_addr (CurrAddress s);
       let s = (if flash then boot_page_erase PageStartAddress s else s);
       s \<leftarrow> write_block BlockSize flash False 0 s;
       let s = (if flash then boot_page_write PageStartAddress s else s);
       WriteNextResponseByte CR s } }"

section \<open>Commands\<close>

function erase_section :: "nat \<Rightarrow> nat \<Rightarrow> 'a boot_dev_scheme \<Rightarrow> 'a boot_dev_scheme" where
  "erase_section B a s = (if a < B then erase_section B (a + SPM_PAGESIZE) (boot_page_write a (boot_page_erase a s)) else s)"
  by pat_completeness auto
termination by (relation "measure (\<lambda>(B, a, s). B - a)") auto

declare erase_section.simps [simp del]

text \<open>The address of a word the host gives, as an address of a byte; \<open>int\<close> has 16 bits and a sign.\<close>

definition host_addr :: "u8 \<Rightarrow> u8 \<Rightarrow> u32" where
  "host_addr h l = scast (push_bit 9 (ucast h) :: u16) OR scast (push_bit 1 (ucast l) :: u16)"

text \<open>The commands that read or change a memory or the state of the boot loader\<close>

definition memory_command :: "nat \<Rightarrow> u8 \<Rightarrow> 'a avr109_dev_scheme \<Rightarrow> 'a avr109_dev_scheme option" where
  "memory_command B Cmd s =
     (if Cmd = ch CHR ''E'' then respond [CR] (s\<lparr>Running := False\<rparr>)
      else if Cmd = ch CHR ''A'' then do {
        (h, s) \<leftarrow> FetchNextCommandByte s;
        (l, s) \<leftarrow> FetchNextCommandByte s;
        respond [CR] (s\<lparr>CurrAddress := host_addr h l\<rparr>) }
      else if Cmd = ch CHR ''e'' then respond [CR] (erase_section B 0 s)
      else if Cmd = ch CHR ''l'' then do {
        (v, s) \<leftarrow> FetchNextCommandByte s;
        respond [CR] (s\<lparr>LockBits := LockBits s AND NOT v\<rparr>) }
      else if Cmd = ch CHR ''B'' \<or> Cmd = ch CHR ''g'' then ReadWriteMemoryBlock Cmd s
      else if Cmd = ch CHR ''C'' then do {
        (v, s) \<leftarrow> FetchNextCommandByte s;
        respond [CR] (boot_page_fill (flash_addr (CurrAddress s)) (ucast v) s) }
      else if Cmd = ch CHR ''c'' then do {
        (v, s) \<leftarrow> FetchNextCommandByte s;
        let s = boot_page_fill (flash_addr (CurrAddress s OR 1)) (ucast v) s;
        respond [CR] (s\<lparr>CurrAddress := CurrAddress s + 2\<rparr>) }
      else if Cmd = ch CHR ''m'' then respond [CR] (boot_page_write (flash_addr (CurrAddress s)) s)
      else if Cmd = ch CHR ''R'' then do {
        w \<leftarrow> pgm_read_word (flash_addr (CurrAddress s)) s;
        respond [ucast (drop_bit 8 w), ucast w] s }
      else if Cmd = ch CHR ''D'' then do {
        (v, s) \<leftarrow> FetchNextCommandByte s;
        let s = s\<lparr>EEPROM := (EEPROM s)(eeprom_addr (CurrAddress s) := v)\<rparr>;
        respond [CR] (s\<lparr>CurrAddress := CurrAddress s + 2\<rparr>) }
      else if Cmd = ch CHR ''d'' then do {
        s \<leftarrow> respond [EEPROM s (eeprom_addr (CurrAddress s))] s;
        Some (s\<lparr>CurrAddress := CurrAddress s + 2\<rparr>) }
      else if Cmd \<noteq> AVR109_COMMAND_Sync then respond [ch CHR ''?''] s
      else Some s)"

text \<open>The commands with a fixed answer\<close>

definition fixed_answer :: "(u8 \<Rightarrow> u8) \<Rightarrow> 'a avr109_dev_scheme \<Rightarrow> u8 \<Rightarrow> u8 list option" where
  "fixed_answer fuse s Cmd =
     (if Cmd = ch CHR ''P'' \<or> Cmd = ch CHR ''L'' then Some [CR]
      else if Cmd = ch CHR ''t'' then Some [0x44, 0]
      else if Cmd = ch CHR ''a'' then Some [ch CHR ''Y'']
      else if Cmd = ch CHR ''p'' then Some [ch CHR ''S'']
      else if Cmd = ch CHR ''S'' then Some (map ch SOFTWARE_IDENTIFIER)
      else if Cmd = ch CHR ''V'' then Some [ch CHR ''1'', ch CHR ''0'']
      else if Cmd = ch CHR ''s'' then Some [0x89, 0x94, 0x1E]
      else if Cmd = ch CHR ''r'' then Some [LockBits s]
      else if Cmd = ch CHR ''F'' then Some [fuse 0]
      else if Cmd = ch CHR ''N'' then Some [fuse 3]
      else if Cmd = ch CHR ''Q'' then Some [fuse 2]
      else if Cmd = ch CHR ''b'' then Some [ch CHR ''Y'', of_nat (SPM_PAGESIZE div 256), of_nat (SPM_PAGESIZE mod 256)]
      else None)"

definition avr109_command :: "nat \<Rightarrow> (u8 \<Rightarrow> u8) \<Rightarrow> u8 \<Rightarrow> 'a avr109_dev_scheme \<Rightarrow> 'a avr109_dev_scheme option" where
  "avr109_command B fuse Cmd s =
     (if Cmd = ch CHR ''x'' \<or> Cmd = ch CHR ''y'' \<or> Cmd = ch CHR ''T''
      then do { (_, s) \<leftarrow> FetchNextCommandByte s; respond [CR] s }
      else case fixed_answer fuse s Cmd of
        Some vs \<Rightarrow> respond vs s
      | None \<Rightarrow> memory_command B Cmd s)"

text \<open>The response is sent; a full bank is followed by an empty packet. \<open>False\<close> is the return of an unattached device.\<close>

definition send_response :: "'a mcu_scheme \<Rightarrow> (bool \<times> 'a mcu_scheme) option" where
  "send_response s = do {
     let (allowed, s) = Endpoint_IsReadWriteAllowed (Endpoint_SelectEndpoint BOOT_TX_EPADDR s);
     let s = Endpoint_ClearIN s;
     (ok, s) \<leftarrow> (if allowed then Some (True, s)
       else do {
         (ok, s) \<leftarrow> status_wait Endpoint_IsINReady s;
         Some (ok, if ok then Endpoint_ClearIN s else s) });
     if \<not> ok then Some (False, s) else status_wait Endpoint_IsINReady s }"

definition CDC_Task :: "nat \<Rightarrow> (u8 \<Rightarrow> u8) \<Rightarrow> 'a avr109_dev_scheme \<Rightarrow> 'a avr109_dev_scheme option" where
  "CDC_Task B fuse s =
     (let (received, s) = Endpoint_IsOUTReceived (Endpoint_SelectEndpoint BOOT_RX_EPADDR s)
      in if \<not> received then Some s
         else do {
           (Cmd, s) \<leftarrow> FetchNextCommandByte s;
           s \<leftarrow> avr109_command B fuse Cmd s;
           (ok, s) \<leftarrow> send_response s;
           Some (if ok then Endpoint_ClearOUT (Endpoint_SelectEndpoint BOOT_RX_EPADDR s) else s) })"

section \<open>Events and the start of the application\<close>

text \<open>The configuration of an endpoint when the endpoints are configured in ascending order (\<open>ORDERED_EP_CONFIG\<close>)\<close>

definition ordered_ConfigureEndpoint_Prv :: "u8 \<Rightarrow> u8 \<Rightarrow> u8 \<Rightarrow> 'a mcu_scheme \<Rightarrow> bool \<times> 'a mcu_scheme" where
  "ordered_ConfigureEndpoint_Prv Number UECFG0XData UECFG1XData s =
     (let s = Endpoint_EnableEndpoint (Endpoint_SelectEndpoint Number s);
          s = wr UECFG1X UECFG1XData (wr UECFG0X UECFG0XData (wr UECFG1X 0 s))
      in Endpoint_IsConfigured s)"

definition ordered_ConfigureEndpoint :: "u8 \<Rightarrow> u8 \<Rightarrow> u16 \<Rightarrow> u8 \<Rightarrow> 'a mcu_scheme \<Rightarrow> (bool \<times> 'a mcu_scheme) option" where
  "ordered_ConfigureEndpoint Address Type Size Banks s =
     (let Number = Address AND ENDPOINT_EPNUM_MASK
      in if ENDPOINT_TOTAL_ENDPOINTS \<le> unat Number then Some (False, s)
         else do {
           mask \<leftarrow> Endpoint_BytesToEPSizeMask Size;
           Some (ordered_ConfigureEndpoint_Prv Number
             (push_bit EPTYPE0 Type OR (if Address AND ENDPOINT_DIR_IN \<noteq> 0 then bv EPDIR else 0))
             (bv ALLOC OR (if Banks > 1 then bv EPBK0 else 0) OR mask) s) })"

definition boot_ConfigurationChanged :: "'a mcu_scheme \<Rightarrow> 'a mcu_scheme option" where
  "boot_ConfigurationChanged s = do {
     (_, s) \<leftarrow> ordered_ConfigureEndpoint BOOT_NOTIFICATION_EPADDR EP_TYPE_INTERRUPT 8 1 s;
     (_, s) \<leftarrow> ordered_ConfigureEndpoint BOOT_TX_EPADDR EP_TYPE_BULK 16 1 s;
     (_, s) \<leftarrow> ordered_ConfigureEndpoint BOOT_RX_EPADDR EP_TYPE_BULK 16 1 s;
     Some s }"

definition encoding_bytes :: "CDC_LineEncoding \<Rightarrow> u8 list" where
  "encoding_bytes e = bytes32 (BaudRateBPS e) @ [CharFormat e, ParityType e, DataBits e]"

definition encoding_of :: "u8 list \<Rightarrow> CDC_LineEncoding" where
  "encoding_of bs = \<lparr>BaudRateBPS = word32 (bs ! 0) (bs ! 1) (bs ! 2) (bs ! 3), CharFormat = bs ! 4, ParityType = bs ! 5, DataBits = bs ! 6\<rparr>"

definition boot_ControlRequest :: "'a avr109_dev_scheme \<Rightarrow> 'a avr109_dev_scheme option" where
  "boot_ControlRequest s =
     (let q = USB_ControlRequest s
      in if bmRequestType q AND (0x60 OR CONTROL_REQTYPE_RECIPIENT) \<noteq> REQTYPE_CLASS OR REQREC_INTERFACE then Some s
         else if bRequest q = CDC_REQ_GetLineEncoding \<and> bmRequestType q = class_in then do {
           (_, s) \<leftarrow> Endpoint_Write_Control_Stream_LE (encoding_bytes (PortEncoding s)) 7 (Endpoint_ClearSETUP s);
           Some (Endpoint_ClearOUT s) }
         else if bRequest q = CDC_REQ_SetLineEncoding \<and> bmRequestType q = class_out then do {
           (_, bs, s) \<leftarrow> Endpoint_Read_Control_Stream_LE (encoding_bytes (PortEncoding s)) 7 (Endpoint_ClearSETUP s);
           Some (Endpoint_ClearIN (s\<lparr>PortEncoding := encoding_of bs\<rparr>)) }
         else if bRequest q = CDC_REQ_SetControlLineState \<and> bmRequestType q = class_out
         then Endpoint_ClearStatusStage (Endpoint_ClearSETUP s)
         else Some s)"

definition boot_Jump_Check :: "u8 \<Rightarrow> u8 \<Rightarrow> 'a boot_dev_scheme \<Rightarrow> (bool \<times> 'a boot_dev_scheme) option" where
  "boot_Jump_Check FUSE_BOOTRST high_fuse s = do {
     let (JumpToApplication, s) =
       (if high_fuse AND FUSE_BOOTRST \<noteq> 0
        then (\<not> tst (MCUSR s) 1 \<or> MagicBootKey s = BOOT_KEY, s\<lparr>MCUSR := MCUSR s AND NOT (bv 1)\<rparr>)
        else (tst (MCUSR s) 3 \<and> MagicBootKey s = BOOT_KEY, s\<lparr>MCUSR := MCUSR s AND NOT (bv 3)\<rparr>));
     v \<leftarrow> pgm_read_word 0 s;
     Some (if JumpToApplication \<and> v \<noteq> 0xFFFF
           then (True, s\<lparr>MCUSR := MCUSR s AND NOT (bv 3), Watchdog := False, MagicBootKey := 0\<rparr>)
           else (False, s)) }"

section \<open>Bytes\<close>

text \<open>The device stays attached to the bus.\<close>

definition attached :: "(acc list \<Rightarrow> reg \<Rightarrow> u8) \<Rightarrow> bool" where
  "attached H \<longleftrightarrow> (\<forall>l. H l GPIOR0 \<noteq> DEVICE_STATE_Unattached)"

lemma wait_attached:
  assumes "status_wait arrived s = Some (ok, t)" "attached (hw s)"
    and a: "\<And>s t. touches {} s t \<Longrightarrow> touches {} s (snd (arrived t))" "\<And>s. was_read UEDATX (snd (arrived s)) = was_read UEDATX s"
  shows "ok \<and> touches {} s t \<and> was_read UEDATX t = was_read UEDATX s"
proof -
  have h: "hw (snd (arrived u)) = hw u" for u by (rule touches_hw [OF a(1) [OF touches_refl]])
  have "(\<lambda>ok t. ok) ok t"
    by (rule poll_loop_rule [OF assms(1) [unfolded status_wait_def], where I = "\<lambda>u. hw u = hw s"])
      (use assms(2) h in \<open>auto simp: Let_def split_beta attached_def rd_def split: if_splits\<close>)
  moreover have "touches {} s t" by (rule status_wait_touches [OF assms(1) a(1)])
  moreover have "was_read UEDATX t = was_read UEDATX s" by (rule status_wait_reads [OF assms(1) a(2)]) simp
  ultimately show ?thesis by simp
qed

lemma wait_OUT:
  assumes "status_wait Endpoint_IsOUTReceived s = Some (ok, t)" "attached (hw s)"
  shows "ok \<and> touches {} s t \<and> was_read UEDATX t = was_read UEDATX s"
  by (rule wait_attached [OF assms]) (rule touch, assumption, simp add: Endpoint_IsOUTReceived_def)

lemma wait_IN:
  assumes "status_wait Endpoint_IsINReady s = Some (ok, t)" "attached (hw s)"
  shows "ok \<and> touches {} s t \<and> was_read UEDATX t = was_read UEDATX s"
  by (rule wait_attached [OF assms]) (rule touch, assumption, simp add: Endpoint_IsINReady_def)

text \<open>Each call takes one byte out of the bank, or puts one byte in.\<close>

lemma Fetch_reads:
  assumes "FetchNextCommandByte s = Some (v, t)" "attached (hw s)"
  shows "touches {UENUM, UEINTX} s t" "was_read UEDATX t = was_read UEDATX s @ [v]"
proof -
  let ?body = "\<lambda>s. let (allowed, s) = Endpoint_IsReadWriteAllowed s in if allowed then Some (Some True, s)
    else do { (ok, s) \<leftarrow> status_wait Endpoint_IsOUTReceived (Endpoint_ClearOUT s); Some (if ok then None else Some False, s) }"
  let ?I = "\<lambda>u. touches {UENUM, UEINTX} s u \<and> was_read UEDATX u = was_read UEDATX s"
  from assms(1) obtain ok u where u: "poll_loop ?body (Endpoint_SelectEndpoint BOOT_RX_EPADDR s) = Some (ok, u)"
    "(v, t) = (if ok then Endpoint_Read_8 u else (0, u))" by (auto simp: FetchNextCommandByte_def bind_eq_Some_conv)
  have step: "(r = None \<longrightarrow> ?I q) \<and> (r \<noteq> None \<longrightarrow> the r \<and> ?I q)" if "?I p" "?body p = Some (r, q)" for p r q
  proof -
    let ?a = "Endpoint_IsReadWriteAllowed p"
    have a: "touches {UENUM, UEINTX} p (snd ?a)" "was_read UEDATX (snd ?a) = was_read UEDATX p"
      "touches {UENUM, UEINTX} p (Endpoint_ClearOUT (snd ?a))" "was_read UEDATX (Endpoint_ClearOUT (snd ?a)) = was_read UEDATX p"
      by (auto intro!: touch simp: Endpoint_IsReadWriteAllowed_def Endpoint_ClearOUT_def)
    show ?thesis
    proof (cases "fst ?a")
      case True
      with that(2) have "r = Some True" "q = snd ?a" by (auto simp: split_beta Let_def)
      with that(1) a(2) touches_trans [OF _ a(1)] show ?thesis by simp
    next
      case False
      with that(2) obtain ok where w: "status_wait Endpoint_IsOUTReceived (Endpoint_ClearOUT (snd ?a)) = Some (ok, q)" "r = (if ok then None else Some False)"
        by (auto simp: split_beta Let_def bind_eq_Some_conv)
      have "hw (Endpoint_ClearOUT (snd ?a)) = hw s" using touches_hw [OF a(3)] that(1) touches_hw by metis
      with wait_OUT [OF w(1)] assms(2) have k: "ok" "touches {} (Endpoint_ClearOUT (snd ?a)) q" "was_read UEDATX q = was_read UEDATX p" using a(4) by simp_all
      have "touches {UENUM, UEINTX} (Endpoint_ClearOUT (snd ?a)) q" by (rule touches_mono [OF k(2)]) simp
      then have "touches {UENUM, UEINTX} s q" using that(1) touches_trans [OF touches_trans [OF _ a(3)]] by simp
      with that(1) k w(2) show ?thesis by simp
    qed
  qed
  have "(\<lambda>ok u. ok \<and> ?I u) ok u"
  proof (rule poll_loop_rule [OF u(1), where I = ?I])
    show "?I (Endpoint_SelectEndpoint BOOT_RX_EPADDR s)" by (auto intro!: touch simp: Endpoint_SelectEndpoint_def)
    show "?I q" if "?I p" "?body p = Some (None, q)" for p q using step [OF that] by simp
    show "x \<and> ?I q" if "?I p" "?body p = Some (Some x, q)" for p x q using step [OF that] by simp
  qed
  then have k: "ok" "touches {UENUM, UEINTX} s u" "was_read UEDATX u = was_read UEDATX s" by auto
  then have "v = fst (rd UEDATX u)" "t = snd (rd UEDATX u)" using u(2) by (simp_all add: Endpoint_Read_8_def prod_eq_iff)
  with k show "touches {UENUM, UEINTX} s t" "was_read UEDATX t = was_read UEDATX s @ [v]" by (simp_all add: touch_rd)
qed

lemma Response_writes:
  assumes "WriteNextResponseByte v s = Some t" "attached (hw s)"
  shows "touches {UENUM, UEINTX, UEDATX} s t" "wrote UEDATX t = wrote UEDATX s @ [v]" "was_read UEDATX t = was_read UEDATX s"
proof -
  let ?R = "{UENUM, UEINTX}"
  let ?a = "Endpoint_IsReadWriteAllowed (Endpoint_SelectEndpoint BOOT_TX_EPADDR s)"
  have a: "touches ?R s (snd ?a)" "was_read UEDATX (snd ?a) = was_read UEDATX s"
    "touches ?R s (Endpoint_ClearIN (snd ?a))" "was_read UEDATX (Endpoint_ClearIN (snd ?a)) = was_read UEDATX s"
    by (auto intro!: touch simp: Endpoint_IsReadWriteAllowed_def Endpoint_ClearIN_def Endpoint_SelectEndpoint_def)
  have "\<exists>u. touches ?R s u \<and> was_read UEDATX u = was_read UEDATX s \<and> t = Endpoint_Write_8 v u"
  proof (cases "fst ?a")
    case True
    then have "t = Endpoint_Write_8 v (snd ?a)" using assms(1) by (simp add: WriteNextResponseByte_def split_beta Let_def)
    with a(1,2) show ?thesis by (intro exI [of _ "snd ?a"] conjI)
  next
    case False
    with assms(1) obtain ok u where w: "status_wait Endpoint_IsINReady (Endpoint_ClearIN (snd ?a)) = Some (ok, u)" "t = (if ok then Endpoint_Write_8 v u else u)"
      by (auto simp: WriteNextResponseByte_def split_beta Let_def bind_eq_Some_conv)
    from wait_IN [OF w(1)] touches_hw [OF a(3)] assms(2) have k: "ok" "touches {} (Endpoint_ClearIN (snd ?a)) u" "was_read UEDATX u = was_read UEDATX s" using a(4) by simp_all
    have "touches ?R s u" by (rule touches_trans [OF a(3) touches_mono [OF k(2)]]) simp
    with k w(2) show ?thesis by (intro exI [of _ u] conjI) simp_all
  qed
  then obtain u where u: "touches ?R s u" "was_read UEDATX u = was_read UEDATX s" "t = Endpoint_Write_8 v u" by (elim exE conjE)
  have "touches {UENUM, UEINTX, UEDATX} s u" by (rule touches_mono [OF u(1)]) auto
  moreover have "touches {UENUM, UEINTX, UEDATX} u (Endpoint_Write_8 v u)" by (intro touch touches_refl) simp
  ultimately show "touches {UENUM, UEINTX, UEDATX} s t" unfolding u(3) by (rule touches_trans)
  show "wrote UEDATX t = wrote UEDATX s @ [v]" "was_read UEDATX t = was_read UEDATX s"
    using u touches_wrote [OF u(1), of UEDATX] by (simp_all add: Endpoint_Write_8_def)
qed

lemma respond_writes:
  assumes "respond vs s = Some t" "attached (hw s)"
  shows "touches {UENUM, UEINTX, UEDATX} s t \<and> wrote UEDATX t = wrote UEDATX s @ vs \<and> was_read UEDATX t = was_read UEDATX s"
  using assms
proof (induction vs arbitrary: s)
  case (Cons v vs)
  then obtain u where u: "WriteNextResponseByte v s = Some u" "respond vs u = Some t" by (auto simp: bind_eq_Some_conv)
  note w = Response_writes [OF u(1) Cons.prems(2)]
  from Cons.IH [OF u(2)] Cons.prems(2) touches_hw [OF w(1)] w touches_trans [OF w(1), of t] show ?case by simp
qed simp

section \<open>A programmer that sends its commands\<close>

lemma ch_eq [simp]: "ch a = ch b \<longleftrightarrow> a = b"
  using nat_of_char_less_256 [of a] nat_of_char_less_256 [of b] by (simp add: ch_def word_of_nat_eq_iff take_bit_nat_eq_self)

definition programmer_sends :: "'a mcu_scheme \<Rightarrow> u8 list \<Rightarrow> bool" where
  "programmer_sends s bs \<longleftrightarrow> configured_ready (hw s) \<and> host_sends (hw s) (length (was_read UEDATX s)) bs"

lemma sends_same: "programmer_sends s bs \<Longrightarrow> hw t = hw s \<Longrightarrow> was_read UEDATX t = was_read UEDATX s \<Longrightarrow> programmer_sends t bs"
  by (simp add: programmer_sends_def)

lemma sends_attached: "programmer_sends s bs \<Longrightarrow> attached (hw s)"
  by (simp add: programmer_sends_def configured_ready_def attached_def)

lemma sends_ready:
  assumes "programmer_sends s bs" "hw t = hw s"
  shows "fst (Endpoint_IsReadWriteAllowed t)" "fst (Endpoint_IsOUTReceived t)" "fst (Endpoint_IsINReady t)"
  using assms by (auto simp: programmer_sends_def configured_ready_def banks_ready_def Endpoint_IsReadWriteAllowed_def
    Endpoint_IsOUTReceived_def Endpoint_IsINReady_def tst_fst)

lemma tests_same [simp]:
  "hw (snd (Endpoint_IsReadWriteAllowed s)) = hw s" "hw (snd (Endpoint_IsOUTReceived s)) = hw s" "hw (snd (Endpoint_IsINReady s)) = hw s"
  "was_read UEDATX (snd (Endpoint_IsReadWriteAllowed s)) = was_read UEDATX s" "was_read UEDATX (snd (Endpoint_IsOUTReceived s)) = was_read UEDATX s"
  "was_read UEDATX (snd (Endpoint_IsINReady s)) = was_read UEDATX s"
  unfolding Endpoint_IsReadWriteAllowed_def Endpoint_IsOUTReceived_def Endpoint_IsINReady_def by (simp_all add: touches_hw [OF touches_tst])

lemma select_same [simp]: "hw (Endpoint_SelectEndpoint n s) = hw s" "was_read UEDATX (Endpoint_SelectEndpoint n s) = was_read UEDATX s"
  by (simp_all add: Endpoint_SelectEndpoint_def)

lemma fetch_sent:
  assumes "programmer_sends s (b # bs)"
  shows "\<exists>t. FetchNextCommandByte s = Some (b, t) \<and> touches {UENUM, UEINTX} s t \<and> programmer_sends t bs"
proof -
  let ?u = "snd (Endpoint_IsReadWriteAllowed (Endpoint_SelectEndpoint BOOT_RX_EPADDR s))"
  have u: "hw ?u = hw s" "was_read UEDATX ?u = was_read UEDATX s" by simp_all
  have "fst (Endpoint_IsReadWriteAllowed (Endpoint_SelectEndpoint BOOT_RX_EPADDR s))" by (rule sends_ready [OF assms]) (rule select_same)
  then have f: "FetchNextCommandByte s = Some (rd UEDATX ?u)"
    by (simp add: FetchNextCommandByte_def poll_stop split_beta Let_def Endpoint_Read_8_def)
  have b: "fst (rd UEDATX ?u) = b" using assms u
    by (simp add: programmer_sends_def host_sends_def rd_def Let_def was_read_def)
  with f have r: "FetchNextCommandByte s = Some (b, snd (rd UEDATX ?u))" by (simp add: prod_eq_iff)
  note k = Fetch_reads [OF r sends_attached [OF assms]]
  have "programmer_sends (snd (rd UEDATX ?u)) bs" using assms touches_hw [OF k(1)] k(2) host_sends_append [of "hw s" _ "[b]" bs]
    by (simp add: programmer_sends_def)
  with r k(1) show ?thesis by blast
qed

lemma respond_sent:
  assumes "programmer_sends s bs"
  shows "\<exists>t. respond vs s = Some t \<and> touches {UENUM, UEINTX, UEDATX} s t \<and> wrote UEDATX t = wrote UEDATX s @ vs \<and> programmer_sends t bs"
proof -
  have "\<exists>t. respond vs s = Some t" using assms
  proof (induction vs arbitrary: s)
    case (Cons v vs)
    have "fst (Endpoint_IsReadWriteAllowed (Endpoint_SelectEndpoint BOOT_TX_EPADDR s))" by (rule sends_ready [OF Cons.prems]) simp
    then have w: "WriteNextResponseByte v s = Some (Endpoint_Write_8 v (snd (Endpoint_IsReadWriteAllowed (Endpoint_SelectEndpoint BOOT_TX_EPADDR s))))"
      (is "_ = Some ?t") by (simp add: WriteNextResponseByte_def split_beta Let_def)
    note k = Response_writes [OF w sends_attached [OF Cons.prems]]
    from Cons.IH [OF sends_same [OF Cons.prems touches_hw [OF k(1)] k(3)]] w show ?case by simp
  qed simp
  then obtain t where t: "respond vs s = Some t" ..
  from respond_writes [OF t sends_attached [OF assms]] have k: "touches {UENUM, UEINTX, UEDATX} s t" "wrote UEDATX t = wrote UEDATX s @ vs"
    "was_read UEDATX t = was_read UEDATX s" by simp_all
  with t sends_same [OF assms touches_hw [OF k(1)] k(3)] show ?thesis by blast
qed

lemma touches_avr109:
  fixes s t :: "'a avr109_dev_scheme"
  assumes "touches R s t"
  shows "CurrAddress t = CurrAddress s" "Running t = Running s" "LockBits t = LockBits s" "PortEncoding t = PortEncoding s"
  using touches_boot(5) [OF assms] by (cases s; cases t; simp)+

text \<open>
  A call of the task serves the next command: what it does before and after the command only concerns the
  endpoints.
\<close>

lemma task_serves:
  fixes s :: "'a avr109_dev_scheme"
  assumes "programmer_sends s (c # bs)"
  obtains u where "touches {UENUM, UEINTX} s u" "programmer_sends u bs"
    "\<And>v cs. avr109_command B fuse c u = Some v \<Longrightarrow> programmer_sends v cs \<Longrightarrow>
      \<exists>t. CDC_Task B fuse s = Some t \<and> touches {UENUM, UEINTX} v t \<and> programmer_sends t cs"
proof -
  let ?r = "Endpoint_IsOUTReceived (Endpoint_SelectEndpoint BOOT_RX_EPADDR s)"
  have r: "fst ?r" by (rule sends_ready [OF assms]) simp
  have "programmer_sends (snd ?r) (c # bs)" by (rule sends_same [OF assms]) simp_all
  from fetch_sent [OF this] obtain u where u: "FetchNextCommandByte (snd ?r) = Some (c, u)" "touches {UENUM, UEINTX} (snd ?r) u" "programmer_sends u bs" by blast
  have sr: "touches {UENUM, UEINTX} s (snd ?r)" by (intro touch touches_refl) simp
  show thesis
  proof (rule that [OF touches_trans [OF sr u(2)] u(3)])
    fix v cs
    assume v: "avr109_command B fuse c u = Some v" "programmer_sends v cs"
    let ?a = "Endpoint_IsReadWriteAllowed (Endpoint_SelectEndpoint BOOT_TX_EPADDR v)"
    let ?i = "Endpoint_IsINReady (Endpoint_ClearIN (snd ?a))"
    let ?t = "Endpoint_ClearOUT (Endpoint_SelectEndpoint BOOT_RX_EPADDR (snd ?i))"
    have a: "fst ?a" by (rule sends_ready [OF v(2)]) simp
    have t: "touches {UENUM, UEINTX} v ?t" by (intro touch touches_refl) simp_all
    have "touches {UENUM, UEINTX} v (Endpoint_ClearIN (snd ?a))" by (intro touch touches_refl) simp_all
    from sends_ready(3) [OF v(2) touches_hw [OF this]] have i: "fst ?i" .
    have "send_response v = Some (True, snd ?i)" using a i by (simp add: send_response_def split_beta Let_def status_wait_ready)
    then have "CDC_Task B fuse s = Some ?t" using r u(1) v(1) by (simp add: CDC_Task_def split_beta Let_def)
    moreover have "programmer_sends ?t cs"
      by (rule sends_same [OF v(2) touches_hw [OF t]]) (simp add: Endpoint_ClearOUT_def Endpoint_ClearIN_def)
    ultimately show "\<exists>t. CDC_Task B fuse s = Some t \<and> touches {UENUM, UEINTX} v t \<and> programmer_sends t cs" using t by blast
  qed
qed

section \<open>Blocks of the flash\<close>

fun load_words :: "nat \<Rightarrow> u8 list \<Rightarrow> (nat \<Rightarrow> u16) \<Rightarrow> nat \<Rightarrow> u16" where
  "load_words j (l # h # bs) b = load_words (Suc j) bs (b(j := word16 l h))"
| "load_words j bs b = b"

lemma load_words_bytes:
  assumes "P mod 128 = 0" "2 * j + length bs \<le> 128" "even (length bs)" "P \<le> x" "x < P + 128"
  shows "buffer_byte (load_words j bs b) x = (if P + 2 * j \<le> x \<and> x < P + 2 * j + length bs then bs ! (x - (P + 2 * j)) else buffer_byte b x)"
  using assms
proof (induction j bs b rule: load_words.induct)
  case (1 j l h bs b)
  have "j < 64" using 1(3) by simp
  note f = buffer_fill [OF 1(2) this 1(5,6), of b l h]
  have "buffer_byte (load_words (Suc j) bs (b(j := word16 l h))) x =
      (if P + 2 * Suc j \<le> x \<and> x < P + 2 * Suc j + length bs then bs ! (x - (P + 2 * Suc j)) else buffer_byte (b(j := word16 l h)) x)"
    using 1(2-6) by (intro 1(1)) simp_all
  then show ?case unfolding f by (auto simp: nth_Cons' numeral_2_eq_2)
qed auto

lemma flash_addr_bits: "flash_addr c = take_bit 16 (unat c)"
  by (simp add: flash_addr_def unsigned_ucast_eq)

lemma flash_addr_2: "flash_addr (c + 2) = (flash_addr c + 2) mod 2 ^ 16"
  by (simp add: flash_addr_bits take_bit_eq_mod unat_word_ariths mod_mod_cancel mod_simps)

lemma flash_addr_next:
  assumes "flash_addr c + 2 < 2 ^ 16"
  shows "flash_addr (c + 2) = flash_addr c + 2"
  using assms unfolding flash_addr_2 by (rule mod_less)

lemma flash_addr_less: "flash_addr c < 2 ^ 16"
  unfolding flash_addr_bits by (rule take_bit_nat_less_exp)

lemma page_fits: "P mod 128 = 0 \<Longrightarrow> P < 2 ^ 16 \<Longrightarrow> P + 128 \<le> (2 ^ 16 :: nat)"
  by (auto simp: mod_eq_0_iff_dvd)

lemma flash_at_byte: "even (flash_addr (CurrAddress s)) \<Longrightarrow> flash_at hb s = flash_addr (CurrAddress s) + (if hb then 1 else 0)"
  by (simp add: flash_at_def flash_addr_bits unsigned_or_eq or_one_eq or_Suc_0_eq)

lemma write_block_sent:
  fixes s :: "'a avr109_dev_scheme"
  assumes "programmer_sends s (bs @ cs)" "even (length bs)" "bs \<noteq> [] \<Longrightarrow> flash_addr (CurrAddress s) = P + 2 * j"
    "P mod 128 = 0" "2 * j + length bs \<le> 128" "P < 2 ^ 16"
  shows "\<exists>t. write_block (length bs) True False lb s = Some t \<and> programmer_sends t cs \<and> wrote UEDATX t = wrote UEDATX s \<and>
    Flash t = Flash s \<and> EEPROM t = EEPROM s \<and> PageBuffer t = load_words j bs (PageBuffer s)"
  using assms
proof (induction j bs "PageBuffer s" arbitrary: s lb rule: load_words.induct)
  case (1 j l h bs)
  let ?c = "CurrAddress s"
  from fetch_sent [of s l] 1(2) obtain u where u: "FetchNextCommandByte s = Some (l, u)" "touches {UENUM, UEINTX} s u" "programmer_sends u (h # bs @ cs)" by auto
  from fetch_sent [OF u(3)] obtain v where v: "FetchNextCommandByte u = Some (h, v)" "touches {UENUM, UEINTX} u v" "programmer_sends v (bs @ cs)" by auto
  from touches_trans [OF u(2) v(2)] have k: "touches {UENUM, UEINTX} s v" .
  let ?w = "(boot_page_fill (flash_addr ?c) (word16 l h) v)\<lparr>CurrAddress := ?c + 2\<rparr>"
  have a: "flash_addr ?c = P + 2 * j" using 1(4) by simp
  then have m: "flash_addr ?c mod 128 div 2 = j" using 1(5,6) by (simp add: mod_add_left_eq [symmetric])
  have p: "PageBuffer ?w = (PageBuffer s)(j := word16 l h)" "Flash ?w = Flash s" "EEPROM ?w = EEPROM s" "wrote UEDATX ?w = wrote UEDATX s"
    using m touches_boot [OF k] touches_wrote [OF k, of UEDATX] by (simp_all add: boot_page_fill_def wrote_def)
  have s: "programmer_sends ?w (bs @ cs)" by (rule sends_same [OF v(3)]) (simp_all add: boot_page_fill_def was_read_def)
  have "flash_addr (CurrAddress ?w) = P + 2 * Suc j" if "bs \<noteq> []"
  proof -
    have "P + 128 \<le> 2 ^ 16" by (rule page_fits [OF 1(5,7)])
    moreover have "2 * j + 2 < 128" using 1(6) that by (cases bs) auto
    ultimately show ?thesis using flash_addr_next [of ?c] a by simp
  qed
  with 1(1) [of ?w l] p s 1(3,5-7) obtain t where t: "write_block (length bs) True False l ?w = Some t" "programmer_sends t cs" "wrote UEDATX t = wrote UEDATX s"
    "Flash t = Flash s" "EEPROM t = EEPROM s" "PageBuffer t = load_words (Suc j) bs ((PageBuffer s)(j := word16 l h))" by auto
  have "write_block (length (l # h # bs)) True False lb s = Some t"
    using u(1) v(1) t(1) touches_avr109(1) [OF k] by (simp add: Let_def boot_page_fill_def)
  with t show ?case by simp
qed auto

lemma read_block_sent:
  fixes s :: "'a avr109_dev_scheme"
  assumes "programmer_sends s cs" "\<not> RWWBusy s" "even (flash_addr (CurrAddress s))" "flash_addr (CurrAddress s) + of_bool hb + n \<le> 2 ^ 16"
  shows "\<exists>t. read_block n True hb s = Some t \<and> programmer_sends t cs \<and> Flash t = Flash s \<and> EEPROM t = EEPROM s \<and>
    wrote UEDATX t = wrote UEDATX s @ map (\<lambda>i. Flash s (flash_addr (CurrAddress s) + of_bool hb + i)) [0 ..< n]"
  using assms
proof (induction n arbitrary: s hb)
  case (Suc n)
  let ?c = "CurrAddress s"
  let ?a = "flash_addr ?c + of_bool hb"
  have r: "pgm_read_byte (flash_at hb s) s = Some (Flash s ?a)" using Suc.prems(2,3) by (simp add: pgm_read_byte_def flash_at_byte)
  from respond_sent [OF Suc.prems(1), of "[Flash s ?a]"] obtain u where u: "WriteNextResponseByte (Flash s ?a) s = Some u"
    "touches {UENUM, UEINTX, UEDATX} s u" "wrote UEDATX u = wrote UEDATX s @ [Flash s ?a]" "programmer_sends u cs" by (auto simp: bind_eq_Some_conv)
  let ?v = "if hb then u\<lparr>CurrAddress := ?c + 2\<rparr> else u"
  have k: "Flash ?v = Flash s" "EEPROM ?v = EEPROM s" "wrote UEDATX ?v = wrote UEDATX s @ [Flash s ?a]" "\<not> RWWBusy ?v"
    "CurrAddress ?v = (if hb then ?c + 2 else ?c)"
    using touches_boot [OF u(2)] touches_avr109 [OF u(2)] u(3) Suc.prems(2) by (simp_all add: wrote_def)
  have v: "programmer_sends ?v cs" by (rule sends_same [OF u(4)]) (simp_all add: was_read_def)
  have e: "even (flash_addr (CurrAddress ?v))" using Suc.prems(3) k(5) by (simp add: flash_addr_2 dvd_mod)
  have n: "flash_addr (CurrAddress ?v) + of_bool (\<not> hb) + n \<le> 2 ^ 16 \<and> (n = 0 \<or> flash_addr (CurrAddress ?v) + of_bool (\<not> hb) = Suc ?a)"
    using k(5) Suc.prems(4) flash_addr_less [of "?c + 2"] flash_addr_next [of ?c] by (cases n) auto
  from Suc.IH [OF v k(4) e, of "\<not> hb"] n obtain t where t: "read_block n True (\<not> hb) ?v = Some t" "programmer_sends t cs" "Flash t = Flash s" "EEPROM t = EEPROM s"
    "wrote UEDATX t = wrote UEDATX ?v @ map (\<lambda>i. Flash s (flash_addr (CurrAddress ?v) + of_bool (\<not> hb) + i)) [0 ..< n]" using k by auto
  have "map (\<lambda>i. Flash s (flash_addr (CurrAddress ?v) + of_bool (\<not> hb) + i)) [0 ..< n] = map (\<lambda>i. Flash s (Suc ?a + i)) [0 ..< n]" using n by auto
  moreover have "read_block (Suc n) True hb s = Some t" using r u(1) t(1) touches_avr109(1) [OF u(2)] by (cases hb) (simp_all add: Let_def)
  moreover have "map (\<lambda>i. Flash s (?a + i)) [0 ..< Suc n] = Flash s ?a # map (\<lambda>i. Flash s (Suc ?a + i)) [0 ..< n]"
    by (simp add: upt_conv_Cons map_Suc_upt [symmetric] del: upt_Suc)
  ultimately show ?case using t k(3) by simp
qed simp

section \<open>Program and verify\<close>

definition set_address :: "u8 \<Rightarrow> u8 \<Rightarrow> u8 list" where
  "set_address h l = [ch CHR ''A'', h, l]"

definition block_head :: "char \<Rightarrow> nat \<Rightarrow> u8 list" where
  "block_head c n = [ch c, of_nat (n div 256), of_nat n, ch CHR ''F'']"

text \<open>The flash after the page from \<open>P\<close> on was programmed with \<open>bs\<close>\<close>

definition programmed :: "nat \<Rightarrow> u8 list \<Rightarrow> (nat \<Rightarrow> u8) \<Rightarrow> nat \<Rightarrow> u8" where
  "programmed P bs f x = (if page_no x = page_no P then if x - P < length bs then bs ! (x - P) else 0xFF else f x)"

lemma block_size: "unat (word16 (of_nat n) (of_nat (n div 256))) = n" if "n \<le> 128"
proof -
  have "unat (of_nat n :: u8) = n" using that by (simp add: unsigned_of_nat take_bit_nat_eq_self)
  then show ?thesis using that by (simp add: word16_def unsigned_ucast_eq unsigned_or_eq take_bit_nat_eq_self)
qed

lemma task_address:
  fixes s :: "'a avr109_dev_scheme"
  assumes "programmer_sends s (set_address h l @ cs)"
  shows "\<exists>t. CDC_Task B fuse s = Some t \<and> programmer_sends t cs \<and> wrote UEDATX t = wrote UEDATX s @ [CR] \<and> CurrAddress t = host_addr h l \<and>
    Flash t = Flash s \<and> PageBuffer t = PageBuffer s \<and> EEPROM t = EEPROM s"
proof -
  from assms have "programmer_sends s (ch CHR ''A'' # h # l # cs)" by (simp add: set_address_def)
  then obtain u where u: "touches {UENUM, UEINTX} s u" "programmer_sends u (h # l # cs)"
    and task: "\<And>v cs. avr109_command B fuse (ch CHR ''A'') u = Some v \<Longrightarrow> programmer_sends v cs \<Longrightarrow>
      \<exists>t. CDC_Task B fuse s = Some t \<and> touches {UENUM, UEINTX} v t \<and> programmer_sends t cs" by (rule task_serves) blast
  from fetch_sent [OF u(2)] obtain v where v: "FetchNextCommandByte u = Some (h, v)" "touches {UENUM, UEINTX} u v" "programmer_sends v (l # cs)" by blast
  from fetch_sent [OF v(3)] obtain w where w: "FetchNextCommandByte v = Some (l, w)" "touches {UENUM, UEINTX} v w" "programmer_sends w cs" by blast
  have "programmer_sends (w\<lparr>CurrAddress := host_addr h l\<rparr>) cs" by (rule sends_same [OF w(3)]) (simp_all add: was_read_def)
  from respond_sent [OF this, of "[CR]"] obtain x where x: "respond [CR] (w\<lparr>CurrAddress := host_addr h l\<rparr>) = Some x"
    "touches {UENUM, UEINTX, UEDATX} (w\<lparr>CurrAddress := host_addr h l\<rparr>) x" "wrote UEDATX x = wrote UEDATX w @ [CR]" "programmer_sends x cs"
    by (auto simp: wrote_def)
  have "avr109_command B fuse (ch CHR ''A'') u = Some x"
    using v(1) w(1) x(1) by (simp add: avr109_command_def fixed_answer_def memory_command_def)
  from task [OF this x(4)] obtain t where t: "CDC_Task B fuse s = Some t" "touches {UENUM, UEINTX} x t" "programmer_sends t cs" by blast
  have k: "touches {UENUM, UEINTX} s w" by (rule touches_trans [OF u(1) touches_trans [OF v(2) w(2)]])
  show ?thesis using t x(3) touches_wrote [OF t(2), of UEDATX] touches_wrote [OF k, of UEDATX]
      touches_boot [OF k] touches_boot [OF x(2)] touches_boot [OF t(2)] touches_avr109 [OF x(2)] touches_avr109 [OF t(2)] by simp
qed

text \<open>The three bytes of a block command\<close>

lemma block_command:
  fixes s :: "'a avr109_dev_scheme"
  assumes "programmer_sends s (block_head c n @ cs)" "n \<le> 128" "c \<in> {CHR ''B'', CHR ''g''}"
  obtains u where "touches {UENUM, UEINTX} s u" "programmer_sends u cs"
    "\<And>v ds. (if c = CHR ''g'' then read_block n True False (boot_rww_enable u)
      else do { v \<leftarrow> write_block n True False 0 (boot_page_erase (flash_addr (CurrAddress u)) u);
        WriteNextResponseByte CR (boot_page_write (flash_addr (CurrAddress u)) v) }) = Some v \<Longrightarrow> programmer_sends v ds \<Longrightarrow>
      \<exists>t. CDC_Task B fuse s = Some t \<and> touches {UENUM, UEINTX} v t \<and> programmer_sends t ds"
proof -
  from assms(1) have "programmer_sends s (ch c # of_nat (n div 256) # of_nat n # ch CHR ''F'' # cs)" by (simp add: block_head_def)
  then obtain u where u: "touches {UENUM, UEINTX} s u" "programmer_sends u (of_nat (n div 256) # of_nat n # ch CHR ''F'' # cs)"
    and task: "\<And>v ds. avr109_command B fuse (ch c) u = Some v \<Longrightarrow> programmer_sends v ds \<Longrightarrow>
      \<exists>t. CDC_Task B fuse s = Some t \<and> touches {UENUM, UEINTX} v t \<and> programmer_sends t ds" by (rule task_serves) blast
  from fetch_sent [OF u(2)] obtain v where v: "FetchNextCommandByte u = Some (of_nat (n div 256), v)" "touches {UENUM, UEINTX} u v"
    "programmer_sends v (of_nat n # ch CHR ''F'' # cs)" by blast
  from fetch_sent [OF v(3)] obtain w where w: "FetchNextCommandByte v = Some (of_nat n, w)" "touches {UENUM, UEINTX} v w"
    "programmer_sends w (ch CHR ''F'' # cs)" by blast
  from fetch_sent [OF w(3)] obtain x where x: "FetchNextCommandByte w = Some (ch CHR ''F'', x)" "touches {UENUM, UEINTX} w x" "programmer_sends x cs" by blast
  have "touches {UENUM, UEINTX} s x" by (rule touches_trans [OF u(1) touches_trans [OF v(2) touches_trans [OF w(2) x(2)]]])
  moreover have "avr109_command B fuse (ch c) u = ReadWriteMemoryBlock (ch c) u"
    using assms(3) by (elim insertE) (simp_all add: avr109_command_def fixed_answer_def memory_command_def)
  moreover have "ReadWriteMemoryBlock (ch c) u = (if c = CHR ''g'' then read_block n True False (boot_rww_enable x)
      else do { v \<leftarrow> write_block n True False 0 (boot_page_erase (flash_addr (CurrAddress x)) x);
        WriteNextResponseByte CR (boot_page_write (flash_addr (CurrAddress x)) v) })"
    using v(1) w(1) x(1) by (simp add: ReadWriteMemoryBlock_def block_size [OF assms(2)] Let_def cong: if_cong)
  ultimately show thesis using task by (intro that [of x] x(3)) simp_all
qed

lemma programmed_page:
  assumes "P mod 128 = 0" "even (length bs)" "length bs \<le> 128"
  shows "(\<lambda>x. if page_no x = page_no P then (if page_no x = page_no P then 0xFF else f x) AND buffer_byte (load_words 0 bs (\<lambda>_. 0xFFFF)) x
    else if page_no x = page_no P then 0xFF else f x) = programmed P bs f"
proof
  fix x
  show "(if page_no x = page_no P then (if page_no x = page_no P then 0xFF else f x) AND buffer_byte (load_words 0 bs (\<lambda>_. 0xFFFF)) x
    else if page_no x = page_no P then 0xFF else f x) = programmed P bs f x"
  proof (cases "page_no x = page_no P")
    case True
    then have x: "P \<le> x" "x < P + 128" using assms(1) by (simp_all add: page_no_same)
    then have "buffer_byte (\<lambda>_. 0xFFFF) x = 0xFF" using buffer_blank [OF assms(1), of 0 _ x] by simp
    with True x load_words_bytes [OF assms(1) _ assms(2), of 0 x "\<lambda>_. 0xFFFF"] assms(3) show ?thesis by (auto simp: programmed_def)
  qed (simp add: programmed_def)
qed

lemma task_block_write:
  fixes s :: "'a avr109_dev_scheme"
  assumes "programmer_sends s (block_head CHR ''B'' (length bs) @ bs @ cs)" "even (length bs)" "length bs \<le> 128"
    "flash_addr (CurrAddress s) = P" "P mod 128 = 0" "PageBuffer s = (\<lambda>_. 0xFFFF)"
  shows "\<exists>t. CDC_Task B fuse s = Some t \<and> programmer_sends t cs \<and> wrote UEDATX t = wrote UEDATX s @ [CR] \<and>
    Flash t = programmed P bs (Flash s) \<and> PageBuffer t = (\<lambda>_. 0xFFFF) \<and> EEPROM t = EEPROM s"
proof -
  obtain u where u: "touches {UENUM, UEINTX} s u" "programmer_sends u (bs @ cs)"
    and task: "\<And>v ds. do { v \<leftarrow> write_block (length bs) True False 0 (boot_page_erase (flash_addr (CurrAddress u)) u);
        WriteNextResponseByte CR (boot_page_write (flash_addr (CurrAddress u)) v) } = Some v \<Longrightarrow> programmer_sends v ds \<Longrightarrow>
      \<exists>t. CDC_Task B fuse s = Some t \<and> touches {UENUM, UEINTX} v t \<and> programmer_sends t ds"
    by (rule block_command [OF assms(1,3), of B fuse]) auto
  let ?e = "boot_page_erase P u"
  note k = touches_boot [OF u(1)] touches_avr109(1) [OF u(1)]
  have a: "flash_addr (CurrAddress u) = P" "flash_addr (CurrAddress ?e) = P" using k assms(4) by (simp_all add: boot_page_erase_def)
  have e: "programmer_sends ?e (bs @ cs)" by (rule sends_same [OF u(2)]) simp_all
  have "P < 2 ^ 16" using flash_addr_less assms(4) by blast
  with write_block_sent [OF e assms(2), of P 0] a(2) assms(3,5) obtain w where w: "write_block (length bs) True False 0 ?e = Some w" "programmer_sends w cs"
    "wrote UEDATX w = wrote UEDATX ?e" "Flash w = Flash ?e" "EEPROM w = EEPROM ?e" "PageBuffer w = load_words 0 bs (PageBuffer ?e)" by auto
  have f: "Flash w = (\<lambda>x. if page_no x = page_no P then 0xFF else Flash s x)" "PageBuffer w = load_words 0 bs (\<lambda>_. 0xFFFF)" using w(4,6) k assms(6) by (simp_all cong: if_cong)
  have p: "Flash (boot_page_write P w) = programmed P bs (Flash s)" unfolding boot_mem f by (rule programmed_page [OF assms(5,2,3)])
  have p': "EEPROM (boot_page_write P w) = EEPROM s" "wrote UEDATX (boot_page_write P w) = wrote UEDATX u"
    using w(3,5) k by (simp_all add: boot_page_erase_def boot_page_write_def wrote_def)
  have "programmer_sends (boot_page_write P w) cs" by (rule sends_same [OF w(2)]) simp_all
  from respond_sent [OF this, of "[CR]"] obtain v where v: "WriteNextResponseByte CR (boot_page_write P w) = Some v"
    "touches {UENUM, UEINTX, UEDATX} (boot_page_write P w) v" "wrote UEDATX v = wrote UEDATX u @ [CR]" "programmer_sends v cs"
    using p'(2) by (auto simp: bind_eq_Some_conv)
  from task [OF _ v(4)] w(1) v(1) a(1) obtain t where t: "CDC_Task B fuse s = Some t" "touches {UENUM, UEINTX} v t" "programmer_sends t cs" by auto
  show ?thesis using t v(3) p p' touches_boot [OF v(2)] touches_boot [OF t(2)] touches_wrote [OF t(2), of UEDATX] touches_wrote [OF u(1), of UEDATX] by simp
qed

lemma task_block_read:
  fixes s :: "'a avr109_dev_scheme"
  assumes "programmer_sends s (block_head CHR ''g'' n @ cs)" "n \<le> 128" "flash_addr (CurrAddress s) = P" "P mod 128 = 0"
  shows "\<exists>t. CDC_Task B fuse s = Some t \<and> programmer_sends t cs \<and> wrote UEDATX t = wrote UEDATX s @ map (\<lambda>i. Flash s (P + i)) [0 ..< n] \<and>
    Flash t = Flash s \<and> EEPROM t = EEPROM s"
proof -
  obtain u where u: "touches {UENUM, UEINTX} s u" "programmer_sends u cs"
    and task: "\<And>v ds. read_block n True False (boot_rww_enable u) = Some v \<Longrightarrow> programmer_sends v ds \<Longrightarrow>
      \<exists>t. CDC_Task B fuse s = Some t \<and> touches {UENUM, UEINTX} v t \<and> programmer_sends t ds"
    by (rule block_command [OF assms(1,2), of B fuse]) auto
  let ?e = "boot_rww_enable u"
  note k = touches_boot [OF u(1)] touches_avr109(1) [OF u(1)]
  have a: "flash_addr (CurrAddress ?e) = P" "EEPROM ?e = EEPROM s" "wrote UEDATX ?e = wrote UEDATX s" "Flash ?e = Flash s" "\<not> RWWBusy ?e"
    using k assms(3) touches_wrote [OF u(1), of UEDATX] by (simp_all add: boot_rww_enable_def wrote_def)
  have e: "programmer_sends ?e cs" by (rule sends_same [OF u(2)]) simp_all
  have "P < 2 ^ 16" using flash_addr_less assms(3) by blast
  from page_fits [OF assms(4) this] assms(2) have "flash_addr (CurrAddress ?e) + of_bool False + n \<le> 2 ^ 16" using a(1) by simp
  moreover have "even (flash_addr (CurrAddress ?e))" using a(1) assms(4) by presburger
  ultimately obtain v where v: "read_block n True False ?e = Some v" "programmer_sends v cs" "Flash v = Flash s" "EEPROM v = EEPROM s"
    "wrote UEDATX v = wrote UEDATX s @ map (\<lambda>i. Flash s (P + i)) [0 ..< n]" using read_block_sent [OF e a(5), of False n] a by auto
  from task [OF v(1,2)] obtain t where t: "CDC_Task B fuse s = Some t" "touches {UENUM, UEINTX} v t" "programmer_sends t cs" by blast
  show ?thesis using t v touches_boot [OF t(2)] touches_wrote [OF t(2), of UEDATX] by simp
qed


definition avr109_at :: "(acc list \<Rightarrow> reg \<Rightarrow> u8) \<Rightarrow> (nat \<Rightarrow> u8) \<Rightarrow> avr109_dev" where
  "avr109_at H f = boot_dev.extend
     (dev.extend (dev_at H \<lparr>bmRequestType = 0, bRequest = 0, wValue = 0, wIndex = 0, wLength = 0\<rparr>)
       (boot_dev.fields f (\<lambda>_. 0xFFFF) False (\<lambda>_. 0xFF) 0 False 0))
     (avr109_dev.fields \<lparr>BaudRateBPS = 0, CharFormat = 0, ParityType = 0, DataBits = 8\<rparr> 0 True 0xFF)"


section \<open>Commands that do not work\<close>

text \<open>No command that erases or programs enables the section again, so reading a word after them is undefined.\<close>

lemma read_word_busy: "RWWBusy s \<Longrightarrow> memory_command B (ch CHR ''R'') s = None"
  by (simp add: memory_command_def pgm_read_word_def)

text \<open>The page buffer is loaded by words, so the command for the low byte overwrites what the one for the high byte has loaded.\<close>

lemma fill_overwrites:
  assumes "even (flash_addr a)"
  shows "PageBuffer (boot_page_fill (flash_addr (a OR 1)) (ucast l) (boot_page_fill (flash_addr a) (ucast h) s)) =
    (PageBuffer s)(flash_addr a mod SPM_PAGESIZE div 2 := ucast (l :: u8))"
proof -
  have "flash_addr (a OR 1) = Suc (flash_addr a)" using assms unfolding flash_addr_bits unsigned_or_eq take_bit_or by (simp add: or_Suc_0_eq)
  moreover have "n mod 128 div 2 = n div 2 mod 64" for n :: nat using mod_mult2_eq [of n 2 64] by simp
  ultimately show ?thesis using assms by simp
qed

end
