(* ===== verification/Serial_Descriptors.thy ===== *)
theory Serial_Descriptors
  imports Pad_Descriptors
begin

text \<open>
  The descriptors of the adapter between USB and the serial line,
  \<open>src/AT16u2/Projects/USBtoSerial/Descriptors.c\<close>, as bytes in flash memory.
\<close>

abbreviation CDC_NOTIFICATION_EPADDR :: u8 where "CDC_NOTIFICATION_EPADDR \<equiv> 0x82"
abbreviation CDC_TX_EPADDR :: u8 where "CDC_TX_EPADDR \<equiv> 0x83"
abbreviation CDC_RX_EPADDR :: u8 where "CDC_RX_EPADDR \<equiv> 0x04"
abbreviation CDC_TXRX_EPSIZE :: u16 where "CDC_TXRX_EPSIZE \<equiv> 16"
abbreviation CDC_NOTIFICATION_EPSIZE :: u16 where "CDC_NOTIFICATION_EPSIZE \<equiv> 8"
abbreviation CDC_CSCP_CDCClass :: u8 where "CDC_CSCP_CDCClass \<equiv> 0x02"
abbreviation CDC_CSCP_CDCDataClass :: u8 where "CDC_CSCP_CDCDataClass \<equiv> 0x0A"
abbreviation CDC_CSCP_ACMSubclass :: u8 where "CDC_CSCP_ACMSubclass \<equiv> 0x02"
abbreviation CDC_CSCP_ATCommandProtocol :: u8 where "CDC_CSCP_ATCommandProtocol \<equiv> 0x01"
abbreviation DTYPE_CSInterface :: u8 where "DTYPE_CSInterface \<equiv> 0x24"

definition bridge_DeviceDescriptor :: USB_Descriptor_Device where
  "bridge_DeviceDescriptor = \<lparr>d_Size = 18, d_Type = DTYPE_Device, USBSpecification = VERSION_BCD 1 1 0,
     d_Class = CDC_CSCP_CDCClass, d_SubClass = 0, d_Protocol = 0, Endpoint0Size = ucast USB_Device_ControlEndpointSize,
     VendorID = 0x03EB, ProductID = 0x204B, ReleaseNumber = VERSION_BCD 0 0 1, ManufacturerStrIndex = STRING_ID_Manufacturer,
     ProductStrIndex = STRING_ID_Product, SerialNumStrIndex = USE_INTERNAL_SERIAL, NumberOfConfigurations = FIXED_NUM_CONFIGURATIONS\<rparr>"

text \<open>The parts of the configuration in the order of its structure\<close>

definition bridge_Configuration :: "u8 list list" where
  "bridge_Configuration =
     [header_bytes \<lparr>c_Size = 9, c_Type = DTYPE_Configuration, TotalConfigurationSize = 62, TotalInterfaces = 2,
        ConfigurationNumber = 1, ConfigurationStrIndex = ucast NO_DESCRIPTOR,
        ConfigAttributes = USB_CONFIG_ATTR_RESERVED OR USB_CONFIG_ATTR_SELFPOWERED, MaxPowerConsumption = USB_CONFIG_POWER_MA 100\<rparr>,
      interface_bytes \<lparr>i_Size = 9, i_Type = DTYPE_Interface, InterfaceNumber = 0, AlternateSetting = 0, TotalEndpoints = 1,
        i_Class = CDC_CSCP_CDCClass, i_SubClass = CDC_CSCP_ACMSubclass, i_Protocol = CDC_CSCP_ATCommandProtocol,
        InterfaceStrIndex = ucast NO_DESCRIPTOR\<rparr>,
      [5, DTYPE_CSInterface, 0x00] @ bytes16 (VERSION_BCD 1 1 0),
      [4, DTYPE_CSInterface, 0x02, 0x06],
      [5, DTYPE_CSInterface, 0x06, 0, 1],
      endpoint_bytes \<lparr>e_Size = 7, e_Type = DTYPE_Endpoint, EndpointAddress = CDC_NOTIFICATION_EPADDR,
        Attributes = EP_TYPE_INTERRUPT, EndpointSize = CDC_NOTIFICATION_EPSIZE, PollingIntervalMS = 0xFF\<rparr>,
      interface_bytes \<lparr>i_Size = 9, i_Type = DTYPE_Interface, InterfaceNumber = 1, AlternateSetting = 0, TotalEndpoints = 2,
        i_Class = CDC_CSCP_CDCDataClass, i_SubClass = 0, i_Protocol = 0, InterfaceStrIndex = ucast NO_DESCRIPTOR\<rparr>,
      endpoint_bytes \<lparr>e_Size = 7, e_Type = DTYPE_Endpoint, EndpointAddress = CDC_RX_EPADDR,
        Attributes = 0x02, EndpointSize = CDC_TXRX_EPSIZE, PollingIntervalMS = 0x05\<rparr>,
      endpoint_bytes \<lparr>e_Size = 7, e_Type = DTYPE_Endpoint, EndpointAddress = CDC_TX_EPADDR,
        Attributes = 0x02, EndpointSize = CDC_TXRX_EPSIZE, PollingIntervalMS = 0x05\<rparr>]"

definition bridge_ManufacturerString :: "u8 list" where
  "bridge_ManufacturerString = USB_STRING_DESCRIPTOR ''Dean Camera''"

definition bridge_ProductString :: "u8 list" where
  "bridge_ProductString = USB_STRING_DESCRIPTOR ''LUFA USB-RS232 Adapter''"

definition bridge_GetDescriptor :: "u16 \<Rightarrow> u16 \<Rightarrow> u16 \<times> u8 list" where
  "bridge_GetDescriptor val idx =
     (let DescriptorType = ucast (drop_bit 8 val) :: u8; DescriptorNumber = ucast (val AND 0xFF) :: u8
      in if DescriptorType = DTYPE_Device then (18, device_bytes bridge_DeviceDescriptor)
         else if DescriptorType = DTYPE_Configuration then (62, concat bridge_Configuration)
         else if DescriptorType = DTYPE_String
         then if DescriptorNumber = STRING_ID_Language then (ucast (hd LanguageString), LanguageString)
              else if DescriptorNumber = STRING_ID_Manufacturer then (ucast (hd bridge_ManufacturerString), bridge_ManufacturerString)
              else if DescriptorNumber = STRING_ID_Product then (ucast (hd bridge_ProductString), bridge_ProductString)
              else (NO_DESCRIPTOR, [])
         else (NO_DESCRIPTOR, []))"

text \<open>Each part begins with its size, and the header counts all of them.\<close>

lemma configuration_consistent:
  "\<forall>p \<in> set bridge_Configuration. hd p = of_nat (length p)" "length (concat bridge_Configuration) = 62"
  by (simp_all add: bridge_Configuration_def header_bytes_def interface_bytes_def endpoint_bytes_def)

lemma bridge_strings:
  "unat (ucast (hd bridge_ManufacturerString) :: u16) \<le> length bridge_ManufacturerString"
  "unat (ucast (hd bridge_ProductString) :: u16) \<le> length bridge_ProductString"
  by code_simp+

lemma bridge_GetDescriptor_sound: "bridge_GetDescriptor v i = (n, mem) \<Longrightarrow> unat n \<le> length mem"
  using string_lengths(1) bridge_strings configuration_consistent(2) by (auto simp: bridge_GetDescriptor_def Let_def split: if_splits)

end
