(* ===== verification/Device_Contract.thy ===== *)
theory Device_Contract
  imports Request_Laws USB_Controller
begin

text \<open>
  What control requests leave alone in an application that has variables of its own: the standard requests change
  no variable behind those of the stack, and write registers of the USB controller only. The contract \<open>keeps_part\<close> says
  which registers the events of the application may write in addition and which part of its variables they
  keep; then every control request and the device task do the same.
\<close>

section \<open>Standard requests\<close>

lemma touches_dev_more:
  fixes s t :: "'a dev_scheme"
  assumes "touches R s t"
  shows "dev.more t = dev.more s"
  using touches_more [OF assms] by (cases s; cases t; simp)

lemma status_more: "Endpoint_ClearStatusStage s = Some t \<Longrightarrow> dev.more t = dev.more s"
  by (rule touches_dev_more [OF ClearStatusStage_touches])

lemma control_write_more:
  fixes s t :: "'a dev_scheme"
  assumes "control_write ord Buffer n s = Some (r, t)" "unat n \<le> length Buffer"
  shows "dev.more t = dev.more s"
  using control_write_prefix [OF assms] by (auto intro: touches_dev_more)

lemma clear_more [simp]:
  fixes s :: "'a dev_scheme"
  shows "dev.more (Endpoint_ClearSETUP s) = dev.more s" "dev.more (Endpoint_ClearIN s) = dev.more s" "dev.more (Endpoint_ClearOUT s) = dev.more s"
    "dev.more (Endpoint_SelectEndpoint e s) = dev.more s" "dev.more (Endpoint_StallTransaction s) = dev.more s"
    "dev.more (snd (Endpoint_IsSETUPReceived s)) = dev.more s" "dev.more (Endpoint_Write_8 v s) = dev.more s"
    "dev.more (Endpoint_Write_16_LE w s) = dev.more s" "dev.more (snd (rd r s)) = dev.more s" "dev.more (wr r v s) = dev.more s"
    "dev.more (set_bits r v s) = dev.more s" "dev.more (clr_bits r v s) = dev.more s"
  by (rule touches_dev_more [of UNIV], auto intro!: touch)+

lemma wait_more: "wait_set r n s = Some (t :: 'a dev_scheme) \<Longrightarrow> dev.more t = dev.more s"
  by (rule touches_dev_more [OF wait_set_touches])

lemma SetAddress_more: "USB_Device_SetAddress s = Some t \<Longrightarrow> dev.more t = dev.more s"
  by (auto simp: USB_Device_SetAddress_def USB_Device_SetDeviceAddress_def USB_Device_EnableDeviceAddress_def bind_eq_Some_conv Let_def split_beta
    dest!: status_more wait_more)

lemma serial_more:
  assumes "USB_Device_GetInternalSerialDescriptor app s = Some t"
  shows "dev.more t = dev.more s"
proof -
  let ?g = "USB_Device_GetSerialString (boot_signature_byte_get app) s"
  have "length (fst ?g) = 20" by (simp add: USB_Device_GetSerialString_def Let_def split_beta serial_loop_hex)
  then have l: "length (concat (map bytes16 (fst ?g))) = 40" by (simp add: length_concat o_def sum_list_triv)
  have "dev.more (snd ?g) = dev.more s" by (rule touches_dev_more [OF GetSerialString_touches])
  with assms l show ?thesis
    by (auto simp: USB_Device_GetInternalSerialDescriptor_def Endpoint_Write_Control_Stream_LE_def bind_eq_Some_conv Let_def split_beta
      dest!: control_write_more)
qed

lemma GetDescriptor_more:
  assumes "USB_Device_GetDescriptor app s = Some t" "sound_descriptors app"
  shows "dev.more t = dev.more s"
proof -
  obtain n mem where c: "CALLBACK_USB_GetDescriptor app (wValue (USB_ControlRequest s)) (wIndex (USB_ControlRequest s)) = (n, mem)"
    by fastforce
  then have "unat n \<le> length mem" using assms(2) by (simp add: sound_descriptors_def)
  with assms(1) c show ?thesis
    by (auto simp: USB_Device_GetDescriptor_def Endpoint_Write_Control_PStream_LE_def bind_eq_Some_conv split: if_splits
      dest!: control_write_more serial_more)
qed

lemma GetConfiguration_more: "USB_Device_GetConfiguration s = Some t \<Longrightarrow> dev.more t = dev.more s"
  by (auto simp: USB_Device_GetConfiguration_def Let_def dest!: status_more)

lemma GetStatus_more: "USB_Device_GetStatus s = Some t \<Longrightarrow> dev.more t = dev.more s"
proof -
  assume a: "USB_Device_GetStatus s = Some t"
  have "dev.more (snd (current_status s)) = dev.more s"
    by (auto simp: current_status_def Let_def split_beta Endpoint_IsStalled_def tst_bit_of_def)
  with a show ?thesis by (auto simp: USB_Device_GetStatus_def Let_def split: prod.splits option.splits dest!: status_more)
qed

lemma ClearSetFeature_more: "USB_Device_ClearSetFeature s = Some t \<Longrightarrow> dev.more t = dev.more s"
proof -
  assume a: "USB_Device_ClearSetFeature s = Some t"
  have "dev.more (snd (feature_endpoint s)) = dev.more s"
    by (rule touches_dev_more [of UNIV]) (auto simp: feature_endpoint_def Let_def split_beta intro!: touch)
  with a show ?thesis by (auto simp: USB_Device_ClearSetFeature_def Let_def split_beta split: if_splits dest!: status_more)
qed

section \<open>The interrupt handler\<close>

lemma controller_more [simp]:
  fixes s :: "'a dev_scheme"
  shows "dev.more (USB_INT_Enable i s) = dev.more s" "dev.more (USB_INT_Disable i s) = dev.more s" "dev.more (USB_INT_Clear i s) = dev.more s"
    "dev.more (USB_CLK_Freeze s) = dev.more s" "dev.more (USB_CLK_Unfreeze s) = dev.more s" "dev.more (pll_down s) = dev.more s"
    "dev.more (snd (USB_Device_IsAddressSet s)) = dev.more s"
  by (rule touches_dev_more [of UNIV], auto intro!: touch)+

lemma when_pending_more:
  fixes s t :: "'a dev_scheme"
  assumes "when_pending i f s = Some t" "\<And>u v. f u = Some v \<Longrightarrow> dev.more v = dev.more u"
  shows "dev.more t = dev.more s"
proof -
  from when_pending_quiet [OF assms(1)] obtain u where "touches {} s u" "if fst (int_pending i s) then f u = Some t else t = u" by blast
  with assms(2) show ?thesis by (auto dest!: touches_dev_more split: if_splits)
qed

lemma USB_GEN_more:
  assumes "USB_GEN_vect app s = Some t"
    and e: "\<And>u v. EVENT_USB_Device_StartOfFrame app u = Some v \<Longrightarrow> dev.more v = dev.more u"
      "\<And>u v. EVENT_USB_Device_Disconnect app u = Some v \<Longrightarrow> dev.more v = dev.more u"
      "\<And>u v. EVENT_USB_Device_Connect app u = Some v \<Longrightarrow> dev.more v = dev.more u"
      "\<And>u v. EVENT_USB_Device_Reset app u = Some v \<Longrightarrow> dev.more v = dev.more u"
  shows "dev.more t = dev.more s"
proof -
  have "dev.more v = dev.more u" if "isr_sof app u = Some v \<or> isr_suspend app u = Some v" for u v
    using that by (auto simp: isr_sof_def isr_suspend_def Let_def dest!: e(1,2))
  moreover have "dev.more v = dev.more u" if "isr_wakeup app u = Some v" for u v
    using that by (auto simp: isr_wakeup_def Let_def bind_eq_Some_conv split_beta split: if_splits dest!: e(3) pll_up_touches touches_dev_more)
  moreover have "dev.more v = dev.more u" if "isr_reset app u = Some v" for u v
    using that by (auto simp: isr_reset_def Let_def bind_eq_Some_conv dest!: e(4) Configure_touches touches_dev_more)
  ultimately show ?thesis using assms(1)
    by (auto simp: USB_GEN_vect_def bind_eq_Some_conv dest!: when_pending_more)
qed

section \<open>The contract\<close>

locale keeps_part =
  fixes app :: "'a dev_scheme application" and R :: "reg set" and part :: "'a dev_scheme \<Rightarrow> 'p"
  assumes descriptors: "sound_descriptors app"
    and behind: "dev.more s = dev.more t \<Longrightarrow> part s = part t"
    and regs: "device_regs \<subseteq> R"
    and control_request: "EVENT_USB_Device_ControlRequest app s = Some t \<Longrightarrow> adds R s t \<and> part t = part s"
    and configuration_changed: "EVENT_USB_Device_ConfigurationChanged app s = Some t \<Longrightarrow> adds R s t \<and> part t = part s"
begin

lemma part_touches: "touches Q s t \<Longrightarrow> part t = part s"
  by (rule behind) (rule touches_dev_more)

lemma SetConfiguration_keeps:
  assumes "USB_Device_SetConfiguration app s = Some t"
  shows "adds R s t \<and> part t = part s"
proof (cases "FIXED_NUM_CONFIGURATIONS < ucast (wValue (USB_ControlRequest s))")
  case True
  with assms show ?thesis by (simp add: USB_Device_SetConfiguration_def)
next
  case False
  let ?c = "(Endpoint_ClearSETUP s)\<lparr>USB_Device_ConfigurationNumber := ucast (wValue (USB_ControlRequest (Endpoint_ClearSETUP s)))\<rparr>"
  from assms False obtain u where u: "Endpoint_ClearStatusStage ?c = Some u"
    and e: "EVENT_USB_Device_ConfigurationChanged app (if USB_Device_ConfigurationNumber u \<noteq> 0 then wr GPIOR0 DEVICE_STATE_Configured u
       else let (addressed, u) = USB_Device_IsAddressSet u
            in wr GPIOR0 (if addressed then DEVICE_STATE_Configured else DEVICE_STATE_Powered) u) = Some t"
      (is "EVENT_USB_Device_ConfigurationChanged app ?v = _")
    by (auto simp: USB_Device_SetConfiguration_def bind_eq_Some_conv Let_def)
  have "touches device_regs s (Endpoint_ClearSETUP s)"
    by (intro touch touches_refl) (simp add: device_regs_def request_regs_def)
  then have "adds device_regs s ?c" by (auto dest: touches_adds simp: adds_def)
  moreover have v: "touches device_regs ?c ?v" unfolding Let_def split_beta
    by (intro touch touches_mono [OF ClearStatusStage_touches [OF u]]) (auto simp: device_regs_def request_regs_def)
  ultimately have "adds device_regs s ?v" by (rule adds_touches)
  moreover have "dev.more ?v = dev.more s" using touches_dev_more [OF v] by simp
  then have "part ?v = part s" by (rule behind)
  moreover from configuration_changed [OF e] have "adds R ?v t" "part t = part ?v" by auto
  ultimately show ?thesis using adds_trans [OF adds_mono [OF _ regs], of s ?v t] by metis
qed

lemma dispatch_keeps:
  assumes "dispatch app s = Some t"
  shows "adds R s t \<and> part t = part s"
proof -
  have k: "control_kept s t \<Longrightarrow> adds R s t"
    unfolding control_kept_def using regs by (elim conjE adds_mono) (auto simp: device_regs_def)
  note std = kept_GetStatus kept_ClearSetFeature kept_SetAddress kept_GetDescriptor [OF _ descriptors] kept_GetConfiguration
  have "t = s \<or> USB_Device_GetStatus s = Some t \<or> USB_Device_ClearSetFeature s = Some t \<or> USB_Device_SetAddress s = Some t \<or>
      USB_Device_GetDescriptor app s = Some t \<or> USB_Device_GetConfiguration s = Some t \<or> USB_Device_SetConfiguration app s = Some t"
    using assms unfolding dispatch_def Let_def by (metis option.inject)
  then have "t = s \<or> control_kept s t \<and> dev.more t = dev.more s \<or> USB_Device_SetConfiguration app s = Some t"
    using std GetStatus_more ClearSetFeature_more SetAddress_more GetDescriptor_more [OF _ descriptors] GetConfiguration_more by blast
  then show ?thesis using k SetConfiguration_keeps [of s t] behind [of t s] by auto
qed

lemma process_keeps:
  assumes "USB_Device_ProcessControlRequest app s = Some t"
  shows "adds R s t \<and> part t = part s"
proof -
  from assms obtain u v where u: "EVENT_USB_Device_ControlRequest app (read_header s) = Some u"
    and v: "(if fst (Endpoint_IsSETUPReceived u) then dispatch app (snd (Endpoint_IsSETUPReceived u))
       else Some (snd (Endpoint_IsSETUPReceived u))) = Some v"
    and t: "t = (if fst (Endpoint_IsSETUPReceived v) then Endpoint_StallTransaction (Endpoint_ClearSETUP (snd (Endpoint_IsSETUPReceived v)))
       else snd (Endpoint_IsSETUPReceived v))"
    by (auto simp: USB_Device_ProcessControlRequest_def bind_eq_Some_conv Let_def split_beta)
  have "adds R s (read_header s)" by (rule adds_mono [OF adds_read_header]) simp
  moreover have "adds R u (snd (Endpoint_IsSETUPReceived u))" by (intro touches_adds touch touches_refl)
  moreover have "adds R (snd (Endpoint_IsSETUPReceived u)) v \<and> part v = part u"
    using v dispatch_keeps [of "snd (Endpoint_IsSETUPReceived u)" v] behind [of "snd (Endpoint_IsSETUPReceived u)" u] by (auto split: if_splits)
  moreover have "adds R v t" unfolding t using regs
    by (intro touches_adds touch touches_refl) (auto simp: device_regs_def request_regs_def)
  moreover have "part t = part v" "part (read_header s) = part s" by (rule behind, simp add: t)+
  ultimately show ?thesis using control_request [OF u] by (auto elim!: adds_trans)
qed

lemma task_keeps:
  assumes "USB_USBTask app s = Some t"
  shows "adds R s t \<and> part t = part s"
proof (cases "fst (rd GPIOR0 s) = DEVICE_STATE_Unattached")
  case True
  with assms show ?thesis by (auto simp: USB_USBTask_def USB_DeviceTask_def Let_def split_beta intro: touches_adds part_touches)
next
  case False
  let ?p = "Endpoint_GetCurrentEndpoint (snd (rd GPIOR0 s))"
  let ?c = "Endpoint_IsSETUPReceived (Endpoint_SelectEndpoint ENDPOINT_CONTROLEP (snd ?p))"
  from assms False obtain u where u: "(if fst ?c then USB_Device_ProcessControlRequest app (snd ?c) else Some (snd ?c)) = Some u"
    "t = Endpoint_SelectEndpoint (fst ?p) u"
    by (auto simp: USB_USBTask_def USB_DeviceTask_def bind_eq_Some_conv Let_def split_beta)
  have n: "UENUM \<in> R" using regs by (auto simp: device_regs_def)
  then have c: "touches R s (snd ?c)" by (intro touch touches_refl)
  moreover have "adds R (snd ?c) u \<and> part u = part (snd ?c)" using u(1) process_keeps [of "snd ?c" u] by (auto split: if_splits)
  moreover have "touches R u t" unfolding u(2) using n by (intro touch touches_refl)
  ultimately show ?thesis using part_touches [OF c] part_touches [of R u t] by (auto elim!: adds_trans dest!: touches_adds)
qed

end

end
