(* ===== verification/USB_Serial.thy ===== *)
theory USB_Serial
  imports CDC_Class Ring_Buffer Serial_AVR8 Serial_Descriptors Device_Contract "HOL-Library.Sublist"
begin

text \<open>
  The adapter between USB and the serial line, \<open>src/AT16u2/Projects/USBtoSerial/USBtoSerial.c\<close>: the CDC class driver,
  the serial driver and two ring buffers at work together. \<open>sig\<close> is the signature
  row of the controller. The configuration of the library differs from the one of the pad in
  \<open>INTERRUPT_CONTROL_ENDPOINT\<close>: control requests also come as interrupts. The indicator LEDs depend on the board and
  are left out, and so are the watchdog and the clock divider.
\<close>

section \<open>State\<close>

record bridge_dev = cdc_dev +
  USBtoUSART_Buffer :: RingBuffer
  USARTtoUSB_Buffer :: RingBuffer

definition VirtualSerial_CDC_Interface :: USB_ClassInfo_CDC_Device where
  "VirtualSerial_CDC_Interface = \<lparr>cdc_ControlInterfaceNumber = 0,
     cdc_DataINEndpoint = \<lparr>ep_Address = CDC_TX_EPADDR, ep_Size = CDC_TXRX_EPSIZE, ep_Type = 0, ep_Banks = 1\<rparr>,
     cdc_DataOUTEndpoint = \<lparr>ep_Address = CDC_RX_EPADDR, ep_Size = CDC_TXRX_EPSIZE, ep_Type = 0, ep_Banks = 1\<rparr>,
     cdc_NotificationEndpoint = \<lparr>ep_Address = CDC_NOTIFICATION_EPADDR, ep_Size = CDC_NOTIFICATION_EPSIZE, ep_Type = 0, ep_Banks = 1\<rparr>,
     HostToDevice = 0, DeviceToHost = 0, LineEncoding = \<lparr>BaudRateBPS = 0, CharFormat = 0, ParityType = 0, DataBits = 0\<rparr>\<rparr>"

section \<open>The main loop\<close>

text \<open>From the host to the buffer\<close>

definition from_host :: "'a bridge_dev_scheme \<Rightarrow> 'a bridge_dev_scheme option" where
  "from_host s =
     (let (full, s) = RingBuffer_IsFull (USBtoUSART_Buffer s) s
      in if full then Some s
         else let (ReceivedByte, s) = CDC_Device_ReceiveByte s
         in if ReceivedByte < 0 then Some s
            else do {
              (b, s) \<leftarrow> RingBuffer_Insert (word_of_int ReceivedByte) (USBtoUSART_Buffer s, s);
              Some (s\<lparr>USBtoUSART_Buffer := b\<rparr>) })"

text \<open>From the other buffer to the host: a byte leaves the buffer only when it was sent.\<close>

primrec send_bytes :: "nat \<Rightarrow> 'a bridge_dev_scheme \<Rightarrow> 'a bridge_dev_scheme option" where
  "send_bytes 0 s = Some s"
| "send_bytes (Suc BytesToSend) s = do {
     v \<leftarrow> RingBuffer_Peek (USARTtoUSB_Buffer s);
     (e, s) \<leftarrow> CDC_Device_SendByte v s;
     if e \<noteq> ENDPOINT_RWSTREAM_NoError then Some s
     else do {
       (_, b, s) \<leftarrow> RingBuffer_Remove (USARTtoUSB_Buffer s, s);
       send_bytes BytesToSend (s\<lparr>USARTtoUSB_Buffer := b\<rparr>) } }"

definition to_host :: "'a bridge_dev_scheme \<Rightarrow> 'a bridge_dev_scheme option" where
  "to_host s =
     (let (BufferCount, s) = RingBuffer_GetCount (USARTtoUSB_Buffer s) s
      in if BufferCount = 0 then Some s
         else let (ready, s) = Endpoint_IsINReady (cdc_select_in s)
         in if ready then send_bytes (unat (min BufferCount (CDC_TXRX_EPSIZE - 1))) s else Some s)"

definition to_serial :: "'a bridge_dev_scheme \<Rightarrow> 'a bridge_dev_scheme option" where
  "to_serial s =
     (let (ready, s) = Serial_IsSendReady s
      in if \<not> ready then Some s
         else let (empty, s) = RingBuffer_IsEmpty (USBtoUSART_Buffer s) s
         in if empty then Some s
            else do {
              (v, b, s) \<leftarrow> RingBuffer_Remove (USBtoUSART_Buffer s, s);
              Serial_SendByte v (s\<lparr>USBtoUSART_Buffer := b\<rparr>) })"

definition bridge_round :: "'a bridge_dev_scheme application \<Rightarrow> 'a bridge_dev_scheme \<Rightarrow> 'a bridge_dev_scheme option" where
  "bridge_round app s = do {
     s \<leftarrow> from_host s;
     s \<leftarrow> to_host s;
     s \<leftarrow> to_serial s;
     s \<leftarrow> CDC_Device_USBTask s;
     USB_USBTask app s }"

primrec bridge_rounds :: "'a bridge_dev_scheme application \<Rightarrow> nat \<Rightarrow> 'a bridge_dev_scheme \<Rightarrow> 'a bridge_dev_scheme option" where
  "bridge_rounds app 0 s = Some s"
| "bridge_rounds app (Suc n) s = do { s \<leftarrow> bridge_round app s; bridge_rounds app n s }"

definition bridge_setup :: "'a bridge_dev_scheme \<Rightarrow> 'a bridge_dev_scheme option" where
  "bridge_setup s = do {
     s \<leftarrow> USB_Init s;
     (b, s) \<leftarrow> RingBuffer_InitBuffer (replicate 128 0) 128 s;
     let s = s\<lparr>USBtoUSART_Buffer := b\<rparr>;
     (b, s) \<leftarrow> RingBuffer_InitBuffer (replicate 128 0) 128 s;
     let s = s\<lparr>USARTtoUSB_Buffer := b\<rparr>;
     Some (wr SREG_I 1 s) }"

section \<open>Events and interrupts\<close>

abbreviation CDC_PARITY_Odd :: u8 where "CDC_PARITY_Odd \<equiv> 1"
abbreviation CDC_PARITY_Even :: u8 where "CDC_PARITY_Even \<equiv> 2"
abbreviation CDC_LINEENCODING_TwoStopBits :: u8 where "CDC_LINEENCODING_TwoStopBits \<equiv> 2"

definition ConfigMask :: "CDC_LineEncoding \<Rightarrow> u8" where
  "ConfigMask e =
     (if ParityType e = CDC_PARITY_Odd then bv 5 OR bv 4 else if ParityType e = CDC_PARITY_Even then bv 5 else 0) OR
     (if CharFormat e = CDC_LINEENCODING_TwoStopBits then bv 3 else 0) OR
     (if DataBits e = 6 then bv UCSZ10 else if DataBits e = 7 then bv UCSZ11
      else if DataBits e = 8 then bv UCSZ11 OR bv UCSZ10 else 0)"

definition LineEncodingChanged :: "'a cdc_dev_scheme \<Rightarrow> 'a cdc_dev_scheme option" where
  "LineEncodingChanged s = do {
     let e = LineEncoding (CDCInterfaceInfo s);
     let s = set_bits PORTD (bv 3) s;
     let s = wr UCSR1C 0 (wr UCSR1A 0 (wr UCSR1B 0 s));
     guard (BaudRateBPS e \<noteq> 0);
     let s = wr_UBRR1 (ucast (SERIAL_2X_UBBRVAL (BaudRateBPS e))) s;
     let s = wr UCSR1C (ConfigMask e) s;
     let s = wr UCSR1A (bv U2X1) s;
     let s = wr UCSR1B (bv RXCIE1 OR bv TXEN1 OR bv RXEN1) s;
     Some (clr_bits PORTD (bv 3) s) }"

definition bridge_ControlRequest :: "'a cdc_dev_scheme \<Rightarrow> 'a cdc_dev_scheme option" where
  "bridge_ControlRequest =
     CDC_Device_ProcessControlRequest (cdc_stub_events\<lparr>EVENT_CDC_Device_LineEncodingChanged := LineEncodingChanged\<rparr>)"

definition bridge_ConfigurationChanged :: "'a cdc_dev_scheme \<Rightarrow> 'a cdc_dev_scheme option" where
  "bridge_ConfigurationChanged s = do { (_, s) \<leftarrow> CDC_Device_ConfigureEndpoints s; Some s }"

text \<open>
  The reset handler of the stack enables the interrupt of the control endpoint right before the event of the
  application, which is empty here.
\<close>

definition bridge_application :: "(u8 \<Rightarrow> u8) \<Rightarrow> 'a cdc_dev_scheme application" where
  "bridge_application sig = (stub_application bridge_GetDescriptor sig)
     \<lparr>EVENT_USB_Device_ControlRequest := bridge_ControlRequest, EVENT_USB_Device_ConfigurationChanged := bridge_ConfigurationChanged,
      EVENT_USB_Device_Reset := (\<lambda>s. Some (USB_INT_Enable USB_INT_RXSTPI s))\<rparr>"

definition bridge_RX_vect :: "'a bridge_dev_scheme \<Rightarrow> 'a bridge_dev_scheme option" where
  "bridge_RX_vect s =
     (let (ReceivedByte, s) = rd UDR1 s; (st, s) = rd GPIOR0 s
      in if st \<noteq> DEVICE_STATE_Configured then Some s
         else let (full, s) = RingBuffer_IsFull (USARTtoUSB_Buffer s) s
         in if full then Some s
            else do {
              (b, s) \<leftarrow> RingBuffer_Insert ReceivedByte (USARTtoUSB_Buffer s, s);
              Some (s\<lparr>USARTtoUSB_Buffer := b\<rparr>) })"

definition USB_COM_vect :: "'a dev_scheme application \<Rightarrow> 'a dev_scheme \<Rightarrow> 'a dev_scheme option" where
  "USB_COM_vect app s = do {
     let (PrevSelectedEndpoint, s) = Endpoint_GetCurrentEndpoint s;
     let s = USB_INT_Disable USB_INT_RXSTPI (Endpoint_SelectEndpoint ENDPOINT_CONTROLEP s);
     let s = wr SREG_I 1 s;
     s \<leftarrow> USB_Device_ProcessControlRequest app s;
     let s = USB_INT_Enable USB_INT_RXSTPI (Endpoint_SelectEndpoint ENDPOINT_CONTROLEP s);
     Some (Endpoint_SelectEndpoint PrevSelectedEndpoint s) }"

text \<open>
  The firmware runs: the parts of a round one after the other, interrupts between any two of them.
  A configuration holds the part that comes next, the bytes \<open>from_host\<close> has read from its bank, the bytes
  \<open>to_host\<close> has written into its bank, and the state. Both lists are read off the accesses to the data register.
\<close>

datatype bridge_part = From_Host | To_Host | To_Serial | Class_Task | Device_Task

definition run_part :: "'a bridge_dev_scheme application \<Rightarrow> bridge_part \<Rightarrow> 'a bridge_dev_scheme \<Rightarrow> 'a bridge_dev_scheme option" where
  "run_part app p = (case p of From_Host \<Rightarrow> from_host | To_Host \<Rightarrow> to_host | To_Serial \<Rightarrow> to_serial
     | Class_Task \<Rightarrow> CDC_Device_USBTask | Device_Task \<Rightarrow> USB_USBTask app)"

definition next_part :: "bridge_part \<Rightarrow> bridge_part" where
  "next_part p = (case p of From_Host \<Rightarrow> To_Host | To_Host \<Rightarrow> To_Serial | To_Serial \<Rightarrow> Class_Task
     | Class_Task \<Rightarrow> Device_Task | Device_Task \<Rightarrow> From_Host)"

definition news :: "('a \<Rightarrow> u8 list) \<Rightarrow> 'a \<Rightarrow> 'a \<Rightarrow> u8 list" where
  "news f s t = drop (length (f s)) (f t)"

type_synonym 'a bridge_config = "bridge_part \<times> u8 list \<times> u8 list \<times> 'a bridge_dev_scheme"

inductive bridge_step :: "(u8 \<Rightarrow> u8) \<Rightarrow> 'a bridge_config \<Rightarrow> 'a bridge_config \<Rightarrow> bool" for sig where
  main: "run_part (bridge_application sig) p s = Some t \<Longrightarrow>
    bridge_step sig (p, got, gone, s) (next_part p, got @ (if p = From_Host then news (was_read UEDATX) s t else []),
      gone @ (if p = To_Host then news (wrote UEDATX) s t else []), t)"
| receive: "bridge_RX_vect s = Some t \<Longrightarrow> bridge_step sig (p, got, gone, s) (p, got, gone, t)"
| usb: "USB_GEN_vect (bridge_application sig) s = Some t \<Longrightarrow> bridge_step sig (p, got, gone, s) (p, got, gone, t)"
| control: "USB_COM_vect (bridge_application sig) s = Some t \<Longrightarrow> bridge_step sig (p, got, gone, s) (p, got, gone, t)"

inductive_cases bridge_stepE: "bridge_step sig (p, got, gone, s) c"

section \<open>What control requests leave alone\<close>

definition bridge_regs :: "reg set" where
  "bridge_regs = device_regs \<union> {PORTD, UCSR1A, UCSR1B, UCSR1C, UBRR1H, UBRR1L}"

text \<open>Registers of the USB controller and the serial line, and no variable behind the CDC interface\<close>

definition cdc_calm :: "'a cdc_dev_scheme \<Rightarrow> 'a cdc_dev_scheme \<Rightarrow> bool" where
  "cdc_calm s t \<longleftrightarrow> adds bridge_regs s t \<and> cdc_dev.more t = cdc_dev.more s"

lemma cdc_calm_trans: "cdc_calm s t \<Longrightarrow> cdc_calm t u \<Longrightarrow> cdc_calm s u"
  by (auto simp: cdc_calm_def elim: adds_trans)

lemma calm_touches:
  fixes s t :: "'a cdc_dev_scheme"
  assumes "touches R s t" "R \<subseteq> bridge_regs"
  shows "cdc_calm s t"
proof -
  have "cdc_dev.more t = cdc_dev.more s" using touches_more [OF assms(1)] by (cases s; cases t; simp)
  with adds_mono [OF touches_adds [OF assms(1)] assms(2)] show ?thesis by (simp add: cdc_calm_def)
qed

lemma calm_set: "cdc_calm s (set_cdc f s)"
  by (simp add: cdc_calm_def set_cdc_def adds_def)

lemma calm_status: "Endpoint_ClearStatusStage s = Some t \<Longrightarrow> cdc_calm s t"
  by (rule calm_touches [OF ClearStatusStage_touches]) (auto simp: bridge_regs_def device_regs_def request_regs_def)

lemma calm_line: "LineEncodingChanged s = Some t \<Longrightarrow> cdc_calm s t"
  by (rule calm_touches [of bridge_regs])
    (auto simp: LineEncodingChanged_def wr_UBRR1_def Let_def bridge_regs_def bind_eq_Some_conv intro!: touch)

lemma calm_ClearSETUP: "cdc_calm s (Endpoint_ClearSETUP s)"
  by (rule calm_touches [of "{UEINTX}"]) (auto intro!: touch simp: bridge_regs_def device_regs_def request_regs_def)

lemma calm_GetLineEncoding:
  assumes "cdc_GetLineEncoding s = Some t"
  shows "cdc_calm s t"
proof (cases "bmRequestType (USB_ControlRequest s) = class_in")
  case True
  let ?w = "\<lambda>u. let e = LineEncoding (CDCInterfaceInfo u) in Endpoint_ClearIN (Endpoint_Write_8 (DataBits e) (Endpoint_Write_8 (ParityType e)
    (Endpoint_Write_8 (CharFormat e) (Endpoint_Write_32_LE (BaudRateBPS e) u))))"
  from assms True obtain u where u: "wait_set UEINTX TXINI (Endpoint_ClearSETUP s) = Some u" "Endpoint_ClearStatusStage (?w u) = Some t"
    by (auto simp: cdc_GetLineEncoding_def bind_eq_Some_conv Let_def)
  have "touches {UEINTX, UEDATX} u (?w u)" unfolding Let_def Endpoint_Write_32_LE_def by (intro touch touches_refl) simp_all
  then have "cdc_calm u (?w u)" by (rule calm_touches) (auto simp: bridge_regs_def device_regs_def request_regs_def)
  moreover have "cdc_calm (Endpoint_ClearSETUP s) u" by (rule calm_touches [OF wait_set_touches [OF u(1), of "{}"]]) simp
  ultimately show ?thesis using calm_ClearSETUP calm_status [OF u(2)] by (blast intro: cdc_calm_trans)
qed (use assms in \<open>simp add: cdc_GetLineEncoding_def cdc_calm_def\<close>)

lemma calm_SetLineEncoding:
  assumes "cdc_SetLineEncoding (cdc_stub_events\<lparr>EVENT_CDC_Device_LineEncodingChanged := LineEncodingChanged\<rparr>) s = Some t"
  shows "cdc_calm s t"
proof (cases "bmRequestType (USB_ControlRequest s) = class_out")
  case True
  from assms True obtain ok u where u: "status_wait Endpoint_IsOUTReceived (Endpoint_ClearSETUP s) = Some (ok, u)"
    by (auto simp: cdc_SetLineEncoding_def bind_eq_Some_conv)
  have "touches {} (Endpoint_ClearSETUP s) u" by (rule status_wait_touches [OF u]) (intro touch)
  from calm_touches [OF this] calm_ClearSETUP have su: "cdc_calm s u" by (blast intro: cdc_calm_trans)
  let ?r = "snd (Endpoint_Read_8 (snd (Endpoint_Read_8 (snd (Endpoint_Read_8 (snd (Endpoint_Read_32_LE u)))))))"
  have "touches {} u ?r" by (auto intro!: touch simp: Endpoint_Read_32_LE_def Let_def split_beta)
  from calm_touches [OF this] su have r: "cdc_calm s ?r" by (blast intro: cdc_calm_trans)
  show ?thesis
  proof (cases ok)
    case False
    with assms True u su show ?thesis by (simp add: cdc_SetLineEncoding_def)
  next
    case ok: True
    from assms True u ok obtain f v where v: "Endpoint_ClearStatusStage (Endpoint_ClearOUT (set_cdc f ?r)) = Some v" "LineEncodingChanged v = Some t"
      by (auto simp: cdc_SetLineEncoding_def bind_eq_Some_conv Let_def split_beta)
    have "cdc_calm (set_cdc f ?r) (Endpoint_ClearOUT (set_cdc f ?r))"
      by (rule calm_touches [of "{UEINTX}"]) (auto intro!: touch simp: bridge_regs_def device_regs_def request_regs_def)
    with r calm_set [of ?r f] calm_status [OF v(1)] calm_line [OF v(2)] show ?thesis by (blast intro: cdc_calm_trans)
  qed
qed (use assms in \<open>simp add: cdc_SetLineEncoding_def cdc_calm_def\<close>)

lemma calm_lines:
  assumes "cdc_SetControlLineState (cdc_stub_events\<lparr>EVENT_CDC_Device_LineEncodingChanged := LineEncodingChanged\<rparr>) s = Some t \<or>
    cdc_SendBreak (cdc_stub_events\<lparr>EVENT_CDC_Device_LineEncodingChanged := LineEncodingChanged\<rparr>) s = Some t"
  shows "cdc_calm s t"
proof -
  from assms have "t = s \<or> (\<exists>u. Endpoint_ClearStatusStage (Endpoint_ClearSETUP s) = Some u \<and> (t = u \<or> (\<exists>f. t = set_cdc f u)))"
    by (auto simp: cdc_SetControlLineState_def cdc_SendBreak_def cdc_stub_events_def CDC_Device_Event_Stub_def bind_eq_Some_conv Let_def split: if_splits)
  then show ?thesis using calm_ClearSETUP calm_status calm_set
    by (metis cdc_calm_trans cdc_calm_def adds_refl)
qed

lemma calm_ControlRequest:
  assumes "bridge_ControlRequest s = Some t"
  shows "cdc_calm s t"
proof -
  let ?s = "snd (Endpoint_IsSETUPReceived s)"
  have "touches {} s ?s" by (auto intro!: touch)
  from calm_touches [OF this] have s: "cdc_calm s ?s" by simp
  have "cdc_calm ?s t" using assms calm_GetLineEncoding [of ?s t] calm_SetLineEncoding [of ?s t] calm_lines [of ?s t]
    by (auto simp: bridge_ControlRequest_def CDC_Device_ProcessControlRequest_def Let_def split_beta cdc_calm_def split: if_splits)
  with s show ?thesis by (rule cdc_calm_trans)
qed

lemma calm_Table:
  fixes s t :: "'a cdc_dev_scheme"
  assumes "Endpoint_ConfigureEndpointTable [e] s = Some (ok, t)"
  shows "cdc_calm s t"
proof (cases "ep_Address e = 0")
  case True
  with assms show ?thesis by (simp add: cdc_calm_def)
next
  case False
  with assms obtain ok' where "Endpoint_ConfigureEndpoint (ep_Address e) (ep_Type e) (ep_Size e) (ep_Banks e) s = Some (ok', t)"
    by (auto simp: bind_eq_Some_conv split: if_splits)
  from calm_touches [OF Configure_touches [OF this]] show ?thesis
    by (auto simp: bridge_regs_def device_regs_def request_regs_def configure_regs_def)
qed

lemma calm_ConfigurationChanged:
  assumes "bridge_ConfigurationChanged s = Some t"
  shows "cdc_calm s t"
proof -
  from assms obtain ok where "CDC_Device_ConfigureEndpoints s = Some (ok, t)" by (auto simp: bridge_ConfigurationChanged_def bind_eq_Some_conv)
  then show ?thesis unfolding CDC_Device_ConfigureEndpoints_def Let_def
    by (auto simp: bind_eq_Some_conv simp del: Endpoint_ConfigureEndpointTable.simps split: if_splits dest!: calm_Table)
      (meson calm_set cdc_calm_trans)+
qed

interpretation bridgeapp: keeps_part "bridge_application sig" bridge_regs cdc_dev.more for sig
proof
  show "sound_descriptors (bridge_application sig)"
    using bridge_GetDescriptor_sound by (auto simp: sound_descriptors_def bridge_application_def stub_application_def)
  show "cdc_dev.more s = cdc_dev.more t" if "dev.more s = dev.more t" for s t :: "'a cdc_dev_scheme"
    using that by (cases s; cases t) simp
  show "device_regs \<subseteq> bridge_regs" by (auto simp: bridge_regs_def)
qed (use calm_ControlRequest calm_ConfigurationChanged in \<open>auto simp: cdc_calm_def bridge_application_def\<close>)

section \<open>One round of the main loop\<close>

lemma touches_rings:
  fixes s t :: "'a bridge_dev_scheme"
  assumes "touches R s t"
  shows "USBtoUSART_Buffer t = USBtoUSART_Buffer s" "USARTtoUSB_Buffer t = USARTtoUSB_Buffer s"
  using touches_more [OF assms] by (cases s; cases t; simp)+

lemma ring_tests:
  "snd (RingBuffer_IsFull b s) = snd (RingBuffer_GetCount b s)" "snd (RingBuffer_IsEmpty b s) = snd (RingBuffer_GetCount b s)"
  "fst (RingBuffer_GetCount b s) = rb_Count b" "touches {SREG_I} s (snd (RingBuffer_GetCount b s))"
  "was_read UEDATX (snd (RingBuffer_GetCount b s)) = was_read UEDATX s" "was_read UDR1 (snd (RingBuffer_GetCount b s)) = was_read UDR1 s"
  by (auto simp: RingBuffer_IsFull_def RingBuffer_IsEmpty_def RingBuffer_GetCount_def Let_def split_beta intro!: touch)

lemma ring_insert:
  assumes "rb_ok b" "rb_Count b \<noteq> rb_Size b"
  shows "\<exists>b' t. RingBuffer_Insert v (b, s) = Some (b', t) \<and> rb_ok b' \<and> rb_contents b' = rb_contents b @ [v] \<and> touches {SREG_I} s t \<and>
    was_read UEDATX t = was_read UEDATX s \<and> was_read UDR1 t = was_read UDR1 s"
proof -
  from insert_appends [OF assms, of v s] obtain b' t where t: "RingBuffer_Insert v (b, s) = Some (b', t)" "rb_ok b'" "rb_contents b' = rb_contents b @ [v]" by blast
  then have "touches {SREG_I} s t \<and> was_read UEDATX t = was_read UEDATX s \<and> was_read UDR1 t = was_read UDR1 s"
    by (auto simp: RingBuffer_Insert_def insert_count_def bind_eq_Some_conv Let_def split_beta intro!: touch)
  with t show ?thesis by blast
qed

lemma ring_remove:
  assumes "rb_ok b" "rb_contents b \<noteq> []"
  shows "\<exists>b' t. RingBuffer_Remove (b, s) = Some (hd (rb_contents b), b', t) \<and> rb_ok b' \<and> rb_contents b' = tl (rb_contents b) \<and> touches {SREG_I} s t"
proof -
  have "rb_Count b \<noteq> 0" using assms(2) by (auto simp: rb_contents_def)
  from remove_takes [OF assms(1) this, of s] obtain b' t where t: "RingBuffer_Remove (b, s) = Some (hd (rb_contents b), b', t)" "rb_ok b'" "rb_contents b' = tl (rb_contents b)" by blast
  then have "touches {SREG_I} s t" by (auto simp: RingBuffer_Remove_def remove_count_def bind_eq_Some_conv Let_def split_beta intro!: touch)
  with t show ?thesis by blast
qed

lemma ReceiveByte_reads:
  assumes "CDC_Device_ReceiveByte s = (v, t)"
  shows "touches {UENUM, UEINTX} s t" "was_read UEDATX t = was_read UEDATX s @ (if v < 0 then [] else [word_of_int v])"
  using assms
  by (auto simp: CDC_Device_ReceiveByte_def cdc_usable_def cdc_select_out_def Endpoint_SelectEndpoint_def Endpoint_IsOUTReceived_def Endpoint_BytesInEndpoint_def
    Endpoint_Read_8_def Endpoint_ClearOUT_def Let_def split_beta split: if_splits intro!: touch)

definition bridge_ok :: "'a bridge_dev_scheme \<Rightarrow> bool" where
  "bridge_ok s \<longleftrightarrow> rb_ok (USBtoUSART_Buffer s) \<and> rb_ok (USARTtoUSB_Buffer s)"

abbreviation to_usart :: "'a bridge_dev_scheme \<Rightarrow> u8 list" where "to_usart s \<equiv> rb_contents (USBtoUSART_Buffer s)"
abbreviation to_usb :: "'a bridge_dev_scheme \<Rightarrow> u8 list" where "to_usb s \<equiv> rb_contents (USARTtoUSB_Buffer s)"

lemma rings_set [simp]:
  "was_read r (s\<lparr>USBtoUSART_Buffer := b\<rparr>) = was_read r s" "wrote r (s\<lparr>USBtoUSART_Buffer := b\<rparr>) = wrote r s"
  "was_read r (s\<lparr>USARTtoUSB_Buffer := b\<rparr>) = was_read r s" "wrote r (s\<lparr>USARTtoUSB_Buffer := b\<rparr>) = wrote r s"
  "adds R s (t\<lparr>USBtoUSART_Buffer := b\<rparr>) = adds R s t" "adds R s (t\<lparr>USARTtoUSB_Buffer := b\<rparr>) = adds R s t"
  "adds R (s\<lparr>USARTtoUSB_Buffer := b\<rparr>) t = adds R s t" "adds R (s\<lparr>USBtoUSART_Buffer := b\<rparr>) t = adds R s t"
  by (simp_all add: was_read_def wrote_def adds_def)

lemma from_host_queues:
  assumes "bridge_ok s"
  shows "\<exists>t rc. from_host s = Some t \<and> bridge_ok t \<and> length rc \<le> 1 \<and> was_read UEDATX t = was_read UEDATX s @ rc \<and> to_usart t = to_usart s @ rc \<and>
    to_usb t = to_usb s \<and> adds {UENUM, UEINTX, SREG_I} s t"
proof -
  let ?b = "USBtoUSART_Buffer s"
  let ?g = "snd (RingBuffer_GetCount ?b s)"
  obtain v u where u: "CDC_Device_ReceiveByte ?g = (v, u)" by fastforce
  note g = touches_rings [OF ring_tests(4) [of s ?b]] and ur = touches_rings [OF ReceiveByte_reads(1) [OF u]]
  have ag: "adds {UENUM, UEINTX, SREG_I} s ?g" "adds {UENUM, UEINTX, SREG_I} ?g u"
    by (rule touches_adds [OF touches_mono [OF ring_tests(4)]], simp, rule touches_adds [OF touches_mono [OF ReceiveByte_reads(1) [OF u]]], simp)
  then have au: "adds {UENUM, UEINTX, SREG_I} s u" by (rule adds_trans)
  consider (full) "rb_Count ?b = rb_Size ?b" | (none) "rb_Count ?b \<noteq> rb_Size ?b" "v < 0" | (byte) "rb_Count ?b \<noteq> rb_Size ?b" "\<not> v < 0" by blast
  then show ?thesis
  proof cases
    case full
    with assms g ag show ?thesis by (intro exI [of _ ?g] exI [of _ "[]"])
      (simp add: from_host_def split_beta Let_def tests_only_read ring_tests bridge_ok_def)
  next
    case none
    with assms g ur u au ReceiveByte_reads(2) [OF u] show ?thesis by (intro exI [of _ u] exI [of _ "[]"])
      (simp add: from_host_def split_beta Let_def tests_only_read ring_tests bridge_ok_def)
  next
    case byte
    from ring_insert [of ?b "word_of_int v" u] assms byte(1) obtain b' w where w: "RingBuffer_Insert (word_of_int v) (?b, u) = Some (b', w)" "rb_ok b'"
      "rb_contents b' = rb_contents ?b @ [word_of_int v]" "touches {SREG_I} u w" "was_read UEDATX w = was_read UEDATX u"
      by (auto simp: bridge_ok_def)
    have aw: "adds {UENUM, UEINTX, SREG_I} s w" by (rule adds_touches [OF au touches_mono [OF w(4)]]) simp
    have "from_host s = Some (w\<lparr>USBtoUSART_Buffer := b'\<rparr>)"
      using byte u w(1) g ur by (simp add: from_host_def split_beta Let_def tests_only_read ring_tests)
    with byte assms g ur aw w(2,3,5) touches_rings [OF w(4)] ReceiveByte_reads(2) [OF u] show ?thesis
      by (intro exI [of _ "w\<lparr>USBtoUSART_Buffer := b'\<rparr>"] exI [of _ "[word_of_int v]"]) (simp add: ring_tests bridge_ok_def)
  qed
qed

lemma SendByte_touches:
  assumes "CDC_Device_SendByte b s = Some (e, t)"
  shows "touches {UENUM, UEINTX, UEDATX} s t"
proof (cases "fst (cdc_usable s)")
  case False
  with assms show ?thesis by (auto simp: CDC_Device_SendByte_def split_beta Let_def intro!: touch)
next
  case True
  let ?u = "cdc_select_in (snd (cdc_usable s))"
  have u: "touches {UENUM, UEINTX, UEDATX} s ?u" by (intro touch touches_refl) simp
  from bank_once [of ?u b e t] True assms have "touches {UEINTX, UEDATX} ?u t"
    by (simp add: CDC_Device_SendByte_def split_beta Let_def cong: if_cong)
  from touches_trans [OF u touches_mono [OF this]] show ?thesis by auto
qed

lemma send_bytes_queues:
  assumes "send_bytes n s = Some t" "bridge_ok s" "n \<le> length (to_usb s)"
  shows "\<exists>k \<le> n. wrote UEDATX t = wrote UEDATX s @ take k (to_usb s) \<and> to_usb t = drop k (to_usb s) \<and> bridge_ok t \<and>
    USBtoUSART_Buffer t = USBtoUSART_Buffer s \<and> adds {UENUM, UEINTX, UEDATX, SREG_I} s t"
  using assms
proof (induction n arbitrary: s)
  case 0
  then show ?case by auto
next
  case (Suc n)
  let ?b = "USARTtoUSB_Buffer s"
  have ne: "to_usb s \<noteq> []" using Suc.prems(3) by (metis list.size(3) le_0_eq nat.distinct(1))
  from Suc.prems(1) obtain v e u where v: "RingBuffer_Peek ?b = Some v" "CDC_Device_SendByte v s = Some (e, u)"
    and t: "if e \<noteq> ENDPOINT_RWSTREAM_NoError then t = u else \<exists>x b' w. RingBuffer_Remove (USARTtoUSB_Buffer u, u) = Some (x, b', w) \<and> send_bytes n (w\<lparr>USARTtoUSB_Buffer := b'\<rparr>) = Some t"
    by (auto simp: bind_eq_Some_conv split: if_splits)
  note k = touches_rings [OF SendByte_touches [OF v(2)]]
  have au: "adds {UENUM, UEINTX, UEDATX, SREG_I} s u" by (rule touches_adds [OF touches_mono [OF SendByte_touches [OF v(2)]]]) auto
  show ?case
  proof (cases "e = ENDPOINT_RWSTREAM_NoError")
    case False
    with t k au Suc.prems(2) SendByte_once [OF v(2)] show ?thesis by (intro exI [of _ 0]) (simp add: bridge_ok_def)
  next
    case True
    from ring_remove [of ?b u] Suc.prems(2) ne t True k obtain b' w where w: "RingBuffer_Remove (?b, u) = Some (hd (to_usb s), b', w)" "rb_ok b'"
      "rb_contents b' = tl (to_usb s)" "touches {SREG_I} u w" "send_bytes n (w\<lparr>USARTtoUSB_Buffer := b'\<rparr>) = Some t"
      by (auto simp: bridge_ok_def)
    have "v = hd (to_usb s)" using v(1) w(1) by (auto simp: RingBuffer_Peek_def RingBuffer_Remove_def)
    moreover have "wrote UEDATX w = wrote UEDATX u" using touches_wrote [OF w(4), of UEDATX] by simp
    ultimately have ww: "wrote UEDATX w = wrote UEDATX s @ [hd (to_usb s)]" using SendByte_once [OF v(2)] True by simp
    have aw: "adds {UENUM, UEINTX, UEDATX, SREG_I} s w" by (rule adds_touches [OF au touches_mono [OF w(4)]]) simp
    have "\<exists>k \<le> n. wrote UEDATX t = wrote UEDATX (w\<lparr>USARTtoUSB_Buffer := b'\<rparr>) @ take k (to_usb (w\<lparr>USARTtoUSB_Buffer := b'\<rparr>)) \<and>
        to_usb t = drop k (to_usb (w\<lparr>USARTtoUSB_Buffer := b'\<rparr>)) \<and> bridge_ok t \<and> USBtoUSART_Buffer t = USBtoUSART_Buffer (w\<lparr>USARTtoUSB_Buffer := b'\<rparr>) \<and>
        adds {UENUM, UEINTX, UEDATX, SREG_I} (w\<lparr>USARTtoUSB_Buffer := b'\<rparr>) t"
      using Suc.prems(2,3) w k touches_rings [OF w(4)] by (intro Suc.IH) (auto simp: bridge_ok_def)
    then obtain k' where "k' \<le> n" "wrote UEDATX t = wrote UEDATX s @ hd (to_usb s) # take k' (tl (to_usb s))" "to_usb t = drop k' (tl (to_usb s))"
      "bridge_ok t" "USBtoUSART_Buffer t = USBtoUSART_Buffer s" "adds {UENUM, UEINTX, UEDATX, SREG_I} s t"
      using ww w(3) k touches_rings [OF w(4)] adds_trans [OF aw] by auto
    then show ?thesis using ne by (intro exI [of _ "Suc k'"]) (cases "to_usb s"; simp)
  qed
qed

lemma to_host_queues:
  assumes "to_host s = Some t" "bridge_ok s"
  shows "\<exists>k \<le> 15. wrote UEDATX t = wrote UEDATX s @ take k (to_usb s) \<and> to_usb t = drop k (to_usb s) \<and> bridge_ok t \<and>
    USBtoUSART_Buffer t = USBtoUSART_Buffer s \<and> adds {UENUM, UEINTX, UEDATX, SREG_I} s t"
proof -
  let ?b = "USARTtoUSB_Buffer s"
  let ?g = "snd (RingBuffer_GetCount ?b s)"
  let ?i = "Endpoint_IsINReady (cdc_select_in ?g)"
  let ?n = "unat (min (rb_Count ?b) (CDC_TXRX_EPSIZE - 1))"
  have g: "touches {UENUM, SREG_I} s ?g" by (rule touches_mono [OF ring_tests(4)]) simp
  then have i: "touches {UENUM, SREG_I} s (snd ?i)" by (intro touch touches_refl) simp_all
  from assms(1) have "t = ?g \<or> t = snd ?i \<or> send_bytes ?n (snd ?i) = Some t"
    by (auto simp: to_host_def Let_def split_beta ring_tests split: if_splits)
  then consider (quiet) "touches {UENUM, SREG_I} s t" | (sends) "send_bytes ?n (snd ?i) = Some t" using g i by blast
  then show ?thesis
  proof cases
    case quiet
    with assms(2) touches_rings [OF quiet] touches_wrote [OF quiet, of UEDATX] touches_adds [OF touches_mono [OF quiet, of "{UENUM, UEINTX, UEDATX, SREG_I}"]]
    show ?thesis by (intro exI [of _ 0]) (simp add: bridge_ok_def)
  next
    case sends
    note r = touches_rings [OF i]
    have "?n \<le> length (to_usb (snd ?i))" "?n \<le> 15" using r by (auto simp: min_def word_le_nat_alt)
    from send_bytes_queues [OF sends _ this(1)] assms(2) r obtain k where k: "k \<le> ?n" "wrote UEDATX t = wrote UEDATX (snd ?i) @ take k (to_usb s)" "to_usb t = drop k (to_usb s)"
      "bridge_ok t" "USBtoUSART_Buffer t = USBtoUSART_Buffer s" "adds {UENUM, UEINTX, UEDATX, SREG_I} (snd ?i) t" by (auto simp: bridge_ok_def)
    from k(1) \<open>?n \<le> 15\<close> have "k \<le> 15" by linarith
    moreover have "adds {UENUM, UEINTX, UEDATX, SREG_I} s t" by (rule adds_trans [OF touches_adds [OF touches_mono [OF i]] k(6)]) simp
    ultimately show ?thesis using k touches_wrote [OF i, of UEDATX] by (intro exI [of _ k]) simp
  qed
qed

definition line_ready :: "(acc list \<Rightarrow> reg \<Rightarrow> u8) \<Rightarrow> bool" where
  "line_ready H \<longleftrightarrow> (\<forall>l. tst (H l UCSR1A) UDRE1)"

lemma to_serial_queues:
  assumes "to_serial s = Some t" "bridge_ok s"
  shows "\<exists>j \<le> 1. (line_ready (hw s) \<and> to_usart s \<noteq> [] \<longrightarrow> j = 1) \<and> wrote UDR1 t = wrote UDR1 s @ take j (to_usart s) \<and> to_usart t = drop j (to_usart s) \<and> bridge_ok t \<and>
    USARTtoUSB_Buffer t = USARTtoUSB_Buffer s \<and> adds {UDR1, SREG_I} s t"
proof -
  let ?b = "USBtoUSART_Buffer s"
  let ?r = "snd (Serial_IsSendReady s)"
  let ?g = "snd (RingBuffer_GetCount ?b ?r)"
  have r: "touches {SREG_I} s ?r" by (simp add: Serial_IsSendReady_def)
  then have g: "touches {SREG_I} s ?g" using ring_tests(4) by (blast intro: touches_trans)
  note rr = touches_rings [OF r] and gr = touches_rings [OF g]
  from assms(1) have "t = ?r \<and> \<not> fst (Serial_IsSendReady s) \<or> t = ?g \<and> rb_Count ?b = 0 \<or> rb_Count ?b \<noteq> 0 \<and>
      (\<exists>v b u. RingBuffer_Remove (?b, ?g) = Some (v, b, u) \<and> Serial_SendByte v (u\<lparr>USBtoUSART_Buffer := b\<rparr>) = Some t)"
    using rr gr by (auto simp: to_serial_def Let_def split_beta ring_tests tests_only_read bind_eq_Some_conv split: if_splits)
  then consider (quiet) "touches {SREG_I} s t" "\<not> fst (Serial_IsSendReady s) \<or> rb_Count ?b = 0" | (sends) v b u where "rb_Count ?b \<noteq> 0" "RingBuffer_Remove (?b, ?g) = Some (v, b, u)"
    "Serial_SendByte v (u\<lparr>USBtoUSART_Buffer := b\<rparr>) = Some t" using r g by blast
  then show ?thesis
  proof cases
    case quiet
    then have "\<not> (line_ready (hw s) \<and> to_usart s \<noteq> [])" by (auto simp: line_ready_def Serial_IsSendReady_def tst_fst rb_contents_def)
    with assms(2) touches_rings [OF quiet(1)] touches_wrote [OF quiet(1), of UDR1] touches_adds [OF touches_mono [OF quiet(1), of "{UDR1, SREG_I}"]]
    show ?thesis by (intro exI [of _ 0]) (auto simp: bridge_ok_def)
  next
    case sends
    then have ne: "to_usart s \<noteq> []" by (simp add: rb_contents_def unat_gt_0)
    from ring_remove [of ?b ?g] assms(2) ne sends(2) have v: "v = hd (to_usart s)" "rb_ok b" "rb_contents b = tl (to_usart s)" "touches {SREG_I} ?g u"
      by (auto simp: bridge_ok_def)
    note w = Serial_SendByte_wrote [OF sends(3)]
    have u: "touches {UDR1, SREG_I} s u" by (rule touches_mono [OF touches_trans [OF g v(4)]]) simp
    have "touches {SREG_I} s u" by (rule touches_trans [OF g v(4)])
    from touches_wrote [OF this, of UDR1] touches_rings [OF this] have "wrote UDR1 u = wrote UDR1 s" "USARTtoUSB_Buffer u = USARTtoUSB_Buffer s" by simp_all
    moreover have "adds {UDR1, SREG_I} u t" using w touches_adds [OF touches_mono [of "{UDR1}" "u\<lparr>USBtoUSART_Buffer := b\<rparr>" t "{UDR1, SREG_I}"]] by simp
    ultimately show ?thesis using w v ne touches_rings [of "{UDR1}" _ t] assms(2) adds_trans [OF touches_adds [OF u]]
      by (intro exI [of _ 1]) (cases "to_usart s"; auto simp: bridge_ok_def)
  qed
qed

text \<open>The tasks and the USB interrupts\<close>

definition bridge_quiet :: "'a bridge_dev_scheme \<Rightarrow> 'a bridge_dev_scheme \<Rightarrow> bool" where
  "bridge_quiet s t \<longleftrightarrow> adds (- {UDR1}) s t \<and> USBtoUSART_Buffer t = USBtoUSART_Buffer s \<and> USARTtoUSB_Buffer t = USARTtoUSB_Buffer s"

lemma quiet_trans: "bridge_quiet s t \<Longrightarrow> bridge_quiet t u \<Longrightarrow> bridge_quiet s u"
  by (auto simp: bridge_quiet_def elim: adds_trans)

lemma quiet_touches: "touches R s t \<Longrightarrow> UDR1 \<notin> R \<Longrightarrow> bridge_quiet s t"
  by (auto simp: bridge_quiet_def touches_rings intro!: touches_adds elim: touches_mono)

lemma quiet_behind:
  fixes s t :: "'a bridge_dev_scheme"
  assumes "adds R s t" "UDR1 \<notin> R" "cdc_dev.more t = cdc_dev.more s"
  shows "bridge_quiet s t"
proof -
  have "adds (- {UDR1}) s t" using assms(1,2) by (auto elim: adds_mono)
  with assms(3) show ?thesis by (cases s; cases t) (simp add: bridge_quiet_def)
qed

lemma UDR1_regs [simp]: "UDR1 \<notin> bridge_regs" "UDR1 \<notin> init_regs"
  by (auto simp: bridge_regs_def device_regs_def request_regs_def init_regs_def configure_regs_def)

lemma Flush_touches:
  assumes "CDC_Device_Flush s = Some (e, t)"
  shows "touches {UENUM, UEINTX} s t"
  using assms
  by (auto simp: CDC_Device_Flush_def Let_def split_beta bind_eq_Some_conv split: if_splits intro!: touch
    dest!: WaitUntilReady_seen [THEN conjunct1, THEN touches_mono, of _ _ _ "{UENUM, UEINTX}"] elim!: touches_trans [rotated])

lemma quiet_tasks:
  "CDC_Device_USBTask s = Some t \<Longrightarrow> bridge_quiet s t" "USB_USBTask (bridge_application sig) s = Some t \<Longrightarrow> bridge_quiet s t"
proof -
  assume a: "CDC_Device_USBTask s = Some t"
  have u: "touches {UENUM, UEINTX} s (snd (cdc_usable s))" "touches {UENUM, UEINTX} s (snd (Endpoint_IsINReady (cdc_select_in (snd (cdc_usable s)))))"
    by (intro touch touches_refl; simp)+
  with a have "touches {UENUM, UEINTX} s t"
    by (auto simp: CDC_Device_USBTask_def Let_def split_beta bind_eq_Some_conv split: if_splits dest!: Flush_touches elim: touches_trans)
  then show "bridge_quiet s t" by (rule quiet_touches) simp
next
  assume "USB_USBTask (bridge_application sig) s = Some t"
  from bridgeapp.task_keeps [OF this] show "bridge_quiet s t" by (auto intro: quiet_behind)
qed

lemma quiet_GEN:
  assumes "USB_GEN_vect (bridge_application sig) s = Some t"
  shows "bridge_quiet s t"
proof -
  have e: "touches init_regs u v"
    if "EVENT_USB_Device_StartOfFrame (bridge_application sig) u = Some v \<or> EVENT_USB_Device_Disconnect (bridge_application sig) u = Some v \<or>
      EVENT_USB_Device_Connect (bridge_application sig) u = Some v \<or> EVENT_USB_Device_Reset (bridge_application sig) u = Some v" for u v :: "'a bridge_dev_scheme"
    using that by (auto simp: bridge_application_def stub_application_def USB_Event_Stub_def USB_INT_Enable_def init_regs_def configure_regs_def intro!: touch)
  from USB_GEN_adds [OF assms] e have "adds init_regs s t" by (blast intro: touches_adds)
  moreover from USB_GEN_more [OF assms] e have "dev.more t = dev.more s" by (blast dest: touches_dev_more)
  then have "cdc_dev.more t = cdc_dev.more s" by (cases s; cases t) simp
  ultimately show ?thesis by (auto intro: quiet_behind)
qed

lemma quiet_COM:
  assumes "USB_COM_vect (bridge_application sig) s = Some t"
  shows "bridge_quiet s t"
proof -
  let ?p = "Endpoint_GetCurrentEndpoint s"
  let ?c = "wr SREG_I 1 (USB_INT_Disable USB_INT_RXSTPI (Endpoint_SelectEndpoint ENDPOINT_CONTROLEP (snd ?p)))"
  let ?e = "\<lambda>u. Endpoint_SelectEndpoint (fst ?p) (USB_INT_Enable USB_INT_RXSTPI (Endpoint_SelectEndpoint ENDPOINT_CONTROLEP u))"
  from assms obtain u where u: "USB_Device_ProcessControlRequest (bridge_application sig) ?c = Some u" "t = ?e u"
    by (auto simp: USB_COM_vect_def Let_def split_beta bind_eq_Some_conv)
  have "touches {UENUM, UEIENX, SREG_I} s ?c" "touches {UENUM, UEIENX, SREG_I} u (?e u)"
    unfolding USB_INT_Enable_def USB_INT_Disable_def USB_Interrupts.case by (intro touch touches_refl; simp)+
  moreover from bridgeapp.process_keeps [OF u(1)] have "bridge_quiet ?c u" by (auto intro: quiet_behind)
  ultimately show ?thesis unfolding u(2) by (blast intro: quiet_trans quiet_touches)
qed

lemma adds_reads: "adds R s t \<Longrightarrow> \<exists>rs. was_read r t = was_read r s @ rs"
  by (auto simp: adds_def was_read_def was_read_in_append)

lemma adds_writes: "adds R s t \<Longrightarrow> \<exists>ws. wrote r t = wrote r s @ ws"
  by (auto simp: adds_def wrote_def wrote_in_append)

lemma quiet_ok: "bridge_quiet s t \<Longrightarrow> bridge_ok s \<Longrightarrow> bridge_ok t"
  by (simp add: bridge_quiet_def bridge_ok_def)

lemma quiet_UDR1: "bridge_quiet s t \<Longrightarrow> wrote UDR1 t = wrote UDR1 s"
  by (auto simp: bridge_quiet_def elim: adds_wrote)

lemma RX_queues:
  assumes "bridge_ok s" "bridge_RX_vect s = Some t"
  shows "\<exists>v. bridge_ok t \<and> was_read UDR1 t = was_read UDR1 s @ [v] \<and> USBtoUSART_Buffer t = USBtoUSART_Buffer s \<and>
    (to_usb t = to_usb s \<or> to_usb t = to_usb s @ [v]) \<and> wrote UDR1 t = wrote UDR1 s"
proof -
  let ?b = "USARTtoUSB_Buffer s"
  let ?r = "snd (rd GPIOR0 (snd (rd UDR1 s)))"
  let ?g = "snd (RingBuffer_GetCount ?b ?r)"
  define v where "v = fst (rd UDR1 s)"
  have r: "touches {SREG_I} s ?r" by (intro touch touches_refl)
  then have g: "touches {SREG_I} s ?g" using ring_tests(4) by (blast intro: touches_trans)
  note rr = touches_rings [OF r] and gr = touches_rings [OF g]
  have w: "was_read UDR1 ?r = was_read UDR1 s @ [v]" "was_read UDR1 ?g = was_read UDR1 s @ [v]" by (simp_all add: ring_tests v_def)
  from assms(2) rr gr have "t = ?r \<or> t = ?g \<or> rb_Count ?b \<noteq> rb_Size ?b \<and> (\<exists>b u. RingBuffer_Insert v (?b, ?g) = Some (b, u) \<and> t = u\<lparr>USARTtoUSB_Buffer := b\<rparr>)"
    by (auto simp: bridge_RX_vect_def Let_def split_beta ring_tests tests_only_read bind_eq_Some_conv v_def split: if_splits)
  then consider (dropped) "touches {SREG_I} s t" "was_read UDR1 t = was_read UDR1 s @ [v]"
    | (stored) b u where "rb_Count ?b \<noteq> rb_Size ?b" "RingBuffer_Insert v (?b, ?g) = Some (b, u)" "t = u\<lparr>USARTtoUSB_Buffer := b\<rparr>"
    using r g w by auto
  then show ?thesis
  proof cases
    case dropped
    with assms(1) touches_rings [OF dropped(1)] touches_wrote [OF dropped(1), of UDR1] show ?thesis by (auto simp: bridge_ok_def)
  next
    case stored
    from ring_insert [OF _ stored(1), of v ?g] assms(1) stored(2) have u: "rb_ok b" "rb_contents b = to_usb s @ [v]" "touches {SREG_I} ?g u"
      "was_read UDR1 u = was_read UDR1 ?g" by (auto simp: bridge_ok_def)
    from touches_trans [OF g u(3)] have su: "touches {SREG_I} s u" .
    from stored(3) u w assms(1) touches_rings [OF su] touches_wrote [OF su, of UDR1] show ?thesis by (auto simp: bridge_ok_def)
  qed
qed

section \<open>What the adapter forwards\<close>

text \<open>
  A round of the main loop that returns moves bytes through both queues and loses none: it takes at most one
  byte from the host and appends it to the queue for the line, puts the first bytes of the other queue, at most
  15, into the bank for the host and removes exactly those, and sends the first byte of the queue for the line, if any, removing
  exactly that one. Other accesses to the endpoint data register come later, from control requests.
\<close>

lemma bridge_round_queues:
  assumes "bridge_round (bridge_application sig) s = Some t" "bridge_ok s"
  shows "\<exists>rc k j. length rc \<le> 1 \<and> k \<le> 15 \<and> j \<le> 1 \<and>
    (\<exists>rs. was_read UEDATX t = was_read UEDATX s @ rc @ rs) \<and>
    (\<exists>ws. wrote UEDATX t = wrote UEDATX s @ take k (to_usb s) @ ws) \<and> to_usb t = drop k (to_usb s) \<and>
    wrote UDR1 t = wrote UDR1 s @ take j (to_usart s @ rc) \<and> to_usart t = drop j (to_usart s @ rc) \<and> bridge_ok t"
proof -
  from from_host_queues [OF assms(2)] obtain a rc where a: "from_host s = Some a" "bridge_ok a" "length rc \<le> 1"
    "was_read UEDATX a = was_read UEDATX s @ rc" "to_usart a = to_usart s @ rc" "to_usb a = to_usb s" "adds {UENUM, UEINTX, SREG_I} s a" by blast
  from assms(1) a(1) obtain b c d where r: "to_host a = Some b" "to_serial b = Some c" "CDC_Device_USBTask c = Some d"
    "USB_USBTask (bridge_application sig) d = Some t" by (auto simp: bridge_round_def bind_eq_Some_conv)
  from to_host_queues [OF r(1) a(2)] obtain k where b: "k \<le> 15" "wrote UEDATX b = wrote UEDATX a @ take k (to_usb s)" "to_usb b = drop k (to_usb s)"
    "bridge_ok b" "USBtoUSART_Buffer b = USBtoUSART_Buffer a" "adds {UENUM, UEINTX, UEDATX, SREG_I} a b" using a(6) by auto
  from to_serial_queues [OF r(2) b(4)] obtain j where c: "j \<le> 1" "wrote UDR1 c = wrote UDR1 b @ take j (to_usart s @ rc)" "to_usart c = drop j (to_usart s @ rc)"
    "bridge_ok c" "USARTtoUSB_Buffer c = USARTtoUSB_Buffer b" "adds {UDR1, SREG_I} b c" using a(5) b(5) by auto
  from quiet_trans [OF quiet_tasks(1) [OF r(3)] quiet_tasks(2) [OF r(4)]] have q: "bridge_quiet c t" .
  have "wrote UEDATX a = wrote UEDATX s" "wrote UEDATX c = wrote UEDATX b" "wrote UDR1 b = wrote UDR1 s"
    using adds_wrote [OF a(7)] adds_wrote [OF b(6)] adds_wrote [OF c(6)] by simp_all
  moreover obtain ws where "wrote UEDATX t = wrote UEDATX c @ ws" using q adds_writes [of "- {UDR1}" c t UEDATX] by (auto simp: bridge_quiet_def)
  moreover obtain rs where "was_read UEDATX t = was_read UEDATX a @ rs"
    using adds_reads [OF b(6), of UEDATX] adds_reads [OF c(6), of UEDATX] q adds_reads [of "- {UDR1}" c t UEDATX] by (auto simp: bridge_quiet_def)
  ultimately show ?thesis using a b c q quiet_ok [OF q] quiet_UDR1 [OF q]
    by (intro exI [of _ rc] exI [of _ k] exI [of _ j]) (auto simp: bridge_quiet_def)
qed

text \<open>The invariant of a run from the state \<open>t\<^sub>0\<close>\<close>

definition bridge_inv :: "'a bridge_dev_scheme \<Rightarrow> 'a bridge_config \<Rightarrow> bool" where
  "bridge_inv t0 c = (case c of (p, got, gone, t) \<Rightarrow> bridge_ok t \<and>
     (\<exists>ws. wrote UDR1 t = wrote UDR1 t0 @ ws \<and> got = ws @ to_usart t) \<and>
     (\<exists>rs. was_read UDR1 t = was_read UDR1 t0 @ rs \<and> subseq (gone @ to_usb t) rs))"

lemma inv_reads:
  assumes "\<exists>rs. was_read r t = was_read r t0 @ rs \<and> subseq xs rs" "adds R t u"
  shows "\<exists>rs. was_read r u = was_read r t0 @ rs \<and> subseq xs rs"
  using assms(1) adds_reads [OF assms(2), of r] by (auto intro: subseq_rev_drop_many)

lemma inv_quiet: "bridge_inv t0 (p, got, gone, s) \<Longrightarrow> bridge_quiet s t \<Longrightarrow> bridge_inv t0 (q, got, gone, t)"
  using quiet_ok [of s t] quiet_UDR1 [of s t] inv_reads [of UDR1 s t0 "gone @ to_usb s" "- {UDR1}" t]
  by (auto simp: bridge_inv_def bridge_quiet_def)

lemma inv_part:
  assumes "run_part (bridge_application sig) p s = Some t" "bridge_inv t0 (p, got, gone, s)"
  shows "bridge_inv t0 (next_part p, got @ (if p = From_Host then news (was_read UEDATX) s t else []),
    gone @ (if p = To_Host then news (wrote UEDATX) s t else []), t)"
proof -
  from assms(2) obtain ws where ok: "bridge_ok s" and ws: "wrote UDR1 s = wrote UDR1 t0 @ ws" "got = ws @ to_usart s"
    and rs: "\<exists>rs. was_read UDR1 s = was_read UDR1 t0 @ rs \<and> subseq (gone @ to_usb s) rs" by (auto simp: bridge_inv_def)
  show ?thesis
  proof (cases p)
    case From_Host
    with from_host_queues [OF ok] assms(1) obtain rc where "bridge_ok t" "was_read UEDATX t = was_read UEDATX s @ rc"
      "to_usart t = to_usart s @ rc" "to_usb t = to_usb s" and a: "adds {UENUM, UEINTX, SREG_I} s t" by (auto simp: run_part_def)
    with From_Host ws inv_reads [OF rs a] adds_wrote [OF a, of UDR1] show ?thesis by (auto simp: bridge_inv_def news_def)
  next
    case To_Host
    with to_host_queues [OF _ ok, of t] assms(1) obtain k where k: "wrote UEDATX t = wrote UEDATX s @ take k (to_usb s)" "to_usb t = drop k (to_usb s)"
      "bridge_ok t" "USBtoUSART_Buffer t = USBtoUSART_Buffer s" and a: "adds {UENUM, UEINTX, UEDATX, SREG_I} s t" by (auto simp: run_part_def)
    from k(1,2) have "gone @ to_usb s = (gone @ news (wrote UEDATX) s t) @ to_usb t" by (simp add: news_def)
    with To_Host k ws inv_reads [OF rs a] adds_wrote [OF a, of UDR1] show ?thesis by (auto simp: bridge_inv_def)
  next
    case To_Serial
    with to_serial_queues [OF _ ok, of t] assms(1) obtain j where "wrote UDR1 t = wrote UDR1 s @ take j (to_usart s)" "to_usart t = drop j (to_usart s)"
      "bridge_ok t" "USARTtoUSB_Buffer t = USARTtoUSB_Buffer s" and a: "adds {UDR1, SREG_I} s t" by (auto simp: run_part_def)
    with To_Serial ws inv_reads [OF rs a] show ?thesis by (auto simp: bridge_inv_def)
  next
    case Class_Task
    with assms inv_quiet [OF assms(2) quiet_tasks(1)] show ?thesis by (simp add: run_part_def)
  next
    case Device_Task
    with assms inv_quiet [OF assms(2) quiet_tasks(2)] show ?thesis by (simp add: run_part_def)
  qed
qed

lemma bridge_inv_step:
  assumes "bridge_step sig c d" "bridge_inv t0 c"
  shows "bridge_inv t0 d"
  using assms
proof (induction rule: bridge_step.induct)
  case (main p s t got gone)
  then show ?case by (rule inv_part)
next
  case (receive s t p got gone)
  from receive(2) RX_queues [OF _ receive(1)] obtain v where v: "bridge_ok t" "was_read UDR1 t = was_read UDR1 s @ [v]" "USBtoUSART_Buffer t = USBtoUSART_Buffer s"
    "to_usb t = to_usb s \<or> to_usb t = to_usb s @ [v]" "wrote UDR1 t = wrote UDR1 s" by (auto simp: bridge_inv_def)
  from receive(2) obtain rs where r: "was_read UDR1 s = was_read UDR1 t0 @ rs" "subseq (gone @ to_usb s) rs" by (auto simp: bridge_inv_def)
  then have "subseq (gone @ to_usb s) (rs @ [v])" "subseq (gone @ to_usb s @ [v]) (rs @ [v])"
    using list_emb_append_mono [OF r(2), of "[v]" "[v]"] by (auto intro: subseq_rev_drop_many)
  with receive(2) r v show ?case by (auto simp: bridge_inv_def)
next
  case (usb s t p got gone)
  then show ?case using inv_quiet quiet_GEN by blast
next
  case (control s t p got gone)
  then show ?case using inv_quiet quiet_COM by blast
qed

lemma rings_io [simp]:
  "USBtoUSART_Buffer (wr r v s) = USBtoUSART_Buffer s" "USARTtoUSB_Buffer (wr r v s) = USARTtoUSB_Buffer s"
  "USBtoUSART_Buffer (snd (rd r s)) = USBtoUSART_Buffer s" "USARTtoUSB_Buffer (snd (rd r s)) = USARTtoUSB_Buffer s"
  using touches_rings [OF touches_wr [of r UNIV s v]] touches_rings [OF touches_rd [of UNIV s r]] by simp_all

lemma setup_empty:
  assumes "bridge_setup s = Some t"
  shows "bridge_ok t \<and> to_usart t = [] \<and> to_usb t = []"
  using assms by (auto simp: bridge_setup_def RingBuffer_InitBuffer_def bridge_ok_def rb_ok_def rb_contents_def
    split_beta Let_def bind_eq_Some_conv word_less_nat_alt)

text \<open>
  Property C12. The adapter forwards both ways in order, however the parts of its rounds and the interrupts interleave. The bytes taken from
  the host are those sent on the line, followed by those still queued: none is lost, repeated or reordered. The
  bytes put into the bank for the host, followed by those still queued, are among the bytes that arrived
  on the line, in the order of arrival: some may be dropped, none is repeated or reordered.
\<close>

theorem bridge_order:
  assumes "bridge_setup s = Some t0" "(bridge_step sig)\<^sup>*\<^sup>* (From_Host, [], [], t0) (p, got, gone, t)"
  shows "bridge_ok t \<and> (\<exists>ws. wrote UDR1 t = wrote UDR1 t0 @ ws \<and> got = ws @ to_usart t) \<and>
    (\<exists>rs. was_read UDR1 t = was_read UDR1 t0 @ rs \<and> subseq (gone @ to_usb t) rs)"
proof -
  have "bridge_inv t0 (p, got, gone, t)" using assms(2)
  proof (induction rule: rtranclp_induct)
    case base
    then show ?case using setup_empty [OF assms(1)] by (simp add: bridge_inv_def)
  qed (rule bridge_inv_step)
  then show ?thesis by (simp add: bridge_inv_def)
qed

section \<open>Progress\<close>

definition bridge_host :: "(acc list \<Rightarrow> reg \<Rightarrow> u8) \<Rightarrow> bool" where
  "bridge_host H \<longleftrightarrow> frames_advance H \<and> no_requests H \<and> line_ready H"

lemma SendByte_returns:
  assumes "frames_advance (hw s)"
  shows "\<exists>e t. CDC_Device_SendByte b s = Some (e, t)"
proof -
  let ?a = "Endpoint_IsReadWriteAllowed (cdc_select_in (snd (cdc_usable s)))"
  have "touches {UENUM, UEINTX} s (Endpoint_ClearIN (snd ?a))" by (intro touch touches_refl) simp_all
  from touches_hw [OF this] assms obtain e u where "Endpoint_WaitUntilReady (Endpoint_ClearIN (snd ?a)) = Some (e, u)"
    using WaitUntilReady_returns [of "Endpoint_ClearIN (snd ?a)"] by auto
  then show ?thesis by (simp add: CDC_Device_SendByte_def Let_def split_beta)
qed

lemma send_bytes_returns:
  assumes "frames_advance (hw s)" "bridge_ok s" "n \<le> length (to_usb s)"
  shows "\<exists>t. send_bytes n s = Some t"
  using assms
proof (induction n arbitrary: s)
  case (Suc n)
  let ?b = "USARTtoUSB_Buffer s"
  have ne: "to_usb s \<noteq> []" using Suc.prems(3) by (metis list.size(3) le_0_eq nat.distinct(1))
  from ring_remove [of ?b s] Suc.prems(2) ne obtain v where v: "RingBuffer_Peek ?b = Some v"
    by (auto simp: bridge_ok_def RingBuffer_Peek_def RingBuffer_Remove_def bind_eq_Some_conv)
  from SendByte_returns [OF Suc.prems(1)] obtain e u where u: "CDC_Device_SendByte v s = Some (e, u)" by blast
  note k = touches_rings [OF SendByte_touches [OF u]] touches_hw [OF SendByte_touches [OF u]]
  from ring_remove [of ?b u] Suc.prems(2) ne k obtain b' w where w: "RingBuffer_Remove (?b, u) = Some (hd (to_usb s), b', w)" "rb_ok b'"
    "rb_contents b' = tl (to_usb s)" "touches {SREG_I} u w" by (auto simp: bridge_ok_def)
  have "\<exists>t. send_bytes n (w\<lparr>USARTtoUSB_Buffer := b'\<rparr>) = Some t"
    using Suc.prems w k touches_rings [OF w(4)] touches_hw [OF w(4)] by (intro Suc.IH) (auto simp: bridge_ok_def)
  with v u w(1) k show ?case by auto
qed simp

lemma to_host_returns:
  assumes "frames_advance (hw s)" "bridge_ok s"
  shows "\<exists>t. to_host s = Some t"
proof -
  let ?b = "USARTtoUSB_Buffer s"
  let ?i = "Endpoint_IsINReady (cdc_select_in (snd (RingBuffer_GetCount ?b s)))"
  have "touches {UENUM, SREG_I} s (snd (RingBuffer_GetCount ?b s))" by (rule touches_mono [OF ring_tests(4)]) simp
  then have i: "touches {UENUM, SREG_I} s (snd ?i)" by (intro touch touches_refl) simp_all
  note r = touches_rings [OF i] touches_hw [OF i]
  have "unat (min (rb_Count ?b) (CDC_TXRX_EPSIZE - 1)) \<le> length (to_usb (snd ?i))" using r by (auto simp: min_def word_le_nat_alt)
  from send_bytes_returns [OF _ _ this] assms r show ?thesis by (auto simp: to_host_def Let_def split_beta ring_tests bridge_ok_def)
qed

lemma to_serial_returns:
  assumes "line_ready (hw s)" "bridge_ok s"
  shows "\<exists>t. to_serial s = Some t"
proof -
  let ?b = "USBtoUSART_Buffer s"
  let ?g = "snd (RingBuffer_GetCount ?b (snd (Serial_IsSendReady s)))"
  have r: "touches {SREG_I} s (snd (Serial_IsSendReady s))" by (simp add: Serial_IsSendReady_def)
  then have g: "touches {SREG_I} s ?g" using ring_tests(4) by (blast intro: touches_trans)
  note gr = touches_rings [OF g] touches_hw [OF g] touches_rings [OF r]
  show ?thesis
  proof (cases "to_usart s = []")
    case True
    then have "rb_Count ?b = 0" by (simp add: rb_contents_def unat_eq_zero)
    then show ?thesis using gr by (auto simp: to_serial_def Let_def split_beta ring_tests tests_only_read)
  next
    case False
    with ring_remove [of ?b ?g] assms(2) obtain v b u where u: "RingBuffer_Remove (?b, ?g) = Some (v, b, u)" "touches {SREG_I} ?g u"
      by (auto simp: bridge_ok_def)
    have "raises (hw u) UCSR1A UDRE1" using assms(1) touches_hw [OF u(2)] gr(3) by (simp add: raises_def line_ready_def)
    then have "\<exists>t. Serial_SendByte v (u\<lparr>USBtoUSART_Buffer := b\<rparr>) = Some t" by (intro Serial_SendByte_total) simp
    with u(1) gr show ?thesis by (auto simp: to_serial_def Let_def split_beta ring_tests tests_only_read)
  qed
qed

lemma Flush_returns:
  assumes "frames_advance (hw s)"
  shows "\<exists>e t. CDC_Device_Flush s = Some (e, t)"
proof -
  let ?a = "Endpoint_ClearIN (snd (Endpoint_IsReadWriteAllowed (snd (Endpoint_BytesInEndpoint (cdc_select_in (snd (cdc_usable s)))))))"
  have "touches {UENUM, UEINTX} s ?a" by (intro touch touches_refl) simp_all
  from touches_hw [OF this] assms obtain e u where "Endpoint_WaitUntilReady ?a = Some (e, u)" using WaitUntilReady_returns [of ?a] by auto
  then show ?thesis by (simp add: CDC_Device_Flush_def Let_def split_beta)
qed

lemma tasks_return:
  assumes "bridge_host (hw s)"
  shows "\<exists>t. CDC_Device_USBTask s = Some t" "\<exists>t. USB_USBTask app s = Some t"
proof -
  let ?i = "snd (Endpoint_IsINReady (cdc_select_in (snd (cdc_usable s))))"
  have "touches {UENUM} s ?i" by (intro touch touches_refl) simp_all
  from touches_hw [OF this] assms obtain e u where "CDC_Device_Flush ?i = Some (e, u)" using Flush_returns [of ?i] by (auto simp: bridge_host_def)
  then show "\<exists>t. CDC_Device_USBTask s = Some t" by (simp add: CDC_Device_USBTask_def Let_def split_beta)
next
  let ?c = "Endpoint_SelectEndpoint ENDPOINT_CONTROLEP (snd (Endpoint_GetCurrentEndpoint (snd (rd GPIOR0 s))))"
  have "touches {UENUM} s ?c" by (intro touch touches_refl) simp
  from touches_hw [OF this] assms have "\<not> fst (Endpoint_IsSETUPReceived ?c)"
    by (simp add: bridge_host_def no_requests_def Endpoint_IsSETUPReceived_def tst_fst)
  then show "\<exists>t. USB_USBTask app s = Some t" by (simp add: USB_USBTask_def USB_DeviceTask_def Let_def split_beta)
qed

lemma round_sends:
  assumes "bridge_host (hw s)" "bridge_ok s" "to_usart s = x # xs"
  shows "\<exists>t rc. bridge_round (bridge_application sig) s = Some t \<and> bridge_ok t \<and> hw t = hw s \<and> wrote UDR1 t = wrote UDR1 s @ [x] \<and> to_usart t = xs @ rc"
proof -
  from from_host_queues [OF assms(2)] obtain a rc where a: "from_host s = Some a" "bridge_ok a" "to_usart a = to_usart s @ rc"
    "adds {UENUM, UEINTX, SREG_I} s a" by blast
  from to_host_returns [OF _ a(2)] adds_hw [OF a(4)] assms(1) obtain b where r1: "to_host a = Some b" by (auto simp: bridge_host_def)
  from to_host_queues [OF r1 a(2)] have b: "bridge_ok b" "USBtoUSART_Buffer b = USBtoUSART_Buffer a" "adds {UENUM, UEINTX, UEDATX, SREG_I} a b" by auto
  have hb: "hw b = hw s" using adds_hw [OF a(4)] adds_hw [OF b(3)] by simp
  from to_serial_returns [OF _ b(1)] hb assms(1) obtain c where r2: "to_serial b = Some c" by (auto simp: bridge_host_def)
  from to_serial_queues [OF r2 b(1)] hb assms(1,3) a(3) b(2) have c: "wrote UDR1 c = wrote UDR1 b @ [x]" "to_usart c = xs @ rc" "bridge_ok c"
    "adds {UDR1, SREG_I} b c" by (auto simp: bridge_host_def)
  have hc: "bridge_host (hw c)" using adds_hw [OF c(4)] hb assms(1) by simp
  from tasks_return(1) [OF hc] obtain d where r3: "CDC_Device_USBTask c = Some d" ..
  note q3 = quiet_tasks(1) [OF r3]
  from q3 have "hw d = hw c" by (auto simp: bridge_quiet_def dest: adds_hw)
  with tasks_return(2) hc obtain t where r4: "USB_USBTask (bridge_application sig) d = Some t" by metis
  from quiet_trans [OF q3 quiet_tasks(2) [OF r4]] have q: "bridge_quiet c t" .
  then have "hw t = hw c" "USBtoUSART_Buffer t = USBtoUSART_Buffer c" by (auto simp: bridge_quiet_def dest: adds_hw)
  moreover have "bridge_round (bridge_application sig) s = Some t" using a(1) r1 r2 r3 r4 by (simp add: bridge_round_def)
  moreover have "wrote UDR1 b = wrote UDR1 s" using adds_wrote [OF a(4)] adds_wrote [OF b(3)] by simp
  ultimately show ?thesis using c quiet_ok [OF q c(3)] quiet_UDR1 [OF q] hb adds_hw [OF c(4)] by auto
qed

text \<open>
  Property C13. Bytes queued for the line do not stay in the queue: on a bus that goes on, with a free transmitter and no
  control request pending, every round returns and as many rounds as there are bytes queued send
  exactly these bytes. This also holds when the bank for the host is never emptied and when more bytes keep coming from the host.
\<close>

theorem bridge_drains:
  assumes "bridge_host (hw s)" "bridge_ok s"
  shows "\<exists>t. bridge_rounds (bridge_application sig) (length (to_usart s)) s = Some t \<and> wrote UDR1 t = wrote UDR1 s @ to_usart s"
proof -
  have "\<exists>t. bridge_rounds (bridge_application sig) (length xs) s = Some t \<and> wrote UDR1 t = wrote UDR1 s @ xs"
    if "bridge_host (hw s)" "bridge_ok s" "to_usart s = xs @ ys" for xs ys and s :: "'a bridge_dev_scheme"
    using that
  proof (induction xs arbitrary: s ys)
    case (Cons x xs)
    from round_sends [OF Cons.prems(1,2), of x "xs @ ys" sig] Cons.prems(3) obtain u rc where
      u: "bridge_round (bridge_application sig) s = Some u" "bridge_ok u" "hw u = hw s" "wrote UDR1 u = wrote UDR1 s @ [x]" "to_usart u = xs @ ys @ rc" by auto
    from Cons.IH [of u "ys @ rc"] u Cons.prems(1) show ?case by auto
  qed simp
  from this [OF assms, of "to_usart s" "[]"] show ?thesis by simp
qed

text \<open>
  A controller for the witnesses: the device is configured, every bank is ready and holds bytes 41, the line can send and
  delivers bytes 42, no request is pending
\<close>

definition bridge_hw :: "acc list \<Rightarrow> reg \<Rightarrow> u8" where
  "bridge_hw l r = (case r of GPIOR0 \<Rightarrow> DEVICE_STATE_Configured | UEINTX \<Rightarrow> bv RXOUTI OR bv TXINI OR bv RWAL | UEBCLX \<Rightarrow> 1
     | UEDATX \<Rightarrow> 0x41 | UDR1 \<Rightarrow> 0x42 | UCSR1A \<Rightarrow> bv UDRE1 | PLLCSR \<Rightarrow> bv PLOCK | _ \<Rightarrow> 0)"

definition bridge_at :: "(acc list \<Rightarrow> reg \<Rightarrow> u8) \<Rightarrow> bridge_dev" where
  "bridge_at H = cdc_dev.extend (dev.extend (dev_at H \<lparr>bmRequestType = 0, bRequest = 0, wValue = 0, wIndex = 0, wLength = 0\<rparr>)
     (cdc_dev.fields (VirtualSerial_CDC_Interface\<lparr>LineEncoding := \<lparr>BaudRateBPS = 9600, CharFormat = 0, ParityType = 0, DataBits = 8\<rparr>\<rparr>)))
     (bridge_dev.fields \<lparr>rb_Store = [], rb_In = 0, rb_Out = 0, rb_Start = 0, rb_End = 0, rb_Size = 0, rb_Count = 0\<rparr>
       \<lparr>rb_Store = [], rb_In = 0, rb_Out = 0, rb_Start = 0, rb_End = 0, rb_Size = 0, rb_Count = 0\<rparr>)"

lemma bridge_demo:
  "\<exists>s0 s1 s2 s3 s4 s5 t. bridge_setup (bridge_at bridge_hw) = Some s0 \<and> bridge_RX_vect s0 = Some s1 \<and> from_host s1 = Some s2 \<and> to_host s2 = Some s3 \<and>
     to_serial s3 = Some s4 \<and> CDC_Device_USBTask s4 = Some s5 \<and> USB_USBTask (bridge_application (\<lambda>_. 0)) s5 = Some t \<and>
     news (was_read UEDATX) s1 s2 = [0x41] \<and> news (wrote UEDATX) s2 s3 = [0x42] \<and> wrote UDR1 t = [0x41] \<and> to_usart t = [] \<and> to_usb s1 = [0x42]"
proof -
  have "do {
      s0 \<leftarrow> bridge_setup (bridge_at bridge_hw); s1 \<leftarrow> bridge_RX_vect s0; s2 \<leftarrow> from_host s1; s3 \<leftarrow> to_host s2; s4 \<leftarrow> to_serial s3;
      s5 \<leftarrow> CDC_Device_USBTask s4; t \<leftarrow> USB_USBTask (bridge_application (\<lambda>_. 0)) s5;
      Some (news (was_read UEDATX) s1 s2, news (wrote UEDATX) s2 s3, wrote UDR1 t, to_usart t, to_usb s1) } =
    Some ([0x41], [0x42], [0x41], [], [0x42])" by code_simp
  then show ?thesis by (auto simp: bind_eq_Some_conv)
qed

theorem bridge_order_witness:
  "\<exists>t0 t ws rs. bridge_setup (bridge_at bridge_hw) = Some t0 \<and> (bridge_step (\<lambda>_. 0))\<^sup>*\<^sup>* (From_Host, [], [], t0) (From_Host, [0x41], [0x42], t) \<and>
     wrote UDR1 t = [0x41] \<and> to_usart t = [] \<and> wrote UDR1 t = wrote UDR1 t0 @ ws \<and> [0x41] = ws @ to_usart t \<and>
     was_read UDR1 t = was_read UDR1 t0 @ rs \<and> subseq ([0x42] @ to_usb t) rs"
proof -
  from bridge_demo obtain s0 s1 s2 s3 s4 s5 t where r: "bridge_setup (bridge_at bridge_hw) = Some s0" "bridge_RX_vect s0 = Some s1" "from_host s1 = Some s2"
    "to_host s2 = Some s3" "to_serial s3 = Some s4" "CDC_Device_USBTask s4 = Some s5" "USB_USBTask (bridge_application (\<lambda>_. 0)) s5 = Some t"
    "news (was_read UEDATX) s1 s2 = [0x41]" "news (wrote UEDATX) s2 s3 = [0x42]" "wrote UDR1 t = [0x41]" "to_usart t = []" by blast
  let ?r = "bridge_step (\<lambda>_. 0)"
  note m = bridge_step.main [where sig = "\<lambda>_. 0", unfolded run_part_def]
  have a1: "?r (From_Host, [], [], s0) (From_Host, [], [], s1)" using r(2) by (rule bridge_step.receive)
  have a2: "?r (From_Host, [], [], s1) (To_Host, [0x41], [], s2)" using m [of From_Host s1 s2 "[]" "[]"] r by (simp add: next_part_def)
  have a3: "?r (To_Host, [0x41], [], s2) (To_Serial, [0x41], [0x42], s3)" using m [of To_Host s2 s3 "[0x41]" "[]"] r by (simp add: next_part_def)
  have a4: "?r (To_Serial, [0x41], [0x42], s3) (Class_Task, [0x41], [0x42], s4)" using m [of To_Serial s3 s4 "[0x41]" "[0x42]"] r by (simp add: next_part_def)
  have a5: "?r (Class_Task, [0x41], [0x42], s4) (Device_Task, [0x41], [0x42], s5)" using m [of Class_Task s4 s5 "[0x41]" "[0x42]"] r by (simp add: next_part_def)
  have a6: "?r (Device_Task, [0x41], [0x42], s5) (From_Host, [0x41], [0x42], t)" using m [of Device_Task s5 t "[0x41]" "[0x42]"] r by (simp add: next_part_def)
  have run: "?r\<^sup>*\<^sup>* (From_Host, [], [], s0) (From_Host, [0x41], [0x42], t)"
    by (rule converse_rtranclp_into_rtranclp [OF a1 converse_rtranclp_into_rtranclp [OF a2 converse_rtranclp_into_rtranclp [OF a3
      converse_rtranclp_into_rtranclp [OF a4 converse_rtranclp_into_rtranclp [OF a5 r_into_rtranclp [of ?r, OF a6]]]]]])
  from bridge_order [OF r(1) run] run r(1,10,11) show ?thesis by blast
qed

definition busy_hw :: "acc list \<Rightarrow> reg \<Rightarrow> u8" where
  "busy_hw l r = (if r = UCSR1A then bv UDRE1 else ticking l r)"

lemma busy_host: "bridge_host busy_hw"
proof -
  have "\<exists>n. hd (frames ((idle_log busy_hw ^^ Suc n) l)) \<noteq> f" for f l
  proof -
    have "hd (frames ((idle_log busy_hw ^^ Suc 0) l)) \<noteq> hd (frames ((idle_log busy_hw ^^ Suc (Suc 0)) l))"
      by (simp add: idle_log_def next_read_def busy_hw_def ticking_def word16_def)
    then show ?thesis by metis
  qed
  moreover have "\<not> tst 0 RXSTPI" "tst (bv UDRE1) UDRE1" by code_simp+
  ultimately show ?thesis by (simp add: bridge_host_def frames_advance_def no_requests_def line_ready_def busy_hw_def ticking_def)
qed

theorem bridge_drains_witness:
  "\<exists>t. bridge_rounds (bridge_application (\<lambda>_. 0)) 2 ((bridge_at busy_hw)\<lparr>
       USBtoUSART_Buffer := \<lparr>rb_Store = [0x41, 0x42], rb_In = 0, rb_Out = 0, rb_Start = 0, rb_End = 2, rb_Size = 2, rb_Count = 2\<rparr>,
       USARTtoUSB_Buffer := \<lparr>rb_Store = [0, 0], rb_In = 0, rb_Out = 0, rb_Start = 0, rb_End = 2, rb_Size = 2, rb_Count = 0\<rparr>\<rparr>) = Some t \<and>
     wrote UDR1 t = [0x41, 0x42]"
proof -
  let ?b = "\<lparr>rb_Store = [0x41, 0x42], rb_In = 0, rb_Out = 0, rb_Start = 0, rb_End = 2, rb_Size = 2, rb_Count = 2\<rparr>"
  let ?c = "\<lparr>rb_Store = [0, 0], rb_In = 0, rb_Out = 0, rb_Start = 0, rb_End = 2, rb_Size = 2, rb_Count = 0\<rparr>"
  let ?s = "(bridge_at busy_hw)\<lparr>USBtoUSART_Buffer := ?b, USARTtoUSB_Buffer := ?c\<rparr>"
  have b: "rb_ok ?b" "rb_contents ?b = [0x41, 0x42]" "rb_ok ?c" by code_simp+
  then have "bridge_ok ?s" by (simp add: bridge_ok_def)
  moreover have "USBtoUSART_Buffer ?s = ?b" by simp
  then have q: "to_usart ?s = [0x41, 0x42]" by (simp only: b)
  moreover have "length (to_usart ?s) = 2" by (subst q) simp
  moreover have "hw ?s = busy_hw" "log ?s = []" by (simp_all add: bridge_at_def dev_at_def dev.defs cdc_dev.defs bridge_dev.defs)
  ultimately show ?thesis using bridge_drains [of ?s "\<lambda>_. 0"] busy_host by (simp only: wrote_def wrote_in_Nil append_Nil)
qed

end
