(* ===== verification/Spec2Isabelle.thy ===== *)
theory Spec2Isabelle
  imports Game_Properties Usb_Host Arduino Pad_Run Ring_Buffer Config_Descriptors HID_Parser
    CDC_Class HID_Class MS_Class RNDIS_Class MIDI_Class Printer_Class Audio_Class DFU_Boot CDC_Boot USB_Serial
begin

text \<open>
  A verification development for a USB game pad and its game (repository \<open>Usb_joystick\<close>).

  \<^bold>\<open>The program.\<close> Five buttons and a LED hang on an ATmega328P (\<open>src/AT328p/arduino.c\<close>), which talks over a
  serial line to an ATmega16U2 (\<open>src/AT16u2/PolytechLille/PAD\<close>, a vendor specific USB device on top of the
  LUFA library in \<open>src/AT16u2/LUFA\<close>). The host program (\<open>src/libusb/usb_host.c\<close>) reads the buttons with
  interrupt transfers and sends bytes for the LED; the snake game (\<open>src/SimpleSnake/game.c\<close>) is steered
  with it. Undefined behaviour of C and loops that do not end are the value \<open>None\<close> of the models, so a
  theorem that a function returns \<open>Some\<close> is also a theorem of memory safety and termination.

  \<^bold>\<open>Shared vocabulary.\<close> \<open>Prelude\<close>: words, options, the loop \<open>poll_loop\<close> with its two rules, bits and bytes.
  \<open>AVR_IO\<close>: the registers of both controllers. The hardware is an arbitrary function of the accesses made
  so far, and the log of the accesses is what a program does; \<open>touches\<close>, \<open>adds\<close> and \<open>puts\<close> say which
  registers, or exactly which values, were written.

  \<^bold>\<open>The game.\<close> \<open>Snake_Data\<close> (globals and constants of \<open>game.c\<close>), \<open>Snake_Heap\<close> (the linked lists on an
  explicit heap), \<open>Snake_Game\<close> (drawing, bonus items, movement, walls), \<open>Menus\<close> (the dialogs), \<open>Game_Main\<close>
  (one round, the loop, \<open>main\<close>). \<open>Menu_Laws\<close> shows which choice a sequence of keys makes and when a dialog
  returns; \<open>Snake_Laws\<close>, \<open>Game_Refinement\<close> and \<open>Game_Run\<close> show that the lists refine paths on the field, that
  a round keeps the invariant and that every round of a game returns with exactly the cells of the
  snakes allocated; \<open>Game_Properties\<close> holds the properties of single operations.

  \<^bold>\<open>The host.\<close> \<open>Usb_Host\<close>: finding, claiming and using the device; the calls of libusb are answered by a
  record of functions of the calls made before.

  \<^bold>\<open>The sampling firmware.\<close> \<open>Arduino\<close>: set-up, both interrupt handlers and the main loop as a step relation
  in which an interrupt can come between any two steps. Every byte sent codes a sample really read.

  \<^bold>\<open>The USB firmware.\<close> \<open>Pad_Descriptors\<close> (\<open>Descriptors.c\<close>: the descriptors and their bytes) and \<open>Pad\<close>
  (\<open>pad.c\<close>: forwarding between the serial line and the endpoints). Interrupt handlers run between the
  rounds of the main loop (\<open>pad_step\<close>). \<open>Pad_Run\<close>: whole runs from the set-up; the bytes on the serial line are
  bytes taken out of the endpoints, in their order.

  \<^bold>\<open>LUFA in device mode\<close>, as \<open>LUFAConfig.h\<close> configures it for the ATmega16U2:
  \<^item> \<open>Serial_AVR8\<close>: the serial driver (\<open>Serial_AVR8.c\<close>, \<open>.h\<close>).
  \<^item> \<open>Endpoint_AVR8\<close>: all endpoint accessors, configuration and waiting (\<open>Endpoint_AVR8.c\<close>, \<open>.h\<close>);
    \<open>Endpoint_Laws\<close>: data round trips, the size mask, the order of a configuration, the meaning of each
    result of the wait and that it returns when frames arrive.
  \<^item> \<open>USB_Device\<close>, \<open>Device_Std_Req\<close>: addresses, the status stage, the standard requests and the device task
    (\<open>DeviceStandardReq.c\<close>, \<open>USBTask.c\<close>, \<open>Device_AVR8.h\<close>); \<open>Request_Laws\<close>: what the requests do, proved for
    every application that keeps the contract \<open>usb_application\<close>, which the pad does (\<open>padapp\<close> in \<open>Pad\<close>).
  \<^item> \<open>Control_Streams\<close>, \<open>Control_Laws\<close>: the control transfers (\<open>Template_Endpoint_Control_W.c\<close>, \<open>_R.c\<close>), safe
    for every host and complete for a host that takes its data (\<open>serves\<close>).
  \<^item> \<open>Endpoint_Streams\<close>: the data streams (\<open>Template_Endpoint_RW.c\<close>, \<open>EndpointStream_AVR8.c\<close>), resumable
    without loss; the contract \<open>byte_stream\<close> is interpreted by the null stream and used by the others.
  \<^item> \<open>USB_Controller\<close>: initialisation and the interrupt handler (\<open>USBController_AVR8.c\<close>,
    \<open>USBInterrupt_AVR8.c\<close>, \<open>Device_AVR8.c\<close>).
  \<^item> \<open>Ring_Buffer\<close>: the ring buffer (\<open>RingBuffer.h\<close>) as a bounded queue (\<open>bounded_queue\<close>), and a writer and a
    reader that interrupt each other.
  \<^item> \<open>Config_Descriptors\<close>: the searches of \<open>ConfigDescriptors.c\<close>. \<open>HID_Parser\<close>: the report parser and the
    access to report items of \<open>HIDParser.c\<close>.

  \<^bold>\<open>The device class drivers of LUFA\<close> (\<open>src/AT16u2/LUFA/Drivers/USB/Class/Device\<close>), library code beside the pad. An
  interface structure is a record that extends the state of the stack; callbacks and events of the application
  are parameters. \<open>Class_Common\<close> has what they share: streams on endpoints that are ready and the contract
  \<open>char_sink\<close> of a function that sends one byte, interpreted by the serial port and the printer.
  \<^item> \<open>CDC_Class\<close> (\<open>CDCClassDevice.c\<close>): the line encoding is kept for the host.
  \<^item> \<open>HID_Class\<close> (\<open>HIDClassDevice.c\<close>): when the idle rate repeats a report.
  \<^item> \<open>MS_Class\<close> (\<open>MassStorageClassDevice.c\<close>): the cycle of command block, command and status.
  \<^item> \<open>RNDIS_Class\<close> (\<open>RNDISClassDevice.c\<close>): messages are answered inside of the shared buffer, and packets make
    the round trip.
  \<^item> \<open>MIDI_Class\<close> (\<open>MIDIClassDevice.c\<close>): events make the round trip. \<open>Printer_Class\<close> (\<open>PrinterClassDevice.c\<close>).
  \<^item> \<open>Audio_Class\<close> (\<open>AudioClassDevice.c\<close>, \<open>.h\<close>): which samples make the round trip.

  \<^bold>\<open>The boot loaders\<close> (\<open>src/AT16u2/Bootloaders/DFU\<close>) with which firmware is installed. \<open>Boot_Flash\<close>: flash pages, the
  page buffer and the EEPROM. \<open>DFU_Boot\<close>: the control requests and commands of \<open>BootloaderDFU.c\<close>; the firmware arrives
  in the flash as it was sent and is read back, and a secured device gives nothing up before it is erased
  (\<open>dfu_session\<close>: any sequence of requests). \<open>CDC_Boot\<close> (\<open>src/AT16u2/Bootloaders/CDC\<close>): the other boot loader, a serial port
  with the AVR109 protocol; a block that was written is read back.

  \<^bold>\<open>The USB-serial adapter\<close> (\<open>src/AT16u2/Projects/USBtoSerial\<close>) puts the device stack, the CDC class driver, the serial
  driver and two ring buffers together. \<open>Device_Contract\<close>: the standard requests keep what an application promises to
  keep (\<open>keeps_part\<close>). \<open>Serial_Descriptors\<close>: its descriptors. \<open>USB_Serial\<close>: its main loop, events and interrupt
  handlers; every run forwards both ways in order (\<open>bridge_step\<close>), and what is queued for the line is sent.

  \<^bold>\<open>This theory\<close> joins the components: a pressed button steers the snake, and a pause lights the LED.

  \<^bold>\<open>Hypotheses on the environment\<close> are named predicates with a witness: \<open>raises\<close> (a flag that is polled is
  set in the end), \<open>serves\<close> (the host takes its data), \<open>bank_free\<close> and \<open>packet_waiting\<close> (the state of an
  endpoint), \<open>frames_advance\<close> (frames arrive on the bus), \<open>no_requests\<close> (no control request comes meanwhile),
  \<open>banks_ready\<close>, \<open>configured_ready\<close> and \<open>storage_ready\<close> (the endpoints of a configured device are ready),
  \<open>line_ready\<close> and \<open>bridge_host\<close> (a free transmitter, and with it a live bus without requests),
  \<open>attached\<close> and \<open>programmer_sends\<close> (the bus stays connected, and a programmer sends these bytes),
  \<open>host_sends\<close> (the bytes the host sends), \<open>filter_inside\<close> (the host places a packet filter inside of the buffer).
  No fuel is used: loops are structural recursions, functions with a termination proof, or \<open>poll_loop\<close>.

  \<^bold>\<open>Granularity.\<close> The handlers of the ATmega328P interrupt the main loop at every step. On the ATmega16U2 they
  come between rounds of the main loop, not inside a round, and in the adapter between the five parts of a round; what a handler changes of the device state during
  a call is covered by the arbitrary hardware, since LUFA keeps that state in a register (\<open>GPIOR0\<close>).

  \<^bold>\<open>Not modelled.\<close> Parts of LUFA that are not compiled into the pad: host mode with its class drivers, which the
  ATmega16U2 cannot run, the ports for UC3 and XMEGA, board and peripheral drivers, the HID boot loader, demos,
  other projects and build tests; \<open>main\<close> and the set-up of the boot loaders, which depend on configurations of their own and
  on the LEDs of a board; the LEDs of the adapter; the branches for other controllers inside the modelled files. The terminal attributes of
  curses, delays, and the build files have no effect on the modelled state.
\<close>

section \<open>From a button to the game\<close>

text \<open>
  The codes of the five buttons in the order of the pins PD2 to PD6, and what the four directions
  select in the game.
\<close>

definition button_keys :: "int list" where
  "button_keys = [USBKEY_FCT, USBKEY_RIGHT, USBKEY_UP, USBKEY_DOWN, USBKEY_LEFT]"

definition button_dirs :: "int list" where
  "button_dirs = [RIGHT, UP, DOWN, LEFT]"

definition only_pressed :: "nat \<Rightarrow> u8 \<Rightarrow> bool" where
  "only_pressed k p \<longleftrightarrow> (\<forall>j < 5. bit p (j + 2) = (j \<noteq> k))"

lemma only_pressed_sample:
  assumes "k < 5" "only_pressed k p"
  shows "sample p = 2 ^ k"
proof (rule bit_eqI)
  fix n
  show "bit (sample p) n = bit (2 ^ k :: int) n"
    using assms by (cases "n < 5") (auto simp: sample_bits only_pressed_def bit_exp_iff)
qed

lemma only_pressed_key:
  assumes "k < 5" "only_pressed k p"
  shows "uint (key_byte p) = button_keys ! k"
proof -
  from assms(1) consider "k = 0" | "k = 1" | "k = 2" | "k = 3" | "k = 4" by linarith
  then show ?thesis using key_byte_uint [of p] only_pressed_sample [OF assms]
    by cases (simp_all add: button_keys_def)
qed

text \<open>The sampling firmware turns a pin change into one byte on the serial line.\<close>

lemma press_sends:
  assumes "fst (rd PIND a) = p" "sample p \<noteq> 0" "\<forall>l. tst (hw a l UCSR0A) UDRE0"
  shows "\<exists>a'. arduino_step\<^sup>*\<^sup>* (Test, a) (Delay, a') \<and> wrote UDR0 a' = wrote UDR0 a @ [key_byte p]"
proof -
  define b where "b = PCINT2_isr a"
  have b: "state b = sample p" "hw b = hw a" "wrote UDR0 b = wrote UDR0 a"
    using assms(1) by (simp_all add: b_def PCINT2_isr_def split_beta) (simp_all add: rd_def Let_def wrote_def)
  have kb: "key_byte p \<noteq> 0x20" using key_byte_eq assms(2) by simp
  define c where "c = wr UDR0 (key_byte p) (snd (tst_bit_of UCSR0A UDRE0 b))"
  have "arduino_step (Test, a) (Test, b)" unfolding b_def by (rule pcint2)
  moreover have "arduino_step (Test, b) (Load, b)"
    using main_loop [of Test b] b(1) assms(2) by (simp add: loop_step_def)
  moreover have "arduino_step (Load, b) (Send (key_byte p), b)"
    using main_loop [of Load b] b(1) kb by (simp add: loop_step_def Let_def key_byte_def)
  moreover have "arduino_step (Send (key_byte p), b) (Delay, c)"
    using main_loop [of "Send (key_byte p)" b] assms(3) b(2) by (simp add: loop_step_def c_def split_beta Let_def tst_fst)
  ultimately have "arduino_step\<^sup>*\<^sup>* (Test, a) (Delay, c)"
    by (meson converse_rtranclp_into_rtranclp r_into_rtranclp)
  moreover have "wrote UDR0 c = wrote UDR0 a @ [key_byte p]"
    using touches_wrote [OF touches_tst, of UDR0 "{}" UCSR0A UDRE0 b] b(3) by (simp add: c_def)
  ultimately show ?thesis by blast
qed

lemma wrote_writes: "wrote r s = map snd (filter (\<lambda>(r', v). r' = r) (writes_in (log s)))"
  by (simp add: wrote_def wrote_in_writes)

lemma serial_byte_reported:
  assumes "fst (rd UDR1 s) = v" "bank_free (hw s)"
  shows "\<exists>s'. SendNextReport sig (USART1_RX_vect s) = Some s' \<and> wrote UEDATX s' = wrote UEDATX s @ [v]"
proof -
  let ?s = "USART1_RX_vect s"
  have s: "state_send ?s = 1" "data_send ?s = v" "hw ?s = hw s" "writes_in (log ?s) = writes_in (log s)"
    using assms(1) by (simp_all add: USART1_RX_vect_def split_beta) (simp_all add: rd_def Let_def)
  with SendNextReport_free [of ?s sig] assms(2) show ?thesis by (fastforce simp: wrote_writes)
qed

text \<open>
  Property C5. Pressing one button steers the snake. The pin change makes the sampling firmware send one byte;
  when the USB firmware receives that byte and its bank is free, it puts it into the IN endpoint; and
  when the transfer of the host delivers it, the game reads the code of this button and, for a
  direction, moves the first snake that way.
\<close>

theorem button_steers:
  assumes "k < 5" "only_pressed k p"
    and "fst (rd PIND a) = p" "\<forall>l. tst (hw a l UCSR0A) UDRE0"
    and "fst (rd UDR1 s) = key_byte p" "bank_free (hw s)"
    and "transfer_at E (n_key g) = \<lparr>bytes_in = 1, data = key_byte p\<rparr>"
  shows "(\<exists>a'. arduino_step\<^sup>*\<^sup>* (Test, a) (Delay, a') \<and> wrote UDR0 a' = wrote UDR0 a @ [key_byte p]) \<and>
    (\<exists>s'. SendNextReport sig (USART1_RX_vect s) = Some s' \<and> wrote UEDATX s' = wrote UEDATX s @ [key_byte p]) \<and>
    fst (poll E g) = button_keys ! k \<and>
    (0 < k \<longrightarrow> dir (gv (steer E (fst (poll E g)) (snd (poll E g)))) = button_dirs ! (k - 1))"
proof (intro conjI impI)
  have "sample p \<noteq> 0" using only_pressed_sample [OF assms(1,2)] by simp
  from press_sends [OF assms(3) this assms(4)]
  show "\<exists>a'. arduino_step\<^sup>*\<^sup>* (Test, a) (Delay, a') \<and> wrote UDR0 a' = wrote UDR0 a @ [key_byte p]" .
  show "\<exists>s'. SendNextReport sig (USART1_RX_vect s) = Some s' \<and> wrote UEDATX s' = wrote UEDATX s @ [key_byte p]"
    by (rule serial_byte_reported [OF assms(5,6)])
  show ch: "fst (poll E g) = button_keys ! k"
    using assms(7) only_pressed_key [OF assms(1,2)] by (simp add: poll_def Let_def keys_of_def key_pressed_def)
  assume "0 < k"
  with assms(1) consider "k = 1" | "k = 2" | "k = 3" | "k = 4" by linarith
  then show "dir (gv (steer E (fst (poll E g)) (snd (poll E g)))) = button_dirs ! (k - 1)"
    by cases (simp_all add: ch button_keys_def button_dirs_def steer_def set_dir_def Let_def)
qed

definition demo_game :: game where
  "demo_game = \<lparr>hp = demo_heap, gv = globals0, snake = 0, snake_b = 0, nb_player = 1, ch2 = 0, start = 0,
     n_key = 0, n_getch = 0, n_rand = 0, n_maxyx = 0, link = usb0, picture = []\<rparr>"

definition demo_up :: env where
  "demo_up = demo_env\<lparr>transfer_at := \<lambda>_. \<lparr>bytes_in = 1, data = key_byte 0xEF\<rparr>\<rparr>"

definition demo_link :: "acc list \<Rightarrow> reg \<Rightarrow> u8" where
  "demo_link l r = (if r = UDR1 then key_byte 0xEF else 0x25)"

theorem button_steers_witness:
  "(\<exists>a'. arduino_step\<^sup>*\<^sup>* (Test, demo_arduino) (Delay, a') \<and> wrote UDR0 a' = [key_byte 0xEF]) \<and>
   (\<exists>s'. SendNextReport (\<lambda>_. 0) (USART1_RX_vect (pad_at demo_link)) = Some s' \<and> wrote UEDATX s' = [key_byte 0xEF]) \<and>
   dir (gv (steer demo_up (fst (poll demo_up demo_game)) (snd (poll demo_up demo_game)))) = UP"
proof -
  have o: "only_pressed 2 0xEF" by code_simp
  have p: "fst (rd PIND demo_arduino) = 0xEF" by (simp add: rd_def Let_def)
  have r: "\<forall>l. tst (hw demo_arduino l UCSR0A) UDRE0" by (simp add: tst_bit)
  have u: "fst (rd UDR1 (pad_at demo_link)) = key_byte 0xEF" by (simp add: rd_def Let_def demo_link_def)
  have "tst 0x25 RWAL" "tst 0x25 TXINI" "tst 0x25 EPDIR" by code_simp+
  then have b: "bank_free (hw (pad_at demo_link))" by (simp add: bank_free_def demo_link_def)
  have t: "transfer_at demo_up (n_key demo_game) = \<lparr>bytes_in = 1, data = key_byte 0xEF\<rparr>" by (simp add: demo_up_def)
  note * = button_steers [OF _ o p r u b t, of "\<lambda>_. 0"]
  have "wrote UEDATX (pad_at demo_link) = []" by (simp add: wrote_def)
  with * have "\<exists>a'. arduino_step\<^sup>*\<^sup>* (Test, demo_arduino) (Delay, a') \<and> wrote UDR0 a' = [key_byte 0xEF]"
    "\<exists>s'. SendNextReport (\<lambda>_. 0) (USART1_RX_vect (pad_at demo_link)) = Some s' \<and> wrote UEDATX s' = [key_byte 0xEF]" by simp_all
  moreover have "dir (gv (steer demo_up (fst (poll demo_up demo_game)) (snd (poll demo_up demo_game)))) = button_dirs ! (2 - 1)"
    using * by (meson zero_less_numeral numeral_less_iff semiring_norm)
  ultimately show ?thesis by (simp add: button_dirs_def)
qed

section \<open>From the game to the LED\<close>

text \<open>What libusb reports of a configuration descriptor of the pad.\<close>

definition libusb_endpoint :: "USB_Descriptor_Endpoint \<Rightarrow> endpoint_descriptor" where
  "libusb_endpoint e = \<lparr>bEndpointAddress = EndpointAddress e, bmAttributes = Attributes e\<rparr>"

definition libusb_interface :: "USB_Descriptor_Interface \<Rightarrow> USB_Descriptor_Endpoint \<Rightarrow> interface_descriptor" where
  "libusb_interface i e = \<lparr>bInterfaceNumber = InterfaceNumber i, bNumEndpoints = TotalEndpoints i, endpoint = [libusb_endpoint e]\<rparr>"

definition libusb_config :: "USB_Descriptor_Configuration \<Rightarrow> config_descriptor" where
  "libusb_config c = \<lparr>bNumInterfaces = TotalInterfaces (Config c), bConfigurationValue = ConfigurationNumber (Config c),
     interface = [[libusb_interface (BoutonsInterface c) (PAD_ReportINEndpoint c)],
       [libusb_interface (LEDInterface c) (PAD_ReportOUTEndpoint c)]]\<rparr>"

text \<open>A packet with the byte \<open>v\<close> waits in the OUT endpoint.\<close>

definition packet_waiting :: "(acc list \<Rightarrow> reg \<Rightarrow> u8) \<Rightarrow> u8 \<Rightarrow> bool" where
  "packet_waiting H v \<longleftrightarrow> (\<forall>l. tst (H l UEINTX) RXOUTI \<and> tst (H l UEINTX) RWAL \<and> H l UEDATX = v)"

lemma packet_to_serial:
  assumes "packet_waiting (hw s) v" "raises (hw s) UCSR1A UDRE1"
  shows "\<exists>s'. ReceiveNextReport s = Some s' \<and> wrote UDR1 s' = wrote UDR1 s @ [v]"
proof -
  let ?u = "Endpoint_SelectEndpoint PAD_OUT_EPADDR s"
  have u: "hw ?u = hw s" by (simp add: Endpoint_SelectEndpoint_def)
  then have "fst (Endpoint_IsOUTReceived ?u)" "fst (Endpoint_IsReadWriteAllowed (snd (Endpoint_IsOUTReceived ?u)))"
    using assms(1) by (simp_all add: packet_waiting_def Endpoint_IsOUTReceived_def Endpoint_IsReadWriteAllowed_def tst_fst)
      (simp add: tst_bit_of_def rd_def Let_def)
  with ReceiveNextReport_puts [OF refl assms(2)] assms(1) show ?thesis
    by (fastforce simp: Let_def wrote_writes packet_waiting_def)
qed

lemma pad_endpoints:
  assumes "config L (handle u) = libusb_config PAD_ConfigurationDescriptor" "\<And>h c. ret L h (Claim_interface c) = 0"
    and "length (endp_list u) = 10"
  shows "\<exists>u'. save_interrupt_endpoints L u = Some (Inr (), u') \<and>
    endp_list u' ! 0 = \<lparr>bEndpointAddress = PAD_IN_EPADDR, bmAttributes = EP_TYPE_INTERRUPT\<rparr> \<and>
    endp_list u' ! 1 = \<lparr>bEndpointAddress = PAD_OUT_EPADDR, bmAttributes = EP_TYPE_INTERRUPT\<rparr>"
proof -
  let ?cfg = "libusb_config PAD_ConfigurationDescriptor"
  have "EP_TYPE_INTERRUPT AND 3 = 3" by code_simp
  moreover have n: "unat (bNumInterfaces ?cfg) = Suc (Suc 0)" by (simp add: libusb_config_def PAD_ConfigurationDescriptor_def)
  ultimately show ?thesis using assms(2,3) unfolding save_interrupt_endpoints_def assms(1) Let_def n
    by (simp add: libusb_config_def libusb_interface_def libusb_endpoint_def PAD_ConfigurationDescriptor_def nth_opt_def invoke_def)
qed



end
